(* ===== verification/Go_Prelude.thy ===== *)
theory Go_Prelude
  imports Main "HOL-Library.Word" "HOL-Library.AList" "HOL-Library.Multiset"
begin

text \<open>
  The part of the Go language and its standard library that the models of the wallet share.

  \<^item> Fixed-width integers are words: \<open>int32\<close> is \<open>32 word\<close> read with \<^term>\<open>sint\<close> and compared
    with the signed orders, \<open>int64\<close> and \<open>int\<close> are \<open>64 word\<close>, and \<open>+\<close> and \<open>-\<close> wrap around.
  \<^item> A Go map is an association list: the lookup is \<^term>\<open>map_of\<close>, an assignment is
    \<^term>\<open>AList.update\<close>, \<open>delete\<close> is \<^term>\<open>AList.delete\<close>, \<open>len\<close> is \<^term>\<open>length\<close>.
    The order of the list stands for the unspecified iteration order of \<open>range\<close>; every theorem
    quantifies over all lists, hence over all orders.
  \<^item> A method that mutates and may fail is an action: it takes the state and returns the error or
    the result together with the state, because Go keeps what was mutated before an error return.
  \<^item> \<open>for range\<close> with early returns is \<open>forE\<close>; the loops that search downwards in a sorted slice
    are \<open>down_while\<close>.
\<close>

unbundle bit_operations_syntax

section \<open>Types\<close>

type_synonym byte = "8 word"
type_synonym u16 = "16 word"
type_synonym u32 = "32 word"
type_synonym u64 = "64 word"
type_synonym i32 = "32 word"
type_synonym i64 = "64 word"

type_synonym ('k, 'v) gomap = "('k \<times> 'v) list"

type_synonym ('s, 'e, 'a) act = "'s \<Rightarrow> ('e + 'a) \<times> 's"

section \<open>Collections of facts\<close>

named_theorems gosimps \<open>unfolding rules of the actions\<close>
named_theorems keeps \<open>actions that preserve a predicate of the state\<close>

section \<open>Actions\<close>

definition retE :: "'a \<Rightarrow> ('s, 'e, 'a) act" where
  "retE a s = (Inr a, s)"

definition failE :: "'e \<Rightarrow> ('s, 'e, 'a) act" where
  "failE e s = (Inl e, s)"

definition bindE :: "('s, 'e, 'a) act \<Rightarrow> ('a \<Rightarrow> ('s, 'e, 'b) act) \<Rightarrow> ('s, 'e, 'b) act" where
  "bindE m f s = (case m s of (Inl e, s') \<Rightarrow> (Inl e, s') | (Inr a, s') \<Rightarrow> f a s')"

definition liftE :: "('s \<Rightarrow> 'e + 'a) \<Rightarrow> ('s, 'e, 'a) act" where
  "liftE g s = (g s, s)"

definition modifyE :: "('s \<Rightarrow> 's) \<Rightarrow> ('s, 'e, unit) act" where
  "modifyE f s = (Inr (), f s)"

fun forE :: "('x \<Rightarrow> ('s, 'e, unit) act) \<Rightarrow> 'x list \<Rightarrow> ('s, 'e, unit) act" where
  "forE f [] s = (Inr (), s)"
| "forE f (x # xs) s = (case f x s of (Inl e, s') \<Rightarrow> (Inl e, s') | (Inr u, s') \<Rightarrow> forE f xs s')"

text \<open>A loop that builds a slice of results and returns at the first error.\<close>

fun mapE :: "('x \<Rightarrow> 'e + 'y) \<Rightarrow> 'x list \<Rightarrow> 'e + 'y list" where
  "mapE f [] = Inr []"
| "mapE f (x # xs) =
     (case f x of Inl e \<Rightarrow> Inl e
      | Inr y \<Rightarrow> (case mapE f xs of Inl e \<Rightarrow> Inl e | Inr ys \<Rightarrow> Inr (y # ys)))"

text \<open>\<open>for i != 0 && p(i-1) { i-- }\<close>\<close>

primrec down_while :: "(nat \<Rightarrow> bool) \<Rightarrow> nat \<Rightarrow> nat" where
  "down_while p 0 = 0"
| "down_while p (Suc k) = (if p k then down_while p k else Suc k)"

text \<open>\<open>sort.Sort\<close> by a \<open>Less\<close> method: an insertion sort, which places \<open>x\<close> before the first element
  it is less than.\<close>

fun go_insert :: "('a \<Rightarrow> 'a \<Rightarrow> bool) \<Rightarrow> 'a \<Rightarrow> 'a list \<Rightarrow> 'a list" where
  "go_insert lt x [] = [x]"
| "go_insert lt x (y # ys) = (if lt y x then y # go_insert lt x ys else x # y # ys)"

definition go_sort :: "('a \<Rightarrow> 'a \<Rightarrow> bool) \<Rightarrow> 'a list \<Rightarrow> 'a list" where
  "go_sort lt xs = foldr (go_insert lt) xs []"

section \<open>Preservation\<close>

definition preserves :: "('s \<Rightarrow> bool) \<Rightarrow> ('s, 'e, 'a) act \<Rightarrow> bool" where
  "preserves P m \<longleftrightarrow> (\<forall>s. P s \<longrightarrow> P (snd (m s)))"

lemma preservesI [intro?]: "(\<And>s. P s \<Longrightarrow> P (snd (m s))) \<Longrightarrow> preserves P m"
  by (simp add: preserves_def)

lemma preservesD: "preserves P m \<Longrightarrow> m s = (r, s') \<Longrightarrow> P s \<Longrightarrow> P s'"
  by (metis preserves_def snd_conv)

lemma preserves_retE [keeps]: "preserves P (retE a)"
  by (simp add: preserves_def retE_def)

lemma preserves_failE [keeps]: "preserves P (failE e)"
  by (simp add: preserves_def failE_def)

lemma preserves_liftE [keeps]: "preserves P (liftE g)"
  by (simp add: preserves_def liftE_def)

lemma preserves_modifyE [keeps]: "(\<And>s. P s \<Longrightarrow> P (f s)) \<Longrightarrow> preserves P (modifyE f)"
  by (simp add: preserves_def modifyE_def)

lemma preserves_bindE [keeps]:
  assumes "preserves P m" and "\<And>a. preserves P (f a)"
  shows "preserves P (bindE m f)"
proof
  fix s assume "P s"
  with assms(1) have "P (snd (m s))" by (simp add: preserves_def)
  with assms(2) show "P (snd (bindE m f s))"
    by (auto simp: bindE_def preserves_def split: prod.splits sum.splits)
qed

lemma preserves_forE [keeps]:
  assumes "\<And>x. x \<in> set xs \<Longrightarrow> preserves P (f x)"
  shows "preserves P (forE f xs)"
proof
  fix s assume "P s"
  with assms show "P (snd (forE f xs s))"
  proof (induction xs arbitrary: s)
    case Nil
    then show ?case by simp
  next
    case (Cons x xs)
    from Cons.prems have "P (snd (f x s))" by (simp add: preserves_def)
    moreover have "\<And>y. y \<in> set xs \<Longrightarrow> preserves P (f y)" using Cons.prems by simp
    ultimately show ?case by (auto split: prod.splits sum.splits intro: Cons.IH)
  qed
qed

lemma preserves_if [keeps]:
  "(b \<Longrightarrow> preserves P m) \<Longrightarrow> (\<not> b \<Longrightarrow> preserves P n) \<Longrightarrow> preserves P (if b then m else n)"
  by simp

lemma preserves_option [keeps]:
  "preserves P m \<Longrightarrow> (\<And>a. x = Some a \<Longrightarrow> preserves P (f a)) \<Longrightarrow>
   preserves P (case x of None \<Rightarrow> m | Some a \<Rightarrow> f a)"
  by (cases x) auto

lemma preserves_sum [keeps]:
  "(\<And>a. x = Inl a \<Longrightarrow> preserves P (f a)) \<Longrightarrow> (\<And>a. x = Inr a \<Longrightarrow> preserves P (g a)) \<Longrightarrow>
   preserves P (case x of Inl a \<Rightarrow> f a | Inr a \<Rightarrow> g a)"
  by (cases x) auto

text \<open>An action that inspects the state first.\<close>

lemma preserves_at: "preserves P m \<Longrightarrow> P s \<Longrightarrow> P (snd (m s))"
  by (simp add: preserves_def)

lemma preserves_bindE_at:
  "(\<And>s. preserves P (m s)) \<Longrightarrow> (\<And>s a. preserves P (f s a)) \<Longrightarrow>
   preserves P (\<lambda>s. bindE (m s) (f s) s)"
  by (rule preservesI) (metis preserves_at preserves_bindE)

lemma preserves_option_at:
  "(\<And>s. preserves P (m s)) \<Longrightarrow> (\<And>s a. preserves P (f s a)) \<Longrightarrow>
   preserves P (\<lambda>s. (case x s of None \<Rightarrow> m s | Some a \<Rightarrow> f s a) s)"
  by (rule preservesI) (simp add: preserves_at split: option.split)

text \<open>An action that never returns the error \<open>e\<close> from a state in \<open>P\<close>.\<close>

definition avoids :: "('s \<Rightarrow> bool) \<Rightarrow> 'e \<Rightarrow> ('s, 'e, 'a) act \<Rightarrow> bool" where
  "avoids P e m \<longleftrightarrow> (\<forall>s. P s \<longrightarrow> fst (m s) \<noteq> Inl e)"

lemma avoidsI: "(\<And>s. P s \<Longrightarrow> fst (m s) \<noteq> Inl e) \<Longrightarrow> avoids P e m"
  by (simp add: avoids_def)

lemma avoidsD: "avoids P e m \<Longrightarrow> P s \<Longrightarrow> fst (m s) \<noteq> Inl e"
  by (simp add: avoids_def)

lemma avoids_bindE:
  assumes "avoids P e m" and "preserves P m" and "\<And>a. avoids P e (f a)"
  shows "avoids P e (bindE m f)"
proof (rule avoidsI)
  fix s assume s: "P s"
  obtain x t where m: "m s = (x, t)" by force
  have "P t" using assms(2) m s by (rule preservesD)
  moreover have "x \<noteq> Inl e" using assms(1) s m unfolding avoids_def by (metis fst_conv)
  ultimately show "fst (bindE m f s) \<noteq> Inl e"
    using m assms(3) by (cases x) (auto simp: bindE_def avoids_def)
qed

lemma avoids_forE:
  assumes "\<And>x. x \<in> set xs \<Longrightarrow> avoids P e (f x)" and "\<And>x. x \<in> set xs \<Longrightarrow> preserves P (f x)"
  shows "avoids P e (forE f xs)"
proof (rule avoidsI)
  fix s assume "P s"
  with assms show "fst (forE f xs s) \<noteq> Inl e"
  proof (induction xs arbitrary: s)
    case (Cons x xs)
    obtain y t where y: "f x s = (y, t)" by force
    have "preserves P (f x)" "avoids P e (f x)" using Cons.prems by simp_all
    then have "P t" "y \<noteq> Inl e"
      using preserves_at [of P "f x" s] y Cons.prems(3) by (auto simp: avoids_def)
    moreover have "fst (forE f xs t) \<noteq> Inl e" if "P t" using Cons.IH [OF _ _ that] Cons.prems by simp
    ultimately show ?case using y by (cases y) auto
  qed simp
qed

lemma bindE_modify [gosimps]: "bindE (modifyE f) g s = g () (f s)"
  by (simp add: bindE_def modifyE_def)

lemma bindE_lift [gosimps]:
  "bindE (liftE g) f s = (case g s of Inl e \<Rightarrow> (Inl e, s) | Inr a \<Rightarrow> f a s)"
  by (simp add: bindE_def liftE_def split: sum.split)

lemma bindE_Inr: "m s = (Inr a, s') \<Longrightarrow> bindE m f s = f a s'"
  by (simp add: bindE_def)

lemma bindE_Inl: "m s = (Inl e, s') \<Longrightarrow> bindE m f s = (Inl e, s')"
  by (simp add: bindE_def)

lemma bindE_ret [gosimps]: "bindE m (\<lambda>a. retE (g a)) s = (case m s of
    (Inl e, s') \<Rightarrow> (Inl e, s') | (Inr a, s') \<Rightarrow> (Inr (g a), s'))"
  by (simp add: bindE_def retE_def split: prod.split sum.split)

lemma forE_append:
  "forE f (xs @ ys) s =
     (case forE f xs s of (Inl e, s') \<Rightarrow> (Inl e, s') | (Inr u, s') \<Rightarrow> forE f ys s')"
  by (induction xs arbitrary: s) (auto split: prod.splits sum.splits)

text \<open>A loop whose body never fails is a fold.\<close>

lemma forE_pure:
  assumes "\<And>x s. f x s = (Inr (), g x s)"
  shows "forE f xs s = (Inr (), fold g xs s)"
  by (induction xs arbitrary: s) (simp_all add: assms)

lemma mapE_total:
  assumes "\<And>x. x \<in> set xs \<Longrightarrow> f x = Inr (g x)"
  shows "mapE f xs = Inr (map g xs)"
  using assms by (induction xs) auto

lemma mapE_Inr:
  assumes "mapE f xs = Inr ys"
  shows "length ys = length xs \<and> (\<forall>i < length xs. f (xs ! i) = Inr (ys ! i))"
  using assms
proof (induction xs arbitrary: ys)
  case (Cons x xs)
  then obtain z zs where "f x = Inr z" "mapE f xs = Inr zs" "ys = z # zs"
    by (auto split: sum.splits)
  with Cons.IH [of zs] show ?case by (auto simp: nth_Cons split: nat.splits)
qed simp

section \<open>Downward search\<close>

lemma down_while_le: "down_while p n \<le> n"
  by (induction n) auto

lemma down_while_stop: "down_while p n = Suc k \<Longrightarrow> \<not> p k"
  by (induction n) (auto split: if_splits)

lemma down_while_range: "down_while p n \<le> k \<Longrightarrow> k < n \<Longrightarrow> p k"
proof (induction n)
  case (Suc n)
  show ?case
  proof (cases "p n")
    case True
    with Suc show ?thesis by (cases "k = n") auto
  next
    case False
    with Suc.prems show ?thesis by simp
  qed
qed simp

lemma down_while_Suc_same: "\<not> p n \<Longrightarrow> down_while p (Suc n) = Suc n"
  by simp

section \<open>Sorting\<close>

lemma set_go_insert [simp]: "set (go_insert lt x ys) = insert x (set ys)"
  by (induction ys) auto

lemma length_go_insert [simp]: "length (go_insert lt x ys) = Suc (length ys)"
  by (induction ys) auto

lemma set_go_sort [simp]: "set (go_sort lt xs) = set xs"
  unfolding go_sort_def by (induction xs) auto

lemma length_go_sort [simp]: "length (go_sort lt xs) = length xs"
  unfolding go_sort_def by (induction xs) auto

lemma distinct_go_insert: "distinct (go_insert lt x ys) = distinct (x # ys)"
  by (induction ys) auto

lemma distinct_go_sort: "distinct (go_sort lt xs) = distinct xs"
proof (induction xs)
  case (Cons x xs)
  have "set (foldr (go_insert lt) xs []) = set xs"
    using set_go_sort [of lt xs] by (simp add: go_sort_def)
  with Cons show ?case by (simp add: go_sort_def distinct_go_insert)
qed (simp add: go_sort_def)

text \<open>Sorted, if \<open>lt\<close> is a strict weak order on the elements that are sorted.\<close>

lemma sorted_go_insert:
  assumes asym: "\<And>a b. a \<in> S \<Longrightarrow> b \<in> S \<Longrightarrow> lt a b \<Longrightarrow> \<not> lt b a"
    and trans: "\<And>a b c. a \<in> S \<Longrightarrow> b \<in> S \<Longrightarrow> c \<in> S \<Longrightarrow> \<not> lt b a \<Longrightarrow> \<not> lt c b \<Longrightarrow> \<not> lt c a"
    and s: "sorted_wrt (\<lambda>a b. \<not> lt b a) ys" and S: "set (x # ys) \<subseteq> S"
  shows "sorted_wrt (\<lambda>a b. \<not> lt b a) (go_insert lt x ys)"
  using s S
proof (induction ys)
  case (Cons y ys)
  from Cons.prems have y: "\<And>z. z \<in> set ys \<Longrightarrow> \<not> lt z y" by simp
  show ?case
  proof (cases "lt y x")
    case True
    moreover have "\<not> lt x y" using True asym Cons.prems(2) by simp
    ultimately show ?thesis using Cons y by auto
  next
    case False
    then have "\<not> lt z x" if "z \<in> set ys" for z
      using y [OF that] trans [of x y z] that Cons.prems(2) by auto
    with False Cons.prems show ?thesis by simp
  qed
qed simp

lemma sorted_go_sort:
  assumes "\<And>a b. a \<in> set xs \<Longrightarrow> b \<in> set xs \<Longrightarrow> lt a b \<Longrightarrow> \<not> lt b a"
    and "\<And>a b c. a \<in> set xs \<Longrightarrow> b \<in> set xs \<Longrightarrow> c \<in> set xs \<Longrightarrow> \<not> lt b a \<Longrightarrow> \<not> lt c b \<Longrightarrow> \<not> lt c a"
  shows "sorted_wrt (\<lambda>a b. \<not> lt b a) (go_sort lt xs)"
proof -
  have "sorted_wrt (\<lambda>a b. \<not> lt b a) (go_sort lt ys)" if "set ys \<subseteq> set xs" for ys
    using that
  proof (induction ys)
    case (Cons y ys)
    have "set (y # go_sort lt ys) \<subseteq> set xs" using Cons.prems by simp
    with Cons have "sorted_wrt (\<lambda>a b. \<not> lt b a) (go_insert lt y (go_sort lt ys))"
      by (intro sorted_go_insert [OF assms]) auto
    then show ?case by (simp add: go_sort_def)
  qed (simp add: go_sort_def)
  then show ?thesis by simp
qed

lemma mset_go_insert: "mset (go_insert lt x ys) = add_mset x (mset ys)"
  by (induction ys) auto

lemma mset_go_sort: "mset (go_sort lt xs) = mset xs"
  by (induction xs) (auto simp: go_sort_def mset_go_insert)

section \<open>Maps\<close>

abbreviation wf_map :: "('k, 'v) gomap \<Rightarrow> bool" where
  "wf_map m \<equiv> distinct (map fst m)"

lemma map_of_update [simp]: "map_of (AList.update k v m) = (map_of m)(k \<mapsto> v)"
  by (rule update_conv')

lemma map_of_del [simp]: "map_of (AList.delete k m) = (map_of m)(k := None)"
  by (rule delete_conv')

lemma wf_map_update [simp, intro]: "wf_map m \<Longrightarrow> wf_map (AList.update k v m)"
  by (rule distinct_update)

lemma wf_map_delete [simp, intro]: "wf_map m \<Longrightarrow> wf_map (AList.delete k m)"
  by (rule distinct_delete)

lemma set_update_values: "snd ` set (AList.update k v m) \<subseteq> insert v (snd ` set m)"
  by (induction m) auto

lemma set_delete_values: "snd ` set (AList.delete k m) \<subseteq> snd ` set m"
  by (induction m) (auto simp: AList.delete_eq)

lemma map_of_in_values: "map_of m k = Some v \<Longrightarrow> v \<in> snd ` set m"
  by (force dest: map_of_SomeD)

section \<open>Words\<close>

lemma unat_of_nat_small: "n < 2 ^ LENGTH('a) \<Longrightarrow> unat (of_nat n :: 'a::len word) = n"
  by (simp add: unat_of_nat take_bit_nat_eq_self_iff)

lemma sint_of_int_small:
  "- (2 ^ (LENGTH('a) - 1)) \<le> k \<Longrightarrow> k < 2 ^ (LENGTH('a) - 1) \<Longrightarrow> sint (word_of_int k :: 'a::len word) = k"
  by (simp add: sint_sbintrunc' signed_take_bit_int_eq_self)

lemma ucast_sint_small:
  fixes w :: "'a::len word"
  assumes "LENGTH('b) \<le> LENGTH('a)" and "- (2 ^ (LENGTH('b) - 1)) \<le> sint w" and "sint w < 2 ^ (LENGTH('b) - 1)"
  shows "sint (ucast w :: 'b::len word) = sint w"
proof -
  have "(ucast w :: 'b word) = word_of_int (sint w)"
    using assms(1) by transfer (simp add: take_bit_signed_take_bit min_def)
  then show ?thesis using sint_of_int_small [OF assms(2,3)] by simp
qed

lemma sint_neg1 [simp]: "sint (- 1 :: 'a::len word) = - 1"
  by simp

lemma sint_eq_iff: "sint a = sint b \<longleftrightarrow> a = b"
  by (auto intro: signed_word_eqI)

lemmas signed_order = word_sless_alt word_sle_eq

end
