(* ===== verification/Errors.thy ===== *)
theory Errors
  imports Go_Prelude
begin

text \<open>
  Values of Go's \<open>error\<close> interface, for all packages of the wallet: the errors of \<open>src/txstore/tx.go\<close>
  with the keys they carry, those of \<open>src/keystore/keystore.go\<close>, \<open>src/createtx.go\<close>, \<open>src/acctmgr.go\<close> and
  \<open>src/rpcclient.go\<close>, \<open>src/rpcserver.go\<close> and \<open>src/updates.go\<close>, the errors of \<open>btcjson\<close> by their names (\<open>RPCError\<close>), the errors of \<open>io\<close>, and \<open>ErrNotExist\<close>
  for what \<open>os.IsNotExist\<close> recognises. \<open>ErrorString\<close> is an error built in place by \<open>errors.New\<close> or \<open>fmt.Errorf\<close>. Two values stand for
  calls that do not return: \<open>Panic\<close>, a run-time panic, and \<open>Diverges\<close>, an unbounded recursion.
\<close>

record BlockTxKey =
  BlockIndex :: i64
  BlockHeight :: i32

record BlockOutputKey =
  bok_TxKey :: BlockTxKey
  bok_OutputIndex :: u32

datatype err =
    ErrDuplicateInsert
  | ErrInconsistentStore
  | ErrUnsupportedVersion
  | MissingBlockError i32
  | MissingBlockTxError BlockTxKey
  | MissingDebitsError BlockTxKey
  | MissingCreditError BlockOutputKey
  | ErrAddressNotFound
  | ErrAlreadyEncrypted
  | ErrChecksumMismatch
  | ErrDuplicate
  | ErrMalformedEntry
  | ErrWatchingOnly
  | ErrLocked
  | ErrWrongPassphrase
  | ErrNonPositiveAmount
  | ErrNegativeFee
  | InsufficientFunds i64 i64 i64
  | ErrWalletExists
  | ErrNotFound
  | ErrNoAccounts
  | ErrMismatchedNets
  | walletOpenError string
  | InvalidNotificationError err
  | RPCError string
  | DeserializationError err
  | InvalidParameterError err
  | ParseError err
  | InvalidAddressOrKeyError err
  | ErrNotAccountDir
  | ErrNotExist
  | EOF
  | ErrUnexpectedEOF
  | ErrShortWrite
  | ErrorString string
  | Panic string
  | Diverges

text \<open>The errors that implement the interface \<open>MissingValueError\<close> of the transaction store.\<close>

fun is_MissingValueError :: "err \<Rightarrow> bool" where
  "is_MissingValueError (MissingBlockError h) = True"
| "is_MissingValueError (MissingBlockTxError k) = True"
| "is_MissingValueError (MissingDebitsError k) = True"
| "is_MissingValueError (MissingCreditError k) = True"
| "is_MissingValueError e = False"

fun isPanic :: "err \<Rightarrow> bool" where
  "isPanic (Panic _) = True"
| "isPanic Diverges = True"
| "isPanic _ = False"

abbreviation index_panic :: err where
  "index_panic \<equiv> Panic ''index out of range''"

abbreviation nil_panic :: err where
  "nil_panic \<equiv> Panic ''nil pointer dereference''"

end
