(* ===== verification/Tx_Types.thy ===== *)
theory Tx_Types
  imports Errors
begin

text \<open>
  The data of \<open>src/txstore/tx.go\<close>: records and the store, with the fields of the Go structs (keys and
  errors are in \<open>Errors\<close>).

  Pointers. \<open>*txRecord\<close> and \<open>*blockTxCollection\<close> are shared between the slices and the maps of the
  store, so both are addresses into two heaps kept beside the fields of \<open>Store\<close>: an address is a
  position of the list, an allocation appends. \<open>*credit\<close>, \<open>*debits\<close> and \<open>*BlockTxKey\<close> are owned by
  one record and are values there (\<open>nil\<close> is \<^term>\<open>None\<close>).

  Third-party types. \<open>btcutil.Tx\<close> is a message, its cached hash and its block index; of
  \<open>btcwire.MsgTx\<close> the model has all fields: version, lock time, the inputs' previous outpoints,
  signature scripts and sequence numbers, the outputs' values and scripts. A \<open>ShaHash\<close>, an array of 32 bytes, is a \<open>256 word\<close>.
  The library constants the store reads are the fields of \<open>btcparams\<close>, an argument of every
  definition that uses them.
\<close>

section \<open>Library types the store reads\<close>

type_synonym ShaHash = "256 word"
type_synonym Amount = "64 word"

record OutPoint =
  OpHash :: ShaHash
  OpIndex :: u32

record TxIn =
  PreviousOutpoint :: OutPoint
  SignatureScript :: "byte list"
  Sequence :: u32

record TxOut =
  Value :: i64
  PkScript :: "byte list"

record MsgTx =
  Version :: i32
  TxIns :: "TxIn list"
  TxOuts :: "TxOut list"
  LockTime :: u32

record Tx =
  TxMsg :: MsgTx
  TxSha :: ShaHash
  TxIndex :: i64

record btcparams =
  CoinbaseMaturity :: i32
  TxIndexUnknown :: i64

text \<open>\<open>time.Time\<close>: Unix seconds and nanoseconds; the zero value is 1 January of year 1.\<close>

record Time =
  time_sec :: i64
  time_nsec :: u32

definition zeroTime :: Time where
  "zeroTime = \<lparr>time_sec = - 62135596800, time_nsec = 0\<rparr>"

definition IsZero :: "Time \<Rightarrow> bool" where
  "IsZero t \<longleftrightarrow> t = zeroTime"

definition Before :: "Time \<Rightarrow> Time \<Rightarrow> bool" where
  "Before t u \<longleftrightarrow> time_sec t <s time_sec u \<or>
     (time_sec t = time_sec u \<and> unat (time_nsec t) < unat (time_nsec u))"

section \<open>Records\<close>

record Block =
  block_Hash :: ShaHash
  block_Time :: Time
  block_Height :: i32

record blockAmounts =
  Spendable :: Amount
  Reward :: Amount

record credit =
  credit_change :: bool
  credit_spentBy :: "BlockTxKey option"

text \<open>The code tells a nil \<open>spends\<close> slice from an empty one, hence the option.\<close>

record debits =
  debit_amount :: Amount
  debit_spends :: "BlockOutputKey list option"

record txRecord =
  rec_tx :: Tx
  rec_debits :: "debits option"
  rec_credits :: "credit option list"
  rec_received :: Time

type_synonym rref = nat
type_synonym bref = nat

record blockTxCollection =
  coll_Block :: Block
  amountDeltas :: blockAmounts
  txs :: "rref list"
  txIndexes :: "(i64, nat) gomap"

record unconfirmedStore =
  u_txs :: "(ShaHash, rref) gomap"
  spentBlockOutPoints :: "(BlockOutputKey, rref) gomap"
  spentBlockOutPointKeys :: "(OutPoint, BlockOutputKey) gomap"
  spentUnconfirmed :: "(OutPoint, rref) gomap"
  previousOutpoints :: "(OutPoint, rref) gomap"

record Store =
  blocks :: "bref list"
  blockIndexes :: "(i32, nat) gomap"
  unspent :: "(OutPoint, BlockTxKey) gomap"
  unconfirmed :: unconfirmedStore
  rheap :: "txRecord list"
  bheap :: "blockTxCollection list"

record TxRecord =
  tr_key :: BlockTxKey
  tr_rec :: rref

record Credit =
  cr_TxRecord :: TxRecord
  cr_OutputIndex :: u32

type_synonym 'a storeact = "(Store, err, 'a) act"

text \<open>\<open>BlockTxKey{BlockHeight: -1}\<close>, the key of every unmined transaction.\<close>

definition unminedKey :: BlockTxKey where
  "unminedKey = \<lparr>BlockIndex = 0, BlockHeight = - 1\<rparr>"

definition new_unconfirmed :: unconfirmedStore where
  "new_unconfirmed = \<lparr>u_txs = [], spentBlockOutPoints = [], spentBlockOutPointKeys = [],
     spentUnconfirmed = [], previousOutpoints = []\<rparr>"

definition New :: Store where
  "New = \<lparr>blocks = [], blockIndexes = [], unspent = [], unconfirmed = new_unconfirmed,
     rheap = [], bheap = []\<rparr>"

section \<open>Heap access\<close>

abbreviation rget :: "Store \<Rightarrow> rref \<Rightarrow> txRecord" where
  "rget s r \<equiv> rheap s ! r"

abbreviation bget :: "Store \<Rightarrow> bref \<Rightarrow> blockTxCollection" where
  "bget s b \<equiv> bheap s ! b"

definition upd_rec :: "rref \<Rightarrow> (txRecord \<Rightarrow> txRecord) \<Rightarrow> Store \<Rightarrow> Store" where
  "upd_rec r f s = s\<lparr>rheap := (rheap s)[r := f (rget s r)]\<rparr>"

definition upd_coll :: "bref \<Rightarrow> (blockTxCollection \<Rightarrow> blockTxCollection) \<Rightarrow> Store \<Rightarrow> Store" where
  "upd_coll b f s = s\<lparr>bheap := (bheap s)[b := f (bget s b)]\<rparr>"

definition upd_unc :: "(unconfirmedStore \<Rightarrow> unconfirmedStore) \<Rightarrow> Store \<Rightarrow> Store" where
  "upd_unc f s = s\<lparr>unconfirmed := f (unconfirmed s)\<rparr>"

definition collHeight :: "Store \<Rightarrow> bref \<Rightarrow> i32" where
  "collHeight s b = block_Height (coll_Block (bget s b))"

definition recIndex :: "Store \<Rightarrow> rref \<Rightarrow> i64" where
  "recIndex s r = TxIndex (rec_tx (rget s r))"

definition recSha :: "Store \<Rightarrow> rref \<Rightarrow> ShaHash" where
  "recSha s r = TxSha (rec_tx (rget s r))"

definition recTxIns :: "Store \<Rightarrow> rref \<Rightarrow> TxIn list" where
  "recTxIns s r = TxIns (TxMsg (rec_tx (rget s r)))"

definition recTxOuts :: "Store \<Rightarrow> rref \<Rightarrow> TxOut list" where
  "recTxOuts s r = TxOuts (TxMsg (rec_tx (rget s r)))"

text \<open>\<open>tx.SetIndex(i)\<close> on the transaction of a record.\<close>

definition SetIndex :: "rref \<Rightarrow> i64 \<Rightarrow> Store \<Rightarrow> Store" where
  "SetIndex r i = upd_rec r (\<lambda>t. t\<lparr>rec_tx := (rec_tx t)\<lparr>TxIndex := i\<rparr>\<rparr>)"

text \<open>\<open>r.credits[i].spentBy = v\<close>, which panics out of range and on a nil credit.\<close>

definition set_spentBy :: "rref \<Rightarrow> u32 \<Rightarrow> BlockTxKey option \<Rightarrow> unit storeact" where
  "set_spentBy r i v s =
     (let cs = rec_credits (rget s r) in
      if unat i < length cs then
        (case cs ! unat i of
           None \<Rightarrow> (Inl nil_panic, s)
         | Some c \<Rightarrow>
             (Inr (), upd_rec r (\<lambda>t. t\<lparr>rec_credits :=
                cs[unat i := Some (c\<lparr>credit_spentBy := v\<rparr>)]\<rparr>) s))
      else (Inl index_panic, s))"

definition addSpendable :: "bref \<Rightarrow> Amount \<Rightarrow> Store \<Rightarrow> Store" where
  "addSpendable b a = upd_coll b (\<lambda>c. c\<lparr>amountDeltas :=
     (amountDeltas c)\<lparr>Spendable := Spendable (amountDeltas c) + a\<rparr>\<rparr>)"

definition addReward :: "bref \<Rightarrow> Amount \<Rightarrow> Store \<Rightarrow> Store" where
  "addReward b a = upd_coll b (\<lambda>c. c\<lparr>amountDeltas :=
     (amountDeltas c)\<lparr>Reward := Reward (amountDeltas c) + a\<rparr>\<rparr>)"

section \<open>Facts on the heap updates\<close>

lemma upd_rec_fields [simp]:
  "blocks (upd_rec r f s) = blocks s"
  "blockIndexes (upd_rec r f s) = blockIndexes s"
  "unspent (upd_rec r f s) = unspent s"
  "unconfirmed (upd_rec r f s) = unconfirmed s"
  "bheap (upd_rec r f s) = bheap s"
  "length (rheap (upd_rec r f s)) = length (rheap s)"
  by (simp_all add: upd_rec_def)

lemma upd_coll_fields [simp]:
  "blocks (upd_coll b f s) = blocks s"
  "blockIndexes (upd_coll b f s) = blockIndexes s"
  "unspent (upd_coll b f s) = unspent s"
  "unconfirmed (upd_coll b f s) = unconfirmed s"
  "rheap (upd_coll b f s) = rheap s"
  "length (bheap (upd_coll b f s)) = length (bheap s)"
  by (simp_all add: upd_coll_def)

lemma upd_unc_fields [simp]:
  "blocks (upd_unc f s) = blocks s"
  "blockIndexes (upd_unc f s) = blockIndexes s"
  "unspent (upd_unc f s) = unspent s"
  "unconfirmed (upd_unc f s) = f (unconfirmed s)"
  "rheap (upd_unc f s) = rheap s"
  "bheap (upd_unc f s) = bheap s"
  by (simp_all add: upd_unc_def)

lemma rget_upd_rec: "r < length (rheap s) \<Longrightarrow>
  rget (upd_rec r f s) r' = (if r' = r then f (rget s r) else rget s r')"
  by (simp add: upd_rec_def)

lemma rget_upd_rec_other [simp]: "r' \<noteq> r \<Longrightarrow> rget (upd_rec r f s) r' = rget s r'"
  by (simp add: upd_rec_def)

lemma bget_upd_coll: "b < length (bheap s) \<Longrightarrow>
  bget (upd_coll b f s) b' = (if b' = b then f (bget s b) else bget s b')"
  by (simp add: upd_coll_def)

lemma bget_upd_coll_other [simp]: "b' \<noteq> b \<Longrightarrow> bget (upd_coll b f s) b' = bget s b'"
  by (simp add: upd_coll_def)

lemma New_fields [simp]:
  "blocks New = []" "blockIndexes New = []" "unspent New = []" "rheap New = []" "bheap New = []"
  "unconfirmed New = new_unconfirmed"
  by (simp_all add: New_def)

lemma new_unconfirmed_fields [simp]:
  "u_txs new_unconfirmed = []" "spentBlockOutPoints new_unconfirmed = []"
  "spentBlockOutPointKeys new_unconfirmed = []" "spentUnconfirmed new_unconfirmed = []"
  "previousOutpoints new_unconfirmed = []"
  by (simp_all add: new_unconfirmed_def)

end
