(* ===== verification/Tx_Insert.thy ===== *)
theory Tx_Insert
  imports Tx_Types
begin

text \<open>
  Lookups and insertions of \<open>src/txstore/tx.go\<close>: the two-level index (height to block collection,
  block index to record), the insertion of collections and records, and \<open>InsertTx\<close> with the move of
  an unconfirmed transaction into a block and the removal of double spends.

  Slices. \<open>append(s.blocks[:i], b)\<close> with \<open>i < len(s.blocks)\<close> writes \<open>b\<close> into the backing array of
  \<open>s.blocks\<close> at position \<open>i\<close>, and \<open>detached\<close>, which is \<open>s.blocks[i:]\<close>, shares that array. The
  definitions name the array (\<open>backing\<close>) and take both slices from it after the write.

  Slice positions are natural numbers (the code converts them to \<open>uint32\<close>; a slice of \<open>2^32\<close> pointers
  does not occur). \<open>removeConflict\<close> recurses along spend chains and takes fuel; its caller gives one
  unit more than there are records, and \<open>Diverges\<close> is the result of running out of it.
\<close>

section \<open>Lookups\<close>

definition lookupBlock :: "Store \<Rightarrow> i32 \<Rightarrow> err + bref" where
  "lookupBlock s height =
     (case map_of (blockIndexes s) height of
        Some i \<Rightarrow> if i < length (blocks s) then Inr (blocks s ! i) else Inl index_panic
      | None \<Rightarrow> Inl (MissingBlockError height))"

definition lookupBlockTx :: "Store \<Rightarrow> BlockTxKey \<Rightarrow> err + rref" where
  "lookupBlockTx s key =
     (case lookupBlock s (BlockHeight key) of
        Inl e \<Rightarrow> Inl e
      | Inr b \<Rightarrow>
          (let coll = bget s b in
           case map_of (txIndexes coll) (BlockIndex key) of
             Some i \<Rightarrow> if i < length (txs coll) then Inr (txs coll ! i) else Inl index_panic
           | None \<Rightarrow> Inl (MissingBlockTxError key)))"

definition lookupBlockDebits :: "Store \<Rightarrow> BlockTxKey \<Rightarrow> err + debits" where
  "lookupBlockDebits s key =
     (case lookupBlockTx s key of
        Inl e \<Rightarrow> Inl e
      | Inr r \<Rightarrow> (case rec_debits (rget s r) of
          None \<Rightarrow> Inl (MissingDebitsError key)
        | Some d \<Rightarrow> Inr d))"

definition rec_lookupBlockCredit :: "txRecord \<Rightarrow> BlockOutputKey \<Rightarrow> err + credit" where
  "rec_lookupBlockCredit t key =
     (if length (rec_credits t) \<le> unat (bok_OutputIndex key) then Inl (MissingCreditError key)
      else (case rec_credits t ! unat (bok_OutputIndex key) of
              None \<Rightarrow> Inl (MissingCreditError key)
            | Some c \<Rightarrow> Inr c))"

definition lookupBlockCredit :: "Store \<Rightarrow> BlockOutputKey \<Rightarrow> err + credit" where
  "lookupBlockCredit s key =
     (case lookupBlockTx s (bok_TxKey key) of
        Inl e \<Rightarrow> Inl e
      | Inr r \<Rightarrow> rec_lookupBlockCredit (rget s r) key)"

definition lookupTxRecord :: "Store \<Rightarrow> bref \<Rightarrow> i64 \<Rightarrow> err + (rref \<times> nat)" where
  "lookupTxRecord s b blockIndex =
     (case map_of (txIndexes (bget s b)) blockIndex of
        Some i \<Rightarrow> if i < length (txs (bget s b)) then Inr (txs (bget s b) ! i, i)
                  else Inl index_panic
      | None \<Rightarrow> Inl (MissingBlockTxError
          \<lparr>BlockIndex = blockIndex, BlockHeight = collHeight s b\<rparr>))"

section \<open>Insertion of collections and records\<close>

definition newCollection :: "Block \<Rightarrow> blockTxCollection" where
  "newCollection block = \<lparr>coll_Block = block, amountDeltas = \<lparr>Spendable = 0, Reward = 0\<rparr>,
     txs = [], txIndexes = []\<rparr>"

definition reindex :: "('a \<Rightarrow> 'k) \<Rightarrow> nat \<Rightarrow> 'a list \<Rightarrow> ('k, nat) gomap \<Rightarrow> ('k, nat) gomap" where
  "reindex k n detached m =
     fold (\<lambda>(i, d) m. AList.update (k d) (i + n) m) (enumerate 0 detached) m"

definition blockCollectionForInserts :: "Block \<Rightarrow> bref storeact" where
  "blockCollectionForInserts block s =
     (case lookupBlock s (block_Height block) of
        Inr b \<Rightarrow> (Inr b, s)
      | Inl (MissingBlockError e) \<Rightarrow>
          (let b = length (bheap s);
               s1 = s\<lparr>bheap := bheap s @ [newCollection block]\<rparr>;
               n = length (blocks s);
               height = block_Height block
           in if n > 0 \<and> height <s collHeight s (blocks s ! (n - 1)) then
                (let i = down_while (\<lambda>k. height \<le>s collHeight s (blocks s ! k)) n;
                     backing = (blocks s)[i := b];
                     detached = drop i backing;
                     blocks' = take (Suc i) backing;
                     indexes = AList.update height i (blockIndexes s)
                 in (Inr b, s1\<lparr>blockIndexes :=
                               reindex (collHeight s1) (length blocks') detached indexes,
                             blocks := blocks' @ detached\<rparr>))
              else
                (Inr b, s1\<lparr>blockIndexes := AList.update e n (blockIndexes s),
                           blocks := blocks s @ [b]\<rparr>))
      | Inl e \<Rightarrow> (Inl e, s))"

definition newRecord :: "Tx \<Rightarrow> txRecord" where
  "newRecord tx = \<lparr>rec_tx = tx, rec_debits = None, rec_credits = [], rec_received = zeroTime\<rparr>"

definition txRecordForInserts :: "bref \<Rightarrow> Tx \<Rightarrow> rref storeact" where
  "txRecordForInserts b tx s =
     (let c = bget s b; index = TxIndex tx in
      case map_of (txIndexes c) index of
        Some i \<Rightarrow> if i < length (txs c) then (Inr (txs c ! i), s) else (Inl index_panic, s)
      | None \<Rightarrow>
          (let r = length (rheap s);
               s1 = s\<lparr>rheap := rheap s @ [newRecord tx]\<rparr>;
               n = length (txs c)
           in if n > 0 \<and> index <s recIndex s (txs c ! (n - 1)) then
                (let i = down_while (\<lambda>k. index \<le>s recIndex s (txs c ! k)) n;
                     backing = (txs c)[i := r];
                     detached = drop i backing;
                     txs' = take (Suc i) backing;
                     indexes = AList.update index i (txIndexes c)
                 in (Inr r, upd_coll b (\<lambda>c. c\<lparr>txIndexes :=
                                  reindex (recIndex s1) (length txs') detached indexes,
                                txs := txs' @ detached\<rparr>) s1))
              else
                (Inr r, upd_coll b (\<lambda>c. c\<lparr>txIndexes := AList.update index n (txIndexes c),
                                         txs := txs c @ [r]\<rparr>) s1)))"

definition blockTxRecordForInserts :: "Tx \<Rightarrow> Block \<Rightarrow> rref storeact" where
  "blockTxRecordForInserts tx block =
     bindE (blockCollectionForInserts block) (\<lambda>b. txRecordForInserts b tx)"

definition unc_txRecordForInserts :: "Tx \<Rightarrow> rref storeact" where
  "unc_txRecordForInserts tx s =
     (case map_of (u_txs (unconfirmed s)) (TxSha tx) of
        Some r \<Rightarrow> (Inr r, s)
      | None \<Rightarrow>
          (let r = length (rheap s);
               s1 = s\<lparr>rheap := rheap s @ [newRecord tx]\<rparr>
           in (Inr r, upd_unc (\<lambda>u. u\<lparr>u_txs := AList.update (TxSha tx) r (u_txs u),
                 previousOutpoints :=
                   fold (\<lambda>input m. AList.update (PreviousOutpoint input) r m)
                     (TxIns (TxMsg tx)) (previousOutpoints u)\<rparr>) s1)))"

section \<open>Moving an unconfirmed transaction into a block\<close>

definition appendSpend :: "rref \<Rightarrow> BlockOutputKey \<Rightarrow> unit storeact" where
  "appendSpend r prev s =
     (case rec_debits (rget s r) of
        None \<Rightarrow> (Inl nil_panic, s)
      | Some d \<Rightarrow> (Inr (), upd_rec r (\<lambda>t. t\<lparr>rec_debits :=
          Some (d\<lparr>debit_spends := Some (case debit_spends d of None \<Rightarrow> [prev]
                                         | Some ks \<Rightarrow> ks @ [prev])\<rparr>)\<rparr>) s))"

definition moveMinedInput :: "rref \<Rightarrow> BlockTxKey \<Rightarrow> TxIn \<Rightarrow> unit storeact" where
  "moveMinedInput r key input =
     (let op = PreviousOutpoint input in
      bindE (modifyE (upd_unc (\<lambda>u. u\<lparr>previousOutpoints := AList.delete op (previousOutpoints u)\<rparr>)))
        (\<lambda>_ s. (case map_of (spentBlockOutPointKeys (unconfirmed s)) op of
           None \<Rightarrow> retE ()
         | Some prev \<Rightarrow>
             bindE (modifyE (upd_unc (\<lambda>u. u\<lparr>
                 spentBlockOutPointKeys := AList.delete op (spentBlockOutPointKeys u),
                 spentBlockOutPoints := AList.delete prev (spentBlockOutPoints u)\<rparr>)))
             (\<lambda>_. bindE (liftE (\<lambda>s. lookupBlockTx s (bok_TxKey prev)))
             (\<lambda>rr. bindE (set_spentBy rr (bok_OutputIndex prev) (Some key))
             (\<lambda>_. appendSpend r prev)))) s))"

text \<open>\<open>r.Tx().MsgTx().TxOut[i].Value\<close>, which panics out of range.\<close>

definition outValue :: "Store \<Rightarrow> rref \<Rightarrow> nat \<Rightarrow> err + Amount" where
  "outValue s r i = (if i < length (recTxOuts s r) then Inr (Value (recTxOuts s r ! i))
                     else Inl index_panic)"

definition moveMinedCredit :: "rref \<Rightarrow> bref \<Rightarrow> BlockTxKey \<Rightarrow> nat \<Rightarrow> unit storeact" where
  "moveMinedCredit r b key i s =
     (case rec_credits (rget s r) ! i of
        None \<Rightarrow> retE ()
      | Some credit \<Rightarrow>
          (let op = \<lparr>OpHash = recSha s r, OpIndex = of_nat i\<rparr>;
               outputKey = \<lparr>bok_TxKey = key, bok_OutputIndex = OpIndex op\<rparr>
           in case map_of (spentUnconfirmed (unconfirmed s)) op of
                Some rr \<Rightarrow>
                  bindE (modifyE (upd_unc (\<lambda>u. u\<lparr>
                      spentUnconfirmed := AList.delete op (spentUnconfirmed u),
                      spentBlockOutPointKeys := AList.update op outputKey (spentBlockOutPointKeys u),
                      spentBlockOutPoints := AList.update outputKey rr (spentBlockOutPoints u)\<rparr>)))
                  (\<lambda>_. modifyE (upd_rec r (\<lambda>t. t\<lparr>rec_credits := (rec_credits t)[i :=
                      Some (credit\<lparr>credit_spentBy := Some unminedKey\<rparr>)]\<rparr>)))
              | None \<Rightarrow>
                  if credit_spentBy credit = None then
                    bindE (modifyE (\<lambda>s. s\<lparr>unspent := AList.update op key (unspent s)\<rparr>))
                    (\<lambda>_. bindE (liftE (\<lambda>s. outValue s r i))
                    (\<lambda>value. modifyE (addSpendable b value)))
                  else retE ())) s"

definition moveMinedTx :: "rref \<Rightarrow> Block \<Rightarrow> unit storeact" where
  "moveMinedTx r block s =
     (let key = \<lparr>BlockIndex = recIndex s r, BlockHeight = block_Height block\<rparr> in
      bindE (modifyE (upd_unc (\<lambda>u. u\<lparr>u_txs := AList.delete (recSha s r) (u_txs u)\<rparr>)))
      (\<lambda>_. bindE (blockCollectionForInserts block)
      (\<lambda>b. bindE (modifyE (upd_coll b (\<lambda>c. c\<lparr>
          txIndexes := AList.update (BlockIndex key) (length (txs c)) (txIndexes c),
          txs := txs c @ [r]\<rparr>)))
      (\<lambda>_. bindE (forE (moveMinedInput r key) (recTxIns s r))
      (\<lambda>_. bindE (\<lambda>s. forE (moveMinedCredit r b key) [0..<length (rec_credits (rget s r))] s)
      (\<lambda>_. modifyE (\<lambda>s. case rec_debits (rget s r) of
          None \<Rightarrow> s
        | Some d \<Rightarrow> addSpendable b (- debit_amount d) s))))))) s"

section \<open>Double spends\<close>

definition findDoubleSpend :: "Store \<Rightarrow> Tx \<Rightarrow> rref option" where
  "findDoubleSpend s tx =
     map_option (\<lambda>input. the (map_of (previousOutpoints (unconfirmed s)) (PreviousOutpoint input)))
       (List.find (\<lambda>input. map_of (previousOutpoints (unconfirmed s)) (PreviousOutpoint input) \<noteq> None)
         (TxIns (TxMsg tx)))"

definition removeConflictCredit :: "(rref \<Rightarrow> unit storeact) \<Rightarrow> rref \<Rightarrow> nat \<Rightarrow> unit storeact" where
  "removeConflictCredit rec r i s =
     (case rec_credits (rget s r) ! i of
        None \<Rightarrow> retE ()
      | Some credit \<Rightarrow>
          if credit_spentBy credit = None then retE ()
          else (case map_of (spentUnconfirmed (unconfirmed s))
                  \<lparr>OpHash = recSha s r, OpIndex = of_nat i\<rparr> of
                  None \<Rightarrow> failE ErrInconsistentStore
                | Some nextSpender \<Rightarrow> rec nextSpender)) s"

definition removeConflictInput :: "TxIn \<Rightarrow> unit storeact" where
  "removeConflictInput input =
     (let op = PreviousOutpoint input in
      bindE (modifyE (upd_unc (\<lambda>u. u\<lparr>previousOutpoints := AList.delete op (previousOutpoints u)\<rparr>)))
        (\<lambda>_ s. (case map_of (spentBlockOutPointKeys (unconfirmed s)) op of
           Some prevKey \<Rightarrow>
             bindE (modifyE (upd_unc (\<lambda>u. u\<lparr>
                 spentBlockOutPointKeys := AList.delete op (spentBlockOutPointKeys u),
                 spentBlockOutPoints := AList.delete prevKey (spentBlockOutPoints u)\<rparr>)))
             (\<lambda>_. bindE (liftE (\<lambda>s. lookupBlockTx s (bok_TxKey prevKey)))
             (\<lambda>prev. set_spentBy prev (bok_OutputIndex prevKey) None))
         | None \<Rightarrow>
             modifyE (upd_unc (\<lambda>u. u\<lparr>
                 spentUnconfirmed := AList.delete op (spentUnconfirmed u)\<rparr>))) s))"

primrec removeConflict :: "nat \<Rightarrow> rref \<Rightarrow> unit storeact" where
  "removeConflict 0 = (\<lambda>r. failE Diverges)"
| "removeConflict (Suc fuel) = (\<lambda>r s.
     bindE (forE (removeConflictCredit (removeConflict fuel) r)
              [0..<length (rec_credits (rget s r))])
     (\<lambda>_. bindE (forE removeConflictInput (recTxIns s r))
     (\<lambda>_. modifyE (upd_unc (\<lambda>u. u\<lparr>u_txs := AList.delete (recSha s r) (u_txs u),
         previousOutpoints := fold (\<lambda>input. AList.delete (PreviousOutpoint input))
           (recTxIns s r) (previousOutpoints u)\<rparr>)))) s)"

definition removeDoubleSpends :: "Tx \<Rightarrow> unit storeact" where
  "removeDoubleSpends tx s =
     (case findDoubleSpend s tx of
        None \<Rightarrow> (Inr (), s)
      | Some ds \<Rightarrow> removeConflict (Suc (length (rheap s))) ds s)"

section \<open>InsertTx\<close>

definition InsertTx :: "btcparams \<Rightarrow> Time \<Rightarrow> Tx \<Rightarrow> Block option \<Rightarrow> TxRecord storeact" where
  "InsertTx ext now tx block s =
     (if TxIndex tx = TxIndexUnknown ext \<and> block \<noteq> None
      then (Inl (ErrorString ''transaction block index unset''), s)
      else if TxIndex tx \<noteq> TxIndexUnknown ext \<and> block = None
      then (Inl (ErrorString ''transaction block index set''), s)
      else case block of
        None \<Rightarrow>
          bindE (unc_txRecordForInserts tx)
          (\<lambda>r. bindE (modifyE (upd_rec r (\<lambda>t. t\<lparr>rec_received := now\<rparr>)))
          (\<lambda>_. retE \<lparr>tr_key = unminedKey, tr_rec = r\<rparr>)) s
      | Some blk \<Rightarrow>
          (let key = \<lparr>BlockIndex = TxIndex tx, BlockHeight = block_Height blk\<rparr> in
           case lookupBlockTx s key of
             Inr record \<Rightarrow>
               (if recSha s record \<noteq> TxSha tx then (Inl ErrInconsistentStore, s)
                else (Inr \<lparr>tr_key = key, tr_rec = record\<rparr>, s))
           | Inl e \<Rightarrow>
               if \<not> is_MissingValueError e then (Inl e, s)
               else (case map_of (u_txs (unconfirmed s)) (TxSha tx) of
                 Some r \<Rightarrow>
                   bindE (modifyE (SetIndex r (TxIndex tx)))
                   (\<lambda>_. bindE (moveMinedTx r blk)
                   (\<lambda>_. retE \<lparr>tr_key = key, tr_rec = r\<rparr>)) s
               | None \<Rightarrow>
                   bindE (removeDoubleSpends tx)
                   (\<lambda>_. bindE (blockTxRecordForInserts tx blk)
                   (\<lambda>r. bindE (modifyE (\<lambda>s.
                       if IsZero (rec_received (rget s r)) then
                         upd_rec r (\<lambda>t. t\<lparr>rec_received :=
                           (if \<not> IsZero (block_Time blk) \<and> Before (block_Time blk) now
                            then block_Time blk else now)\<rparr>) s
                       else s))
                   (\<lambda>_. retE \<lparr>tr_key = key, tr_rec = r\<rparr>))) s)))"

end
