(* ===== verification/Tx_Spend.thy ===== *)
theory Tx_Spend
  imports Tx_Insert
begin

text \<open>
  Credits, debits and rollback of \<open>src/txstore/tx.go\<close>: the methods of \<open>Credit\<close> and \<open>TxRecord\<close> that
  read one record, \<open>AddCredit\<close>, \<open>AddDebits\<close> with its search for the spent credits, and \<open>Rollback\<close>.
  \<open>findPreviousCredits\<close> starts one goroutine per input and reads their answers in input order; the
  goroutines only read the store, so the model evaluates them in that order.
\<close>

section \<open>Accessors\<close>

definition OutPointOf :: "Store \<Rightarrow> Credit \<Rightarrow> OutPoint" where
  "OutPointOf s c = \<lparr>OpHash = recSha s (tr_rec (cr_TxRecord c)), OpIndex = cr_OutputIndex c\<rparr>"

definition outputKey :: "Credit \<Rightarrow> BlockOutputKey" where
  "outputKey c = \<lparr>bok_TxKey = tr_key (cr_TxRecord c), bok_OutputIndex = cr_OutputIndex c\<rparr>"

definition AmountOf :: "Store \<Rightarrow> Credit \<Rightarrow> err + Amount" where
  "AmountOf s c = outValue s (tr_rec (cr_TxRecord c)) (unat (cr_OutputIndex c))"

definition TxOutOf :: "Store \<Rightarrow> Credit \<Rightarrow> err + TxOut" where
  "TxOutOf s c =
     (let outs = recTxOuts s (tr_rec (cr_TxRecord c)) in
      if unat (cr_OutputIndex c) < length outs then Inr (outs ! unat (cr_OutputIndex c))
      else Inl index_panic)"

text \<open>\<open>c.txRecord.credits[c.OutputIndex]\<close>, dereferenced.\<close>

definition creditOf :: "Store \<Rightarrow> Credit \<Rightarrow> err + credit" where
  "creditOf s c =
     (let cs = rec_credits (rget s (tr_rec (cr_TxRecord c))) in
      if unat (cr_OutputIndex c) < length cs then
        (case cs ! unat (cr_OutputIndex c) of None \<Rightarrow> Inl nil_panic | Some cr \<Rightarrow> Inr cr)
      else Inl index_panic)"

definition Change :: "Store \<Rightarrow> Credit \<Rightarrow> err + bool" where
  "Change s c = map_sum id credit_change (creditOf s c)"

definition Spent :: "Store \<Rightarrow> Credit \<Rightarrow> err + bool" where
  "Spent s c = map_sum id (\<lambda>cr. credit_spentBy cr \<noteq> None) (creditOf s c)"

definition DebitsOf :: "Store \<Rightarrow> TxRecord \<Rightarrow> err + TxRecord" where
  "DebitsOf s t = (if rec_debits (rget s (tr_rec t)) = None then Inl (ErrorString ''no debits'')
                   else Inr t)"

definition Credits :: "Store \<Rightarrow> TxRecord \<Rightarrow> Credit list" where
  "Credits s t =
     (let cs = rec_credits (rget s (tr_rec t)) in
      map (\<lambda>i. \<lparr>cr_TxRecord = t, cr_OutputIndex = of_nat i\<rparr>)
        (filter (\<lambda>i. cs ! i \<noteq> None) [0..<length cs]))"

definition HasCredit :: "Store \<Rightarrow> TxRecord \<Rightarrow> i64 \<Rightarrow> err + bool" where
  "HasCredit s t i =
     (let cs = rec_credits (rget s (tr_rec t)) in
      if int (length cs) \<le> sint i then Inr False
      else if sint i < 0 then Inl index_panic
      else Inr (cs ! nat (sint i) \<noteq> None))"

definition InputAmount :: "Store \<Rightarrow> TxRecord \<Rightarrow> err + Amount" where
  "InputAmount s t = (case rec_debits (rget s (tr_rec t)) of
     None \<Rightarrow> Inl nil_panic | Some d \<Rightarrow> Inr (debit_amount d))"

definition OutputAmount :: "Store \<Rightarrow> bool \<Rightarrow> TxRecord \<Rightarrow> Amount" where
  "OutputAmount s ignoreChange t =
     (let cs = rec_credits (rget s (tr_rec t)) in
      fold (\<lambda>(i, txOut) a.
          if ignoreChange \<and> i < length cs \<and>
             (case cs ! i of None \<Rightarrow> False | Some c \<Rightarrow> credit_change c)
          then a else a + Value txOut)
        (enumerate 0 (recTxOuts s (tr_rec t))) 0)"

definition Fee :: "Store \<Rightarrow> TxRecord \<Rightarrow> err + Amount" where
  "Fee s t = map_sum id (\<lambda>a. a - OutputAmount s False t) (InputAmount s t)"

definition BlockOf :: "Store \<Rightarrow> TxRecord \<Rightarrow> err + Block option" where
  "BlockOf s t =
     (case lookupBlock s (BlockHeight (tr_key t)) of
        Inl e \<Rightarrow> if e = MissingBlockError (- 1) then Inr None else Inl e
      | Inr b \<Rightarrow> Inr (Some (coll_Block (bget s b))))"

definition IsCoinbase :: "TxRecord \<Rightarrow> bool" where
  "IsCoinbase t \<longleftrightarrow> BlockHeight (tr_key t) \<noteq> - 1 \<and> BlockIndex (tr_key t) = 0"

section \<open>AddDebits\<close>

definition findPreviousCredit :: "Store \<Rightarrow> OutPoint \<Rightarrow> err + Credit option" where
  "findPreviousCredit s op =
     (case map_of (unspent s) op of
        None \<Rightarrow>
          (case map_of (u_txs (unconfirmed s)) (OpHash op) of
             None \<Rightarrow> Inr None
           | Some r \<Rightarrow>
               (let cs = rec_credits (rget s r) in
                if length cs \<le> unat (OpIndex op) then Inr None
                else if cs ! unat (OpIndex op) = None then Inr None
                else if map_of (spentUnconfirmed (unconfirmed s)) op \<noteq> None then Inr None
                else Inr (Some \<lparr>cr_TxRecord = \<lparr>tr_key = unminedKey, tr_rec = r\<rparr>,
                               cr_OutputIndex = OpIndex op\<rparr>)))
      | Some key \<Rightarrow>
          (case lookupBlockTx s key of
             Inl e \<Rightarrow> Inl e
           | Inr r \<Rightarrow> Inr (Some \<lparr>cr_TxRecord = \<lparr>tr_key = key, tr_rec = r\<rparr>,
                               cr_OutputIndex = OpIndex op\<rparr>)))"

definition findPreviousCredits :: "Store \<Rightarrow> Tx \<Rightarrow> err + Credit list" where
  "findPreviousCredits s tx =
     map_sum id (List.map_filter id)
       (mapE (\<lambda>input. findPreviousCredit s (PreviousOutpoint input)) (TxIns (TxMsg tx)))"

text \<open>The loop of \<open>markOutputsSpent\<close> carries the debited amount beside the store.\<close>

definition markOutputSpent :: "TxRecord \<Rightarrow> Credit \<Rightarrow> (Store \<times> Amount, err, unit) act" where
  "markOutputSpent t prev sa =
     (let s = fst sa; a = snd sa; op = OutPointOf s prev; pr = tr_rec (cr_TxRecord prev) in
      if BlockHeight (tr_key (cr_TxRecord prev)) = - 1 then
        (Inr (), (upd_unc (\<lambda>u. u\<lparr>spentUnconfirmed :=
            AList.update op (tr_rec t) (spentUnconfirmed u)\<rparr>) s, a))
      else (case creditOf s prev of
          Inl e \<Rightarrow> (Inl e, sa)
        | Inr credit \<Rightarrow>
            (case credit_spentBy credit of
               Some k \<Rightarrow> if k = tr_key t then (Inr (), sa) else (Inl ErrInconsistentStore, sa)
             | None \<Rightarrow>
                 (let s1 = snd (set_spentBy pr (cr_OutputIndex prev) (Some (tr_key t)) s);
                      s2 = s1\<lparr>unspent := AList.delete op (unspent s1)\<rparr>;
                      key = outputKey prev;
                      s3 = (if BlockHeight (tr_key t) = - 1 then
                              upd_unc (\<lambda>u. u\<lparr>
                                spentBlockOutPointKeys :=
                                  AList.update op key (spentBlockOutPointKeys u),
                                spentBlockOutPoints :=
                                  AList.update key (tr_rec t) (spentBlockOutPoints u)\<rparr>) s2
                            else s2)
                  in case AmountOf s3 prev of
                       Inl e \<Rightarrow> (Inl e, (s3, a))
                     | Inr v \<Rightarrow> (Inr (), (s3, a + v))))))"

definition markOutputsSpent :: "Credit list \<Rightarrow> TxRecord \<Rightarrow> Amount storeact" where
  "markOutputsSpent spent t s =
     (case forE (markOutputSpent t) spent (s, 0) of
        (Inl e, (s', a)) \<Rightarrow> (Inl e, s')
      | (Inr u, (s', a)) \<Rightarrow>
          if BlockHeight (tr_key t) \<noteq> - 1 then
            (case lookupBlock s' (BlockHeight (tr_key t)) of
               Inl e \<Rightarrow> (Inl e, s')
             | Inr b \<Rightarrow> (Inr a, addSpendable b (- a) s'))
          else (Inr a, s'))"

definition addDebitsTrackUnconfirmed :: "TxRecord \<Rightarrow> Credit \<Rightarrow> Store \<Rightarrow> Store" where
  "addDebitsTrackUnconfirmed t c s =
     (let op = OutPointOf s c; key = outputKey c in
      if BlockHeight (tr_key (cr_TxRecord c)) = - 1 then
        upd_unc (\<lambda>u. u\<lparr>spentUnconfirmed := AList.update op (tr_rec t) (spentUnconfirmed u)\<rparr>) s
      else
        upd_unc (\<lambda>u. u\<lparr>
          spentBlockOutPointKeys := AList.update op key (spentBlockOutPointKeys u),
          spentBlockOutPoints := AList.update key (tr_rec t) (spentBlockOutPoints u)\<rparr>) s)"

text \<open>The final switch of \<open>AddDebits\<close>, on whether the record is mined.\<close>

definition addDebitsTrack :: "TxRecord \<Rightarrow> Credit list \<Rightarrow> Store \<Rightarrow> Store" where
  "addDebitsTrack t spent s =
     (if BlockHeight (tr_key t) = - 1 then fold (addDebitsTrackUnconfirmed t) spent s
      else upd_rec (tr_rec t) (\<lambda>r. case rec_debits r of
          None \<Rightarrow> r
        | Some d \<Rightarrow> if debit_spends d = None
            then r\<lparr>rec_debits := Some (d\<lparr>debit_spends := Some (map outputKey spent)\<rparr>)\<rparr>
            else r) s)"

definition AddDebits :: "TxRecord \<Rightarrow> Credit list \<Rightarrow> TxRecord storeact" where
  "AddDebits t spent s =
     (case rec_debits (rget s (tr_rec t)) of
        Some d \<Rightarrow> (Inr t, addDebitsTrack t spent s)
      | None \<Rightarrow>
          (case (if spent = [] then findPreviousCredits s (rec_tx (rget s (tr_rec t)))
                 else Inr spent) of
             Inl e \<Rightarrow> (Inl e, s)
           | Inr spent' \<Rightarrow>
               (case markOutputsSpent spent' t s of
                  (Inl e, s') \<Rightarrow> (Inl e, s')
                | (Inr debitAmount, s') \<Rightarrow>
                    (Inr t, addDebitsTrack t spent'
                       (upd_rec (tr_rec t) (\<lambda>r. r\<lparr>rec_debits :=
                          Some \<lparr>debit_amount = debitAmount, debit_spends = None\<rparr>\<rparr>) s')))))"

section \<open>AddCredit\<close>

text \<open>\<open>for i := uint32(len(r.credits)); i <= index; i++ { append nil }\<close>\<close>

definition padCredits :: "credit option list \<Rightarrow> nat \<Rightarrow> credit option list" where
  "padCredits cs index = cs @ replicate (Suc index - length cs) None"

definition setCredit :: "rref \<Rightarrow> u32 \<Rightarrow> bool \<Rightarrow> Tx \<Rightarrow> unit storeact" where
  "setCredit r index change tx s =
     (let s1 = upd_rec r (\<lambda>t. t\<lparr>rec_credits := padCredits (rec_credits t) (unat index)\<rparr>) s in
      if rec_credits (rget s1 r) ! unat index \<noteq> None then
        (if recSha s1 r = TxSha tx then (Inl ErrDuplicateInsert, s1)
         else (Inl ErrInconsistentStore, s1))
      else (Inr (), upd_rec r (\<lambda>t. t\<lparr>rec_credits := (rec_credits t)[unat index :=
              Some \<lparr>credit_change = change, credit_spentBy = None\<rparr>]\<rparr>) s1))"

definition AddCredit :: "TxRecord \<Rightarrow> u32 \<Rightarrow> bool \<Rightarrow> Credit storeact" where
  "AddCredit t index change s =
     (let r = tr_rec t; c = \<lparr>cr_TxRecord = t, cr_OutputIndex = index\<rparr> in
      if length (recTxOuts s r) \<le> unat index
      then (Inl (ErrorString ''transaction output does not exist''), s)
      else case setCredit r index change (rec_tx (rget s r)) s of
          (Inl e, s1) \<Rightarrow> if e = ErrDuplicateInsert then (Inr c, s1) else (Inl e, s1)
        | (Inr u, s1) \<Rightarrow>
            (let txOutAmt = Value (recTxOuts s1 r ! unat index) in
             if BlockHeight (tr_key t) = - 1 then (Inr c, s1)
             else case lookupBlock s1 (BlockHeight (tr_key t)) of
                 Inl e \<Rightarrow> (Inl e, s1)
               | Inr b \<Rightarrow>
                   (let op = \<lparr>OpHash = recSha s1 r, OpIndex = index\<rparr>;
                        s2 = s1\<lparr>unspent := AList.update op (tr_key t) (unspent s1)\<rparr>
                    in if recIndex s2 r = 0 then (Inr c, addReward b txOutAmt s2)
                       else (Inr c, addSpendable b txOutAmt s2))))"

section \<open>Rollback\<close>

fun swapFirst :: "BlockOutputKey \<Rightarrow> BlockOutputKey \<Rightarrow> BlockOutputKey list \<Rightarrow>
    BlockOutputKey list option" where
  "swapFirst previous current [] = None"
| "swapFirst previous current (k # ks) =
     (if k = previous then Some (current # ks)
      else map_option ((#) k) (swapFirst previous current ks))"

definition swapDebits :: "rref \<Rightarrow> BlockOutputKey \<Rightarrow> BlockOutputKey \<Rightarrow> unit storeact" where
  "swapDebits r previous current s =
     (case rec_debits (rget s r) of
        None \<Rightarrow> (Inl nil_panic, s)
      | Some d \<Rightarrow>
          (case swapFirst previous current (case debit_spends d of None \<Rightarrow> [] | Some ks \<Rightarrow> ks) of
             None \<Rightarrow> (Inl (MissingCreditError previous), s)
           | Some ks \<Rightarrow> (Inr (), upd_rec r (\<lambda>t. t\<lparr>rec_debits :=
               Some (d\<lparr>debit_spends := Some ks\<rparr>)\<rparr>) s)))"

definition rollbackCredit :: "i32 \<Rightarrow> i64 \<Rightarrow> rref \<Rightarrow> nat \<Rightarrow> unit storeact" where
  "rollbackCredit height oldTxIndex r outIdx s =
     (case rec_credits (rget s r) ! outIdx of
        None \<Rightarrow> retE ()
      | Some credit \<Rightarrow>
          (let op = \<lparr>OpHash = recSha s r, OpIndex = of_nat outIdx\<rparr>;
               prev = \<lparr>bok_TxKey = \<lparr>BlockIndex = oldTxIndex, BlockHeight = height\<rparr>,
                       bok_OutputIndex = of_nat outIdx\<rparr>
           in bindE (modifyE (\<lambda>s. s\<lparr>unspent := AList.delete op (unspent s)\<rparr>))
             (\<lambda>_. case credit_spentBy credit of
                None \<Rightarrow> retE ()
              | Some spenderKey \<Rightarrow>
                  if BlockHeight spenderKey = - 1 then
                    (\<lambda>s. (case map_of (spentBlockOutPoints (unconfirmed s)) prev of
                       None \<Rightarrow> failE ErrInconsistentStore
                     | Some spender \<Rightarrow> modifyE (upd_unc (\<lambda>u. u\<lparr>
                         spentBlockOutPointKeys := AList.delete op (spentBlockOutPointKeys u),
                         spentBlockOutPoints := AList.delete prev (spentBlockOutPoints u),
                         spentUnconfirmed := AList.update op spender (spentUnconfirmed u)\<rparr>))) s)
                  else
                    bindE (liftE (\<lambda>s. lookupBlockTx s spenderKey))
                    (\<lambda>spender s. (if rec_debits (rget s spender) = None
                        then failE (MissingDebitsError spenderKey)
                        else swapDebits spender prev
                          \<lparr>bok_TxKey = unminedKey, bok_OutputIndex = 0\<rparr>) s)))) s"

definition rollbackSpend :: "rref \<Rightarrow> BlockOutputKey \<Rightarrow> unit storeact" where
  "rollbackSpend r prev =
     bindE (liftE (\<lambda>s. lookupBlockTx s (bok_TxKey prev)))
     (\<lambda>rr. bindE (liftE (\<lambda>s. rec_lookupBlockCredit (rget s rr) prev))
     (\<lambda>c. bindE (modifyE (\<lambda>s. upd_unc (\<lambda>u. u\<lparr>
         spentBlockOutPointKeys := AList.update
           \<lparr>OpHash = recSha s rr, OpIndex = bok_OutputIndex prev\<rparr> prev (spentBlockOutPointKeys u),
         spentBlockOutPoints := AList.update prev r (spentBlockOutPoints u)\<rparr>) s))
     (\<lambda>_. set_spentBy rr (bok_OutputIndex prev) (Some unminedKey))))"

definition rollbackDebits :: "rref \<Rightarrow> unit storeact" where
  "rollbackDebits r s =
     (case rec_debits (rget s r) of
        None \<Rightarrow> retE ()
      | Some d \<Rightarrow>
          bindE (forE (rollbackSpend r) (case debit_spends d of None \<Rightarrow> [] | Some ks \<Rightarrow> ks))
          (\<lambda>_. modifyE (upd_rec r (\<lambda>t. t\<lparr>rec_debits :=
              map_option (\<lambda>d. d\<lparr>debit_spends := None\<rparr>) (rec_debits t)\<rparr>)))) s"

definition rollbackTx :: "btcparams \<Rightarrow> i32 \<Rightarrow> rref \<Rightarrow> unit storeact" where
  "rollbackTx ext height r s =
     (if recIndex s r = 0 then (Inr (), s)
      else bindE (modifyE (SetIndex r (TxIndexUnknown ext)))
        (\<lambda>_. bindE (modifyE (upd_unc (\<lambda>u. u\<lparr>
            u_txs := AList.update (recSha s r) r (u_txs u),
            previousOutpoints := fold (\<lambda>input m. AList.update (PreviousOutpoint input) r m)
              (recTxIns s r) (previousOutpoints u)\<rparr>)))
        (\<lambda>_. bindE (forE (rollbackCredit height (recIndex s r) r)
              [0..<length (rec_credits (rget s r))])
        (\<lambda>_. rollbackDebits r))) s)"

definition rollbackBlock :: "btcparams \<Rightarrow> bref \<Rightarrow> unit storeact" where
  "rollbackBlock ext b s =
     (if txs (bget s b) = [] then (Inl index_panic, s)
      else bindE (modifyE (\<lambda>s. s\<lparr>blockIndexes := AList.delete (collHeight s b) (blockIndexes s)\<rparr>))
        (\<lambda>_. forE (rollbackTx ext (collHeight s b)) (txs (bget s b))) s)"

definition Rollback :: "btcparams \<Rightarrow> i32 \<Rightarrow> unit storeact" where
  "Rollback ext height s =
     (let i = down_while (\<lambda>k. height \<le>s collHeight s (blocks s ! k)) (length (blocks s)) in
      forE (rollbackBlock ext) (drop i (blocks s)) (s\<lparr>blocks := take i (blocks s)\<rparr>))"

end
