(* ===== verification/Tx_Query.thy ===== *)
theory Tx_Query
  imports Tx_Spend
begin

text \<open>
  The queries of \<open>src/txstore/tx.go\<close>: unmined and unspent outputs and their order, confirmations, the
  balance, and the chronological list of records.
\<close>

section \<open>Unmined transactions and unspent outputs\<close>

definition UnminedDebitTxs :: "Store \<Rightarrow> Tx list" where
  "UnminedDebitTxs s =
     map (\<lambda>(k, r). rec_tx (rget s r)) (spentBlockOutPoints (unconfirmed s)) @
     map (\<lambda>(k, r). rec_tx (rget s r)) (spentUnconfirmed (unconfirmed s))"

definition unspentMined :: "Store \<Rightarrow> OutPoint \<times> BlockTxKey \<Rightarrow> err + Credit" where
  "unspentMined s e =
     (case lookupBlockTx s (snd e) of
        Inl er \<Rightarrow> Inl er
      | Inr r \<Rightarrow> Inr \<lparr>cr_TxRecord = \<lparr>tr_key = snd e, tr_rec = r\<rparr>, cr_OutputIndex = OpIndex (fst e)\<rparr>)"

definition unspentUnmined :: "Store \<Rightarrow> rref \<Rightarrow> Credit list" where
  "unspentUnmined s r =
     (let cs = rec_credits (rget s r) in
      map (\<lambda>i. \<lparr>cr_TxRecord = \<lparr>tr_key = unminedKey, tr_rec = r\<rparr>, cr_OutputIndex = of_nat i\<rparr>)
        (filter (\<lambda>i. case cs ! i of None \<Rightarrow> False | Some c \<Rightarrow> credit_spentBy c = None)
          [0..<length cs]))"

definition UnspentOutputs :: "Store \<Rightarrow> err + Credit list" where
  "UnspentOutputs s =
     map_sum id (\<lambda>mined. mined @ concat (map (\<lambda>(k, r). unspentUnmined s r) (u_txs (unconfirmed s))))
       (mapE (unspentMined s) (unspent s))"

text \<open>\<open>creditSlice.Less\<close>. The first case compares the pointers \<open>Tx().Sha()\<close>, which are equal exactly
  for credits of the same record.\<close>

definition creditLess :: "Store \<Rightarrow> Credit \<Rightarrow> Credit \<Rightarrow> bool" where
  "creditLess s a b =
     (let ka = tr_key (cr_TxRecord a); kb = tr_key (cr_TxRecord b);
          ra = tr_rec (cr_TxRecord a); rb = tr_rec (cr_TxRecord b) in
      if ra = rb then cr_OutputIndex a < cr_OutputIndex b
      else if BlockIndex ka = - 1 \<and> BlockIndex kb = - 1
      then Before (rec_received (rget s ra)) (rec_received (rget s rb))
      else if BlockIndex ka = - 1 then False
      else if BlockIndex kb = - 1 then True
      else if BlockHeight ka \<noteq> BlockHeight kb then BlockHeight ka <s BlockHeight kb
      else BlockIndex ka <s BlockIndex kb)"

definition SortedUnspentOutputs :: "Store \<Rightarrow> err + Credit list" where
  "SortedUnspentOutputs s = map_sum id (go_sort (\<lambda>a b. creditLess s b a)) (UnspentOutputs s)"

section \<open>Confirmations and balance\<close>

definition confirms :: "i32 \<Rightarrow> i32 \<Rightarrow> i32" where
  "confirms txHeight curHeight =
     (if txHeight = - 1 \<or> curHeight <s txHeight then 0 else curHeight - txHeight + 1)"

text \<open>\<open>int32(minconf)\<close> keeps the low 32 bits.\<close>

definition confirmed :: "i64 \<Rightarrow> i32 \<Rightarrow> i32 \<Rightarrow> bool" where
  "confirmed minconf txHeight curHeight \<longleftrightarrow> ucast minconf \<le>s confirms txHeight curHeight"

definition Confirmed :: "TxRecord \<Rightarrow> i64 \<Rightarrow> i32 \<Rightarrow> bool" where
  "Confirmed t target chainHeight = confirmed target (BlockHeight (tr_key t)) chainHeight"

definition Confirmations :: "TxRecord \<Rightarrow> i32 \<Rightarrow> i32" where
  "Confirmations t chainHeight = confirms (BlockHeight (tr_key t)) chainHeight"

text \<open>\<open>bal -= value of the output that prev names\<close>, if it is confirmed.\<close>

definition balanceDebit :: "Store \<Rightarrow> i64 \<Rightarrow> i32 \<Rightarrow> BlockOutputKey \<Rightarrow> (Amount, err, unit) act" where
  "balanceDebit s minConf chainHeight prev bal =
     (if \<not> confirmed minConf (BlockHeight (bok_TxKey prev)) chainHeight then (Inr (), bal)
      else case lookupBlockTx s (bok_TxKey prev) of
          Inl e \<Rightarrow> (Inl e, bal)
        | Inr r \<Rightarrow> (case outValue s r (unat (bok_OutputIndex prev)) of
            Inl e \<Rightarrow> (Inl e, bal)
          | Inr v \<Rightarrow> (Inr (), bal - v)))"

definition recSpends :: "Store \<Rightarrow> rref \<Rightarrow> BlockOutputKey list" where
  "recSpends s r = (case rec_debits (rget s r) of
     None \<Rightarrow> []
   | Some d \<Rightarrow> (case debit_spends d of None \<Rightarrow> [] | Some ks \<Rightarrow> ks))"

definition balanceBlock :: "btcparams \<Rightarrow> Store \<Rightarrow> i64 \<Rightarrow> i32 \<Rightarrow> bref \<Rightarrow> (Amount, err, unit) act" where
  "balanceBlock ext s minConf chainHeight b bal =
     (let c = bget s b; h = collHeight s b in
      if confirmed minConf h chainHeight then
        (let bal1 = bal + Spendable (amountDeltas c) in
         if CoinbaseMaturity ext \<le>s confirms h chainHeight
         then (Inr (), bal1 + Reward (amountDeltas c))
         else (Inr (), bal1))
      else forE (\<lambda>r. forE (balanceDebit s minConf chainHeight) (recSpends s r)) (txs c) bal)"

definition balanceUnmined :: "Store \<Rightarrow> rref \<Rightarrow> (Amount, err, unit) act" where
  "balanceUnmined s r =
     forE (\<lambda>i bal. case rec_credits (rget s r) ! i of
         None \<Rightarrow> (Inr (), bal)
       | Some c \<Rightarrow>
           if credit_spentBy c = None then
             (case outValue s r i of Inl e \<Rightarrow> (Inl e, bal) | Inr v \<Rightarrow> (Inr (), bal + v))
           else (Inr (), bal))
       [0..<length (rec_credits (rget s r))]"

definition Balance :: "btcparams \<Rightarrow> Store \<Rightarrow> i64 \<Rightarrow> i32 \<Rightarrow> err + Amount" where
  "Balance ext s minConf chainHeight =
     fst (bindE (forE (balanceBlock ext s minConf chainHeight) (blocks s))
       (\<lambda>_. bindE (forE (\<lambda>e. balanceDebit s minConf chainHeight (fst e))
                     (spentBlockOutPoints (unconfirmed s)))
       (\<lambda>_. bindE (if minConf = 0
                   then forE (\<lambda>e. balanceUnmined s (snd e)) (u_txs (unconfirmed s))
                   else retE ())
       (\<lambda>_. liftE Inr))) 0)"

section \<open>Records\<close>

definition minedRecords :: "Store \<Rightarrow> TxRecord list" where
  "minedRecords s = concat (map (\<lambda>b. map (\<lambda>r.
     \<lparr>tr_key = \<lparr>BlockIndex = recIndex s r, BlockHeight = collHeight s b\<rparr>, tr_rec = r\<rparr>)
     (txs (bget s b))) (blocks s))"

definition byReceiveDate :: "Store \<Rightarrow> TxRecord \<Rightarrow> TxRecord \<Rightarrow> bool" where
  "byReceiveDate s a b = Before (rec_received (rget s (tr_rec a))) (rec_received (rget s (tr_rec b)))"

definition Records :: "Store \<Rightarrow> TxRecord list" where
  "Records s = minedRecords s @
     go_sort (byReceiveDate s)
       (map (\<lambda>(k, r). \<lparr>tr_key = unminedKey, tr_rec = r\<rparr>) (u_txs (unconfirmed s)))"

end
