(* ===== verification/Tx_Wf.thy ===== *)
theory Tx_Wf
  imports Tx_Query
begin

text \<open>
  The well-formedness invariant of the transaction store and what every operation keeps of it.

  \<open>index_ok\<close> is the contract of the two index maps (\<open>blockIndexes\<close>, \<open>txIndexes\<close>): a key is mapped to a
  position exactly when the element there has that key. \<open>store_wf\<close> adds the order of the blocks, the
  validity of all addresses, that a record is in one block only and never also unconfirmed, that the
  unconfirmed map is keyed by hash, and that no map repeats a key. \<open>frame\<close> is the part of the store
  that the spend-tracking operations do not change.
\<close>

section \<open>Index maps\<close>

definition index_ok :: "('a \<Rightarrow> 'k) \<Rightarrow> 'a list \<Rightarrow> ('k, nat) gomap \<Rightarrow> bool" where
  "index_ok k xs m \<longleftrightarrow> wf_map m \<and> (\<forall>h i. map_of m h = Some i \<longleftrightarrow> i < length xs \<and> k (xs ! i) = h)"

lemma index_ok_Nil [simp]: "index_ok k [] []"
  by (simp add: index_ok_def)

lemma index_ok_None: "index_ok k xs m \<Longrightarrow> map_of m h = None \<longleftrightarrow> h \<notin> k ` set xs"
proof -
  assume a: "index_ok k xs m"
  have "map_of m h = None \<longleftrightarrow> (\<forall>i. map_of m h \<noteq> Some i)" by (cases "map_of m h") auto
  also have "\<dots> \<longleftrightarrow> (\<forall>i. \<not> (i < length xs \<and> k (xs ! i) = h))"
    using a by (simp add: index_ok_def)
  also have "\<dots> \<longleftrightarrow> h \<notin> k ` set xs" by (auto simp: set_conv_nth)
  finally show ?thesis .
qed

lemma index_ok_Some: "index_ok k xs m \<Longrightarrow> map_of m h = Some i \<Longrightarrow> i < length xs \<and> k (xs ! i) = h"
  by (simp add: index_ok_def)

lemma index_ok_append:
  assumes "index_ok k xs m" and "k x \<notin> k ` set xs"
  shows "index_ok k (xs @ [x]) (AList.update (k x) (length xs) m)"
proof -
  have new: "k (xs ! i) \<noteq> k x" if "i < length xs" for i
    using assms(2) nth_mem [OF that] by (metis image_eqI)
  have old: "map_of m h = Some i \<longleftrightarrow> i < length xs \<and> k (xs ! i) = h" for h i
    using assms(1) unfolding index_ok_def by blast
  have "map_of (AList.update (k x) (length xs) m) h = Some i \<longleftrightarrow>
        i < length (xs @ [x]) \<and> k ((xs @ [x]) ! i) = h" for h i
    using new old [of h i] by (cases "h = k x") (auto simp: nth_append less_Suc_eq)
  then show ?thesis using assms(1) unfolding index_ok_def by blast
qed

lemma index_ok_cong:
  "(\<And>x. x \<in> set xs \<Longrightarrow> k x = k' x) \<Longrightarrow> index_ok k xs m = index_ok k' xs m"
  unfolding index_ok_def by (metis nth_mem)

section \<open>The invariant\<close>

definition mined :: "Store \<Rightarrow> rref list" where
  "mined s = concat (map (\<lambda>b. txs (bget s b)) (blocks s))"

definition blocks_ok :: "Store \<Rightarrow> bool" where
  "blocks_ok s \<longleftrightarrow> index_ok (collHeight s) (blocks s) (blockIndexes s)
     \<and> sorted_wrt (\<lambda>a b. collHeight s a <s collHeight s b) (blocks s)
     \<and> (\<forall>b \<in> set (blocks s). b < length (bheap s))"

definition colls_ok :: "Store \<Rightarrow> bool" where
  "colls_ok s \<longleftrightarrow> (\<forall>b \<in> set (blocks s).
       index_ok (recIndex s) (txs (bget s b)) (txIndexes (bget s b)))
     \<and> (\<forall>r \<in> set (mined s). r < length (rheap s))
     \<and> distinct (mined s)"

definition refs_ok :: "nat \<Rightarrow> ('k, rref) gomap \<Rightarrow> bool" where
  "refs_ok n m \<longleftrightarrow> wf_map m \<and> (\<forall>r \<in> snd ` set m. r < n)"

definition uwf :: "nat \<Rightarrow> (rref \<Rightarrow> ShaHash) \<Rightarrow> rref set \<Rightarrow> unconfirmedStore \<Rightarrow> bool" where
  "uwf n sha M u \<longleftrightarrow>
       wf_map (spentBlockOutPointKeys u)
     \<and> refs_ok n (u_txs u) \<and> refs_ok n (spentBlockOutPoints u)
     \<and> refs_ok n (spentUnconfirmed u) \<and> refs_ok n (previousOutpoints u)
     \<and> (\<forall>k r. map_of (u_txs u) k = Some r \<longrightarrow> sha r = k \<and> r \<notin> M)"

definition unc_ok :: "Store \<Rightarrow> bool" where
  "unc_ok s \<longleftrightarrow> wf_map (unspent s)
     \<and> uwf (length (rheap s)) (recSha s) (set (mined s)) (unconfirmed s)"

definition store_wf :: "Store \<Rightarrow> bool" where
  "store_wf s \<longleftrightarrow> blocks_ok s \<and> colls_ok s \<and> unc_ok s"

text \<open>What the spend-tracking operations leave alone.\<close>

definition collShape :: "blockTxCollection \<Rightarrow> Block \<times> rref list \<times> (i64, nat) gomap" where
  "collShape c = (coll_Block c, txs c, txIndexes c)"

definition frame :: "Store \<Rightarrow> Store \<Rightarrow> bool" where
  "frame s0 s \<longleftrightarrow> blocks s = blocks s0 \<and> blockIndexes s = blockIndexes s0
     \<and> map collShape (bheap s) = map collShape (bheap s0)
     \<and> map rec_tx (rheap s) = map rec_tx (rheap s0)"

definition book :: "Store \<Rightarrow> Store \<Rightarrow> bool" where
  "book s0 s \<longleftrightarrow> frame s0 s \<and> store_wf s"

section \<open>Reference sets\<close>

lemma refs_ok_update [intro]: "refs_ok n m \<Longrightarrow> r < n \<Longrightarrow> refs_ok n (AList.update k r m)"
  unfolding refs_ok_def using set_update_values [of k r m] by fastforce

lemma refs_ok_delete [intro]: "refs_ok n m \<Longrightarrow> refs_ok n (AList.delete k m)"
  unfolding refs_ok_def using set_delete_values [of k m] by (meson subsetD wf_map_delete)

lemma refs_ok_lookup: "refs_ok n m \<Longrightarrow> map_of m k = Some r \<Longrightarrow> r < n"
  unfolding refs_ok_def using map_of_in_values [of m k r] by blast

lemma refs_ok_mono: "refs_ok n m \<Longrightarrow> n \<le> n' \<Longrightarrow> refs_ok n' m"
  by (auto simp: refs_ok_def)

lemma refs_ok_fold_update:
  "refs_ok n m \<Longrightarrow> r < n \<Longrightarrow> refs_ok n (fold (\<lambda>x m. AList.update (g x) r m) xs m)"
  by (induction xs arbitrary: m) auto

lemma refs_ok_fold_delete:
  "refs_ok n m \<Longrightarrow> refs_ok n (fold (\<lambda>x. AList.delete (g x)) xs m)"
  by (induction xs arbitrary: m) auto

lemma refs_ok_Nil [simp]: "refs_ok n []"
  by (simp add: refs_ok_def)

section \<open>Frames\<close>

lemma frame_refl [simp]: "frame s s"
  by (simp add: frame_def)

lemma frame_trans: "frame a b \<Longrightarrow> frame b c \<Longrightarrow> frame a c"
  by (simp add: frame_def)

lemma frame_lengths: "frame s0 s \<Longrightarrow> length (rheap s) = length (rheap s0)"
  "frame s0 s \<Longrightarrow> length (bheap s) = length (bheap s0)"
  by (auto simp: frame_def dest: map_eq_imp_length_eq)

lemma frame_coll:
  assumes "frame s0 s" and "b < length (bheap s0)"
  shows "collShape (bget s b) = collShape (bget s0 b)"
  using assms by (auto simp: frame_def dest: map_eq_imp_length_eq)
    (metis assms(1) frame_lengths(2) nth_map)

lemma frame_rec:
  assumes "frame s0 s" and "r < length (rheap s0)"
  shows "rec_tx (rget s r) = rec_tx (rget s0 r)"
  using assms by (metis frame_def frame_lengths(1) nth_map)

lemma frame_rec_views:
  assumes "frame s0 s" and "r < length (rheap s0)"
  shows "recIndex s r = recIndex s0 r" and "recSha s r = recSha s0 r"
    and "recTxIns s r = recTxIns s0 r" and "recTxOuts s r = recTxOuts s0 r"
  using frame_rec [OF assms] by (simp_all add: recIndex_def recSha_def recTxIns_def recTxOuts_def)

lemma frame_coll_views:
  assumes "frame s0 s" and "b < length (bheap s0)"
  shows "collHeight s b = collHeight s0 b" and "txs (bget s b) = txs (bget s0 b)"
    and "txIndexes (bget s b) = txIndexes (bget s0 b)"
  using frame_coll [OF assms] by (simp_all add: collShape_def collHeight_def)

lemma frame_mined:
  assumes "frame s0 s" and "blocks_ok s0"
  shows "mined s = mined s0"
proof -
  have "blocks s = blocks s0" using assms(1) by (simp add: frame_def)
  moreover have "\<And>b. b \<in> set (blocks s0) \<Longrightarrow> txs (bget s b) = txs (bget s0 b)"
    using assms by (simp add: blocks_ok_def frame_coll_views(2))
  ultimately show ?thesis by (simp add: mined_def cong: map_cong)
qed

lemma frame_blocks_ok:
  assumes f: "frame s0 s" and ok: "blocks_ok s0"
  shows "blocks_ok s"
proof -
  have h: "\<And>b. b \<in> set (blocks s0) \<Longrightarrow> collHeight s b = collHeight s0 b"
    using f ok by (simp add: blocks_ok_def frame_coll_views(1))
  have "index_ok (collHeight s) (blocks s0) (blockIndexes s0)"
    using ok h index_ok_cong [of "blocks s0" "collHeight s" "collHeight s0"]
    by (simp add: blocks_ok_def)
  moreover have "sorted_wrt (\<lambda>a b. collHeight s a <s collHeight s b) (blocks s0)"
    using ok h unfolding blocks_ok_def
    by (auto elim!: sorted_wrt_mono_rel [rotated])
  ultimately show ?thesis using f ok by (auto simp: blocks_ok_def frame_def frame_lengths(2) [OF f])
qed

lemma frame_colls_ok:
  assumes f: "frame s0 s" and ok: "blocks_ok s0" "colls_ok s0"
  shows "colls_ok s"
proof -
  have m: "mined s = mined s0" using f ok(1) by (rule frame_mined)
  have "index_ok (recIndex s) (txs (bget s b)) (txIndexes (bget s b))" if b: "b \<in> set (blocks s0)" for b
  proof -
    have "b < length (bheap s0)" using ok(1) b by (simp add: blocks_ok_def)
    then have c: "txs (bget s b) = txs (bget s0 b)" "txIndexes (bget s b) = txIndexes (bget s0 b)"
      using f by (simp_all add: frame_coll_views)
    have "recIndex s r = recIndex s0 r" if "r \<in> set (txs (bget s0 b))" for r
    proof -
      have "r \<in> set (mined s0)" using b that by (auto simp: mined_def)
      then show ?thesis using ok(2) f by (simp add: colls_ok_def frame_rec_views)
    qed
    then show ?thesis using ok(2) b c
      index_ok_cong [of "txs (bget s0 b)" "recIndex s" "recIndex s0"]
      by (simp add: colls_ok_def)
  qed
  then show ?thesis using f ok m
    by (auto simp: colls_ok_def frame_def frame_lengths(1) [OF f])
qed

lemma frame_lookups:
  assumes f: "frame s0 s" and ok: "store_wf s0"
  shows "lookupBlock s h = lookupBlock s0 h" and "lookupBlockTx s key = lookupBlockTx s0 key"
proof -
  show b: "lookupBlock s h = lookupBlock s0 h" for h
    using f unfolding frame_def by (clarsimp simp: lookupBlock_def split: option.split)
  show "lookupBlockTx s key = lookupBlockTx s0 key"
  proof (cases "lookupBlock s0 (BlockHeight key)")
    case (Inr b)
    then have "b \<in> set (blocks s0)"
      by (auto simp: lookupBlock_def split: option.splits if_splits)
    then have "b < length (bheap s0)" using ok by (simp add: store_wf_def blocks_ok_def)
    with f show ?thesis by (simp add: lookupBlockTx_def b Inr Let_def frame_coll_views split: option.split)
  qed (simp add: lookupBlockTx_def b)
qed

section \<open>Updates inside a frame\<close>

lemma uwf_cong:
  assumes "uwf n sha M u" and "\<And>r. r < n \<Longrightarrow> sha' r = sha r" and "M' = M"
  shows "uwf n sha' M' u"
  using assms refs_ok_lookup [of n "u_txs u"] unfolding uwf_def by metis

lemma frame_unc_ok:
  assumes f: "frame s0 s" and ok: "store_wf s0"
    and w: "wf_map (unspent s)" "uwf (length (rheap s0)) (recSha s0) (set (mined s0)) (unconfirmed s)"
  shows "store_wf s"
proof -
  have "uwf (length (rheap s)) (recSha s) (set (mined s)) (unconfirmed s)"
    unfolding frame_lengths(1) [OF f] using f ok
    by (intro uwf_cong [OF w(2)]) (auto simp: frame_rec_views(2) frame_mined store_wf_def)
  then show ?thesis using f ok w(1) frame_blocks_ok frame_colls_ok
    unfolding store_wf_def unc_ok_def by blast
qed

lemma book_refl: "store_wf s \<Longrightarrow> book s s"
  by (simp add: book_def)

lemma bookD:
  assumes "book s0 s"
  shows "frame s0 s" and "store_wf s" and "length (rheap s) = length (rheap s0)"
    and "length (bheap s) = length (bheap s0)"
  using assms by (auto simp: book_def dest: frame_lengths)

text \<open>A store that differs inside the frame only by its unconfirmed part and the unspent map.\<close>

lemma bookI:
  assumes b: "book s0 s" and f: "frame s s'"
    and w: "wf_map (unspent s')" "uwf (length (rheap s)) (recSha s) (set (mined s)) (unconfirmed s')"
  shows "book s0 s'"
  using frame_trans [OF bookD(1) [OF b] f] frame_unc_ok [OF f bookD(2) [OF b] w]
  by (simp add: book_def)

lemma bookU:
  assumes "book s0 s"
  shows "wf_map (unspent s)" "uwf (length (rheap s)) (recSha s) (set (mined s)) (unconfirmed s)"
  using bookD(2) [OF assms] by (simp_all add: store_wf_def unc_ok_def)

lemma map_list_update_same: "g (f (xs ! i)) = g (xs ! i) \<Longrightarrow> map g (xs[i := f (xs ! i)]) = map g xs"
  by (metis list_update_id map_update)

lemma frame_upd_rec [intro]: "(\<And>t. rec_tx (f t) = rec_tx t) \<Longrightarrow> frame s (upd_rec r f s)"
  by (simp add: frame_def upd_rec_def map_list_update_same)

lemma frame_upd_coll [intro]: "(\<And>c. collShape (f c) = collShape c) \<Longrightarrow> frame s (upd_coll b f s)"
  by (simp add: frame_def upd_coll_def map_list_update_same)

lemma book_upd_rec: "book s0 s \<Longrightarrow> (\<And>t. rec_tx (f t) = rec_tx t) \<Longrightarrow> book s0 (upd_rec r f s)"
  by (rule bookI [of s0 s]) (auto intro: bookU)

lemma book_upd_coll:
  "book s0 s \<Longrightarrow> (\<And>c. collShape (f c) = collShape c) \<Longrightarrow> book s0 (upd_coll b f s)"
  by (rule bookI [of s0 s]) (auto intro: bookU)

lemma book_amounts [intro]:
  "book s0 s \<Longrightarrow> book s0 (addSpendable b a s)" "book s0 s \<Longrightarrow> book s0 (addReward b a s)"
  by (simp_all add: addSpendable_def addReward_def collShape_def book_upd_coll)

lemma book_upd_unc:
  assumes "book s0 s"
    and "\<And>M. uwf (length (rheap s0)) (recSha s) M (unconfirmed s) \<Longrightarrow>
             uwf (length (rheap s0)) (recSha s) M (f (unconfirmed s))"
  shows "book s0 (upd_unc f s)"
  using assms(1)
proof (rule bookI)
  show "frame s (upd_unc f s)" by (simp add: frame_def)
qed (use assms bookU bookD(3) in auto)

lemma book_unspent:
  assumes "book s0 s" and "wf_map m"
  shows "book s0 (s\<lparr>unspent := m\<rparr>)"
  using assms(1) by (rule bookI) (use assms bookU in \<open>auto simp: frame_def\<close>)

lemma uwf_updates [intro]:
  assumes "uwf n sha M u"
  shows "uwf n sha M (u\<lparr>u_txs := AList.delete k (u_txs u)\<rparr>)"
    and "uwf n sha M (u\<lparr>previousOutpoints := AList.delete op (previousOutpoints u)\<rparr>)"
    and "uwf n sha M (u\<lparr>spentUnconfirmed := AList.delete op (spentUnconfirmed u)\<rparr>)"
    and "uwf n sha M (u\<lparr>spentBlockOutPointKeys := AList.delete op (spentBlockOutPointKeys u)\<rparr>)"
    and "uwf n sha M (u\<lparr>spentBlockOutPoints := AList.delete key (spentBlockOutPoints u)\<rparr>)"
    and "uwf n sha M (u\<lparr>spentBlockOutPointKeys := AList.update op key (spentBlockOutPointKeys u)\<rparr>)"
    and "r < n \<Longrightarrow> uwf n sha M (u\<lparr>spentBlockOutPoints := AList.update key r (spentBlockOutPoints u)\<rparr>)"
    and "r < n \<Longrightarrow> uwf n sha M (u\<lparr>spentUnconfirmed := AList.update op r (spentUnconfirmed u)\<rparr>)"
    and "r < n \<Longrightarrow> sha r = k \<Longrightarrow> r \<notin> M \<Longrightarrow> uwf n sha M (u\<lparr>u_txs := AList.update k r (u_txs u)\<rparr>)"
  using assms by (auto simp: uwf_def)

lemma uwf_prevs:
  assumes "uwf n sha M u" and "refs_ok n m"
  shows "uwf n sha M (u\<lparr>previousOutpoints := m\<rparr>)"
  using assms by (simp add: uwf_def)

lemma uwf_refs:
  assumes "uwf n sha M u"
  shows "map_of (u_txs u) k = Some r \<Longrightarrow> r < n \<and> sha r = k \<and> r \<notin> M"
    and "map_of (spentBlockOutPoints u) key = Some r \<Longrightarrow> r < n"
    and "map_of (spentUnconfirmed u) op = Some r \<Longrightarrow> r < n"
    and "map_of (previousOutpoints u) op = Some r \<Longrightarrow> r < n"
    and "refs_ok n (previousOutpoints u)"
  using assms by (auto simp: uwf_def dest: refs_ok_lookup)

end
