(* ===== verification/Tx_Track.thy ===== *)
theory Tx_Track
  imports Tx_Wf
begin

text \<open>
  The interface between the bookkeeping of a store and the operations that track spends.

  \<open>conflict_removal\<close> lists the updates that the removal of a double spend is made of: a predicate of
  the store that each of them keeps is kept by \<open>removeDoubleSpends\<close>, errors included. \<open>spend_tracking\<close>
  adds the updates of \<open>AddDebits\<close>, \<open>AddCredit\<close> and of the credits and inputs of a mined transaction.
  The locales are interpreted on \<open>book s0\<close> (well-formed, same blocks and transactions as \<open>s0\<close>) and on
  the confirmed books of \<open>s0\<close>, which the removal of a double spend never touches.
\<close>

section \<open>Removal of double spends\<close>

locale conflict_removal =
  fixes P :: "Store \<Rightarrow> bool"
  assumes unspend: "P s \<Longrightarrow> P (snd (set_spentBy r i None s))"
    and del_prev: "P s \<Longrightarrow>
      P (upd_unc (\<lambda>u. u\<lparr>previousOutpoints := AList.delete op (previousOutpoints u)\<rparr>) s)"
    and del_key: "P s \<Longrightarrow> P (upd_unc (\<lambda>u. u\<lparr>
      spentBlockOutPointKeys := AList.delete op (spentBlockOutPointKeys u),
      spentBlockOutPoints := AList.delete key (spentBlockOutPoints u)\<rparr>) s)"
    and del_unc: "P s \<Longrightarrow>
      P (upd_unc (\<lambda>u. u\<lparr>spentUnconfirmed := AList.delete op (spentUnconfirmed u)\<rparr>) s)"
    and del_tx: "P s \<Longrightarrow> P (upd_unc (\<lambda>u. u\<lparr>u_txs := AList.delete h (u_txs u),
      previousOutpoints := fold (\<lambda>input. AList.delete (PreviousOutpoint input)) (ins :: TxIn list)
        (previousOutpoints u)\<rparr>) s)"
begin

lemma unspend_keeps [keeps]: "preserves P (set_spentBy r i None)"
  by (rule preservesI) (rule unspend)

lemma removeConflictInput_keeps [keeps]: "preserves P (removeConflictInput input)"
  unfolding removeConflictInput_def Let_def
  by (rule preserves_bindE, rule preserves_modifyE, erule del_prev, rule preserves_option_at)
     (intro keeps del_key del_unc | assumption)+

lemma removeConflict_keeps [keeps]: "preserves P (removeConflict fuel r)"
proof (induction fuel arbitrary: r)
  case (Suc fuel)
  have credit: "preserves P (\<lambda>s. removeConflictCredit (removeConflict fuel) r i s)" for r i
    unfolding removeConflictCredit_def by (rule preserves_option_at) (intro keeps Suc | assumption)+
  show ?case
    unfolding removeConflict.simps by (rule preserves_bindE_at) (intro keeps del_tx credit | assumption)+
qed (simp add: keeps)

lemma removeDoubleSpends_keeps [keeps]: "preserves P (removeDoubleSpends tx)"
proof
  fix s assume "P s"
  then show "P (snd (removeDoubleSpends tx s))"
    using removeConflict_keeps by (auto simp: removeDoubleSpends_def preserves_def simp del: removeConflict.simps
        split: option.splits)
qed

end

section \<open>Spend tracking\<close>

locale spend_tracking = conflict_removal P for P :: "Store \<Rightarrow> bool" +
  fixes N :: nat
  assumes credits: "P s \<Longrightarrow> P (upd_rec r (\<lambda>t. t\<lparr>rec_credits := cs t\<rparr>) s)"
    and debits: "P s \<Longrightarrow> P (upd_rec r (\<lambda>t. t\<lparr>rec_debits := d t\<rparr>) s)"
    and received: "P s \<Longrightarrow> P (upd_rec r (\<lambda>t. t\<lparr>rec_received := now\<rparr>) s)"
    and spendable: "P s \<Longrightarrow> P (addSpendable b a s)"
    and reward: "P s \<Longrightarrow> P (addReward b a s)"
    and unspent_upd: "P s \<Longrightarrow> P (s\<lparr>unspent := AList.update op bk (unspent s)\<rparr>)"
    and unspent_del: "P s \<Longrightarrow> P (s\<lparr>unspent := AList.delete op (unspent s)\<rparr>)"
    and key_upd: "P s \<Longrightarrow> r < N \<Longrightarrow> P (upd_unc (\<lambda>u. u\<lparr>
      spentBlockOutPointKeys := AList.update op key (spentBlockOutPointKeys u),
      spentBlockOutPoints := AList.update key r (spentBlockOutPoints u)\<rparr>) s)"
    and unc_upd: "P s \<Longrightarrow> r < N \<Longrightarrow>
      P (upd_unc (\<lambda>u. u\<lparr>spentUnconfirmed := AList.update op r (spentUnconfirmed u)\<rparr>) s)"
    and unc_ref: "P s \<Longrightarrow> map_of (spentUnconfirmed (unconfirmed s)) op = Some r \<Longrightarrow> r < N"
begin

lemma set_spentBy_keeps [keeps]: "preserves P (set_spentBy r i v)"
  by (rule preservesI)
     (auto simp: set_spentBy_def Let_def split: option.splits intro: credits)

lemma debits_ext:
  assumes "P s" and "\<And>t. f t = t\<lparr>rec_debits := d t\<rparr>"
  shows "P (upd_rec r f s)"
proof -
  have "f = (\<lambda>t. t\<lparr>rec_debits := d t\<rparr>)" using assms(2) by (rule ext)
  then show ?thesis using debits [OF assms(1)] by simp
qed

lemma appendSpend_keeps [keeps]: "preserves P (appendSpend r prev)"
  by (rule preservesI) (auto simp: appendSpend_def split: option.splits intro: debits)

lemma moveMinedInput_keeps [keeps]: "preserves P (moveMinedInput r key input)"
  unfolding moveMinedInput_def Let_def
  by (rule preserves_bindE, rule preserves_modifyE, erule del_prev, rule preserves_option_at)
     (intro keeps del_key | assumption)+

lemma unc_to_block:
  assumes "P s" and "r < N"
  shows "P (upd_unc (\<lambda>u. u\<lparr>
      spentUnconfirmed := AList.delete op (spentUnconfirmed u),
      spentBlockOutPointKeys := AList.update op key (spentBlockOutPointKeys u),
      spentBlockOutPoints := AList.update key r (spentBlockOutPoints u)\<rparr>) s)"
  using key_upd [OF del_unc [OF assms(1)] assms(2)] by (simp add: upd_unc_def)

lemma moveMinedCredit_keeps [keeps]: "preserves P (moveMinedCredit r b key i)"
proof
  fix s assume s: "P s"
  show "P (snd (moveMinedCredit r b key i s))"
    using s unfolding moveMinedCredit_def Let_def
    by (auto simp: bindE_def modifyE_def liftE_def retE_def
        split: option.splits sum.splits dest: unc_ref
        intro!: credits unc_to_block spendable unspent_upd)
qed

lemma markOutputSpent_keeps:
  assumes "tr_rec t < N"
  shows "preserves (\<lambda>sa. P (fst sa)) (markOutputSpent t prev)"
proof
  fix sa :: "Store \<times> Amount" assume sa: "P (fst sa)"
  have sp: "P (snd (set_spentBy r i v (fst sa)))" for r i v
    using sa set_spentBy_keeps by (simp add: preserves_def)
  show "P (fst (snd (markOutputSpent t prev sa)))"
    using assms sa sp by (auto simp: markOutputSpent_def Let_def split: option.splits sum.splits
        intro!: unc_upd key_upd unspent_del)
qed

lemma markOutputsSpent_keeps:
  assumes "tr_rec t < N"
  shows "preserves P (markOutputsSpent spent t)"
proof
  fix s assume s: "P s"
  have "preserves (\<lambda>sa. P (fst sa)) (forE (markOutputSpent t) spent)"
    by (intro keeps markOutputSpent_keeps assms)
  then have "P (fst (snd (forE (markOutputSpent t) spent (s, 0))))"
    using s by (simp add: preserves_def)
  then show "P (snd (markOutputsSpent spent t s))"
    by (auto simp: markOutputsSpent_def split: prod.splits sum.splits intro!: spendable)
qed

lemma addDebitsTrack_keeps:
  assumes "tr_rec t < N" and "P s"
  shows "P (addDebitsTrack t spent s)"
proof -
  have one: "P (addDebitsTrackUnconfirmed t c s)" if "P s" for c s
    using assms(1) that by (auto simp: addDebitsTrackUnconfirmed_def Let_def intro: unc_upd key_upd)
  have "P (fold (addDebitsTrackUnconfirmed t) spent s)"
    using assms(2) by (induction spent arbitrary: s) (auto intro: one)
  moreover have "P (upd_rec (tr_rec t) (\<lambda>r. case rec_debits r of None \<Rightarrow> r
      | Some d \<Rightarrow> if debit_spends d = None
          then r\<lparr>rec_debits := Some (d\<lparr>debit_spends := Some (map outputKey spent)\<rparr>)\<rparr> else r) s)"
    by (rule debits_ext [where d = "\<lambda>r. case rec_debits r of None \<Rightarrow> None
      | Some d \<Rightarrow> Some (if debit_spends d = None
          then d\<lparr>debit_spends := Some (map outputKey spent)\<rparr> else d)"])
       (use assms in \<open>auto split: option.splits\<close>)
  ultimately show ?thesis unfolding addDebitsTrack_def by simp
qed

lemma AddDebits_keeps:
  assumes "tr_rec t < N"
  shows "preserves P (AddDebits t spent)"
proof
  fix s assume s: "P s"
  have m: "P (snd (markOutputsSpent sp t s))" for sp
    using s markOutputsSpent_keeps [OF assms] by (simp add: preserves_def)
  then have "P s'" if "markOutputsSpent sp t s = (r, s')" for sp r s'
    using that by (metis snd_conv)
  then show "P (snd (AddDebits t spent s))"
    using s by (auto simp: AddDebits_def split: option.splits sum.splits prod.splits
        intro!: addDebitsTrack_keeps assms debits)
qed

lemma setCredit_keeps [keeps]: "preserves P (setCredit r index change tx)"
  by (rule preservesI) (auto simp: setCredit_def Let_def intro!: credits)

lemma AddCredit_keeps [keeps]: "preserves P (AddCredit t index change)"
proof
  fix s assume s: "P s"
  then have "P s1" if "setCredit r index change tx s = (x, s1)" for r tx x s1
    using that setCredit_keeps by (metis preservesD)
  then show "P (snd (AddCredit t index change s))"
    using s by (auto simp: AddCredit_def Let_def split: sum.splits prod.splits
        intro!: reward spendable unspent_upd)
qed

end

section \<open>Interpretations\<close>

interpretation bk: spend_tracking "book s0" "length (rheap s0)" for s0
proof
  fix s assume b: "book s0 s"
  note U = bookU [OF b] and L = bookD(3) [OF b]
  show "book s0 (upd_rec r (\<lambda>t. t\<lparr>rec_credits := cs t\<rparr>) s)"
    and "book s0 (upd_rec r (\<lambda>t. t\<lparr>rec_debits := d t\<rparr>) s)"
    and "book s0 (upd_rec r (\<lambda>t. t\<lparr>rec_received := now\<rparr>) s)" for r cs d now
    using b by (auto intro!: book_upd_rec)
  show "book s0 (snd (set_spentBy r i None s))" for r i
    using b by (auto simp: set_spentBy_def Let_def split: option.split intro!: book_upd_rec)
  show "book s0 (addSpendable bb a s)" and "book s0 (addReward bb a s)" for bb a
    using b by auto
  show "book s0 (s\<lparr>unspent := AList.update op bk (unspent s)\<rparr>)"
    and "book s0 (s\<lparr>unspent := AList.delete op (unspent s)\<rparr>)" for op bk
    using b U by (auto intro!: book_unspent)
  show "map_of (spentUnconfirmed (unconfirmed s)) op = Some r \<Longrightarrow> r < length (rheap s0)" for op r
    using uwf_refs(3) [OF U(2)] L by simp
qed (auto intro!: book_upd_unc simp: uwf_def refs_ok_fold_delete)

text \<open>The confirmed side of the books: blocks, indexes, unspent outputs and amounts.\<close>

definition confirmedBooks :: "Store \<Rightarrow> bref list \<times> (i32, nat) gomap \<times> (OutPoint, BlockTxKey) gomap \<times>
    blockTxCollection list" where
  "confirmedBooks s = (blocks s, blockIndexes s, unspent s, bheap s)"

interpretation cb: conflict_removal "\<lambda>s. confirmedBooks s = confirmedBooks s0" for s0
  by unfold_locales (simp_all add: confirmedBooks_def set_spentBy_def Let_def split: option.split)

end
