(* ===== verification/Tx_Inv.thy ===== *)
theory Tx_Inv
  imports Tx_Track
begin

text \<open>
  Insertion keeps the store well formed.

  A block is in order when it is known or higher than every known block, a transaction is in order
  when its index is not below the last index of its block: these are the conditions under which
  \<open>blockCollectionForInserts\<close> and \<open>txRecordForInserts\<close> append. Under them every operation keeps
  \<open>store_wf\<close>, errors included. The other branch of both functions overwrites the array it still
  reads; \<open>Tx_Props\<close> shows what it does to the store.
\<close>

section \<open>Lookups of a well-formed store\<close>

lemma lookupBlock_Inr:
  assumes "blocks_ok s" and "lookupBlock s h = Inr b"
  shows "b \<in> set (blocks s)" and "collHeight s b = h" and "b < length (bheap s)"
  using assms index_ok_Some [of "collHeight s" "blocks s" "blockIndexes s" h]
  by (auto simp: lookupBlock_def blocks_ok_def split: option.splits if_splits)

lemma lookupBlock_Inl:
  assumes "blocks_ok s" and "lookupBlock s h = Inl e"
  shows "e = MissingBlockError h" and "h \<notin> collHeight s ` set (blocks s)"
    and "map_of (blockIndexes s) h = None"
proof -
  have i: "index_ok (collHeight s) (blocks s) (blockIndexes s)" using assms(1) by (simp add: blocks_ok_def)
  show n: "map_of (blockIndexes s) h = None"
    using assms(2) index_ok_Some [OF i] by (auto simp: lookupBlock_def split: option.splits if_splits)
  show "e = MissingBlockError h" using assms(2) n by (simp add: lookupBlock_def)
  show "h \<notin> collHeight s ` set (blocks s)" using n index_ok_None [OF i] by blast
qed

lemma lookupBlock_hit:
  assumes "blocks_ok s" and "b \<in> set (blocks s)"
  shows "lookupBlock s (collHeight s b) = Inr b"
proof -
  obtain i where i: "i < length (blocks s)" "blocks s ! i = b" using assms(2) by (auto simp: in_set_conv_nth)
  then have "map_of (blockIndexes s) (collHeight s b) = Some i"
    using assms(1) unfolding blocks_ok_def index_ok_def by blast
  with i show ?thesis by (simp add: lookupBlock_def)
qed

lemma lookupBlockTx_Inr:
  assumes "store_wf s" and "lookupBlockTx s key = Inr r"
  shows "r \<in> set (mined s)" and "recIndex s r = BlockIndex key" and "r < length (rheap s)"
proof -
  obtain b where b: "lookupBlock s (BlockHeight key) = Inr b"
    using assms(2) by (auto simp: lookupBlockTx_def split: sum.splits)
  have m: "b \<in> set (blocks s)" using lookupBlock_Inr(1) [OF _ b] assms(1) by (simp add: store_wf_def)
  then have i: "index_ok (recIndex s) (txs (bget s b)) (txIndexes (bget s b))"
    using assms(1) by (simp add: store_wf_def colls_ok_def)
  have r: "r \<in> set (txs (bget s b)) \<and> recIndex s r = BlockIndex key"
    using assms(2) b index_ok_Some [OF i]
    by (auto simp: lookupBlockTx_def Let_def split: option.splits if_splits)
  then show "recIndex s r = BlockIndex key" ..
  show "r \<in> set (mined s)" using r m by (auto simp: mined_def)
  then show "r < length (rheap s)" using assms(1) by (simp add: store_wf_def colls_ok_def)
qed

lemma lookupBlockTx_Inl:
  assumes wf: "store_wf s" and e: "lookupBlockTx s key = Inl e"
  shows "is_MissingValueError e"
    and "lookupBlock s (BlockHeight key) = Inr b \<Longrightarrow>
         BlockIndex key \<notin> recIndex s ` set (txs (bget s b))"
proof -
  have B: "blocks_ok s" using wf by (simp add: store_wf_def)
  have i: "index_ok (recIndex s) (txs (bget s b)) (txIndexes (bget s b))"
    if "lookupBlock s (BlockHeight key) = Inr b" for b
    using wf lookupBlock_Inr(1) [OF B that] by (simp add: store_wf_def colls_ok_def)
  show "is_MissingValueError e"
    using e lookupBlock_Inl(1) [OF B, of "BlockHeight key"] index_ok_Some [OF i]
    by (cases "lookupBlock s (BlockHeight key)")
       (auto simp: lookupBlockTx_def Let_def split: option.splits if_splits)
  show "BlockIndex key \<notin> recIndex s ` set (txs (bget s b))"
    if b: "lookupBlock s (BlockHeight key) = Inr b"
    using e b index_ok_Some [OF i [OF b]] index_ok_None [OF i [OF b]]
    by (auto simp: lookupBlockTx_def Let_def split: option.splits if_splits)
qed

lemma lookupBlockTx_hit:
  assumes wf: "store_wf s" and b: "b \<in> set (blocks s)" and r: "r \<in> set (txs (bget s b))"
  shows "lookupBlockTx s \<lparr>BlockIndex = recIndex s r, BlockHeight = collHeight s b\<rparr> = Inr r"
proof -
  obtain i where i: "i < length (txs (bget s b))" "txs (bget s b) ! i = r"
    using r by (auto simp: in_set_conv_nth)
  then have "map_of (txIndexes (bget s b)) (recIndex s r) = Some i"
    using wf b unfolding store_wf_def colls_ok_def index_ok_def by blast
  with i show ?thesis using lookupBlock_hit [OF _ b] wf
    by (simp add: lookupBlockTx_def store_wf_def)
qed

section \<open>Allocation and attachment\<close>

lemma store_wf_alloc:
  assumes "store_wf s"
  shows "store_wf (s\<lparr>rheap := rheap s @ [t]\<rparr>)"
proof -
  let ?s = "s\<lparr>rheap := rheap s @ [t]\<rparr>"
  have old: "recIndex ?s r = recIndex s r" "recSha ?s r = recSha s r" if "r < length (rheap s)" for r
    using that by (simp_all add: recIndex_def recSha_def nth_append)
  have m: "mined ?s = mined s" "collHeight ?s = collHeight s"
    by (auto simp: mined_def collHeight_def fun_eq_iff)
  have lt: "\<And>r. r \<in> set (mined s) \<Longrightarrow> r < length (rheap s)" using assms by (simp add: store_wf_def colls_ok_def)
  have "index_ok (recIndex ?s) (txs (bget s b)) (txIndexes (bget s b))" if b: "b \<in> set (blocks s)" for b
  proof -
    have "recIndex ?s r = recIndex s r" if "r \<in> set (txs (bget s b))" for r
      using old(1) lt b that by (auto simp: mined_def)
    then show ?thesis using assms b index_ok_cong [of "txs (bget s b)" "recIndex ?s" "recIndex s"]
      by (simp add: store_wf_def colls_ok_def)
  qed
  then have c: "colls_ok ?s" using assms m lt by (auto simp: colls_ok_def store_wf_def less_Suc_eq)
  have "uwf (Suc (length (rheap s))) (recSha s) (set (mined s)) (unconfirmed s)"
    using assms unfolding store_wf_def unc_ok_def uwf_def by (auto intro: refs_ok_mono)
  moreover have "map_of (u_txs (unconfirmed s)) k = Some r \<Longrightarrow> r < length (rheap s)" for k r
    using assms uwf_refs(1) unfolding store_wf_def unc_ok_def by blast
  ultimately have "unc_ok ?s" using assms m old(2)
    by (auto simp: unc_ok_def uwf_def store_wf_def)
  with c show ?thesis using assms m by (simp add: store_wf_def blocks_ok_def)
qed

definition attach :: "bref \<Rightarrow> rref \<Rightarrow> Store \<Rightarrow> Store" where
  "attach b r s = upd_coll b (\<lambda>c. c\<lparr>
     txIndexes := AList.update (recIndex s r) (length (txs c)) (txIndexes c), txs := txs c @ [r]\<rparr>) s"

lemma distinct_concat_extend:
  assumes "distinct bs" and "b \<in> set bs" and "distinct (concat (map f bs))"
    and "r \<notin> set (concat (map f bs))" and "\<And>x. x \<noteq> b \<Longrightarrow> g x = f x" and "g b = f b @ [r]"
  shows "distinct (concat (map g bs))" and "set (concat (map g bs)) = insert r (set (concat (map f bs)))"
proof -
  obtain xs ys where bs: "bs = xs @ b # ys" using assms(2) by (auto simp: in_set_conv_decomp)
  then have g: "map g bs = map f xs @ (f b @ [r]) # map f ys"
    using assms(1,6) by (auto intro!: assms(5))
  show "distinct (concat (map g bs))"
    and "set (concat (map g bs)) = insert r (set (concat (map f bs)))"
    unfolding g using assms(3,4) bs by (auto simp: distinct_append)
qed

lemma sorted_wrt_sless_distinct:
  "sorted_wrt (\<lambda>a b. k a <s (k b :: 'w::len word)) xs \<Longrightarrow> distinct xs"
  by (induction xs) (auto simp: signed_order)

lemma blocks_distinct: "blocks_ok s \<Longrightarrow> distinct (blocks s)"
  by (auto simp: blocks_ok_def intro: sorted_wrt_sless_distinct)

lemma attach_fields [simp]:
  "blocks (attach b r s) = blocks s" "blockIndexes (attach b r s) = blockIndexes s"
  "unspent (attach b r s) = unspent s" "unconfirmed (attach b r s) = unconfirmed s"
  "rheap (attach b r s) = rheap s" "length (bheap (attach b r s)) = length (bheap s)"
  "recIndex (attach b r s) = recIndex s" "recSha (attach b r s) = recSha s"
  by (auto simp: attach_def recIndex_def recSha_def fun_eq_iff)

lemma attach_height [simp]: "collHeight (attach b r s) = collHeight s"
proof
  fix x show "collHeight (attach b r s) x = collHeight s x"
    by (cases "b < length (bheap s)"; cases "x = b")
       (auto simp: attach_def collHeight_def upd_coll_def list_update_beyond)
qed

lemma attach_mined:
  assumes wf: "store_wf s" and b: "b \<in> set (blocks s)" and r: "r \<notin> set (mined s)"
  shows "distinct (mined (attach b r s))" and "set (mined (attach b r s)) = insert r (set (mined s))"
proof -
  have "b < length (bheap s)" using wf b by (simp add: store_wf_def blocks_ok_def)
  then have g: "txs (bget (attach b r s) x) = (if x = b then txs (bget s b) @ [r] else txs (bget s x))" for x
    by (simp add: attach_def bget_upd_coll)
  have "distinct (blocks s)" "distinct (mined s)"
    using wf by (auto simp: store_wf_def colls_ok_def intro: blocks_distinct)
  then show "distinct (mined (attach b r s))" and "set (mined (attach b r s)) = insert r (set (mined s))"
    using distinct_concat_extend [of "blocks s" b "\<lambda>b. txs (bget s b)" r "\<lambda>x. txs (bget (attach b r s) x)"]
      b r g by (simp_all add: mined_def)
qed

lemma store_wf_attach:
  assumes wf: "store_wf s" and b: "b \<in> set (blocks s)" and r: "r < length (rheap s)" "r \<notin> set (mined s)"
    and new: "recIndex s r \<notin> recIndex s ` set (txs (bget s b))"
    and unc: "\<And>k. map_of (u_txs (unconfirmed s)) k \<noteq> Some r"
  shows "store_wf (attach b r s)"
proof -
  have len: "b < length (bheap s)" using wf b by (simp add: store_wf_def blocks_ok_def)
  have g: "bget (attach b r s) x = (if x = b then (bget s b)\<lparr>
     txIndexes := AList.update (recIndex s r) (length (txs (bget s b))) (txIndexes (bget s b)),
     txs := txs (bget s b) @ [r]\<rparr> else bget s x)" for x
    using len by (simp add: attach_def bget_upd_coll)
  have "index_ok (recIndex s) (txs (bget s x)) (txIndexes (bget s x))" if "x \<in> set (blocks s)" for x
    using wf that by (simp add: store_wf_def colls_ok_def)
  then have "colls_ok (attach b r s)"
    using wf r attach_mined [OF wf b r(2)] index_ok_append [OF _ new] b
    by (auto simp: colls_ok_def g store_wf_def)
  moreover have "blocks_ok (attach b r s)" using wf by (simp add: blocks_ok_def store_wf_def)
  moreover have "unc_ok (attach b r s)"
    using wf unc attach_mined(2) [OF wf b r(2)] by (auto simp: unc_ok_def uwf_def store_wf_def)
  ultimately show ?thesis by (simp add: store_wf_def)
qed

section \<open>Block collections\<close>

definition block_in_order :: "Store \<Rightarrow> Block \<Rightarrow> bool" where
  "block_in_order s blk \<longleftrightarrow> (case lookupBlock s (block_Height blk) of
     Inr b \<Rightarrow> True
   | Inl e \<Rightarrow> blocks s = [] \<or> \<not> block_Height blk <s collHeight s (last (blocks s)))"

definition addColl :: "Block \<Rightarrow> Store \<Rightarrow> Store" where
  "addColl blk s = s\<lparr>bheap := bheap s @ [newCollection blk],
     blockIndexes := AList.update (block_Height blk) (length (blocks s)) (blockIndexes s),
     blocks := blocks s @ [length (bheap s)]\<rparr>"

lemma addColl_fields [simp]:
  "blocks (addColl blk s) = blocks s @ [length (bheap s)]"
  "rheap (addColl blk s) = rheap s" "unspent (addColl blk s) = unspent s"
  "unconfirmed (addColl blk s) = unconfirmed s"
  "bget (addColl blk s) (length (bheap s)) = newCollection blk"
  "recIndex (addColl blk s) = recIndex s" "recSha (addColl blk s) = recSha s"
  by (auto simp: addColl_def recIndex_def recSha_def fun_eq_iff)

lemma addColl_old: "b < length (bheap s) \<Longrightarrow> bget (addColl blk s) b = bget s b"
  by (simp add: addColl_def nth_append)

lemma addColl_mined: "blocks_ok s \<Longrightarrow> mined (addColl blk s) = mined s"
proof -
  assume "blocks_ok s"
  then have "map (\<lambda>b. txs (bget (addColl blk s) b)) (blocks s) = map (\<lambda>b. txs (bget s b)) (blocks s)"
    by (auto simp: blocks_ok_def addColl_old)
  then show ?thesis unfolding mined_def by (simp only: addColl_fields map_append concat_append)
      (simp add: newCollection_def)
qed

lemma last_greatest:
  assumes "sorted_wrt (\<lambda>a b. k a <s (k b :: 'w::len word)) xs" and "\<not> h <s k (last xs)"
    and "h \<notin> k ` set xs" and "x \<in> set xs"
  shows "k x <s h"
proof -
  have "xs \<noteq> []" using assms(4) by auto
  then have "xs = butlast xs @ [last xs]" by simp
  then have "x = last xs \<or> k x <s k (last xs)" using assms(1,4)
    by (metis Un_iff empty_iff empty_set insert_iff list.set(2) set_append sorted_wrt_append)
  moreover have "k (last xs) \<noteq> h" using assms(3) last_in_set [OF \<open>xs \<noteq> []\<close>] by blast
  ultimately show ?thesis using assms(2) by (auto simp: signed_order)
     (metis linorder_neqE signed_word_eqI)
qed

lemma store_wf_addColl:
  assumes wf: "store_wf s" and new: "block_Height blk \<notin> collHeight s ` set (blocks s)"
    and ord: "blocks s = [] \<or> \<not> block_Height blk <s collHeight s (last (blocks s))"
  shows "store_wf (addColl blk s)"
proof -
  let ?s = "addColl blk s"
  have B: "blocks_ok s" using wf by (simp add: store_wf_def)
  then have lt: "\<And>b. b \<in> set (blocks s) \<Longrightarrow> b < length (bheap s)" by (simp add: blocks_ok_def)
  have h: "\<And>b. b \<in> set (blocks s) \<Longrightarrow> collHeight ?s b = collHeight s b"
    using lt by (simp add: collHeight_def addColl_old)
  have hb: "collHeight ?s (length (bheap s)) = block_Height blk"
    by (simp add: collHeight_def newCollection_def)
  have "index_ok (collHeight ?s) (blocks s) (blockIndexes s)"
    using B h index_ok_cong [of "blocks s" "collHeight ?s" "collHeight s"] by (simp add: blocks_ok_def)
  then have i: "index_ok (collHeight ?s) (blocks ?s) (blockIndexes ?s)"
    using index_ok_append [of "collHeight ?s" "blocks s" "blockIndexes s" "length (bheap s)"] new h hb
    by (simp add: addColl_def)
  have so: "sorted_wrt (\<lambda>a b. collHeight s a <s collHeight s b) (blocks s)" using B by (simp add: blocks_ok_def)
  then have "sorted_wrt (\<lambda>a b. collHeight ?s a <s collHeight ?s b) (blocks ?s)"
    using h hb ord last_greatest [OF so _ new]
    by (auto simp: sorted_wrt_append elim!: sorted_wrt_mono_rel [rotated])
  with i have "blocks_ok ?s" using lt by (auto simp: blocks_ok_def addColl_def intro: less_SucI)
  moreover have "colls_ok ?s"
    using wf addColl_mined [OF B] lt by (auto simp: colls_ok_def store_wf_def addColl_old newCollection_def)
  moreover have "unc_ok ?s" using wf addColl_mined [OF B] by (simp add: unc_ok_def store_wf_def)
  ultimately show ?thesis by (simp add: store_wf_def)
qed

text \<open>In order, the collection is found or appended.\<close>

lemma blockCollectionForInserts_in_order:
  assumes wf: "store_wf s" and ord: "block_in_order s blk"
  shows "blockCollectionForInserts blk s =
    (case lookupBlock s (block_Height blk) of Inr b \<Rightarrow> (Inr b, s)
     | Inl e \<Rightarrow> (Inr (length (bheap s)), addColl blk s))"
proof (cases "lookupBlock s (block_Height blk)")
  case (Inl e)
  have e: "e = MissingBlockError (block_Height blk)"
    using lookupBlock_Inl(1) [OF _ Inl] wf by (simp add: store_wf_def)
  have "\<not> (0 < length (blocks s) \<and>
    block_Height blk <s collHeight s (blocks s ! (length (blocks s) - 1)))"
    using ord Inl by (cases "blocks s = []") (auto simp: block_in_order_def last_conv_nth)
  with Inl e show ?thesis by (auto simp: blockCollectionForInserts_def addColl_def Let_def)
qed (simp add: blockCollectionForInserts_def)

lemma blockCollectionForInserts_wf:
  assumes wf: "store_wf s" and ord: "block_in_order s blk"
    and c: "blockCollectionForInserts blk s = (res, s')"
  obtains b where "res = Inr b" and "store_wf s'" and "b \<in> set (blocks s')"
    and "collHeight s' b = block_Height blk" and "mined s' = mined s" and "rheap s' = rheap s"
    and "unconfirmed s' = unconfirmed s" and "unspent s' = unspent s"
    and "lookupBlock s (block_Height blk) = Inr b \<and> s' = s \<or> txs (bget s' b) = []"
proof (cases "lookupBlock s (block_Height blk)")
  case (Inr b)
  then have "res = Inr b" "s' = s" using c blockCollectionForInserts_in_order [OF wf ord] by simp_all
  then show ?thesis using that Inr wf lookupBlock_Inr [OF _ Inr] by (simp add: store_wf_def)
next
  case (Inl e)
  have B: "blocks_ok s" using wf by (simp add: store_wf_def)
  have s': "res = Inr (length (bheap s))" "s' = addColl blk s"
    using c Inl blockCollectionForInserts_in_order [OF wf ord] by simp_all
  have "store_wf s'"
    using store_wf_addColl [OF wf lookupBlock_Inl(2) [OF B Inl]] ord Inl s'(2)
    by (simp add: block_in_order_def)
  then show ?thesis using that s' addColl_mined [OF B]
    by (simp add: collHeight_def newCollection_def)
qed

section \<open>Records\<close>

definition tx_in_order :: "Store \<Rightarrow> Tx \<Rightarrow> Block \<Rightarrow> bool" where
  "tx_in_order s tx blk \<longleftrightarrow> (case lookupBlock s (block_Height blk) of
     Inl e \<Rightarrow> True
   | Inr b \<Rightarrow> (let rs = txs (bget s b) in
       rs = [] \<or> \<not> TxIndex tx <s recIndex s (last rs)))"

lemma recIndex_alloc [simp]:
  "recIndex (s\<lparr>rheap := rheap s @ [newRecord tx]\<rparr>) (length (rheap s)) = TxIndex tx"
  "recSha (s\<lparr>rheap := rheap s @ [newRecord tx]\<rparr>) (length (rheap s)) = TxSha tx"
  by (simp_all add: recIndex_def recSha_def newRecord_def)

lemma recIndex_alloc_old:
  "r < length (rheap s) \<Longrightarrow> recIndex (s\<lparr>rheap := rheap s @ [t]\<rparr>) r = recIndex s r"
  by (simp add: recIndex_def nth_append)

lemma mined_rheap [simp]: "mined (s\<lparr>rheap := h\<rparr>) = mined s"
  by (simp add: mined_def)

lemma mined_ref: "store_wf s \<Longrightarrow> r \<in> set (mined s) \<Longrightarrow> r < length (rheap s)"
  by (simp add: store_wf_def colls_ok_def)

lemma txs_mined: "b \<in> set (blocks s) \<Longrightarrow> r \<in> set (txs (bget s b)) \<Longrightarrow> r \<in> set (mined s)"
  by (auto simp: mined_def)

text \<open>In order, a record of a new index is allocated and attached.\<close>

lemma txRecordForInserts_in_order:
  assumes wf: "store_wf s" and b: "b \<in> set (blocks s)"
    and new: "TxIndex tx \<notin> recIndex s ` set (txs (bget s b))"
    and ord: "txs (bget s b) = [] \<or> \<not> TxIndex tx <s recIndex s (last (txs (bget s b)))"
  shows "txRecordForInserts b tx s =
    (Inr (length (rheap s)), attach b (length (rheap s)) (s\<lparr>rheap := rheap s @ [newRecord tx]\<rparr>))"
proof -
  have "index_ok (recIndex s) (txs (bget s b)) (txIndexes (bget s b))"
    using wf b by (simp add: store_wf_def colls_ok_def)
  from index_ok_None [OF this] new have n: "map_of (txIndexes (bget s b)) (TxIndex tx) = None" by blast
  have "\<not> (0 < length (txs (bget s b)) \<and>
      TxIndex tx <s recIndex s (txs (bget s b) ! (length (txs (bget s b)) - 1)))"
    using ord by (cases "txs (bget s b) = []") (auto simp: last_conv_nth)
  with n show ?thesis by (auto simp: txRecordForInserts_def attach_def Let_def upd_coll_def)
qed

lemma txRecordForInserts_wf:
  assumes wf: "store_wf s" and b: "b \<in> set (blocks s)"
    and new: "TxIndex tx \<notin> recIndex s ` set (txs (bget s b))"
  shows "store_wf (attach b (length (rheap s)) (s\<lparr>rheap := rheap s @ [newRecord tx]\<rparr>))"
proof (rule store_wf_attach [OF store_wf_alloc [OF wf]])
  let ?s = "s\<lparr>rheap := rheap s @ [newRecord tx]\<rparr>"
  show "b \<in> set (blocks ?s)" using b by simp
  show "length (rheap s) \<notin> set (mined ?s)" using mined_ref [OF wf] by auto
  have "recIndex ?s r = recIndex s r" if "r \<in> set (txs (bget s b))" for r
    using mined_ref [OF wf] txs_mined [OF b that] by (simp add: recIndex_alloc_old)
  then show "recIndex ?s (length (rheap s)) \<notin> recIndex ?s ` set (txs (bget ?s b))" using new by auto
  show "map_of (u_txs (unconfirmed ?s)) k \<noteq> Some (length (rheap s))" for k
    using wf uwf_refs(1) unfolding store_wf_def unc_ok_def by fastforce
qed simp

lemma unc_txRecordForInserts_wf:
  assumes wf: "store_wf s" and c: "unc_txRecordForInserts tx s = (res, s')"
  obtains r where "res = Inr r" and "store_wf s'" and "map_of (u_txs (unconfirmed s')) (TxSha tx) = Some r"
    and "r < length (rheap s')"
proof (cases "map_of (u_txs (unconfirmed s)) (TxSha tx)")
  case (Some r)
  then have "r < length (rheap s)" using wf uwf_refs(1) unfolding store_wf_def unc_ok_def by blast
  with Some show ?thesis using c wf that [of r] by (auto simp: unc_txRecordForInserts_def)
next
  case None
  let ?s = "s\<lparr>rheap := rheap s @ [newRecord tx]\<rparr>" and ?r = "length (rheap s)"
  let ?f = "\<lambda>u. u\<lparr>u_txs := AList.update (TxSha tx) ?r (u_txs u), previousOutpoints :=
    fold (\<lambda>input m. AList.update (PreviousOutpoint input) ?r m) (TxIns (TxMsg tx)) (previousOutpoints u)\<rparr>"
  have s': "res = Inr ?r" "s' = upd_unc ?f ?s"
    using c None by (simp_all add: unc_txRecordForInserts_def Let_def)
  have wf1: "store_wf ?s" using wf by (rule store_wf_alloc)
  have fresh: "?r \<notin> set (mined ?s)" using mined_ref [OF wf] by auto
  have u: "uwf (length (rheap ?s)) (recSha ?s) (set (mined ?s)) (unconfirmed ?s)"
    using wf1 by (simp add: store_wf_def unc_ok_def)
  have "uwf (length (rheap ?s)) (recSha ?s) (set (mined ?s)) (?f (unconfirmed ?s))"
    by (intro uwf_prevs uwf_updates(9) [OF u] refs_ok_fold_update) (use fresh uwf_refs(5) [OF u] in simp_all)
  then have "store_wf s'" unfolding s'(2)
    using frame_unc_ok [OF _ wf1, of "upd_unc ?f ?s"] wf1
    by (simp add: frame_def store_wf_def [of ?s] unc_ok_def)
  then show ?thesis using that s' by simp
qed

section \<open>Mining an unconfirmed transaction\<close>

lemma SetIndex_fields [simp]:
  "blocks (SetIndex r i s) = blocks s" "blockIndexes (SetIndex r i s) = blockIndexes s"
  "unspent (SetIndex r i s) = unspent s" "unconfirmed (SetIndex r i s) = unconfirmed s"
  "bheap (SetIndex r i s) = bheap s" "length (rheap (SetIndex r i s)) = length (rheap s)"
  "mined (SetIndex r i s) = mined s"
  by (simp_all add: SetIndex_def mined_def)

lemma SetIndex_views:
  assumes "r < length (rheap s)"
  shows "recIndex (SetIndex r i s) x = (if x = r then i else recIndex s x)"
    and "recSha (SetIndex r i s) x = recSha s x"
    and "collHeight (SetIndex r i s) b = collHeight s b"
    and "rec_credits (rget (SetIndex r i s) x) = rec_credits (rget s x)"
    and "rec_debits (rget (SetIndex r i s) x) = rec_debits (rget s x)"
    and "recTxIns (SetIndex r i s) x = recTxIns s x"
  using assms
  by (simp_all add: SetIndex_def recIndex_def recSha_def collHeight_def recTxIns_def rget_upd_rec)

lemma store_wf_SetIndex:
  assumes wf: "store_wf s" and r: "r < length (rheap s)" "r \<notin> set (mined s)"
  shows "store_wf (SetIndex r i s)"
proof -
  have "recIndex (SetIndex r i s) x = recIndex s x" if "b \<in> set (blocks s)" "x \<in> set (txs (bget s b))" for b x
    using that txs_mined [OF that] r by (auto simp: SetIndex_views)
  then have "index_ok (recIndex (SetIndex r i s)) (txs (bget s b)) (txIndexes (bget s b))"
    if "b \<in> set (blocks s)" for b
    using wf that index_ok_cong [of "txs (bget s b)" "recIndex (SetIndex r i s)" "recIndex s"]
    by (simp add: store_wf_def colls_ok_def)
  then have "colls_ok (SetIndex r i s)" using wf by (simp add: store_wf_def colls_ok_def)
  moreover have "collHeight (SetIndex r i s) = collHeight s" "recSha (SetIndex r i s) = recSha s"
    using r(1) by (simp_all add: SetIndex_views fun_eq_iff)
  ultimately show ?thesis using wf by (simp add: store_wf_def blocks_ok_def unc_ok_def)
qed

lemma upd_unc_book:
  assumes wf: "store_wf s"
  shows "book s (upd_unc (\<lambda>u. u\<lparr>u_txs := AList.delete h (u_txs u)\<rparr>) s)"
  by (rule book_upd_unc [OF book_refl [OF wf]]) auto

lemma move_attach:
  "preserves (book s0) (bindE (forE (moveMinedInput r key) ins)
      (\<lambda>_. bindE (\<lambda>s. forE (moveMinedCredit r b key) [0..<length (rec_credits (rget s r))] s)
      (\<lambda>_. modifyE (\<lambda>s. case rec_debits (rget s r) of None \<Rightarrow> s
          | Some d \<Rightarrow> addSpendable b (- debit_amount d) s))))"
proof -
  have 1: "preserves (book s0) (\<lambda>s. forE (moveMinedCredit r b key) [0..<length (rec_credits (rget s r))] s)"
    by (rule preservesI, rule preserves_at [OF preserves_forE [OF bk.moveMinedCredit_keeps]])
  have 2: "book s0 s' \<Longrightarrow> book s0 (case rec_debits (rget s' r) of None \<Rightarrow> s'
          | Some d \<Rightarrow> addSpendable b (- debit_amount d) s')" for s'
    by (auto split: option.split)
  show ?thesis by (intro keeps bk.moveMinedInput_keeps 1 2)
qed

text \<open>The record is out of the unconfirmed map, so it can be attached; what follows stays in the frame
  of the store after the attachment.\<close>

lemma moveMinedTx_wf:
  assumes wf: "store_wf s" and ord: "block_in_order s blk"
    and r: "map_of (u_txs (unconfirmed s)) (recSha s r) = Some r"
    and new: "\<And>b. lookupBlock s (block_Height blk) = Inr b \<Longrightarrow>
        recIndex s r \<notin> recIndex s ` set (txs (bget s b))"
    and c: "moveMinedTx r blk s = (res, s')"
  shows "store_wf s'"
    and "lookupBlockTx s' \<lparr>BlockIndex = recIndex s r, BlockHeight = block_Height blk\<rparr> = Inr r"
    and "recSha s' r = recSha s r"
proof -
  define s1 where "s1 = upd_unc (\<lambda>u. u\<lparr>u_txs := AList.delete (recSha s r) (u_txs u)\<rparr>) s"
  have rr: "r < length (rheap s)" "r \<notin> set (mined s)"
    using r uwf_refs(1) wf unfolding store_wf_def unc_ok_def by blast+
  have u: "map_of (u_txs (unconfirmed s)) k = Some r \<Longrightarrow> k = recSha s r" for k
    using uwf_refs(1) wf unfolding store_wf_def unc_ok_def by blast
  have bk1: "book s s1" unfolding s1_def using wf by (rule upd_unc_book)
  have views: "recIndex s1 = recIndex s" "lookupBlock s1 = lookupBlock s" "mined s1 = mined s"
      "collHeight s1 = collHeight s" "blocks s1 = blocks s" "bheap s1 = bheap s" "rheap s1 = rheap s"
    by (auto simp: s1_def recIndex_def lookupBlock_def mined_def collHeight_def fun_eq_iff split: option.split)
  obtain res2 s2 where c2: "blockCollectionForInserts blk s1 = (res2, s2)" by force
  have "block_in_order s1 blk" using ord views by (simp add: block_in_order_def split: sum.splits)
  then obtain b where b: "res2 = Inr b" "store_wf s2" "b \<in> set (blocks s2)"
      "collHeight s2 b = block_Height blk" "mined s2 = mined s" "rheap s2 = rheap s"
      "unconfirmed s2 = unconfirmed s1"
      "lookupBlock s (block_Height blk) = Inr b \<and> s2 = s1 \<or> txs (bget s2 b) = []"
    using blockCollectionForInserts_wf [OF bookD(2) [OF bk1] _ c2] views by metis
  have ri: "recIndex s2 = recIndex s" using b(6) by (simp add: recIndex_def fun_eq_iff)
  have new2: "recIndex s2 r \<notin> recIndex s2 ` set (txs (bget s2 b))"
    using b(8) new views ri by auto
  have unc2: "map_of (u_txs (unconfirmed s2)) k \<noteq> Some r" for k
    using u [of k] b(7) by (auto simp: s1_def)
  have wf3: "store_wf (attach b r s2)"
    using store_wf_attach [OF b(2,3) _ _ new2 unc2] rr b(5,6) by simp
  have "s' = snd (moveMinedTx r blk s)" using c by simp
  then have s': "book (attach b r s2) s'"
    using preserves_at [OF move_attach book_refl [OF wf3]] c2 [unfolded b(1)]
    by (simp add: moveMinedTx_def Let_def bindE_modify bindE_Inr [of "blockCollectionForInserts blk" s1 b s2] s1_def [symmetric] attach_def ri)
  then show "store_wf s'" by (rule bookD(2))
  show "recSha s' r = recSha s r"
    using frame_rec_views(2) [OF bookD(1) [OF s'], of r] rr(1) b(6) by (simp add: recSha_def)
  have "r \<in> set (txs (bget (attach b r s2) b))"
    using b(2,3) by (simp add: attach_def bget_upd_coll store_wf_def blocks_ok_def)
  then have "lookupBlockTx (attach b r s2) \<lparr>BlockIndex = recIndex s r, BlockHeight = block_Height blk\<rparr> = Inr r"
    using lookupBlockTx_hit [OF wf3, of b r] b(3,4) ri by simp
  then show "lookupBlockTx s' \<lparr>BlockIndex = recIndex s r, BlockHeight = block_Height blk\<rparr> = Inr r"
    using frame_lookups(2) [OF bookD(1) [OF s'] wf3] by simp
qed

section \<open>InsertTx\<close>

definition insert_in_order :: "Store \<Rightarrow> Tx \<Rightarrow> Block option \<Rightarrow> bool" where
  "insert_in_order s tx block \<longleftrightarrow> (case block of
     None \<Rightarrow> True | Some blk \<Rightarrow> block_in_order s blk \<and> tx_in_order s tx blk)"

lemma book_in_order:
  assumes "book s0 s" and wf: "store_wf s0"
  shows "block_in_order s blk = block_in_order s0 blk" and "tx_in_order s tx blk = tx_in_order s0 tx blk"
proof -
  note f = bookD(1) [OF assms(1)]
  have B: "blocks_ok s0" using wf by (simp add: store_wf_def)
  have bl: "blocks s = blocks s0" using f by (simp add: frame_def)
  have "collHeight s (last (blocks s0)) = collHeight s0 (last (blocks s0))" if "blocks s0 \<noteq> []"
    using frame_coll_views(1) [OF f] last_in_set [OF that] B by (simp add: blocks_ok_def)
  then show "block_in_order s blk = block_in_order s0 blk"
    using bl by (auto simp: block_in_order_def frame_lookups(1) [OF f wf] split: sum.splits)
  have "txs (bget s b) = txs (bget s0 b) \<and>
     (txs (bget s0 b) \<noteq> [] \<longrightarrow> recIndex s (last (txs (bget s0 b))) = recIndex s0 (last (txs (bget s0 b))))"
    if "lookupBlock s0 h = Inr b" for b h
    using frame_coll_views(2) [OF f] lookupBlock_Inr [OF B that] frame_rec_views(1) [OF f]
      mined_ref [OF wf] txs_mined last_in_set by metis
  then show "tx_in_order s tx blk = tx_in_order s0 tx blk"
    by (auto simp: tx_in_order_def Let_def frame_lookups(1) [OF f wf] split: sum.splits)
qed

lemma received_book: "store_wf s \<Longrightarrow> book s (upd_rec r (\<lambda>t. t\<lparr>rec_received := now\<rparr>) s)"
  by (rule bk.received [OF book_refl])

text \<open>A new record in a block: the collection is found or appended, the record is appended to it.\<close>

lemma blockTxRecordForInserts_wf:
  assumes wf: "store_wf s" and ord: "block_in_order s blk" "tx_in_order s tx blk"
    and new: "lookupBlockTx s \<lparr>BlockIndex = TxIndex tx, BlockHeight = block_Height blk\<rparr> = Inl e"
  shows "\<exists>b s1. blockTxRecordForInserts tx blk s = (Inr (length (rheap s)),
           attach b (length (rheap s)) (s1\<lparr>rheap := rheap s @ [newRecord tx]\<rparr>))
       \<and> store_wf (attach b (length (rheap s)) (s1\<lparr>rheap := rheap s @ [newRecord tx]\<rparr>))
       \<and> b \<in> set (blocks s1) \<and> collHeight s1 b = block_Height blk \<and> b < length (bheap s1)"
proof -
  obtain res s1 where c: "blockCollectionForInserts blk s = (res, s1)" by force
  obtain b where b: "res = Inr b" "store_wf s1" "b \<in> set (blocks s1)" "collHeight s1 b = block_Height blk"
      "rheap s1 = rheap s"
      "lookupBlock s (block_Height blk) = Inr b \<and> s1 = s \<or> txs (bget s1 b) = []"
    using blockCollectionForInserts_wf [OF wf ord(1) c] by metis
  have n: "TxIndex tx \<notin> recIndex s1 ` set (txs (bget s1 b))"
    using b(6) lookupBlockTx_Inl(2) [OF wf new] by auto
  have o: "txs (bget s1 b) = [] \<or> \<not> TxIndex tx <s recIndex s1 (last (txs (bget s1 b)))"
    using b(6) ord(2) by (auto simp: tx_in_order_def Let_def)
  have "blockTxRecordForInserts tx blk s = txRecordForInserts b tx s1"
    using c b(1) by (simp add: blockTxRecordForInserts_def bindE_Inr [of "blockCollectionForInserts blk"])
  moreover have "b < length (bheap s1)" using b(2,3) by (simp add: store_wf_def blocks_ok_def)
  ultimately show ?thesis
    using txRecordForInserts_in_order [OF b(2,3) n o] txRecordForInserts_wf [OF b(2,3) n] b by metis
qed

lemma InsertTx_mined_new:
  assumes wf: "store_wf s" and ord: "block_in_order s blk" "tx_in_order s tx blk"
    and new: "lookupBlockTx s \<lparr>BlockIndex = TxIndex tx, BlockHeight = block_Height blk\<rparr> = Inl e"
    and c: "blockTxRecordForInserts tx blk s = (res, s1)"
  obtains r where "res = Inr r" and "store_wf s1" and "recSha s1 r = TxSha tx"
    and "rec_received (rget s1 r) = zeroTime"
    and "lookupBlockTx s1 \<lparr>BlockIndex = TxIndex tx, BlockHeight = block_Height blk\<rparr> = Inr r"
proof -
  let ?r = "length (rheap s)"
  obtain b t where b: "blockTxRecordForInserts tx blk s =
      (Inr ?r, attach b ?r (t\<lparr>rheap := rheap s @ [newRecord tx]\<rparr>))"
    and w: "store_wf (attach b ?r (t\<lparr>rheap := rheap s @ [newRecord tx]\<rparr>))"
    and m: "b \<in> set (blocks t)" "collHeight t b = block_Height blk" "b < length (bheap t)"
    using blockTxRecordForInserts_wf [OF wf ord new] by blast
  let ?s = "attach b ?r (t\<lparr>rheap := rheap s @ [newRecord tx]\<rparr>)"
  have i: "recIndex ?s ?r = TxIndex tx" "recSha ?s ?r = TxSha tx"
    "rec_received (rget ?s ?r) = zeroTime" "collHeight ?s b = block_Height blk"
    using m(2) by (auto simp: recIndex_def recSha_def newRecord_def collHeight_def)
  have "?r \<in> set (txs (bget ?s b))" using m(3) by (simp add: attach_def bget_upd_coll)
  then have "lookupBlockTx ?s \<lparr>BlockIndex = TxIndex tx, BlockHeight = block_Height blk\<rparr> = Inr ?r"
    using lookupBlockTx_hit [OF w, of b ?r] m(1) i by simp
  then show ?thesis using that b c w i by simp
qed

lemma InsertTx_known_unmined:
  assumes wf: "store_wf s" and ord: "block_in_order s blk"
    and new: "lookupBlockTx s \<lparr>BlockIndex = TxIndex tx, BlockHeight = block_Height blk\<rparr> = Inl e"
    and u: "map_of (u_txs (unconfirmed s)) (TxSha tx) = Some r"
    and c: "moveMinedTx r blk (SetIndex r (TxIndex tx) s) = (res, s')"
  shows "store_wf s'"
    and "lookupBlockTx s' \<lparr>BlockIndex = TxIndex tx, BlockHeight = block_Height blk\<rparr> = Inr r"
    and "recSha s' r = TxSha tx"
proof -
  let ?s = "SetIndex r (TxIndex tx) s"
  have r: "r < length (rheap s)" "recSha s r = TxSha tx" "r \<notin> set (mined s)"
    using u uwf_refs(1) wf unfolding store_wf_def unc_ok_def by blast+
  have w: "store_wf ?s" using store_wf_SetIndex [OF wf r(1,3)] .
  have l: "lookupBlock ?s = lookupBlock s" by (auto simp: lookupBlock_def fun_eq_iff split: option.split)
  have "collHeight ?s = collHeight s" using r(1) by (auto simp: SetIndex_views)
  then have o: "block_in_order ?s blk" using ord l by (auto simp: block_in_order_def split: sum.splits)
  have n: "recIndex ?s r \<notin> recIndex ?s ` set (txs (bget ?s b))" if "lookupBlock ?s (block_Height blk) = Inr b" for b
  proof -
    have b: "lookupBlock s (block_Height blk) = Inr b" using that l by simp
    have m: "b \<in> set (blocks s)" using lookupBlock_Inr(1) [OF _ b] wf by (simp add: store_wf_def)
    then have "recIndex ?s x = recIndex s x" if "x \<in> set (txs (bget s b))" for x
      using r that txs_mined by (auto simp: SetIndex_views)
    then show ?thesis using lookupBlockTx_Inl(2) [OF wf new] b r(1) by (auto simp: SetIndex_views)
  qed
  have k: "map_of (u_txs (unconfirmed ?s)) (recSha ?s r) = Some r" using u r by (simp add: SetIndex_views)
  show "store_wf s'" using moveMinedTx_wf(1) [OF w o k n c] .
  show "lookupBlockTx s' \<lparr>BlockIndex = TxIndex tx, BlockHeight = block_Height blk\<rparr> = Inr r"
    using moveMinedTx_wf(2) [OF w o k n c] r(1) by (simp add: SetIndex_views)
  show "recSha s' r = TxSha tx"
    using moveMinedTx_wf(3) [OF w o k n c] r by (simp add: SetIndex_views)
qed

lemma book_received:
  assumes "store_wf s" and "lookupBlockTx s key = Inr r"
  shows "store_wf (upd_rec r (\<lambda>t. t\<lparr>rec_received := now\<rparr>) s)"
    and "lookupBlockTx (upd_rec r (\<lambda>t. t\<lparr>rec_received := now\<rparr>) s) key = Inr r"
    and "recSha (upd_rec r (\<lambda>t. t\<lparr>rec_received := now\<rparr>) s) r = recSha s r"
proof -
  note b = received_book [OF assms(1), of r now]
  show "store_wf (upd_rec r (\<lambda>t. t\<lparr>rec_received := now\<rparr>) s)" using b by (rule bookD(2))
  show "lookupBlockTx (upd_rec r (\<lambda>t. t\<lparr>rec_received := now\<rparr>) s) key = Inr r"
    using frame_lookups(2) [OF bookD(1) [OF b] assms(1)] assms(2) by simp
  show "recSha (upd_rec r (\<lambda>t. t\<lparr>rec_received := now\<rparr>) s) r = recSha s r"
    using lookupBlockTx_Inr(3) [OF assms] by (simp add: recSha_def rget_upd_rec)
qed

lemma InsertTx_block_wf:
  assumes wf: "store_wf s" and ord: "block_in_order s blk" "tx_in_order s tx blk"
    and c: "InsertTx ext now tx (Some blk) s = (res, s')"
  shows "store_wf s'"
    and "res = Inr t \<Longrightarrow> tr_key t = \<lparr>BlockIndex = TxIndex tx, BlockHeight = block_Height blk\<rparr>
           \<and> lookupBlockTx s' (tr_key t) = Inr (tr_rec t) \<and> recSha s' (tr_rec t) = TxSha tx"
proof -
  let ?key = "\<lparr>BlockIndex = TxIndex tx, BlockHeight = block_Height blk\<rparr>"
  have "store_wf s' \<and> (\<forall>t. res = Inr t \<longrightarrow> tr_key t = ?key \<and> lookupBlockTx s' (tr_key t) = Inr (tr_rec t)
      \<and> recSha s' (tr_rec t) = TxSha tx)"
  proof (cases "lookupBlockTx s ?key")
    case (Inr r)
    with c wf show ?thesis by (auto simp: InsertTx_def Let_def split: if_splits)
  next
    case e: (Inl e)
    note mv = lookupBlockTx_Inl(1) [OF wf e]
    show ?thesis
    proof (cases "map_of (u_txs (unconfirmed s)) (TxSha tx)")
      case (Some r)
      obtain m s1 where m: "moveMinedTx r blk (SetIndex r (TxIndex tx) s) = (m, s1)" by force
      from c Some e mv m InsertTx_known_unmined [OF wf ord(1) e Some m] show ?thesis
        using wf by (auto simp: InsertTx_def Let_def gosimps split: if_splits sum.splits)
    next
      case None
      obtain d s1 where d: "removeDoubleSpends tx s = (d, s1)" by force
      have b: "book s s1" using bk.removeDoubleSpends_keeps book_refl [OF wf] d by (metis preservesD)
      note w1 = bookD(2) [OF b]
      have e1: "lookupBlockTx s1 ?key = Inl e" using frame_lookups(2) [OF bookD(1) [OF b] wf] e by simp
      obtain q s2 where q: "blockTxRecordForInserts tx blk s1 = (q, s2)" by force
      obtain r where r: "q = Inr r" "store_wf s2" "lookupBlockTx s2 ?key = Inr r" "recSha s2 r = TxSha tx"
        using InsertTx_mined_new [OF w1 _ _ e1 q] ord book_in_order [OF b wf] by metis
      from c None e mv d q r book_received [OF r(2,3)] wf w1 show ?thesis
        by (auto simp: InsertTx_def Let_def gosimps bindE_def [of "removeDoubleSpends tx"]
            bindE_def [of "blockTxRecordForInserts tx blk"] modifyE_def retE_def split: if_splits sum.splits)
    qed
  qed
  then show "store_wf s'" and "res = Inr t \<Longrightarrow> tr_key t = ?key \<and> lookupBlockTx s' (tr_key t) = Inr (tr_rec t)
      \<and> recSha s' (tr_rec t) = TxSha tx"
    by blast+
qed

lemma InsertTx_unmined_wf:
  assumes wf: "store_wf s" and c: "InsertTx ext now tx None s = (res, s')"
  shows "store_wf s'"
    and "res = Inr t \<Longrightarrow> tr_key t = unminedKey
           \<and> map_of (u_txs (unconfirmed s')) (TxSha tx) = Some (tr_rec t)"
proof -
  obtain q s1 where q: "unc_txRecordForInserts tx s = (q, s1)" by force
  then obtain r where r: "q = Inr r" "store_wf s1" "map_of (u_txs (unconfirmed s1)) (TxSha tx) = Some r"
    using unc_txRecordForInserts_wf [OF wf] by metis
  have w: "store_wf (upd_rec r (\<lambda>t. t\<lparr>rec_received := now\<rparr>) s1)"
    using received_book [OF r(2)] by (rule bookD(2))
  show "store_wf s'" and "res = Inr t \<Longrightarrow> tr_key t = unminedKey
           \<and> map_of (u_txs (unconfirmed s')) (TxSha tx) = Some (tr_rec t)"
    using c q r w wf
    by (auto simp: InsertTx_def gosimps bindE_def [of "unc_txRecordForInserts tx"] retE_def modifyE_def
        split: if_splits)
qed

end
