(* ===== verification/Tx_Roll.thy ===== *)
theory Tx_Roll
  imports Tx_Inv
begin

text \<open>
  Rollback. The updates that \<open>rollbackCredit\<close> and \<open>rollbackDebits\<close> are made of form the interface
  \<open>rollback_updates\<close>; every predicate that allows spend tracking allows them too.

  While \<open>Rollback\<close> runs, the slice \<open>blocks\<close> is already cut but \<open>blockIndexes\<close> still has the heights of
  the blocks not yet processed. \<open>kept s\<close> is the store without these entries: it stays well formed, and
  when the loop ends it is the store itself.
\<close>

section \<open>The interface\<close>

locale rollback_updates =
  fixes P :: "Store \<Rightarrow> bool" and N :: nat
  assumes rb_credits: "P s \<Longrightarrow> P (upd_rec r (\<lambda>t. t\<lparr>rec_credits := cs t\<rparr>) s)"
    and rb_debits: "P s \<Longrightarrow> P (upd_rec r (\<lambda>t. t\<lparr>rec_debits := d t\<rparr>) s)"
    and rb_unspent: "P s \<Longrightarrow> P (s\<lparr>unspent := AList.delete op (unspent s)\<rparr>)"
    and rb_key_upd: "P s \<Longrightarrow> r < N \<Longrightarrow> P (upd_unc (\<lambda>u. u\<lparr>
      spentBlockOutPointKeys := AList.update op key (spentBlockOutPointKeys u),
      spentBlockOutPoints := AList.update key r (spentBlockOutPoints u)\<rparr>) s)"
    and rb_swap: "P s \<Longrightarrow> map_of (spentBlockOutPoints (unconfirmed s)) key = Some r \<Longrightarrow>
      P (upd_unc (\<lambda>u. u\<lparr>
        spentBlockOutPointKeys := AList.delete op (spentBlockOutPointKeys u),
        spentBlockOutPoints := AList.delete key (spentBlockOutPoints u),
        spentUnconfirmed := AList.update op r (spentUnconfirmed u)\<rparr>) s)"
begin

lemma set_spentBy_rb: "preserves P (set_spentBy r i v)"
  by (rule preservesI)
     (auto simp: set_spentBy_def Let_def split: option.splits intro: rb_credits)

lemma swapDebits_rb: "preserves P (swapDebits r prev cur)"
  by (rule preservesI)
     (auto simp: swapDebits_def Let_def split: option.splits intro: rb_debits)

lemma rollbackCredit_rb: "preserves P (rollbackCredit height i r outIdx)"
proof
  fix s assume s: "P s"
  have sw: "P (snd (swapDebits x prev cur s))" if "P s" for x prev cur s
    using swapDebits_rb that by (rule preserves_at)
  show "P (snd (rollbackCredit height i r outIdx s))"
    using s unfolding rollbackCredit_def
    by (auto simp: Let_def gosimps retE_def failE_def modifyE_def rb_unspent
        split: option.splits sum.splits intro!: sw rb_swap rb_unspent)
qed

lemma rollbackSpend_rb:
  assumes "r < N"
  shows "preserves P (rollbackSpend r prev)"
  unfolding rollbackSpend_def
  by (intro keeps set_spentBy_rb rb_key_upd assms)

lemma rollbackDebits_rb:
  assumes "r < N"
  shows "preserves P (rollbackDebits r)"
  unfolding rollbackDebits_def
  by (rule preserves_option_at) (intro keeps rollbackSpend_rb rb_debits assms | assumption)+

end

lemma book_swap:
  assumes "book s0 s" and "map_of (spentBlockOutPoints (unconfirmed s)) key = Some r"
  shows "book s0 (upd_unc (\<lambda>u. u\<lparr>
        spentBlockOutPointKeys := AList.delete op (spentBlockOutPointKeys u),
        spentBlockOutPoints := AList.delete key (spentBlockOutPoints u),
        spentUnconfirmed := AList.update op r (spentUnconfirmed u)\<rparr>) s)"
proof -
  have "r < length (rheap s0)" using uwf_refs(2) [OF bookU(2) [OF assms(1)] assms(2)] bookD(3) [OF assms(1)] by simp
  then have "book s0 (upd_unc (\<lambda>u. u\<lparr>spentUnconfirmed := AList.update op r (spentUnconfirmed u)\<rparr>)
    (upd_unc (\<lambda>u. u\<lparr>spentBlockOutPointKeys := AList.delete op (spentBlockOutPointKeys u),
        spentBlockOutPoints := AList.delete key (spentBlockOutPoints u)\<rparr>) s))"
    using bk.unc_upd [OF bk.del_key [OF assms(1)]] by blast
  then show ?thesis by (simp add: upd_unc_def)
qed

section \<open>The store without the detached heights\<close>

definition kept :: "Store \<Rightarrow> Store" where
  "kept s = s\<lparr>blockIndexes := filter (\<lambda>e. snd e < length (blocks s)) (blockIndexes s)\<rparr>"

lemma kept_fields [simp]:
  "blocks (kept s) = blocks s" "unspent (kept s) = unspent s" "unconfirmed (kept s) = unconfirmed s"
  "rheap (kept s) = rheap s" "bheap (kept s) = bheap s"
  "blockIndexes (kept s) = filter (\<lambda>e. snd e < length (blocks s)) (blockIndexes s)"
  by (simp_all add: kept_def)

lemma kept_views [simp]:
  "mined (kept s) = mined s" "recIndex (kept s) = recIndex s" "recSha (kept s) = recSha s"
  "collHeight (kept s) = collHeight s"
  by (auto simp: mined_def recIndex_def recSha_def collHeight_def fun_eq_iff)

lemma kept_updates:
  "kept (upd_rec r f s) = upd_rec r f (kept s)" "kept (upd_unc g s) = upd_unc g (kept s)"
  "kept (s\<lparr>unspent := m\<rparr>) = (kept s)\<lparr>unspent := m\<rparr>" "kept (SetIndex r i s) = SetIndex r i (kept s)"
  by (simp_all add: kept_def upd_rec_def upd_unc_def SetIndex_def)

interpretation rk: rollback_updates "\<lambda>s. book s0 (kept s)" "length (rheap s0)" for s0
proof
  show "book s0 (kept (s\<lparr>unspent := AList.delete op (unspent s)\<rparr>))" if "book s0 (kept s)" for s op
    using bk.unspent_del [OF that, of op] by (simp add: kept_updates)
qed (auto simp: kept_updates intro: bk.credits bk.debits bk.key_upd book_swap)

text \<open>The parts of the store that the credits and debits of a rolled back transaction leave alone.\<close>

definition rollFrame :: "Store \<Rightarrow> (ShaHash, rref) gomap \<times> (i32, nat) gomap" where
  "rollFrame s = (u_txs (unconfirmed s), blockIndexes s)"

interpretation rf: rollback_updates "\<lambda>s. rollFrame s = F" N for F N
  by unfold_locales (simp_all add: rollFrame_def)

section \<open>One transaction\<close>

text \<open>\<open>shas s\<close> is what a rollback keeps of the records, with the shape of the collections.\<close>

definition shape :: "Store \<Rightarrow> bref list \<times> (Block \<times> rref list \<times> (i64, nat) gomap) list \<times> ShaHash list" where
  "shape s = (blocks s, map collShape (bheap s), map (\<lambda>t. TxSha (rec_tx t)) (rheap s))"

definition midRoll :: "Store \<Rightarrow> Store \<Rightarrow> bool" where
  "midRoll s0 s \<longleftrightarrow> store_wf (kept s) \<and> shape s = shape s0"

lemma shape_frame: "frame s0 s \<Longrightarrow> shape s = shape s0"
proof -
  assume f: "frame s0 s"
  have "map TxSha (map rec_tx (rheap s)) = map TxSha (map rec_tx (rheap s0))" using f by (simp add: frame_def)
  then show ?thesis using f by (simp add: shape_def frame_def comp_def)
qed

lemma shape_kept [simp]: "shape (kept s) = shape s"
  by (simp add: shape_def)

lemma shapeD:
  assumes "shape s = shape s0"
  shows "blocks s = blocks s0" "length (rheap s) = length (rheap s0)" "length (bheap s) = length (bheap s0)"
    and "b < length (bheap s0) \<Longrightarrow> collShape (bget s b) = collShape (bget s0 b)"
    and "r < length (rheap s0) \<Longrightarrow> recSha s r = recSha s0 r"
proof -
  show l: "blocks s = blocks s0" "length (rheap s) = length (rheap s0)" "length (bheap s) = length (bheap s0)"
    using assms by (auto simp: shape_def dest: map_eq_imp_length_eq)
  have "map collShape (bheap s) ! b = map collShape (bheap s0) ! b" using assms by (simp add: shape_def)
  then show "b < length (bheap s0) \<Longrightarrow> collShape (bget s b) = collShape (bget s0 b)" using l by simp
  have "map (\<lambda>t. TxSha (rec_tx t)) (rheap s) ! r = map (\<lambda>t. TxSha (rec_tx t)) (rheap s0) ! r"
    using assms by (simp add: shape_def)
  then show "r < length (rheap s0) \<Longrightarrow> recSha s r = recSha s0 r" using l by (simp add: recSha_def)
qed

lemma shape_mined:
  assumes "shape s = shape s0" and "\<And>b. b \<in> set (blocks s0) \<Longrightarrow> b < length (bheap s0)"
  shows "mined s = mined s0"
proof -
  have "map (\<lambda>b. txs (bget s b)) (blocks s0) = map (\<lambda>b. txs (bget s0 b)) (blocks s0)"
    using shapeD(4) [OF assms(1)] assms(2) by (auto simp: collShape_def)
  then show ?thesis using shapeD(1) [OF assms(1)] by (simp only: mined_def)
qed

lemma shape_SetIndex: "r < length (rheap s) \<Longrightarrow> shape (SetIndex r i s) = shape s"
  by (auto simp: shape_def SetIndex_def upd_rec_def map_update intro!: list_update_same_conv [THEN iffD2])

text \<open>The record goes to the unconfirmed map before its credits and debits are processed.\<close>

definition unmine :: "btcparams \<Rightarrow> rref \<Rightarrow> Store \<Rightarrow> Store" where
  "unmine ext r s = upd_unc (\<lambda>u. u\<lparr>u_txs := AList.update (recSha s r) r (u_txs u),
     previousOutpoints := fold (\<lambda>input m. AList.update (PreviousOutpoint input) r m)
       (recTxIns s r) (previousOutpoints u)\<rparr>) (SetIndex r (TxIndexUnknown ext) s)"

lemma unmine_midRoll:
  assumes m: "midRoll s0 s" and r: "r < length (rheap s)" "r \<notin> set (mined s)"
  shows "midRoll s0 (unmine ext r s)"
proof -
  let ?s = "SetIndex r (TxIndexUnknown ext) (kept s)"
  let ?f = "\<lambda>u. u\<lparr>u_txs := AList.update (recSha s r) r (u_txs u),
     previousOutpoints := fold (\<lambda>input m. AList.update (PreviousOutpoint input) r m)
       (recTxIns s r) (previousOutpoints u)\<rparr>"
  have wf: "store_wf ?s" using m r by (intro store_wf_SetIndex) (auto simp: midRoll_def)
  have u: "uwf (length (rheap ?s)) (recSha ?s) (set (mined ?s)) (unconfirmed ?s)"
    using wf by (simp add: store_wf_def unc_ok_def)
  have "uwf (length (rheap ?s)) (recSha ?s) (set (mined ?s)) (?f (unconfirmed ?s))"
    by (intro uwf_prevs uwf_updates(9) [OF u] refs_ok_fold_update)
       (use r uwf_refs(5) [OF u] in \<open>simp_all add: SetIndex_views\<close>)
  then have "store_wf (upd_unc ?f ?s)"
    using frame_unc_ok [OF _ wf, of "upd_unc ?f ?s"] wf
    by (simp add: frame_def store_wf_def [of ?s] unc_ok_def)
  moreover have "shape (unmine ext r s) = shape s"
    using shape_SetIndex [OF r(1)] by (simp add: unmine_def shape_def)
  ultimately show ?thesis using m by (simp add: midRoll_def unmine_def kept_updates)
qed

lemma rollbackTx_mid:
  assumes m: "midRoll s0 s" and r: "r < length (rheap s)" "r \<notin> set (mined s)"
    and c: "rollbackTx ext height r s = (res, s')"
  shows "midRoll s0 s'" and "blockIndexes s' = blockIndexes s"
    and "u_txs (unconfirmed s') = (if recIndex s r = 0 then u_txs (unconfirmed s)
           else AList.update (recSha s r) r (u_txs (unconfirmed s)))"
    and "\<forall>x < length (rheap s). x \<noteq> r \<longrightarrow> recIndex s' x = recIndex s x"
proof -
  have "midRoll s0 s' \<and> blockIndexes s' = blockIndexes s \<and>
      u_txs (unconfirmed s') = (if recIndex s r = 0 then u_txs (unconfirmed s)
           else AList.update (recSha s r) r (u_txs (unconfirmed s))) \<and>
      (\<forall>x < length (rheap s). x \<noteq> r \<longrightarrow> recIndex s' x = recIndex s x)"
  proof (cases "recIndex s r = 0")
    case True
    then show ?thesis using c m by (simp add: rollbackTx_def)
  next
    case False
    let ?s = "unmine ext r s"
    let ?body = "bindE (forE (rollbackCredit height (recIndex s r) r) [0..<length (rec_credits (rget s r))])
        (\<lambda>_. rollbackDebits r)"
    have N: "r < length (rheap ?s)" using r by (simp add: unmine_def)
    have mid: "midRoll s0 ?s" using unmine_midRoll [OF m r] .
    have eq: "?body ?s = (res, s')"
      using c False by (simp add: rollbackTx_def unmine_def gosimps)
    have "preserves (\<lambda>x. book (kept ?s) (kept x)) ?body"
      by (intro keeps rk.rollbackCredit_rb rk.rollbackDebits_rb) (use N in simp)
    then have b: "book (kept ?s) (kept s')"
      using eq mid by (elim preservesD) (auto simp: midRoll_def book_refl)
    have pr: "preserves (\<lambda>x. rollFrame x = rollFrame ?s) ?body"
      by (intro keeps rf.rollbackCredit_rb rf.rollbackDebits_rb [of _ "Suc r"]) simp
    have "rollFrame s' = rollFrame ?s" using preserves_at [OF pr, of ?s] eq by simp
    moreover have "recIndex s' x = recIndex s x" if "x \<noteq> r" "x < length (rheap s)" for x
      using frame_rec_views(1) [OF bookD(1) [OF b], of x] that r(1)
      by (simp add: unmine_def recIndex_def SetIndex_def)
    ultimately show ?thesis
      using b mid False shape_frame [OF bookD(1) [OF b]] bookD(2) [OF b]
      by (auto simp: midRoll_def rollFrame_def unmine_def)
  qed
  then show "midRoll s0 s'" "blockIndexes s' = blockIndexes s"
     "u_txs (unconfirmed s') = (if recIndex s r = 0 then u_txs (unconfirmed s)
           else AList.update (recSha s r) r (u_txs (unconfirmed s)))"
     "\<forall>x < length (rheap s). x \<noteq> r \<longrightarrow> recIndex s' x = recIndex s x" by blast+
qed

section \<open>One block, all blocks\<close>

abbreviation unmined :: "Store \<Rightarrow> ShaHash set" where
  "unmined s \<equiv> dom (map_of (u_txs (unconfirmed s)))"

text \<open>What a run over the records \<open>rs\<close> does: the middle state is kept, no hash leaves the unconfirmed
  map, and when it succeeds every record but a coinbase is in it.\<close>

lemma rollbackTxs_mid:
  assumes "forE (rollbackTx ext height) rs s = (res, s')" and "midRoll s0 s" and "distinct rs"
    and "\<And>r. r \<in> set rs \<Longrightarrow> r < length (rheap s0)" and "set rs \<inter> set (mined s) = {}"
    and "\<And>b. b \<in> set (blocks s) \<Longrightarrow> b < length (bheap s)"
  shows "midRoll s0 s' \<and> blockIndexes s' = blockIndexes s \<and> unmined s \<subseteq> unmined s'
    \<and> (\<forall>x < length (rheap s0). x \<notin> set rs \<longrightarrow> recIndex s' x = recIndex s x)
    \<and> (res = Inr () \<longrightarrow> (\<forall>r \<in> set rs. recIndex s r \<noteq> 0 \<longrightarrow> recSha s0 r \<in> unmined s'))"
  using assms
proof (induction rs arbitrary: s)
  case (Cons r rs)
  obtain q t where t: "rollbackTx ext height r s = (q, t)" by force
  have sh: "shape s = shape s0" using Cons.prems(2) by (simp add: midRoll_def)
  have r: "r < length (rheap s)" "r \<notin> set (mined s)" "recSha s r = recSha s0 r"
    using Cons.prems(4,5) shapeD(2,5) [OF sh] by auto
  note T = rollbackTx_mid [OF Cons.prems(2) r(1,2) t]
  have u: "unmined s \<subseteq> unmined t" "recIndex s r \<noteq> 0 \<Longrightarrow> recSha s0 r \<in> unmined t"
    using T(3) r(3) by auto
  show ?case
  proof (cases q)
    case (Inl e)
    then have "s' = t" "res = Inl e" using Cons.prems(1) t by auto
    then show ?thesis using T u shapeD(2) [OF sh] by auto
  next
    case (Inr x)
    have st: "shape t = shape s" using T(1) sh by (simp add: midRoll_def)
    have "midRoll s0 s' \<and> blockIndexes s' = blockIndexes t \<and> unmined t \<subseteq> unmined s'
      \<and> (\<forall>x < length (rheap s0). x \<notin> set rs \<longrightarrow> recIndex s' x = recIndex t x)
      \<and> (res = Inr () \<longrightarrow> (\<forall>r \<in> set rs. recIndex t r \<noteq> 0 \<longrightarrow> recSha s0 r \<in> unmined s'))"
    proof (rule Cons.IH)
      show "forE (rollbackTx ext height) rs t = (res, s')" using Cons.prems(1) t Inr by simp
      show "set rs \<inter> set (mined t) = {}" using Cons.prems(5,6) shape_mined [OF st] by auto
      show "b < length (bheap t)" if "b \<in> set (blocks t)" for b
        using that Cons.prems(6) shapeD(1,3) [OF st] by simp
    qed (use T(1) Cons.prems in auto)
    moreover have "recIndex t x = recIndex s x" if "x \<in> set rs" for x
      using T(4) Cons.prems(3,4) that shapeD(2) [OF sh] by auto
    moreover have "unmined s \<subseteq> unmined s'" "recIndex s r \<noteq> 0 \<Longrightarrow> recSha s0 r \<in> unmined s'"
      using u calculation(1) by blast+
    ultimately show ?thesis using T(2,4) shapeD(2) [OF sh] by auto
  qed
qed auto

lemma filter_delete_out:
  "(\<And>i. (k, i) \<in> set m \<Longrightarrow> \<not> Q i) \<Longrightarrow>
   filter (\<lambda>e. Q (snd e)) (AList.delete k m) = filter (\<lambda>e. Q (snd e)) m"
  by (induction m) (auto simp: AList.delete_eq)

lemma in_set_delete: "(h, i) \<in> set (AList.delete k m) \<longleftrightarrow> (h, i) \<in> set m \<and> h \<noteq> k"
  by (auto simp: AList.delete_eq)

lemma in_set_fold_delete:
  "(h, i) \<in> set (fold (\<lambda>b. AList.delete (k b)) ds m) \<longleftrightarrow> (h, i) \<in> set m \<and> h \<notin> k ` set ds"
  by (induction ds arbitrary: m) (auto simp: in_set_delete)

text \<open>A detached block, seen from the cut store \<open>s0\<close>.\<close>

definition detachable :: "Store \<Rightarrow> (i32, nat) gomap \<Rightarrow> bref \<Rightarrow> bool" where
  "detachable s0 m b \<longleftrightarrow> b < length (bheap s0) \<and> set (txs (bget s0 b)) \<inter> set (mined s0) = {}
     \<and> (\<forall>r \<in> set (txs (bget s0 b)). r < length (rheap s0))
     \<and> (\<forall>i. (collHeight s0 b, i) \<in> set m \<longrightarrow> \<not> i < length (blocks s0))"

lemma rollbackBlock_mid:
  assumes c: "rollbackBlock ext b s = (res, s')" and m: "midRoll s0 s"
    and b: "detachable s0 (blockIndexes s) b" and d: "distinct (txs (bget s0 b))"
    and lt: "\<And>b. b \<in> set (blocks s0) \<Longrightarrow> b < length (bheap s0)"
  shows "midRoll s0 s' \<and> unmined s \<subseteq> unmined s'
    \<and> (\<forall>x < length (rheap s0). x \<notin> set (txs (bget s0 b)) \<longrightarrow> recIndex s' x = recIndex s x)
    \<and> (res = Inr () \<longrightarrow> blockIndexes s' = AList.delete (collHeight s0 b) (blockIndexes s)
         \<and> (\<forall>r \<in> set (txs (bget s0 b)). recIndex s r \<noteq> 0 \<longrightarrow> recSha s0 r \<in> unmined s'))"
proof (cases "txs (bget s b) = []")
  case True
  then show ?thesis using c m by (auto simp: rollbackBlock_def)
next
  case False
  let ?s = "s\<lparr>blockIndexes := AList.delete (collHeight s b) (blockIndexes s)\<rparr>"
  have sh: "shape s = shape s0" using m by (simp add: midRoll_def)
  have cs: "collShape (bget s b) = collShape (bget s0 b)" using shapeD(4) [OF sh] b by (simp add: detachable_def)
  then have v: "txs (bget s b) = txs (bget s0 b)" "collHeight s b = collHeight s0 b"
    by (simp_all add: collShape_def collHeight_def)
  have "filter (\<lambda>e. snd e < length (blocks s)) (AList.delete (collHeight s b) (blockIndexes s)) =
      filter (\<lambda>e. snd e < length (blocks s)) (blockIndexes s)"
    by (rule filter_delete_out) (use b v shapeD(1) [OF sh] in \<open>auto simp: detachable_def\<close>)
  then have k: "kept ?s = kept s" by (simp add: kept_def)
  have m2: "midRoll s0 ?s" using m unfolding midRoll_def k by (simp add: shape_def)
  have mi: "mined ?s = mined s0" using shape_mined [OF sh] lt by (simp add: mined_def)
  have "forE (rollbackTx ext (collHeight s b)) (txs (bget s b)) ?s = (res, s')"
    using c False by (simp add: rollbackBlock_def gosimps)
  from rollbackTxs_mid [OF this m2] show ?thesis
    using b d v mi lt shapeD(1,3) [OF sh] by (auto simp: detachable_def recIndex_def)
qed

lemma rollbackBlocks_mid:
  assumes "forE (rollbackBlock ext) ds s = (res, s')" and "midRoll s0 s"
    and "\<And>b. b \<in> set ds \<Longrightarrow> detachable s0 (blockIndexes s) b"
    and "distinct (concat (map (\<lambda>b. txs (bget s0 b)) ds))"
    and lt: "\<And>b. b \<in> set (blocks s0) \<Longrightarrow> b < length (bheap s0)"
  shows "midRoll s0 s' \<and> unmined s \<subseteq> unmined s'
    \<and> (res = Inr () \<longrightarrow> blockIndexes s' = fold (\<lambda>b. AList.delete (collHeight s0 b)) ds (blockIndexes s)
         \<and> (\<forall>b \<in> set ds. \<forall>r \<in> set (txs (bget s0 b)). recIndex s r \<noteq> 0 \<longrightarrow> recSha s0 r \<in> unmined s'))"
  using assms(1-4)
proof (induction ds arbitrary: s)
  case (Cons b ds)
  obtain q t where t: "rollbackBlock ext b s = (q, t)" by force
  have b: "detachable s0 (blockIndexes s) b" "distinct (txs (bget s0 b))" using Cons.prems(3,4) by auto
  note B = rollbackBlock_mid [OF t Cons.prems(2) b lt]
  show ?case
  proof (cases q)
    case (Inl e)
    then show ?thesis using Cons.prems(1) t B by auto
  next
    case (Inr u)
    then have bi: "blockIndexes t = AList.delete (collHeight s0 b) (blockIndexes s)" using B by simp
    have ds: "detachable s0 (blockIndexes t) x" if "x \<in> set ds" for x
      using Cons.prems(3) [of x] that bi by (simp add: detachable_def in_set_delete)
    have run: "forE (rollbackBlock ext) ds t = (res, s')" using Cons.prems(1) t Inr by simp
    have I: "midRoll s0 s' \<and> unmined t \<subseteq> unmined s'
      \<and> (res = Inr () \<longrightarrow> blockIndexes s' = fold (\<lambda>b. AList.delete (collHeight s0 b)) ds (blockIndexes t)
         \<and> (\<forall>b \<in> set ds. \<forall>r \<in> set (txs (bget s0 b)). recIndex t r \<noteq> 0 \<longrightarrow> recSha s0 r \<in> unmined s'))"
      using Cons.IH [OF run _ ds] B Cons.prems(4) by simp
    have old: "recIndex t r = recIndex s r" if "x \<in> set ds" "r \<in> set (txs (bget s0 x))" for x r
    proof -
      have "r < length (rheap s0)" using ds that by (auto simp: detachable_def)
      moreover have "r \<notin> set (txs (bget s0 b))" using Cons.prems(4) that by auto
      ultimately show ?thesis using B by blast
    qed
    show ?thesis using I B old bi Inr by (simp add: subset_iff)
  qed
qed auto

section \<open>Rollback\<close>

lemma filter_split:
  "\<forall>x \<in> set a. \<not> Q x \<Longrightarrow> \<forall>x \<in> set b. Q x \<Longrightarrow>
   filter Q (a @ b) = b \<and> filter (\<lambda>x. \<not> Q x) (a @ b) = a"
  by simp

lemma down_while_split:
  assumes so: "sorted_wrt R xs" and up: "\<And>a b. R a b \<Longrightarrow> Q a \<Longrightarrow> Q b"
  shows "take (down_while (\<lambda>k. Q (xs ! k)) (length xs)) xs = filter (\<lambda>x. \<not> Q x) xs"
    and "drop (down_while (\<lambda>k. Q (xs ! k)) (length xs)) xs = filter Q xs"
proof -
  let ?i = "down_while (\<lambda>k. Q (xs ! k)) (length xs)"
  have le: "?i \<le> length xs" by (rule down_while_le)
  have hi: "Q (xs ! k)" if "?i \<le> k" "k < length xs" for k using down_while_range [OF that] .
  have lo: "\<not> Q (xs ! k)" if k: "k < ?i" for k
  proof -
    obtain j where j: "?i = Suc j" using k not0_implies_Suc [of ?i] by auto
    then have "\<not> Q (xs ! j)" by (rule down_while_stop)
    moreover have "k = j \<or> R (xs ! k) (xs ! j)"
      using so k j le by (auto simp: sorted_wrt_iff_nth_less less_Suc_eq)
    ultimately show ?thesis using up by blast
  qed
  have t: "\<forall>x \<in> set (take ?i xs). \<not> Q x" using lo by (auto simp: in_set_conv_nth)
  have d: "\<forall>x \<in> set (drop ?i xs). Q x" using hi le by (auto simp: in_set_conv_nth)
  from filter_split [OF t d]
  show "take ?i xs = filter (\<lambda>x. \<not> Q x) xs" and "drop ?i xs = filter Q xs"
    unfolding append_take_drop_id by simp_all
qed

definition detached :: "i32 \<Rightarrow> Store \<Rightarrow> bref list" where
  "detached height s = filter (\<lambda>b. height \<le>s collHeight s b) (blocks s)"

definition remaining :: "i32 \<Rightarrow> Store \<Rightarrow> bref list" where
  "remaining height s = filter (\<lambda>b. \<not> height \<le>s collHeight s b) (blocks s)"

lemma Rollback_split:
  assumes "blocks_ok s"
  shows "Rollback ext height s =
    forE (rollbackBlock ext) (detached height s) (s\<lparr>blocks := remaining height s\<rparr>)"
    and "blocks s = remaining height s @ detached height s"
proof -
  have so: "sorted_wrt (\<lambda>a b. collHeight s a <s collHeight s b) (blocks s)" using assms by (simp add: blocks_ok_def)
  note sp = down_while_split [OF so, of "\<lambda>b. height \<le>s collHeight s b"]
  have up: "\<And>a b. collHeight s a <s collHeight s b \<Longrightarrow> height \<le>s collHeight s a \<Longrightarrow> height \<le>s collHeight s b"
    by (simp add: signed_order)
  show "Rollback ext height s =
    forE (rollbackBlock ext) (detached height s) (s\<lparr>blocks := remaining height s\<rparr>)"
    using sp [OF up] by (simp add: Rollback_def detached_def remaining_def Let_def)
  show "blocks s = remaining height s @ detached height s"
    using sp [OF up] append_take_drop_id [of "down_while (\<lambda>k. height \<le>s collHeight s (blocks s ! k))
      (length (blocks s))" "blocks s"] by (simp add: detached_def remaining_def)
qed

lemma index_ok_prefix:
  assumes "index_ok k (xs @ ys) m"
  shows "index_ok k xs (filter (\<lambda>e. snd e < length xs) m)"
    and "(h, i) \<in> set m \<Longrightarrow> length xs \<le> i \<Longrightarrow> h \<in> k ` set ys"
    and "y \<in> set ys \<Longrightarrow> (k y, i) \<in> set m \<Longrightarrow> \<not> i < length xs"
proof -
  have w: "wf_map m" and ix: "map_of m h = Some i \<longleftrightarrow> i < length (xs @ ys) \<and> k ((xs @ ys) ! i) = h" for h i
    using assms unfolding index_ok_def by blast+
  have mem: "(h, i) \<in> set m \<longleftrightarrow> i < length (xs @ ys) \<and> k ((xs @ ys) ! i) = h" for h i
    using ix w by (metis map_of_SomeD map_of_is_SomeI)
  have wf: "wf_map (filter (\<lambda>e. snd e < length xs) m)" using w by (rule distinct_map_filter)
  have "map_of (filter (\<lambda>e. snd e < length xs) m) h = Some i \<longleftrightarrow> i < length xs \<and> k (xs ! i) = h" for h i
    using wf mem [of h i] by (auto simp: map_of_eq_Some_iff nth_append)
  then show "index_ok k xs (filter (\<lambda>e. snd e < length xs) m)" using wf by (simp add: index_ok_def)
  show "(h, i) \<in> set m \<Longrightarrow> length xs \<le> i \<Longrightarrow> h \<in> k ` set ys"
    using mem [of h i] by (auto simp: nth_append)
  show "y \<in> set ys \<Longrightarrow> (k y, i) \<in> set m \<Longrightarrow> \<not> i < length xs"
  proof
    assume y: "y \<in> set ys" "(k y, i) \<in> set m" "i < length xs"
    then obtain j where j: "j < length ys" "ys ! j = y" by (auto simp: in_set_conv_nth)
    then have "(k y, length xs + j) \<in> set m" using mem [of "k y" "length xs + j"] by simp
    then have "i = length xs + j" using y(2) w by (metis eq_key_imp_eq_value)
    with y(3) show False by simp
  qed
qed

text \<open>The cut store is well formed but for the stale heights, and its detached blocks can be detached.\<close>

lemma cut_mid:
  fixes height :: i32
  assumes wf: "store_wf s"
  defines "s0 \<equiv> s\<lparr>blocks := remaining height s\<rparr>"
  shows "midRoll s0 s0" and "\<And>b. b \<in> set (detached height s) \<Longrightarrow> detachable s0 (blockIndexes s0) b"
    and "distinct (concat (map (\<lambda>b. txs (bget s0 b)) (detached height s)))"
    and "\<And>b. b \<in> set (blocks s0) \<Longrightarrow> b < length (bheap s0)"
proof -
  have B: "blocks_ok s" using wf by (simp add: store_wf_def)
  note bl = Rollback_split(2) [OF B, of height]
  have m: "mined s = mined s0 @ concat (map (\<lambda>b. txs (bget s b)) (detached height s))"
  proof -
    have "mined s = concat (map (\<lambda>b. txs (bget s b)) (remaining height s @ detached height s))"
      unfolding mined_def by (simp only: bl [symmetric])
    then show ?thesis by (simp add: mined_def s0_def)
  qed
  have i: "index_ok (collHeight s) (remaining height s @ detached height s) (blockIndexes s)"
    using B bl by (simp add: blocks_ok_def)
  have h: "collHeight s0 = collHeight s" "recIndex s0 = recIndex s" "recSha s0 = recSha s"
    by (auto simp: collHeight_def recIndex_def recSha_def s0_def fun_eq_iff)
  show lt: "b < length (bheap s0)" if "b \<in> set (blocks s0)" for b
    using that B by (auto simp: s0_def remaining_def blocks_ok_def)
  have d: "distinct (mined s)" using wf by (simp add: store_wf_def colls_ok_def)
  then show "distinct (concat (map (\<lambda>b. txs (bget s0 b)) (detached height s)))"
    unfolding m by (simp add: s0_def)
  show "detachable s0 (blockIndexes s0) b" if b: "b \<in> set (detached height s)" for b
  proof -
    have "set (txs (bget s b)) \<subseteq> set (concat (map (\<lambda>b. txs (bget s b)) (detached height s)))" using b by auto
    then have "set (txs (bget s b)) \<inter> set (mined s0) = {}" "set (txs (bget s b)) \<subseteq> set (mined s)"
      using d unfolding m by auto
    moreover have "b < length (bheap s)" using b B by (auto simp: detached_def blocks_ok_def)
    ultimately show ?thesis
      using mined_ref [OF wf] index_ok_prefix(3) [OF i b] h by (auto simp: detachable_def s0_def)
  qed
  have so: "sorted_wrt (\<lambda>a b. collHeight s a <s collHeight s b) (remaining height s)"
    using B unfolding remaining_def blocks_ok_def by (simp add: sorted_wrt_filter)
  have "blocks_ok (kept s0)"
    using index_ok_prefix(1) [OF i] so lt h by (simp add: blocks_ok_def s0_def)
  moreover have "colls_ok (kept s0)"
    using wf m h unfolding colls_ok_def store_wf_def by (auto simp: s0_def remaining_def)
  moreover have "unc_ok (kept s0)"
    using wf m h unfolding unc_ok_def store_wf_def uwf_def by (simp add: s0_def)
  ultimately show "midRoll s0 s0" by (simp add: midRoll_def store_wf_def)
qed

lemma Rollback_mid:
  assumes wf: "store_wf s" and c: "Rollback ext height s = (Inr (), s')"
  shows "store_wf s'" and "blocks s' = remaining height s"
    and "b \<in> set (detached height s) \<Longrightarrow> r \<in> set (txs (bget s b)) \<Longrightarrow> recIndex s r \<noteq> 0 \<Longrightarrow>
         recSha s r \<in> unmined s'"
    and "unmined s \<subseteq> unmined s'"
proof -
  let ?s0 = "s\<lparr>blocks := remaining height s\<rparr>"
  have B: "blocks_ok s" using wf by (simp add: store_wf_def)
  note C = cut_mid [OF wf, where height = height]
  have run: "forE (rollbackBlock ext) (detached height s) ?s0 = (Inr (), s')"
    using c Rollback_split(1) [OF B] by simp
  note R = rollbackBlocks_mid [OF run C(1) C(2) C(3) C(4)]
  have sh: "shape s' = shape ?s0" and k: "store_wf (kept s')" using R by (auto simp: midRoll_def)
  show bl: "blocks s' = remaining height s" using shapeD(1) [OF sh] by simp
  have bi: "blockIndexes s' = fold (\<lambda>b. AList.delete (collHeight ?s0 b)) (detached height s) (blockIndexes s)"
    using R by simp
  have "index_ok (collHeight s) (remaining height s @ detached height s) (blockIndexes s)"
    using B Rollback_split(2) [OF B, of height] by (simp add: blocks_ok_def)
  note P = index_ok_prefix(2) [OF this]
  have "snd e < length (blocks s')" if "e \<in> set (blockIndexes s')" for e
  proof (cases e)
    case (Pair h i)
    have "collHeight ?s0 = collHeight s" by (auto simp: collHeight_def)
    then show ?thesis using that Pair P [of h i] bl unfolding bi by (fastforce simp: in_set_fold_delete)
  qed
  then have "kept s' = s'" by (simp add: kept_def)
  with k show "store_wf s'" by simp
  have v: "recIndex ?s0 = recIndex s" "recSha ?s0 = recSha s" by (auto simp: recIndex_def recSha_def)
  show "b \<in> set (detached height s) \<Longrightarrow> r \<in> set (txs (bget s b)) \<Longrightarrow> recIndex s r \<noteq> 0 \<Longrightarrow>
         recSha s r \<in> unmined s'"
    using R v by simp
  show "unmined s \<subseteq> unmined s'" using R by simp
qed

end
