(* ===== verification/Tx_Machine.thy ===== *)
theory Tx_Machine
  imports Tx_Roll
begin

text \<open>
  The store as a state machine. A step is one call of the exported mutators: an insertion in order,
  \<open>AddCredit\<close>, \<open>AddDebits\<close> on a record of the store (both with whatever result, errors included) and a
  \<open>Rollback\<close> that succeeds. \<open>reachable\<close> are the stores that a sequence of steps makes of \<open>New\<close>; all
  of them are well formed. The concrete stores at the end of the theory feed the witnesses.
\<close>

section \<open>Steps\<close>

inductive store_step :: "btcparams \<Rightarrow> Store \<Rightarrow> Store \<Rightarrow> bool" for ext :: btcparams where
  step_insert: "insert_in_order s tx block \<Longrightarrow> InsertTx ext now tx block s = (res, s') \<Longrightarrow>
    store_step ext s s'"
| step_credit: "AddCredit t index change s = (res, s') \<Longrightarrow> store_step ext s s'"
| step_debits: "tr_rec t < length (rheap s) \<Longrightarrow> AddDebits t spent s = (res, s') \<Longrightarrow>
    store_step ext s s'"
| step_rollback: "Rollback ext height s = (Inr (), s') \<Longrightarrow> store_step ext s s'"

inductive_cases store_stepE: "store_step ext s s'"

inductive reachable :: "btcparams \<Rightarrow> Store \<Rightarrow> bool" for ext :: btcparams where
  reach_New: "reachable ext New"
| reach_step: "reachable ext s \<Longrightarrow> store_step ext s s' \<Longrightarrow> reachable ext s'"

lemma store_wf_New: "store_wf New"
  by (simp add: store_wf_def blocks_ok_def colls_ok_def unc_ok_def uwf_def mined_def)

lemma AddCredit_wf:
  assumes "store_wf s" and "AddCredit t index change s = (res, s')"
  shows "book s s'"
  using preserves_at [OF bk.AddCredit_keeps book_refl [OF assms(1)], of t index change] assms(2) by simp

lemma AddDebits_wf:
  assumes "store_wf s" and "tr_rec t < length (rheap s)" and "AddDebits t spent s = (res, s')"
  shows "book s s'"
  using preserves_at [OF bk.AddDebits_keeps [OF assms(2)] book_refl [OF assms(1)], of spent] assms(3)
  by simp

lemma store_step_wf:
  assumes "store_step ext s s'" and "store_wf s"
  shows "store_wf s'"
  using assms
proof (cases rule: store_step.cases)
  case (step_insert tx block now res)
  then show ?thesis using InsertTx_block_wf(1) [OF assms(2)] InsertTx_unmined_wf(1) [OF assms(2)]
    by (cases block) (auto simp: insert_in_order_def)
next
  case (step_credit t index change res)
  then show ?thesis using AddCredit_wf [OF assms(2)] bookD(2) by blast
next
  case (step_debits t spent res)
  then show ?thesis using AddDebits_wf [OF assms(2)] bookD(2) by blast
next
  case (step_rollback height)
  then show ?thesis using Rollback_mid(1) [OF assms(2)] by blast
qed

lemma reachable_store_wf: "reachable ext s \<Longrightarrow> store_wf s"
  by (induction rule: reachable.induct) (auto intro: store_wf_New store_step_wf)

lemma reach_insert:
  "reachable ext s \<Longrightarrow> insert_in_order s tx block \<Longrightarrow> reachable ext (snd (InsertTx ext now tx block s))"
  by (metis prod.collapse reach_step step_insert)

lemma reach_credit: "reachable ext s \<Longrightarrow> reachable ext (snd (AddCredit t index change s))"
  by (metis prod.collapse reach_step step_credit)

lemma reach_debits:
  "reachable ext s \<Longrightarrow> tr_rec t < length (rheap s) \<Longrightarrow> reachable ext (snd (AddDebits t spent s))"
  by (metis prod.collapse reach_step step_debits)

section \<open>Concrete stores\<close>

definition ext0 :: btcparams where
  "ext0 = \<lparr>CoinbaseMaturity = 100, TxIndexUnknown = - 1\<rparr>"

definition mkTx :: "ShaHash \<Rightarrow> OutPoint list \<Rightarrow> i64 list \<Rightarrow> i64 \<Rightarrow> Tx" where
  "mkTx h ops vs i = \<lparr>
     TxMsg = \<lparr>Version = 1,
              TxIns = map (\<lambda>op. \<lparr>PreviousOutpoint = op, SignatureScript = [], Sequence = - 1\<rparr>) ops,
              TxOuts = map (\<lambda>v. \<lparr>Value = v, PkScript = []\<rparr>) vs, LockTime = 0\<rparr>,
     TxSha = h, TxIndex = i\<rparr>"

definition mkBlock :: "i32 \<Rightarrow> Block" where
  "mkBlock h = \<lparr>block_Hash = 0, block_Time = zeroTime, block_Height = h\<rparr>"

definition mkKey :: "i64 \<Rightarrow> i32 \<Rightarrow> BlockTxKey" where
  "mkKey i h = \<lparr>BlockIndex = i, BlockHeight = h\<rparr>"

definition txA :: Tx where "txA = mkTx 1 [\<lparr>OpHash = 9, OpIndex = 0\<rparr>] [10, 20] 1"
definition txB :: Tx where "txB = mkTx 2 [\<lparr>OpHash = 1, OpIndex = 0\<rparr>] [7] 1"

text \<open>Block 5 with transaction A, its first output credited; block 6 with B, which spends it.\<close>

definition storeA :: Store where
  "storeA = snd (InsertTx ext0 zeroTime txA (Some (mkBlock 5)) New)"

definition storeA1 :: Store where
  "storeA1 = snd (AddCredit \<lparr>tr_key = mkKey 1 5, tr_rec = 0\<rparr> 0 False storeA)"

definition storeB :: Store where
  "storeB = snd (InsertTx ext0 zeroTime txB (Some (mkBlock 6)) storeA1)"

definition storeB1 :: Store where
  "storeB1 = snd (AddDebits \<lparr>tr_key = mkKey 1 6, tr_rec = 1\<rparr> [] storeB)"

lemma reach_stores:
  "reachable ext0 storeA" "reachable ext0 storeA1" "reachable ext0 storeB" "reachable ext0 storeB1"
proof -
  have o: "insert_in_order New txA (Some (mkBlock 5))" by code_simp
  show A: "reachable ext0 storeA" unfolding storeA_def by (rule reach_insert [OF reach_New o])
  show A1: "reachable ext0 storeA1" unfolding storeA1_def by (rule reach_credit [OF A])
  have o: "insert_in_order storeA1 txB (Some (mkBlock 6))" by code_simp
  show B: "reachable ext0 storeB" unfolding storeB_def by (rule reach_insert [OF A1 o])
  have l: "tr_rec \<lparr>tr_key = mkKey 1 6, tr_rec = 1\<rparr> < length (rheap storeB)" by code_simp
  show "reachable ext0 storeB1" unfolding storeB1_def by (rule reach_debits [OF B l])
qed

section \<open>Properties of the state machine\<close>

text \<open>C3. Every store that calls of the exported mutators (insertions in order, any \<open>AddCredit\<close> and
  \<open>AddDebits\<close>, rollbacks that succeed) make of a new store is well formed: the two
  index maps agree with the slices they index, blocks are strictly ordered by height, every pointer is
  valid, no record is in two places, and an unconfirmed record is filed under its own hash.\<close>

theorem reachable_wf:
  assumes "reachable ext s"
  shows "store_wf s"
  using assms by (rule reachable_store_wf)

theorem reachable_wf_witness: "store_wf storeB1 \<and> blocks storeB1 = [0, 1]"
proof
  show "store_wf storeB1" by (rule reachable_wf [OF reach_stores(4)])
  show "blocks storeB1 = [0, 1]" by code_simp
qed

text \<open>C13. After an insertion into a block, in order, that returns a record, the store finds under
  the record's block height and index exactly this record, and it holds the inserted transaction.\<close>

theorem InsertTx_lookup:
  assumes "reachable ext s" and "insert_in_order s tx (Some blk)"
    and "InsertTx ext now tx (Some blk) s = (Inr t, s')"
  shows "tr_key t = \<lparr>BlockIndex = TxIndex tx, BlockHeight = block_Height blk\<rparr>
    \<and> lookupBlockTx s' (tr_key t) = Inr (tr_rec t) \<and> recSha s' (tr_rec t) = TxSha tx"
proof -
  have "block_in_order s blk" "tx_in_order s tx blk" using assms(2) by (simp_all add: insert_in_order_def)
  then show ?thesis by (rule InsertTx_block_wf(2) [OF reachable_store_wf [OF assms(1)] _ _ assms(3) refl])
qed

theorem InsertTx_lookup_witness:
  "lookupBlockTx storeB (mkKey 1 6) = Inr 1 \<and> recSha storeB 1 = 2"
proof -
  have o: "insert_in_order storeA1 txB (Some (mkBlock 6))" by code_simp
  have i: "InsertTx ext0 zeroTime txB (Some (mkBlock 6)) storeA1 =
      (Inr \<lparr>tr_key = mkKey 1 6, tr_rec = 1\<rparr>, storeB)" by code_simp
  show ?thesis using InsertTx_lookup [OF reach_stores(2) o i] by (auto simp: txB_def mkTx_def)
qed

text \<open>C12. A successful rollback removes exactly the blocks at the height and above, leaves a well-formed
  store, and files every transaction of the removed blocks but coinbases as unconfirmed; no
  unconfirmed transaction is lost.\<close>

theorem Rollback_ok:
  assumes "store_wf s" and "Rollback ext height s = (Inr (), s')"
  shows "store_wf s'
    \<and> blocks s' = filter (\<lambda>b. collHeight s b <s height) (blocks s)
    \<and> (\<forall>b r. b \<in> set (blocks s) \<and> height \<le>s collHeight s b \<and> r \<in> set (txs (bget s b)) \<and>
          recIndex s r \<noteq> 0 \<longrightarrow> map_of (u_txs (unconfirmed s')) (recSha s r) \<noteq> None)
    \<and> dom (map_of (u_txs (unconfirmed s))) \<subseteq> dom (map_of (u_txs (unconfirmed s')))"
proof (intro conjI)
  note R = Rollback_mid [OF assms]
  show "store_wf s'" by (rule R(1))
  have "(\<lambda>b. \<not> height \<le>s collHeight s b) = (\<lambda>b. collHeight s b <s height)"
    by (auto simp: signed_order)
  then show "blocks s' = filter (\<lambda>b. collHeight s b <s height) (blocks s)"
    using R(2) by (simp add: remaining_def)
  show "\<forall>b r. b \<in> set (blocks s) \<and> height \<le>s collHeight s b \<and> r \<in> set (txs (bget s b)) \<and>
          recIndex s r \<noteq> 0 \<longrightarrow> map_of (u_txs (unconfirmed s')) (recSha s r) \<noteq> None"
    using R(3) by (auto simp: detached_def dom_def)
  show "dom (map_of (u_txs (unconfirmed s))) \<subseteq> dom (map_of (u_txs (unconfirmed s')))"
    by (rule R(4))
qed

theorem Rollback_ok_witness:
  "blocks (snd (Rollback ext0 6 storeB1)) = [0]
   \<and> store_wf (snd (Rollback ext0 6 storeB1))"
proof -
  have c: "Rollback ext0 6 storeB1 = (Inr (), snd (Rollback ext0 6 storeB1))" by code_simp
  have "filter (\<lambda>b. collHeight storeB1 b <s 6) (blocks storeB1) = [0]" by code_simp
  then show ?thesis using Rollback_ok [OF reachable_store_wf [OF reach_stores(4)] c] by simp
qed

end
