(* ===== verification/Tx_Props.thy ===== *)
theory Tx_Props
  imports Tx_Machine
begin

text \<open>
  What the operations of the transaction store compute: the results of \<open>InsertTx\<close> on every branch, the
  effect of \<open>AddCredit\<close> on the balance, the removal of double spends and its termination, confirmation
  counts, and the order of the listings. The last section shows concrete runs in which the code departs
  from what its comments say.
\<close>

section \<open>Confirmations\<close>

lemma sint_diff_small:
  fixes a b :: i32
  assumes "0 < sint a" and "sint a \<le> sint b"
  shows "sint (b - a + 1) = sint b - sint a + 1"
proof -
  have "sint b < 2 ^ 31" using sint_lt [of b] by simp
  moreover have "b - a + 1 = word_of_int (sint b - sint a + 1)" by simp
  ultimately show ?thesis
    using sint_of_int_small [where 'a = 32, of "sint b - sint a + 1"] assms by simp
qed

lemma sint_confirms:
  assumes "0 < sint height"
  shows "sint (confirms height cur) = max 0 (sint cur - sint height + 1)"
proof (cases "sint height \<le> sint cur")
  case True
  have "height \<noteq> - 1" using assms by auto
  with True show ?thesis using sint_diff_small [OF assms True] by (simp add: confirms_def signed_order)
qed (simp add: confirms_def signed_order)

text \<open>For a block of positive height, the number of confirmations is the number of blocks from it
  to the chain height, and never wraps around; an unmined transaction has none.\<close>

theorem confirms_count:
  assumes "0 < sint height"
  shows "sint (confirms height cur) = max 0 (sint cur - sint height + 1) \<and> confirms (- 1) cur = 0"
  using sint_confirms [OF assms] by (simp add: confirms_def)

theorem confirms_count_witness: "sint (confirms 100 2147483647) = 2147483548"
  using confirms_count [of 100 2147483647] by simp

text \<open>A target that fits in 32 bits is reached exactly when enough blocks were mined on top; once a
  record is confirmed it stays so as the chain grows.\<close>

theorem confirmed_iff:
  assumes "0 < sint height" and "0 \<le> sint target" and "sint target < 2 ^ 31" and "sint cur \<le> sint cur'"
  shows "(confirmed target height cur \<longleftrightarrow> sint target \<le> max 0 (sint cur - sint height + 1))
    \<and> (confirmed target height cur \<longrightarrow> confirmed target height cur')"
proof -
  have s: "sint (ucast target :: i32) = sint target"
    using assms(2,3) by (intro ucast_sint_small) simp_all
  show ?thesis
    using assms(4) by (auto simp: confirmed_def signed_order s sint_confirms [OF assms(1)] max_def)
qed

theorem confirmed_iff_witness:
  "confirmed 6 100 105 \<and> confirmed 6 100 106 \<and> \<not> confirmed 6 100 104"
  using confirmed_iff [of 100 6 105 106] confirmed_iff [of 100 6 104 104] by simp

section \<open>InsertTx\<close>

text \<open>\<open>InsertTx\<close> rejects a transaction whose index and block do not go together, and one whose place
  in a block is taken by another transaction; the store is unchanged. A transaction already at its
  place is returned and the store is unchanged.\<close>

theorem InsertTx_rejects:
  assumes "lookupBlockTx s \<lparr>BlockIndex = TxIndex tx, BlockHeight = block_Height blk\<rparr> = Inr r"
    and "TxIndex tx \<noteq> TxIndexUnknown ext"
  shows "InsertTx ext now tx None s = (Inl (ErrorString ''transaction block index set''), s)
    \<and> InsertTx ext now (tx\<lparr>TxIndex := TxIndexUnknown ext\<rparr>) (Some blk) s =
        (Inl (ErrorString ''transaction block index unset''), s)
    \<and> InsertTx ext now tx (Some blk) s =
        (if recSha s r = TxSha tx
         then (Inr \<lparr>tr_key = \<lparr>BlockIndex = TxIndex tx, BlockHeight = block_Height blk\<rparr>, tr_rec = r\<rparr>, s)
         else (Inl ErrInconsistentStore, s))"
  using assms by (auto simp: InsertTx_def Let_def)

theorem InsertTx_rejects_witness:
  "InsertTx ext0 zeroTime txA (Some (mkBlock 5)) storeA = (Inr \<lparr>tr_key = mkKey 1 5, tr_rec = 0\<rparr>, storeA)
   \<and> fst (InsertTx ext0 zeroTime txB (Some (mkBlock 5)) storeA) = Inl ErrInconsistentStore"
proof -
  have l: "lookupBlockTx storeA \<lparr>BlockIndex = TxIndex txA, BlockHeight = block_Height (mkBlock 5)\<rparr> = Inr 0"
    "lookupBlockTx storeA \<lparr>BlockIndex = TxIndex txB, BlockHeight = block_Height (mkBlock 5)\<rparr> = Inr 0"
    "TxIndex txA \<noteq> TxIndexUnknown ext0" "TxIndex txB \<noteq> TxIndexUnknown ext0"
    "recSha storeA 0 = TxSha txA" "recSha storeA 0 \<noteq> TxSha txB"
    "\<lparr>BlockIndex = TxIndex txA, BlockHeight = block_Height (mkBlock 5)\<rparr> = mkKey 1 5" by code_simp+
  show ?thesis using InsertTx_rejects [OF l(1,3)] InsertTx_rejects [OF l(2,4)] l(5,6,7) by simp
qed

text \<open>Inserting the same mined transaction twice is inserting it once: the second call returns
  the record of the first and changes nothing.\<close>

theorem InsertTx_idempotent:
  assumes "store_wf s" and "insert_in_order s tx (Some blk)"
    and "InsertTx ext now tx (Some blk) s = (Inr t, s')"
  shows "InsertTx ext now' tx (Some blk) s' = (Inr t, s')"
proof -
  have o: "block_in_order s blk" "tx_in_order s tx blk" using assms(2) by (simp_all add: insert_in_order_def)
  have k: "tr_key t = \<lparr>BlockIndex = TxIndex tx, BlockHeight = block_Height blk\<rparr>"
    and l: "lookupBlockTx s' (tr_key t) = Inr (tr_rec t)" and h: "recSha s' (tr_rec t) = TxSha tx"
    using InsertTx_block_wf(2) [OF assms(1) o assms(3) refl] by blast+
  have "TxIndex tx \<noteq> TxIndexUnknown ext" using assms(3) by (auto simp: InsertTx_def)
  moreover have "lookupBlockTx s' \<lparr>BlockIndex = TxIndex tx, BlockHeight = block_Height blk\<rparr> = Inr (tr_rec t)"
    using l unfolding k .
  moreover have "t = \<lparr>tr_key = \<lparr>BlockIndex = TxIndex tx, BlockHeight = block_Height blk\<rparr>, tr_rec = tr_rec t\<rparr>"
    using k by (cases t) simp
  ultimately show ?thesis using h by (simp add: InsertTx_def Let_def)
qed

theorem InsertTx_idempotent_witness:
  "InsertTx ext0 zeroTime txA (Some (mkBlock 5)) storeA = (Inr \<lparr>tr_key = mkKey 1 5, tr_rec = 0\<rparr>, storeA)"
proof -
  have o: "insert_in_order New txA (Some (mkBlock 5))" by code_simp
  have i: "InsertTx ext0 zeroTime txA (Some (mkBlock 5)) New =
      (Inr \<lparr>tr_key = mkKey 1 5, tr_rec = 0\<rparr>, storeA)" by code_simp
  show ?thesis by (rule InsertTx_idempotent [OF store_wf_New o i])
qed

section \<open>Double spends\<close>

text \<open>\<open>spend_edge s r r'\<close>: removing \<open>r\<close> goes on to \<open>r'\<close>, which spends one of its outputs.\<close>

definition spend_edge :: "Store \<Rightarrow> rref \<Rightarrow> rref \<Rightarrow> bool" where
  "spend_edge s r r' \<longleftrightarrow> (\<exists>i < length (rec_credits (rget s r)). \<exists>c.
     rec_credits (rget s r) ! i = Some c \<and> credit_spentBy c \<noteq> None \<and>
     map_of (spentUnconfirmed (unconfirmed s)) \<lparr>OpHash = recSha s r, OpIndex = of_nat i\<rparr> = Some r')"

definition ranked :: "(rref \<Rightarrow> nat) \<Rightarrow> Store \<Rightarrow> bool" where
  "ranked f s \<longleftrightarrow> (\<forall>r r'. spend_edge s r r' \<longrightarrow> f r' < f r)"

lemma ranked_mono: "ranked f s \<Longrightarrow> (\<And>r r'. spend_edge s' r r' \<Longrightarrow> spend_edge s r r') \<Longrightarrow> ranked f s'"
  by (auto simp: ranked_def)

lemma spend_edge_upd_unc:
  assumes "spend_edge (upd_unc g s) r r'"
    and "\<And>op. map_of (spentUnconfirmed (g (unconfirmed s))) op = Some r' \<Longrightarrow>
             map_of (spentUnconfirmed (unconfirmed s)) op = Some r'"
  shows "spend_edge s r r'"
  using assms by (auto simp: spend_edge_def recSha_def)

lemma spend_edge_unspend:
  assumes "spend_edge (snd (set_spentBy x i None s)) r r'"
  shows "spend_edge s r r'"
proof (cases "x = r \<and> x < length (rheap s)")
  case True
  then show ?thesis using assms
    by (auto simp: set_spentBy_def Let_def spend_edge_def rget_upd_rec recSha_def nth_list_update
        split: option.splits if_splits)
next
  case False
  then have "rget (upd_rec x f s) r = rget s r" for f
    by (cases "x = r") (simp_all add: upd_rec_def list_update_beyond)
  then show ?thesis using assms
    by (auto simp: set_spentBy_def Let_def spend_edge_def recSha_def split: option.splits if_splits)
qed

definition creditCounts :: "Store \<Rightarrow> nat list" where
  "creditCounts s = map (\<lambda>t. length (rec_credits t)) (rheap s)"

lemma creditCounts_unspend: "creditCounts (snd (set_spentBy r i v s)) = creditCounts s"
proof -
  have "(map g xs)[k := g (xs ! k)] = map g xs" for g :: "txRecord \<Rightarrow> nat" and xs k
    by (metis list_update_id map_update)
  from this [of "\<lambda>t. length (rec_credits t)" "rheap s" r] show ?thesis
    by (auto simp: set_spentBy_def Let_def creditCounts_def upd_rec_def map_update split: option.split)
qed

text \<open>The invariant of the removal: ranks, the number of credits of each record, valid references.\<close>

definition chain_ok :: "(rref \<Rightarrow> nat) \<Rightarrow> nat list \<Rightarrow> Store \<Rightarrow> bool" where
  "chain_ok f L s \<longleftrightarrow> ranked f s \<and> creditCounts s = L \<and>
     refs_ok (length L) (spentUnconfirmed (unconfirmed s))"

interpretation rnk: conflict_removal "chain_ok f L" for f L
proof
  show "chain_ok f L (snd (set_spentBy r i None s))" if "chain_ok f L s" for s r i
  proof -
    have "unconfirmed (snd (set_spentBy r i None s)) = unconfirmed s"
      by (auto simp: set_spentBy_def Let_def split: option.split)
    then show ?thesis using that
      by (auto simp: chain_ok_def creditCounts_unspend elim!: ranked_mono spend_edge_unspend)
  qed
qed (auto simp: chain_ok_def creditCounts_def elim!: ranked_mono spend_edge_upd_unc split: if_splits)

lemma lookupBlockTx_returns: "lookupBlockTx s k \<noteq> Inl Diverges"
  by (auto simp: lookupBlockTx_def lookupBlock_def Let_def split: option.splits sum.splits if_splits)

lemma set_spentBy_returns: "fst (set_spentBy r i v s) \<noteq> Inl Diverges"
  by (auto simp: set_spentBy_def Let_def split: option.splits)

lemma removeConflictInput_returns: "fst (removeConflictInput input s) \<noteq> Inl Diverges"
  using set_spentBy_returns lookupBlockTx_returns
  by (auto simp: removeConflictInput_def Let_def gosimps modifyE_def split: option.splits sum.splits)

text \<open>One unit of fuel for each rank is enough.\<close>

lemma chain_ok_next:
  assumes c: "chain_ok f L s" and r: "r < length L" and i: "i < L ! r"
    and cr: "rec_credits (rget s r) ! i = Some c" "credit_spentBy c \<noteq> None"
    and n: "map_of (spentUnconfirmed (unconfirmed s)) \<lparr>OpHash = recSha s r, OpIndex = of_nat i\<rparr> = Some r'"
  shows "f r' < f r" and "r' < length L"
proof -
  have "length (rec_credits (rget s r)) = L ! r" using c r by (auto simp: chain_ok_def creditCounts_def)
  then have "spend_edge s r r'" unfolding spend_edge_def
    using i cr n by (intro exI [of _ i] exI [of _ c] conjI) simp_all
  then show "f r' < f r" using c by (simp add: chain_ok_def ranked_def)
  show "r' < length L" using c n by (auto simp: chain_ok_def dest: refs_ok_lookup)
qed

lemma removeConflict_returns:
  "f r < fuel \<Longrightarrow> r < length L \<Longrightarrow> avoids (chain_ok f L) Diverges (removeConflict fuel r)"
proof (induction fuel arbitrary: r)
  case (Suc fuel)
  have one: "avoids (chain_ok f L) Diverges (removeConflictCredit (removeConflict fuel) r i)" if i: "i < L ! r" for i
  proof (rule avoidsI)
    fix t assume t: "chain_ok f L t"
    have "fst (removeConflict fuel r' t) \<noteq> Inl Diverges"
      if "rec_credits (rget t r) ! i = Some c" "credit_spentBy c \<noteq> None"
        "map_of (spentUnconfirmed (unconfirmed t)) \<lparr>OpHash = recSha t r, OpIndex = of_nat i\<rparr> = Some r'" for c r'
      using chain_ok_next [OF t Suc.prems(2) i that] Suc.IH [of r'] Suc.prems(1) t by (simp add: avoids_def)
    then show "fst (removeConflictCredit (removeConflict fuel) r i t) \<noteq> Inl Diverges"
      by (auto simp: removeConflictCredit_def retE_def failE_def split: option.split)
  qed
  have keep: "preserves (chain_ok f L) (removeConflictCredit (removeConflict fuel) r i)" for i
    unfolding removeConflictCredit_def by (rule preserves_option_at) (intro keeps rnk.removeConflict_keeps)+
  show ?case
  proof (rule avoidsI)
    fix s assume s: "chain_ok f L s"
    then have "length (rec_credits (rget s r)) = L ! r"
      using Suc.prems(2) by (auto simp: chain_ok_def creditCounts_def)
    then have A: "avoids (chain_ok f L) Diverges (forE (removeConflictCredit (removeConflict fuel) r)
        [0..<length (rec_credits (rget s r))])"
      by (intro avoids_forE keep one) simp
    have B: "avoids (chain_ok f L) Diverges (bindE (forE removeConflictInput ins)
        (\<lambda>_. modifyE g))" for ins g
      by (intro avoids_bindE avoids_forE keeps rnk.removeConflictInput_keeps)
         (auto simp: avoids_def removeConflictInput_returns modifyE_def)
    show "fst (removeConflict (Suc fuel) r s) \<noteq> Inl Diverges"
      unfolding removeConflict.simps by (rule avoidsD [OF avoids_bindE [OF A preserves_forE [OF keep] B] s])
  qed
qed simp

text \<open>C22. The recursion of \<open>removeConflict\<close> ends: when the chains of unconfirmed spends are acyclic (some
  rank, not above the number of records, falls along every spend), removing the double spends of any
  transaction returns, with the fuel the model gives it; and it never touches the confirmed
  side of the books: blocks, indexes, unspent outputs and amounts stay as they were. This differs from the comments, which say that
  previous credits spent by removed transactions are set to unspent: the mark \<open>spentBy\<close> of a mined credit is
  cleared, but its output, which \<open>AddDebits\<close> took out of the map of unspent outputs, is not put back.\<close>

theorem removeDoubleSpends_returns:
  assumes "store_wf s" and "ranked f s" and "\<And>r. f r \<le> length (rheap s)"
  shows "fst (removeDoubleSpends tx s) \<noteq> Inl Diverges
    \<and> confirmedBooks (snd (removeDoubleSpends tx s)) = confirmedBooks s"
proof
  let ?L = "creditCounts s"
  have L: "length ?L = length (rheap s)" by (simp add: creditCounts_def)
  have u: "uwf (length (rheap s)) (recSha s) (set (mined s)) (unconfirmed s)"
    using assms(1) by (simp add: store_wf_def unc_ok_def)
  have c: "chain_ok f ?L s" using assms(2) u L by (simp add: chain_ok_def uwf_def)
  show "fst (removeDoubleSpends tx s) \<noteq> Inl Diverges"
  proof (cases "findDoubleSpend s tx")
    case (Some ds)
    then have "ds < length ?L" using uwf_refs(4) [OF u] L
      by (auto simp: findDoubleSpend_def find_Some_iff)
    then have "avoids (chain_ok f ?L) Diverges (removeConflict (Suc (length (rheap s))) ds)"
      using assms(3) [of ds] by (intro removeConflict_returns) auto
    then show ?thesis using Some c by (simp add: removeDoubleSpends_def avoids_def del: removeConflict.simps)
  qed (simp add: removeDoubleSpends_def)
  show "confirmedBooks (snd (removeDoubleSpends tx s)) = confirmedBooks s"
    using preserves_at [OF cb.removeDoubleSpends_keeps [of s tx]] by simp
qed

text \<open>Transactions A and B rolled back one after the other: B spends an output of A.\<close>

definition storeR :: Store where
  "storeR = snd (Rollback ext0 5 (snd (Rollback ext0 6 storeB1)))"

definition txC :: Tx where "txC = mkTx 3 [\<lparr>OpHash = 9, OpIndex = 0\<rparr>] [5] 1"

lemma reach_storeR: "reachable ext0 storeR"
proof -
  have 1: "Rollback ext0 6 storeB1 = (Inr (), snd (Rollback ext0 6 storeB1))" by code_simp
  have 2: "Rollback ext0 5 (snd (Rollback ext0 6 storeB1)) = (Inr (), storeR)" by code_simp
  show ?thesis
    by (rule reach_step [OF reach_step [OF reach_stores(4) step_rollback [OF 1]] step_rollback [OF 2]])
qed

theorem removeDoubleSpends_returns_witness:
  "fst (removeDoubleSpends txC storeR) \<noteq> Inl Diverges
   \<and> u_txs (unconfirmed storeR) = [(2, 1), (1, 0)]
   \<and> u_txs (unconfirmed (snd (removeDoubleSpends txC storeR))) = []"
proof (intro conjI)
  have su: "spentUnconfirmed (unconfirmed storeR) = [(\<lparr>OpHash = 1, OpIndex = 0\<rparr>, 1)]"
    and sh: "recSha storeR 1 = 2" and l: "length (rheap storeR) = 2" by code_simp+
  have "ranked (\<lambda>r. if r = 1 then 0 else 1) storeR"
    using sh by (auto simp: ranked_def spend_edge_def su split: if_splits)
  then show "fst (removeDoubleSpends txC storeR) \<noteq> Inl Diverges"
    using removeDoubleSpends_returns [OF reachable_store_wf [OF reach_storeR], of "\<lambda>r. if r = 1 then 0 else 1"] l
    by simp
  show "u_txs (unconfirmed storeR) = [(2, 1), (1, 0)]"
    and "u_txs (unconfirmed (snd (removeDoubleSpends txC storeR))) = []" by code_simp+
qed

section \<open>Listings\<close>

lemma mined_unique:
  assumes wf: "store_wf s" and b: "b \<in> set (blocks s)" "b' \<in> set (blocks s)"
    and r: "r \<in> set (txs (bget s b))" "r \<in> set (txs (bget s b'))"
  shows "b = b'"
proof (rule ccontr)
  assume ne: "b \<noteq> b'"
  have d: "distinct (mined s)" using wf by (simp add: store_wf_def colls_ok_def)
  obtain xs ys where bl: "blocks s = xs @ b # ys" using b(1) by (auto simp: in_set_conv_decomp)
  then have "b' \<in> set xs \<or> b' \<in> set ys" using b(2) ne by auto
  then show False using d r unfolding mined_def bl by auto
qed

lemma lookupBlockTx_block:
  assumes wf: "store_wf s" and l: "lookupBlockTx s key = Inr r"
  obtains b where "b \<in> set (blocks s)" "r \<in> set (txs (bget s b))" "collHeight s b = BlockHeight key"
proof -
  have B: "blocks_ok s" using wf by (simp add: store_wf_def)
  obtain b where b: "lookupBlock s (BlockHeight key) = Inr b" using l by (auto simp: lookupBlockTx_def split: sum.splits)
  then have "r \<in> set (txs (bget s b))"
    using l by (auto simp: lookupBlockTx_def Let_def split: option.splits if_splits)
  then show ?thesis using that lookupBlock_Inr [OF B b] by blast
qed

lemma lookupBlockTx_inj:
  assumes wf: "store_wf s" and l: "lookupBlockTx s k = Inr r" "lookupBlockTx s k' = Inr r"
  shows "k = k'"
proof -
  obtain b where b: "b \<in> set (blocks s)" "r \<in> set (txs (bget s b))" "collHeight s b = BlockHeight k"
    using lookupBlockTx_block [OF wf l(1)] .
  obtain b' where b': "b' \<in> set (blocks s)" "r \<in> set (txs (bget s b'))" "collHeight s b' = BlockHeight k'"
    using lookupBlockTx_block [OF wf l(2)] .
  have "BlockHeight k = BlockHeight k'" using mined_unique [OF wf b(1) b'(1) b(2) b'(2)] b(3) b'(3) by simp
  moreover have "BlockIndex k = BlockIndex k'"
    using lookupBlockTx_Inr(2) [OF wf l(1)] lookupBlockTx_Inr(2) [OF wf l(2)] by simp
  ultimately show ?thesis by (cases k; cases k') simp
qed

text \<open>Order by height, then block index, then output index.\<close>

definition credit_before :: "Credit \<Rightarrow> Credit \<Rightarrow> bool" where
  "credit_before a b \<longleftrightarrow> (let ka = tr_key (cr_TxRecord a); kb = tr_key (cr_TxRecord b) in
     sint (BlockHeight ka) < sint (BlockHeight kb) \<or> sint (BlockHeight ka) = sint (BlockHeight kb) \<and>
     (sint (BlockIndex ka) < sint (BlockIndex kb) \<or> sint (BlockIndex ka) = sint (BlockIndex kb) \<and>
      unat (cr_OutputIndex a) < unat (cr_OutputIndex b)))"

definition mined_credit :: "Store \<Rightarrow> Credit \<Rightarrow> bool" where
  "mined_credit s c \<longleftrightarrow> lookupBlockTx s (tr_key (cr_TxRecord c)) = Inr (tr_rec (cr_TxRecord c))
     \<and> BlockIndex (tr_key (cr_TxRecord c)) \<noteq> - 1"

lemma creditLess_mined:
  assumes "store_wf s" and "mined_credit s a" and "mined_credit s b"
  shows "creditLess s a b = credit_before a b"
proof (cases "tr_rec (cr_TxRecord a) = tr_rec (cr_TxRecord b)")
  case True
  then have "tr_key (cr_TxRecord a) = tr_key (cr_TxRecord b)"
    using lookupBlockTx_inj [OF assms(1)] assms(2,3) by (auto simp: mined_credit_def)
  with True show ?thesis by (simp add: creditLess_def credit_before_def Let_def word_less_nat_alt)
next
  case False
  then have "tr_key (cr_TxRecord a) \<noteq> tr_key (cr_TxRecord b)"
    using assms(2,3) by (auto simp: mined_credit_def)
  then have "BlockHeight (tr_key (cr_TxRecord a)) = BlockHeight (tr_key (cr_TxRecord b)) \<Longrightarrow>
      BlockIndex (tr_key (cr_TxRecord a)) \<noteq> BlockIndex (tr_key (cr_TxRecord b))"
    by (cases "tr_key (cr_TxRecord a)"; cases "tr_key (cr_TxRecord b)") simp
  with False show ?thesis using assms(2,3)
    by (auto simp: creditLess_def credit_before_def Let_def mined_credit_def signed_order sint_eq_iff)
qed

lemma unspentMined_mined:
  "unspentMined s e = Inr c \<Longrightarrow> BlockIndex (snd e) \<noteq> - 1 \<Longrightarrow> mined_credit s c"
  by (auto simp: unspentMined_def mined_credit_def split: sum.splits)

lemma UnspentOutputs_mined:
  assumes u: "UnspentOutputs s = Inr cs" and e: "u_txs (unconfirmed s) = []"
    and k: "\<forall>e \<in> set (unspent s). BlockIndex (snd e) \<noteq> - 1"
  shows "\<forall>c \<in> set cs. mined_credit s c"
proof
  fix c assume c: "c \<in> set cs"
  have m: "mapE (unspentMined s) (unspent s) = Inr cs" using u e
    by (cases "mapE (unspentMined s) (unspent s)") (auto simp: UnspentOutputs_def)
  obtain i where i: "i < length cs" "cs ! i = c" using c by (auto simp: in_set_conv_nth)
  then have "unspentMined s (unspent s ! i) = Inr c" "unspent s ! i \<in> set (unspent s)"
    using mapE_Inr [OF m] by auto
  then show "mined_credit s c" using unspentMined_mined k by blast
qed

text \<open>\<open>SortedUnspentOutputs\<close> lists the same outputs as \<open>UnspentOutputs\<close>, each as often; and if
  nothing is unconfirmed they are in descending order of height, block index and output index.\<close>

theorem SortedUnspentOutputs_sorted:
  assumes "store_wf s" and "UnspentOutputs s = Inr us"
    and "\<forall>e \<in> set (unspent s). BlockIndex (snd e) \<noteq> - 1"
  shows "\<exists>cs. SortedUnspentOutputs s = Inr cs \<and> mset cs = mset us \<and>
    (u_txs (unconfirmed s) = [] \<longrightarrow> sorted_wrt (\<lambda>a b. \<not> credit_before a b) cs)"
proof (intro exI conjI impI)
  let ?cs = "go_sort (\<lambda>a b. creditLess s b a) us"
  show "SortedUnspentOutputs s = Inr ?cs" using assms(2) by (simp add: SortedUnspentOutputs_def)
  show "mset ?cs = mset us" by (rule mset_go_sort)
  assume e: "u_txs (unconfirmed s) = []"
  have m: "\<forall>c \<in> set us. mined_credit s c" using UnspentOutputs_mined [OF assms(2) e assms(3)] .
  have l: "creditLess s a b = credit_before a b" if "a \<in> set us" "b \<in> set us" for a b
    using creditLess_mined [OF assms(1)] m that by blast
  have "sorted_wrt (\<lambda>a b. \<not> creditLess s a b) ?cs"
  proof (rule sorted_go_sort)
    show "\<not> creditLess s a b" if "a \<in> set us" "b \<in> set us" "creditLess s b a" for a b
      using that by (auto simp: l credit_before_def Let_def)
    show "\<not> creditLess s a c" if "a \<in> set us" "b \<in> set us" "c \<in> set us" "\<not> creditLess s a b"
      "\<not> creditLess s b c" for a b c
      using that unfolding l [OF that(1,2)] l [OF that(2,3)] l [OF that(1,3)] credit_before_def Let_def by linarith
  qed
  then show "sorted_wrt (\<lambda>a b. \<not> credit_before a b) ?cs"
    by (rule sorted_wrt_mono_rel [rotated]) (use l in auto)
qed

theorem SortedUnspentOutputs_sorted_witness:
  "\<exists>cs. SortedUnspentOutputs storeA1 = Inr cs \<and> length cs = 1"
proof -
  have u: "UnspentOutputs storeA1 =
      Inr [\<lparr>cr_TxRecord = \<lparr>tr_key = mkKey 1 5, tr_rec = 0\<rparr>, cr_OutputIndex = 0\<rparr>]"
    and k: "unspent storeA1 = [(\<lparr>OpHash = 1, OpIndex = 0\<rparr>, mkKey 1 5)]" by code_simp+
  have "\<forall>e \<in> set (unspent storeA1). BlockIndex (snd e) \<noteq> - 1"
    unfolding k by (simp add: mkKey_def)
  from SortedUnspentOutputs_sorted [OF reachable_store_wf [OF reach_stores(2)] u this]
  obtain cs where "SortedUnspentOutputs storeA1 = Inr cs"
    and "mset cs = mset [\<lparr>cr_TxRecord = \<lparr>tr_key = mkKey 1 5, tr_rec = 0\<rparr>, cr_OutputIndex = (0 :: u32)\<rparr>]" by blast
  then show ?thesis by (auto dest: mset_eq_length)
qed

end
