(* ===== verification/Tx_Balance.thy ===== *)
theory Tx_Balance
  imports Tx_Machine
begin

text \<open>
  The balance. Every step of \<open>Balance\<close> adds an amount that does not depend on the running total, so the
  total is a sum of contributions. From this follows the exact effect of \<open>AddCredit\<close> on the balance.
\<close>

section \<open>Running totals\<close>

type_synonym total = "(Amount, err, unit) act"

text \<open>\<open>q\<close> fails as \<open>p\<close> does, or its total is that of \<open>p\<close> plus \<open>v\<close>.\<close>

definition shifted :: "Amount \<Rightarrow> (err + unit) \<times> Amount \<Rightarrow> (err + unit) \<times> Amount \<Rightarrow> bool" where
  "shifted v p q \<longleftrightarrow> fst q = fst p \<and> (\<forall>u. fst p = Inr u \<longrightarrow> snd q = snd p + v)"

definition additive :: "total \<Rightarrow> bool" where
  "additive m \<longleftrightarrow> (\<forall>bal d. shifted d (m bal) (m (bal + d)))"

lemma additiveD: "additive m \<Longrightarrow> shifted d (m bal) (m (bal + d))"
  by (simp add: additive_def)

lemma shifted_trans: "shifted v p q \<Longrightarrow> shifted w q r \<Longrightarrow> shifted (v + w) p r"
  by (auto simp: shifted_def)

lemma shifted_result:
  "shifted v p q \<Longrightarrow> (case q of (Inl e, b) \<Rightarrow> Inl e | (Inr u, b) \<Rightarrow> Inr b) =
     map_sum id (\<lambda>x. x + v) (case p of (Inl e, b) \<Rightarrow> Inl e | (Inr u, b) \<Rightarrow> Inr b)"
  by (cases p; cases q; cases "fst p") (auto simp: shifted_def)

lemma shifted_bindE:
  assumes "shifted v (m bal) (m' bal')" and "\<And>b. shifted w (f () b) (f' () (b + v))"
  shows "shifted w (bindE m f bal) (bindE m' f' bal')"
proof -
  obtain x b where m: "m bal = (x, b)" by force
  obtain x' b' where m': "m' bal' = (x', b')" by force
  show ?thesis using assms m m' by (cases x) (auto simp: shifted_def bindE_def)
qed

text \<open>A loop with one more summand \<open>w x\<close> for each element.\<close>

lemma shifted_forE:
  assumes "\<And>x bal. x \<in> set xs \<Longrightarrow> shifted (w x) (f x bal) (f' x bal)"
    and "\<And>x. x \<in> set xs \<Longrightarrow> additive (f x)"
  shows "shifted (d + sum_list (map w xs)) (forE f xs bal) (forE f' xs (bal + d))"
  using assms
proof (induction xs arbitrary: bal d)
  case (Cons x xs)
  have "shifted (d + w x) (f x bal) (f' x (bal + d))"
    by (rule shifted_trans [where q = "f x (bal + d)"]) (simp_all add: Cons.prems additiveD)
  moreover obtain y b where y: "f x bal = (y, b)" by force
  moreover obtain y' b' where y': "f' x (bal + d) = (y', b')" by force
  ultimately have s: "y' = y" "y = Inr () \<Longrightarrow> b' = b + (d + w x)" by (auto simp: shifted_def)
  have "shifted (d + w x + sum_list (map w xs)) (forE f xs b) (forE f' xs (b + (d + w x)))"
    by (rule Cons.IH) (use Cons.prems in auto)
  then show ?case using y y' s by (cases y) (auto simp: shifted_def add.assoc)
qed (simp add: shifted_def)

lemma additive_forE: "(\<And>x. x \<in> set xs \<Longrightarrow> additive (f x)) \<Longrightarrow> additive (forE f xs)"
proof -
  assume a: "\<And>x. x \<in> set xs \<Longrightarrow> additive (f x)"
  have "shifted (d + sum_list (map (\<lambda>x. 0) xs)) (forE f xs bal) (forE f xs (bal + d))" for bal d
    by (rule shifted_forE) (use a in \<open>auto simp: shifted_def\<close>)
  then show ?thesis by (simp add: additive_def)
qed

lemma additive_balanceDebit: "additive (balanceDebit s mc h k)"
  by (auto simp: additive_def shifted_def balanceDebit_def split: sum.split)

lemma additive_balanceBlock: "additive (balanceBlock ext s mc h b)"
proof -
  have "additive (forE (\<lambda>r. forE (balanceDebit s mc h) (recSpends s r)) (txs (bget s b)))"
    by (intro additive_forE additive_balanceDebit)
  then show ?thesis unfolding balanceBlock_def additive_def
    by (auto simp: Let_def shifted_def)
qed

lemma additive_balanceUnmined: "additive (balanceUnmined s r)"
  unfolding balanceUnmined_def
  by (rule additive_forE) (auto simp: additive_def shifted_def split: option.split sum.split)

text \<open>Two stores that agree but for the amounts of the blocks.\<close>

lemma Balance_shift:
  assumes bl: "blocks s' = blocks s" and un: "unconfirmed s' = unconfirmed s"
    and deb: "\<And>k. balanceDebit s' mc h k = balanceDebit s mc h k"
    and um: "\<And>k r. (k, r) \<in> set (u_txs (unconfirmed s)) \<Longrightarrow> balanceUnmined s' r = balanceUnmined s r"
    and blk: "\<And>b bal. b \<in> set (blocks s) \<Longrightarrow>
        shifted (w b) (balanceBlock ext s mc h b bal) (balanceBlock ext s' mc h b bal)"
  shows "Balance ext s' mc h = map_sum id (\<lambda>x. x + sum_list (map w (blocks s))) (Balance ext s mc h)"
proof -
  let ?v = "sum_list (map w (blocks s))"
  let ?rest = "\<lambda>s. bindE (forE (\<lambda>e. balanceDebit s mc h (fst e)) (spentBlockOutPoints (unconfirmed s)))
       (\<lambda>_. if mc = 0 then forE (\<lambda>e. balanceUnmined s (snd e)) (u_txs (unconfirmed s)) else retE ())"
  let ?all = "\<lambda>s. bindE (forE (balanceBlock ext s mc h) (blocks s)) (\<lambda>_. ?rest s)"
  have B: "Balance ext s mc h = (case ?all s 0 of (Inl e, b) \<Rightarrow> Inl e | (Inr u, b) \<Rightarrow> Inr b)" for s
    by (auto simp: Balance_def bindE_def liftE_def split: prod.split sum.split)
  have "forE (\<lambda>e. balanceUnmined s' (snd e)) xs bal = forE (\<lambda>e. balanceUnmined s (snd e)) xs bal"
    if "set xs \<subseteq> set (u_txs (unconfirmed s))" for xs bal
    using that
  proof (induction xs arbitrary: bal)
    case (Cons e xs)
    then show ?case using um [of "fst e" "snd e"] by (auto split: prod.split sum.split)
  qed simp
  then have r: "?rest s' = ?rest s" by (auto simp: un deb fun_eq_iff bindE_def split: prod.split sum.split)
  have add: "additive (if mc = 0 then forE (\<lambda>e. balanceUnmined s (snd e)) (u_txs (unconfirmed s)) else retE ())"
    by (auto intro!: additive_forE additive_balanceUnmined) (simp add: additive_def shifted_def retE_def)
  have "additive (forE (\<lambda>e. balanceDebit s mc h (fst e)) (spentBlockOutPoints (unconfirmed s)))"
    by (intro additive_forE additive_balanceDebit)
  then have ar: "shifted d (?rest s b) (?rest s (b + d))" for b d
    by (intro shifted_bindE [where v = d] additiveD) (use add in \<open>auto intro: additiveD\<close>)
  have "shifted (0 + ?v) (forE (balanceBlock ext s mc h) (blocks s) 0)
     (forE (balanceBlock ext s' mc h) (blocks s) (0 + 0))"
    by (rule shifted_forE) (auto intro: blk additive_balanceBlock)
  then have "shifted ?v (forE (balanceBlock ext s mc h) (blocks s) 0)
     (forE (balanceBlock ext s' mc h) (blocks s) 0)" by simp
  then have "shifted ?v (?all s 0) (?all s' 0)"
    unfolding bl r by (rule shifted_bindE) (rule ar)
  then show ?thesis unfolding B by (rule shifted_result)
qed

section \<open>AddCredit\<close>

definition no_credit :: "Store \<Rightarrow> rref \<Rightarrow> nat \<Rightarrow> bool" where
  "no_credit s r i \<longleftrightarrow> length (rec_credits (rget s r)) \<le> i \<or> rec_credits (rget s r) ! i = None"

definition putCredit :: "rref \<Rightarrow> u32 \<Rightarrow> bool \<Rightarrow> Store \<Rightarrow> Store" where
  "putCredit r index change = upd_rec r (\<lambda>t. t\<lparr>rec_credits :=
     (padCredits (rec_credits t) (unat index))[unat index :=
        Some \<lparr>credit_change = change, credit_spentBy = None\<rparr>]\<rparr>)"

lemma padCredits_nth:
  "padCredits cs i ! j = (if j < length cs then cs ! j else if j \<le> i then None else padCredits cs i ! j)"
  by (auto simp: padCredits_def nth_append)

lemma setCredit_fresh:
  assumes "r < length (rheap s)" and "no_credit s r (unat index)"
  shows "setCredit r index change tx s = (Inr (), putCredit r index change s)"
proof -
  have "padCredits (rec_credits (rget s r)) (unat index) ! unat index = None"
    using assms(2) by (subst padCredits_nth) (auto simp: no_credit_def)
  then show ?thesis using assms(1)
    by (simp add: setCredit_def Let_def putCredit_def rget_upd_rec) (simp add: upd_rec_def)
qed

lemma putCredit_views [simp]:
  "blocks (putCredit r i ch s) = blocks s" "blockIndexes (putCredit r i ch s) = blockIndexes s"
  "unspent (putCredit r i ch s) = unspent s" "unconfirmed (putCredit r i ch s) = unconfirmed s"
  "bheap (putCredit r i ch s) = bheap s" "length (rheap (putCredit r i ch s)) = length (rheap s)"
  by (simp_all add: putCredit_def)

lemma putCredit_rec:
  assumes "r < length (rheap s)"
  shows "rec_tx (rget (putCredit r i ch s) x) = rec_tx (rget s x)"
    and "rec_debits (rget (putCredit r i ch s) x) = rec_debits (rget s x)"
    and "x \<noteq> r \<Longrightarrow> rget (putCredit r i ch s) x = rget s x"
  using assms by (simp_all add: putCredit_def rget_upd_rec)

text \<open>The credit is put, the output becomes unspent, and its value goes to one of the two amounts.\<close>

lemma AddCredit_mined_eq:
  assumes r: "tr_rec t < length (rheap s)" and h: "BlockHeight (tr_key t) \<noteq> - 1"
    and out: "unat index < length (recTxOuts s (tr_rec t))" and fresh: "no_credit s (tr_rec t) (unat index)"
    and b: "lookupBlock s (BlockHeight (tr_key t)) = Inr b"
  shows "AddCredit t index change s =
    (Inr \<lparr>cr_TxRecord = t, cr_OutputIndex = index\<rparr>,
     (if recIndex s (tr_rec t) = 0 then addReward b else addSpendable b)
       (Value (recTxOuts s (tr_rec t) ! unat index))
       ((putCredit (tr_rec t) index change s)\<lparr>unspent :=
          AList.update \<lparr>OpHash = recSha s (tr_rec t), OpIndex = index\<rparr> (tr_key t) (unspent s)\<rparr>))"
proof -
  let ?p = "putCredit (tr_rec t) index change s"
  have v: "recTxOuts ?p (tr_rec t) = recTxOuts s (tr_rec t)" "recSha ?p (tr_rec t) = recSha s (tr_rec t)"
    "recIndex (?p\<lparr>unspent := m\<rparr>) (tr_rec t) = recIndex s (tr_rec t)" for m
    using putCredit_rec(1) [OF r] by (simp_all add: recTxOuts_def recSha_def recIndex_def)
  have "lookupBlock ?p (BlockHeight (tr_key t)) = Inr b"
    using b by (auto simp: lookupBlock_def split: option.splits)
  then show ?thesis using setCredit_fresh [OF r fresh] h out v by (simp add: AddCredit_def Let_def)
qed

definition creditWeight :: "btcparams \<Rightarrow> TxRecord \<Rightarrow> i64 \<Rightarrow> i32 \<Rightarrow> Amount \<Rightarrow> Amount" where
  "creditWeight ext t minConf chainHeight v =
     (if confirmed minConf (BlockHeight (tr_key t)) chainHeight \<and>
         (BlockIndex (tr_key t) = 0 \<longrightarrow>
            CoinbaseMaturity ext \<le>s confirms (BlockHeight (tr_key t)) chainHeight)
      then v else 0)"

lemma sum_list_single:
  "distinct xs \<Longrightarrow> b \<in> set xs \<Longrightarrow> sum_list (map (\<lambda>x. if x = b then v else (0 :: 'a::comm_monoid_add)) xs) = v"
proof (induction xs)
  case (Cons x xs)
  have "b \<notin> set xs \<Longrightarrow> sum_list (map (\<lambda>x. if x = b then v else 0) xs) = 0"
    by (induction xs) auto
  with Cons show ?case by auto
qed simp

lemma AddCredit_Balance:
  assumes wf: "store_wf s" and lk: "lookupBlockTx s (tr_key t) = Inr (tr_rec t)"
    and h: "BlockHeight (tr_key t) \<noteq> - 1"
    and out: "unat index < length (recTxOuts s (tr_rec t))" and fresh: "no_credit s (tr_rec t) (unat index)"
    and c: "AddCredit t index change s = (res, s')"
  shows "Balance ext s' mc ch = map_sum id
     (\<lambda>x. x + creditWeight ext t mc ch (Value (recTxOuts s (tr_rec t) ! unat index))) (Balance ext s mc ch)"
proof -
  let ?r = "tr_rec t" and ?v = "Value (recTxOuts s (tr_rec t) ! unat index)"
  have B: "blocks_ok s" using wf by (simp add: store_wf_def)
  obtain b where b: "lookupBlock s (BlockHeight (tr_key t)) = Inr b"
    using lk by (auto simp: lookupBlockTx_def split: sum.splits)
  note b' = lookupBlock_Inr [OF B b]
  note R = lookupBlockTx_Inr [OF wf lk]
  let ?p = "(putCredit ?r index change s)\<lparr>unspent :=
          AList.update \<lparr>OpHash = recSha s ?r, OpIndex = index\<rparr> (tr_key t) (unspent s)\<rparr>"
  have s': "s' = (if recIndex s ?r = 0 then addReward b else addSpendable b) ?v ?p"
    using AddCredit_mined_eq [OF R(3) h out fresh b] c by simp
  have fr: "frame s s'" using AddCredit_wf [OF wf c] by (rule bookD(1))
  have rh: "rheap s' = rheap (putCredit ?r index change s)" and un: "unconfirmed s' = unconfirmed s"
    and bl: "blocks s' = blocks s"
    unfolding s' by (simp_all add: addReward_def addSpendable_def)
  have tx: "rec_tx (rget s' x) = rec_tx (rget s x)" "rec_debits (rget s' x) = rec_debits (rget s x)" for x
    unfolding rh using putCredit_rec [OF R(3)] by simp_all
  have o: "outValue s' x i = outValue s x i" for x i by (simp add: outValue_def recTxOuts_def tx)
  have deb: "balanceDebit s' mc ch k = balanceDebit s mc ch k" for k
    by (simp add: balanceDebit_def frame_lookups(2) [OF fr wf] o fun_eq_iff split: sum.split)
  have um: "balanceUnmined s' r = balanceUnmined s r" if "(k, r) \<in> set (u_txs (unconfirmed s))" for k r
  proof -
    have "map_of (u_txs (unconfirmed s)) k = Some r"
      using that wf unfolding store_wf_def unc_ok_def uwf_def refs_ok_def by (simp add: map_of_is_SomeI)
    then have "r \<noteq> ?r" using wf R(1) uwf_refs(1) unfolding store_wf_def unc_ok_def by blast
    then have "rget s' r = rget s r" unfolding rh using putCredit_rec(3) [OF R(3)] by simp
    moreover have "outValue s' = outValue s" by (simp add: o fun_eq_iff)
    ultimately show ?thesis by (simp only: balanceUnmined_def)
  qed
  have v: "txs (bget s' x) = txs (bget s x)" "collHeight s' x = collHeight s x" if "x \<in> set (blocks s)" for x
    using that frame_coll_views [OF fr, of x] B by (auto simp: blocks_ok_def)
  have am: "amountDeltas (bget s' x) = (if x = b then
      (if recIndex s ?r = 0 then (amountDeltas (bget s b))\<lparr>Reward := Reward (amountDeltas (bget s b)) + ?v\<rparr>
       else (amountDeltas (bget s b))\<lparr>Spendable := Spendable (amountDeltas (bget s b)) + ?v\<rparr>)
      else amountDeltas (bget s x))" for x
    unfolding s' using b'(3) by (simp add: addReward_def addSpendable_def bget_upd_coll)
  let ?w = "\<lambda>x. if x = b then creditWeight ext t mc ch ?v else 0"
  have blk: "shifted (?w x) (balanceBlock ext s mc ch x bal) (balanceBlock ext s' mc ch x bal)"
    if "x \<in> set (blocks s)" for x bal
  proof -
    have "recSpends s' = recSpends s" by (simp add: recSpends_def tx fun_eq_iff)
    moreover have "balanceDebit s' mc ch = balanceDebit s mc ch" using deb by (simp add: fun_eq_iff)
    ultimately show ?thesis using am b'(2) R(2) v [OF that]
      by (auto simp: balanceBlock_def Let_def shifted_def creditWeight_def)
  qed
  have "sum_list (map ?w (blocks s)) = creditWeight ext t mc ch ?v"
    using sum_list_single [OF blocks_distinct [OF B] b'(1)] .
  then show ?thesis using Balance_shift [OF bl un deb um blk] by simp
qed

section \<open>Properties\<close>

text \<open>C14. Adding a new credit to a mined record succeeds, makes exactly its output unspent under the
  record's key, and raises the balance, for every confirmation target and chain height, by the value
  of the output if the block has enough confirmations and, for a coinbase, is mature, and by nothing
  otherwise. A balance that could not be computed before still cannot.\<close>

theorem AddCredit_effect:
  assumes "store_wf s" and "lookupBlockTx s (tr_key t) = Inr (tr_rec t)"
    and "BlockHeight (tr_key t) \<noteq> - 1" and "unat index < length (recTxOuts s (tr_rec t))"
    and "no_credit s (tr_rec t) (unat index)" and "AddCredit t index change s = (res, s')"
  shows "res = Inr \<lparr>cr_TxRecord = t, cr_OutputIndex = index\<rparr>
    \<and> map_of (unspent s') = (map_of (unspent s))
        (\<lparr>OpHash = recSha s (tr_rec t), OpIndex = index\<rparr> \<mapsto> tr_key t)
    \<and> Balance ext s' mc ch = map_sum id
        (\<lambda>x. x + creditWeight ext t mc ch (Value (recTxOuts s (tr_rec t) ! unat index))) (Balance ext s mc ch)"
proof -
  obtain b where b: "lookupBlock s (BlockHeight (tr_key t)) = Inr b"
    using assms(2) by (auto simp: lookupBlockTx_def split: sum.splits)
  show ?thesis
    using AddCredit_Balance [OF assms, of ext mc ch]
      AddCredit_mined_eq [OF lookupBlockTx_Inr(3) [OF assms(1,2)] assms(3-5) b, of change] assms(6)
    by (auto simp: addReward_def addSpendable_def)
qed

theorem AddCredit_effect_witness:
  "Balance ext0 storeA 1 5 = Inr 0 \<and> Balance ext0 storeA1 1 5 = Inr 10
   \<and> map_of (unspent storeA1) \<lparr>OpHash = 1, OpIndex = 0\<rparr> = Some (mkKey 1 5)"
proof -
  let ?t = "\<lparr>tr_key = mkKey 1 5, tr_rec = 0\<rparr>"
  have h: "lookupBlockTx storeA (tr_key ?t) = Inr (tr_rec ?t)" "BlockHeight (tr_key ?t) \<noteq> - 1"
    "unat (0 :: u32) < length (recTxOuts storeA (tr_rec ?t))" "no_credit storeA (tr_rec ?t) (unat (0 :: u32))"
    "AddCredit ?t 0 False storeA = (Inr \<lparr>cr_TxRecord = ?t, cr_OutputIndex = 0\<rparr>, storeA1)"
    by code_simp+
  have w: "creditWeight ext0 ?t 1 5 (Value (recTxOuts storeA (tr_rec ?t) ! unat (0 :: u32))) = 10"
    "recSha storeA (tr_rec ?t) = 1" and z: "Balance ext0 storeA 1 5 = Inr 0" by code_simp+
  from AddCredit_effect [OF reachable_store_wf [OF reach_stores(1)] h, of ext0 1 5] z
  show ?thesis unfolding w by simp
qed

text \<open>\<open>AddCredit\<close> on an output the transaction does not have is refused, and on an output that is
  already a credit it returns that credit; either way the store is unchanged.\<close>

theorem AddCredit_no_effect:
  assumes "tr_rec t < length (rheap s)"
  shows "(length (recTxOuts s (tr_rec t)) \<le> unat index \<longrightarrow>
       AddCredit t index change s = (Inl (ErrorString ''transaction output does not exist''), s))
    \<and> (unat index < length (recTxOuts s (tr_rec t)) \<and> \<not> no_credit s (tr_rec t) (unat index) \<longrightarrow>
       AddCredit t index change s = (Inr \<lparr>cr_TxRecord = t, cr_OutputIndex = index\<rparr>, s))"
proof (intro conjI impI)
  assume a: "unat index < length (recTxOuts s (tr_rec t)) \<and> \<not> no_credit s (tr_rec t) (unat index)"
  then have p: "padCredits (rec_credits (rget s (tr_rec t))) (unat index) = rec_credits (rget s (tr_rec t))"
    by (simp add: padCredits_def no_credit_def)
  have u: "upd_rec (tr_rec t) (\<lambda>u. u\<lparr>rec_credits := padCredits (rec_credits u) (unat index)\<rparr>) s = s"
    using p by (simp add: upd_rec_def)
  show "AddCredit t index change s = (Inr \<lparr>cr_TxRecord = t, cr_OutputIndex = index\<rparr>, s)"
    using a by (simp add: AddCredit_def setCredit_def Let_def u no_credit_def recSha_def)
qed (simp add: AddCredit_def Let_def)

theorem AddCredit_no_effect_witness:
  "AddCredit \<lparr>tr_key = mkKey 1 5, tr_rec = 0\<rparr> 2 False storeA1 =
     (Inl (ErrorString ''transaction output does not exist''), storeA1)"
proof -
  have h: "tr_rec \<lparr>tr_key = mkKey 1 5, tr_rec = 0\<rparr> < length (rheap storeA1)"
    "length (recTxOuts storeA1 (tr_rec \<lparr>tr_key = mkKey 1 5, tr_rec = 0\<rparr>)) \<le> unat (2 :: u32)" by code_simp+
  show ?thesis using AddCredit_no_effect [OF h(1), of 2 False] h(2) by blast
qed

definition unmA :: Tx where "unmA = mkTx 1 [] [10] (- 1)"
definition unmB :: Tx where "unmB = mkTx 2 [\<lparr>OpHash = 1, OpIndex = 0\<rparr>] [7] (- 1)"

definition storeU :: Store where
  "storeU = snd (InsertTx ext0 zeroTime unmB None
     (snd (AddCredit \<lparr>tr_key = unminedKey, tr_rec = 0\<rparr> 0 False
       (snd (InsertTx ext0 zeroTime unmA None New)))))"

definition storeU1 :: Store where
  "storeU1 = snd (AddDebits \<lparr>tr_key = unminedKey, tr_rec = 1\<rparr> [] storeU)"

text \<open>A finding. An unconfirmed transaction with a credit of 10 is spent by an unconfirmed one, then
  mined. \<open>moveMinedTx\<close> records the credit as spent by an unconfirmed transaction without having added
  it to the block's spendable amount, and \<open>Balance\<close> subtracts it: the balance of a wallet that never
  owned anything else is minus 10.\<close>

lemma Balance_mined_spent_credit:
  "fst (InsertTx ext0 zeroTime (unmA\<lparr>TxIndex := 1\<rparr>) (Some (mkBlock 5)) storeU1) =
     Inr \<lparr>tr_key = mkKey 1 5, tr_rec = 0\<rparr>
   \<and> Balance ext0 (snd (InsertTx ext0 zeroTime (unmA\<lparr>TxIndex := 1\<rparr>) (Some (mkBlock 5)) storeU1)) 1 5 =
     Inr (- 10)"
  by code_simp

end
