(* ===== verification/Tx_Findings.thy ===== *)
theory Tx_Findings
  imports Tx_Props Tx_Balance
begin

text \<open>
  Where the transaction store does not do what its comments say: a block inserted below another one, a rollback of a
  chain of spends, and the order of the unspent outputs. The first two hold of every well-formed store. Nothing else
  in the development depends on them.
\<close>

section \<open>Insertion out of order\<close>




lemma mined_once:
  assumes "distinct (mined s)" and "a \<in> set (blocks s)" and "b \<in> set (blocks s)" and "a \<noteq> b" and "r \<in> set (txs (bget s a))"
  shows "r \<notin> set (txs (bget s b))"
proof -
  have "distinct (concat (map f xs)) \<Longrightarrow> a \<in> set xs \<Longrightarrow> b \<in> set xs \<Longrightarrow> r \<in> set (f a) \<Longrightarrow> r \<notin> set (f b)"
    for f :: "nat \<Rightarrow> nat list" and xs using assms(4) by (induction xs) auto
  then show ?thesis using assms unfolding mined_def by blast
qed





section \<open>Rollback of a chain of spends\<close>

text \<open>\<open>Rollback\<close> cuts the slice of blocks first and looks up spenders afterwards. While it runs, a lookup finds only
  records of the remaining blocks; the credits of a record \<open>z\<close> of a detached block are as before, and its index is \<open>q\<close>.\<close>

definition cutAt :: "Store \<Rightarrow> rref \<Rightarrow> i64 \<Rightarrow> Store \<Rightarrow> bool" where
  "cutAt s0 z q s \<longleftrightarrow> blocks s = blocks s0 \<and> bheap s = bheap s0
     \<and> (\<forall>h i. map_of (blockIndexes s) h = Some i \<longrightarrow> map_of (blockIndexes s0) h = Some i)
     \<and> rec_credits (rget s z) = rec_credits (rget s0 z) \<and> recIndex s z = q"

definition lookupsBelow :: "Store \<Rightarrow> rref \<Rightarrow> i32 \<Rightarrow> bool" where
  "lookupsBelow s0 z height \<longleftrightarrow> (\<forall>q s k r. cutAt s0 z q s \<longrightarrow> lookupBlockTx s k = Inr r \<longrightarrow> r \<noteq> z \<and> \<not> height \<le>s BlockHeight k)"

lemma cut_lookups:
  assumes "store_wf s" and "b \<in> set (detached height s)" and "z \<in> set (txs (bget s b))"
  shows "lookupsBelow (s\<lparr>blocks := remaining height s\<rparr>) z height"
  unfolding lookupsBelow_def
proof (intro allI impI)
  fix q t k r assume t: "cutAt (s\<lparr>blocks := remaining height s\<rparr>) z q t" and l: "lookupBlockTx t k = Inr r"
  have B: "blocks_ok s" and C: "colls_ok s" using assms(1) by (simp_all add: store_wf_def)
  note sp = Rollback_split(2) [OF B, of height]
  obtain i where i: "map_of (blockIndexes t) (BlockHeight k) = Some i" "i < length (blocks t)" "r \<in> set (txs (bget t (blocks t ! i)))"
    using l by (auto simp: lookupBlockTx_def lookupBlock_def Let_def split: sum.splits option.splits if_splits)
  let ?b = "remaining height s ! i"
  have b: "i < length (remaining height s)" "r \<in> set (txs (bget s ?b))" "map_of (blockIndexes s) (BlockHeight k) = Some i"
    using i t by (auto simp: cutAt_def)
  have "blocks s ! i = ?b" using b(1) sp by (metis nth_append)
  moreover have "collHeight s (blocks s ! i) = BlockHeight k" using b(3) B by (simp add: blocks_ok_def index_ok_def)
  ultimately have h: "collHeight s ?b = BlockHeight k" by simp
  have m: "?b \<in> set (remaining height s)" using b(1) by simp
  have in_blocks: "?b \<in> set (blocks s)" "b \<in> set (blocks s)" using m assms(2) unfolding sp set_append by blast+
  from m have "\<not> height \<le>s collHeight s ?b" unfolding remaining_def by (metis (no_types, lifting) filter_set mem_Collect_eq set_filter)
  moreover from this have neq: "?b \<noteq> b" using assms(2) by (auto simp: detached_def)
  then have "r \<noteq> z"
    using mined_once [OF _ _ _ neq b(2)] C assms(2,3) in_blocks by (auto simp: colls_ok_def)
  ultimately show "r \<noteq> z \<and> \<not> height \<le>s BlockHeight k" using h by simp
qed

lemma cutAt_updates:
  assumes "cutAt s0 z q s"
  shows "cutAt s0 z q (upd_unc f s)" "cutAt s0 z q (s\<lparr>unspent := m\<rparr>)" "cutAt s0 z q (upd_rec r (\<lambda>t. t\<lparr>rec_debits := d t\<rparr>) s)"
    "r \<noteq> z \<Longrightarrow> cutAt s0 z q (upd_rec r g s)" "cutAt s0 z q (s\<lparr>blockIndexes := AList.delete h (blockIndexes s)\<rparr>)"
proof -
  show "cutAt s0 z q (upd_rec r (\<lambda>t. t\<lparr>rec_debits := d t\<rparr>) s)"
    using assms by (cases "r = z"; cases "r < length (rheap s)") (auto simp: cutAt_def recIndex_def upd_rec_def list_update_beyond not_less)
qed (use assms in \<open>auto simp: cutAt_def recIndex_def delete_conv' split: if_splits\<close>)

lemma cutAt_credit: "preserves (cutAt s0 z q) (rollbackCredit h i r outIdx)"
proof (rule preservesI)
  fix s assume s: "cutAt s0 z q s"
  have sw: "cutAt s0 z q (snd (swapDebits x prev cur t))" if "cutAt s0 z q t" for x prev cur t
    using that by (auto simp: swapDebits_def cutAt_updates split: option.splits)
  show "cutAt s0 z q (snd (rollbackCredit h i r outIdx s))"
    using s unfolding rollbackCredit_def
    by (auto simp: Let_def gosimps retE_def failE_def modifyE_def cutAt_updates split: option.splits sum.splits intro!: sw)
qed

lemma cutAt_spend:
  assumes "lookupsBelow s0 z height"
  shows "preserves (cutAt s0 z q) (rollbackSpend r prev)"
proof (rule preservesI)
  fix s assume s: "cutAt s0 z q s"
  have "x \<noteq> z" if "lookupBlockTx s k = Inr x" for k x using assms s that unfolding lookupsBelow_def by blast
  then show "cutAt s0 z q (snd (rollbackSpend r prev s))"
    using s by (auto simp: rollbackSpend_def bindE_def liftE_def modifyE_def set_spentBy_def Let_def cutAt_updates
        split: sum.splits option.splits)
qed

lemma cutAt_debits: "lookupsBelow s0 z height \<Longrightarrow> preserves (cutAt s0 z q) (rollbackDebits r)"
  unfolding rollbackDebits_def
  by (rule preserves_option_at) (intro keeps cutAt_spend cutAt_updates | assumption)+

lemma cutAt_tx:
  assumes "lookupsBelow s0 z height" and "r \<noteq> z"
  shows "preserves (cutAt s0 z q) (rollbackTx ext h r)"
proof (rule preservesI)
  fix s assume s: "cutAt s0 z q s"
  have "preserves (cutAt s0 z q) (bindE (modifyE (SetIndex r x)) (\<lambda>_. bindE (modifyE (upd_unc f)) (\<lambda>_.
      bindE (forE (rollbackCredit h i r) is) (\<lambda>_. rollbackDebits r))))" for x f i "is"
    unfolding SetIndex_def by (intro keeps cutAt_credit cutAt_debits [OF assms(1)] cutAt_updates assms(2))
  then show "cutAt s0 z q (snd (rollbackTx ext h r s))" using s by (simp add: rollbackTx_def preserves_def)
qed

text \<open>Actions that do not succeed.\<close>

definition never :: "('s \<Rightarrow> bool) \<Rightarrow> ('s, 'e, unit) act \<Rightarrow> bool" where
  "never P m \<longleftrightarrow> (\<forall>s. P s \<longrightarrow> fst (m s) \<noteq> Inr ())"

lemma never_first: "never P m \<Longrightarrow> never P (bindE m f)"
  by (fastforce simp: never_def bindE_def split: prod.split sum.split)

lemma never_forE:
  assumes "\<And>x. x \<in> set xs \<Longrightarrow> x \<noteq> y \<Longrightarrow> preserves P (f x)" and "never P (f y)" and "y \<in> set xs"
  shows "never P (forE f xs)"
  using assms
proof (induction xs)
  case (Cons x xs)
  have run: "forE f (x # xs) = bindE (f x) (\<lambda>_. forE f xs)" by (rule ext) (simp add: bindE_def)
  show ?case
  proof (cases "x = y")
    case True
    then show ?thesis unfolding run using Cons.prems(2) by (intro never_first) simp
  next
    case False
    then have "never P (forE f xs)" "preserves P (f x)" using Cons by auto
    then show ?thesis unfolding run by (fastforce simp: never_def bindE_def preserves_def split: prod.split sum.split)
  qed
qed simp

text \<open>A credit of \<open>z\<close> that is spent in a detached block.\<close>

definition chainedAt :: "Store \<Rightarrow> rref \<Rightarrow> i32 \<Rightarrow> nat \<Rightarrow> bool" where
  "chainedAt s z height i \<longleftrightarrow> i < length (rec_credits (rget s z)) \<and> (\<exists>c k. rec_credits (rget s z) ! i = Some c
     \<and> credit_spentBy c = Some k \<and> BlockHeight k \<noteq> - 1 \<and> height \<le>s BlockHeight k)"

lemma never_tx:
  assumes "lookupsBelow s0 z height" and "chainedAt s0 z height i" and "q \<noteq> 0"
  shows "never (cutAt s0 z q) (rollbackTx ext h z)"
proof -
  have one: "never (cutAt s0 z q') (rollbackCredit h j z i)" for q' j
    unfolding never_def
  proof (intro allI impI)
    fix s assume s: "cutAt s0 z q' s"
    obtain c k where c: "rec_credits (rget s z) ! i = Some c" "credit_spentBy c = Some k" "BlockHeight k \<noteq> - 1" "height \<le>s BlockHeight k"
      using assms(2) s by (auto simp: chainedAt_def cutAt_def)
    have "\<exists>e. lookupBlockTx (s\<lparr>unspent := m\<rparr>) k = Inl e" for m
      using assms(1) cutAt_updates(2) [OF s] c(4) unfolding lookupsBelow_def by (metis sum.exhaust)
    then show "fst (rollbackCredit h j z i s) \<noteq> Inr ()"
      using c by (auto simp: rollbackCredit_def Let_def bindE_def modifyE_def liftE_def split: sum.splits) (metis Inr_Inl_False)+
  qed
  show ?thesis unfolding never_def
  proof (intro allI impI)
    fix s assume s: "cutAt s0 z q s"
    have "cutAt s0 z (recIndex (SetIndex z (TxIndexUnknown ext) s) z) (SetIndex z (TxIndexUnknown ext) s)"
      using s by (cases "z < length (rheap s)") (auto simp: cutAt_def SetIndex_def recIndex_def upd_rec_def list_update_beyond not_less)
    then have t: "cutAt s0 z (recIndex (SetIndex z (TxIndexUnknown ext) s) z) (upd_unc f (SetIndex z (TxIndexUnknown ext) s))" for f
      by (rule cutAt_updates)
    have "i < length (rec_credits (rget s z))" using assms(2) s by (simp add: chainedAt_def cutAt_def)
    then have "never (cutAt s0 z q') (forE (rollbackCredit h j z) [0..<length (rec_credits (rget s z))])" for q' j
      by (intro never_forE [where y = i]) (simp_all add: cutAt_credit one)
    from never_first [OF this] t show "fst (rollbackTx ext h z s) \<noteq> Inr ()"
      using s assms(3) by (simp add: rollbackTx_def never_def bindE_def [of "modifyE _"] modifyE_def cutAt_def)
  qed
qed

lemma never_block:
  assumes "lookupsBelow s0 z height" and "chainedAt s0 z height i" and "q \<noteq> 0" and "z \<in> set (txs (bget s0 b))"
  shows "never (cutAt s0 z q) (rollbackBlock ext b)"
  unfolding never_def
proof (intro allI impI)
  fix s assume s: "cutAt s0 z q s"
  have "never (cutAt s0 z q) (forE (rollbackTx ext h) (txs (bget s0 b)))" for h
    by (rule never_forE [where y = z]) (simp_all add: cutAt_tx [OF assms(1)] never_tx [OF assms(1-3)] assms(4))
  then show "fst (rollbackBlock ext b s) \<noteq> Inr ()"
    using cutAt_updates(5) [OF s] s by (simp add: rollbackBlock_def never_def bindE_def modifyE_def) (simp add: cutAt_def)
qed

lemma cutAt_block:
  assumes "lookupsBelow s0 z height" and "z \<notin> set (txs (bget s0 b))"
  shows "preserves (cutAt s0 z q) (rollbackBlock ext b)"
proof (rule preservesI)
  fix s assume s: "cutAt s0 z q s"
  have "preserves (cutAt s0 z q) (bindE (modifyE (\<lambda>s. s\<lparr>blockIndexes := AList.delete (collHeight s b) (blockIndexes s)\<rparr>))
      (\<lambda>_. forE (rollbackTx ext h) (txs (bget s0 b))))" for h
    by (intro keeps cutAt_updates cutAt_tx [OF assms(1)]) (use assms(2) in auto)
  moreover have "bget s b = bget s0 b" using s by (simp add: cutAt_def)
  ultimately show "cutAt s0 z q (snd (rollbackBlock ext b s))" using s by (simp add: rollbackBlock_def preserves_def)
qed

text \<open>C26. A finding. \<open>Rollback\<close> never succeeds on a well-formed store when a transaction of one of the blocks to be removed, other than a
  coinbase, has a credit that is spent by a transaction of one of these blocks: the spender is looked up in the slice
  that has been cut already, which panics or reports a missing block. (Rolled back one block after the other, from
  the highest, the same blocks can be removed, as on the store of the witness.)\<close>

theorem Rollback_chain_fails:
  assumes "store_wf s" and "b \<in> set (blocks s)" and "height \<le>s collHeight s b" and "r \<in> set (txs (bget s b))"
    and "recIndex s r \<noteq> 0" and "i < length (rec_credits (rget s r))" and "rec_credits (rget s r) ! i = Some c"
    and "credit_spentBy c = Some k" and "BlockHeight k \<noteq> - 1" and "height \<le>s BlockHeight k"
  shows "fst (Rollback ext height s) \<noteq> Inr ()"
proof -
  let ?s = "s\<lparr>blocks := remaining height s\<rparr>"
  have B: "blocks_ok s" and C: "colls_ok s" using assms(1) by (simp_all add: store_wf_def)
  have b: "b \<in> set (detached height s)" using assms(2,3) by (simp add: detached_def)
  note l = cut_lookups [OF assms(1) b assms(4)]
  have c: "chainedAt ?s r height i" using assms(6-10) by (simp add: chainedAt_def)
  have "preserves (cutAt ?s r (recIndex s r)) (rollbackBlock ext x)" if "x \<in> set (detached height s)" "x \<noteq> b" for x
    using mined_once [of s b x r] that b C assms(4) by (intro cutAt_block [OF l]) (auto simp: colls_ok_def detached_def)
  moreover have "never (cutAt ?s r (recIndex s r)) (rollbackBlock ext b)"
    by (rule never_block [OF l c assms(5)]) (simp add: assms(4))
  ultimately have "never (cutAt ?s r (recIndex s r)) (forE (rollbackBlock ext) (detached height s))"
    using b by (intro never_forE)
  moreover have "cutAt ?s r (recIndex s r) ?s" by (simp add: cutAt_def recIndex_def)
  ultimately show ?thesis unfolding Rollback_split(1) [OF B] never_def by blast
qed

theorem Rollback_chain_fails_witness:
  "fst (Rollback ext0 5 storeB1) \<noteq> Inr () \<and> fst (Rollback ext0 6 storeB1) = Inr ()
   \<and> fst (Rollback ext0 5 (snd (Rollback ext0 6 storeB1))) = Inr ()"
proof -
  have h: "0 \<in> set (blocks storeB1)" "(5 :: i32) \<le>s collHeight storeB1 0" "0 \<in> set (txs (bget storeB1 0))" "recIndex storeB1 0 \<noteq> 0"
    "0 < length (rec_credits (rget storeB1 0))"
    "rec_credits (rget storeB1 0) ! 0 = Some \<lparr>credit_change = False, credit_spentBy = Some (mkKey 1 6)\<rparr>"
    "BlockHeight (mkKey 1 6) \<noteq> - 1" "(5 :: i32) \<le>s BlockHeight (mkKey 1 6)" by code_simp+
  have "fst (Rollback ext0 6 storeB1) = Inr ()" "fst (Rollback ext0 5 (snd (Rollback ext0 6 storeB1))) = Inr ()" by code_simp+
  then show ?thesis
    using Rollback_chain_fails [OF reachable_store_wf [OF reach_stores(4)] h(1-6) _ h(7,8), of ext0] by simp
qed

section \<open>Order of the unspent outputs\<close>

definition storeM :: Store where
  "storeM = snd (AddCredit \<lparr>tr_key = unminedKey, tr_rec = 1\<rparr> 0 False
     (snd (InsertTx ext0 zeroTime (mkTx 7 [] [1] (- 1)) None storeA1)))"

text \<open>A finding. The comment of \<open>SortedUnspentOutputs\<close> puts unmined outputs first; \<open>Less\<close> tests
  for block index -1 but an unmined key has index 0 and height -1, so they come last.\<close>

lemma SortedUnspentOutputs_unmined_last:
  "map_sum id (map (\<lambda>c. BlockHeight (tr_key (cr_TxRecord c)))) (SortedUnspentOutputs storeM) = Inr [5, - 1]"
  by code_simp

end
