(* ===== verification/Go_IO.thy ===== *)
theory Go_IO
  imports Errors "HOL-Library.Sublist"
begin

text \<open>
  \<open>io.Reader\<close>, \<open>io.Writer\<close> and \<open>encoding/binary\<close> as the serialization code uses them.

  A reader is the bytes still to be read and the count of bytes read (the \<open>n64\<close> of the Go methods);
  \<open>ReadFull\<close> tells an empty input (\<open>EOF\<close>) from a short one (\<open>ErrUnexpectedEOF\<close>). A writer is the bytes
  written and how many more it accepts; \<open>None\<close> is a \<open>bytes.Buffer\<close>, which accepts all.

  \<open>reads m bs a\<close> is what the code relies on of a \<open>ReadFrom\<close>: on input that begins with \<open>bs\<close> it returns
  \<open>a\<close> and consumes exactly \<open>bs\<close>, and on a proper prefix it fails with \<open>EOF\<close> if nothing was there and
  with \<open>ErrUnexpectedEOF\<close> otherwise. \<open>reads'\<close> is the same inside a longer structure, where the code
  turns \<open>EOF\<close> into \<open>ErrUnexpectedEOF\<close>. The locale \<open>codec\<close> is the contract of a \<open>WriteTo\<close> and a
  \<open>ReadFrom\<close> of one type.
\<close>

section \<open>Little-endian words\<close>

primrec le_bytes :: "nat \<Rightarrow> 'a::len word \<Rightarrow> byte list" where
  "le_bytes 0 w = []"
| "le_bytes (Suc k) w = ucast w # le_bytes k (drop_bit 8 w)"

primrec le_word :: "byte list \<Rightarrow> 'a::len word" where
  "le_word [] = 0"
| "le_word (b # bs) = ucast b OR push_bit 8 (le_word bs)"

lemma length_le_bytes [simp]: "length (le_bytes k w) = k"
  by (induction k arbitrary: w) auto

lemma bit_le_word_le_bytes:
  fixes w :: "'a::len word"
  shows "bit (le_word (le_bytes k w) :: 'a::len word) n \<longleftrightarrow> n < 8 * k \<and> bit w n"
proof (induction k arbitrary: w n)
  case (Suc k)
  show ?case using bit_imp_le_length [of w n]
    by (cases "n < 8") (auto simp: bit_or_iff bit_push_bit_iff bit_unsigned_iff Suc bit_drop_bit_eq)
qed simp

lemma le_word_le_bytes [simp]: "LENGTH('a) \<le> 8 * k \<Longrightarrow> le_word (le_bytes k w) = (w :: 'a::len word)"
  by (rule bit_word_eqI) (auto simp: bit_le_word_le_bytes)

section \<open>Readers and writers\<close>

type_synonym rstate = "byte list \<times> nat"
type_synonym wstate = "byte list \<times> nat option"

type_synonym 'a rd = "(rstate, err, 'a) act"
type_synonym wr = "(wstate, err, unit) act"

text \<open>\<open>io.ReadFull\<close> into a buffer of \<open>k\<close> bytes.\<close>

definition ReadFull :: "nat \<Rightarrow> byte list rd" where
  "ReadFull k r =
     (let inp = fst r; n = snd r in
      if k \<le> length inp then (Inr (take k inp), (drop k inp, n + k))
      else if inp = [] then (Inl EOF, ([], n))
      else (Inl ErrUnexpectedEOF, ([], n + length inp)))"

text \<open>\<open>if err == io.EOF { err = io.ErrUnexpectedEOF }\<close>\<close>

definition noEOF :: "('s, err, 'a) act \<Rightarrow> ('s, err, 'a) act" where
  "noEOF m s = (case m s of
     (Inl e, s') \<Rightarrow> (Inl (if e = EOF then ErrUnexpectedEOF else e), s')
   | (Inr a, s') \<Rightarrow> (Inr a, s'))"

text \<open>\<open>w.Write\<close>\<close>

definition Write :: "byte list \<Rightarrow> wr" where
  "Write bs w = (case snd w of
     None \<Rightarrow> (Inr (), (fst w @ bs, None))
   | Some room \<Rightarrow>
       if length bs \<le> room then (Inr (), (fst w @ bs, Some (room - length bs)))
       else (Inl ErrShortWrite, (fst w @ take room bs, Some 0)))"

text \<open>\<open>for i := 0; i < k; i++ { x, err := m(r); ...; xs = append(xs, x) }\<close>\<close>

primrec repE :: "nat \<Rightarrow> ('s, 'e, 'a) act \<Rightarrow> ('s, 'e, 'a list) act" where
  "repE 0 m = retE []"
| "repE (Suc k) m = bindE m (\<lambda>x. bindE (repE k m) (\<lambda>xs. retE (x # xs)))"

text \<open>Fixed-width reads: \<open>io.ReadFull\<close> and \<open>byteOrder.UintN\<close>.\<close>

definition readU32 :: "u32 rd" where
  "readU32 = bindE (ReadFull 4) (\<lambda>bs. retE (le_word bs))"

definition readU64 :: "u64 rd" where
  "readU64 = bindE (ReadFull 8) (\<lambda>bs. retE (le_word bs))"

definition readByte :: "byte rd" where
  "readByte = bindE (ReadFull 1) (\<lambda>bs. retE (hd bs))"

definition readHash :: "256 word rd" where
  "readHash = bindE (ReadFull 32) (\<lambda>bs. retE (le_word bs))"

section \<open>What a reader does\<close>

definition reads :: "'a rd \<Rightarrow> byte list \<Rightarrow> 'a \<Rightarrow> bool" where
  "reads m bs a \<longleftrightarrow> (\<forall>rest n. m (bs @ rest, n) = (Inr a, (rest, n + length bs))) \<and>
     (\<forall>p n. strict_prefix p bs \<longrightarrow>
        m (p, n) = (Inl (if p = [] then EOF else ErrUnexpectedEOF), ([], n + length p)))"

definition reads' :: "'a rd \<Rightarrow> byte list \<Rightarrow> 'a \<Rightarrow> bool" where
  "reads' m bs a \<longleftrightarrow> (\<forall>rest n. m (bs @ rest, n) = (Inr a, (rest, n + length bs))) \<and>
     (\<forall>p n. strict_prefix p bs \<longrightarrow> m (p, n) = (Inl ErrUnexpectedEOF, ([], n + length p)))"

named_theorems readers \<open>rules for \<open>reads\<close> and \<open>reads'\<close>\<close>

lemma reads_ReadFull: "length bs = k \<Longrightarrow> reads (ReadFull k) bs bs"
  by (auto simp: reads_def ReadFull_def dest: prefix_length_less)

lemma reads'_noEOF [readers]: "reads m bs a \<Longrightarrow> reads' (noEOF m) bs a"
  by (simp add: reads_def reads'_def noEOF_def)

lemma reads'_retE [readers]: "reads' (retE a) [] a"
  by (simp add: reads'_def retE_def)

text \<open>A proper prefix of \<open>b1 @ b2\<close> stops in \<open>b1\<close> or in \<open>b2\<close>.\<close>

lemma strict_prefix_append_cases:
  assumes "strict_prefix p (b1 @ b2)"
  obtains (first) "strict_prefix p b1" | (second) q where "p = b1 @ q" "strict_prefix q b2"
proof (cases "prefix b1 p")
  case True
  then obtain q where "p = b1 @ q" by (auto elim: prefixE)
  then show ?thesis using assms second by (auto simp: strict_prefix_def)
next
  case False
  have "prefix p (b1 @ b2)" "prefix b1 (b1 @ b2)" using assms by auto
  then have "prefix p b1" using prefix_same_cases False by blast
  then show ?thesis using False first by (auto simp: strict_prefix_def)
qed

lemma reads'_bindE [readers]:
  assumes "reads' m b1 a" and "reads' (f a) b2 c"
  shows "reads' (bindE m f) (b1 @ b2) c"
  unfolding reads'_def
proof (intro conjI allI impI)
  fix rest n
  show "bindE m f ((b1 @ b2) @ rest, n) = (Inr c, rest, n + length (b1 @ b2))"
    using assms by (simp add: reads'_def bindE_def add.assoc)
next
  fix p n assume "strict_prefix p (b1 @ b2)"
  then show "bindE m f (p, n) = (Inl ErrUnexpectedEOF, [], n + length p)"
    by (cases rule: strict_prefix_append_cases) (use assms in \<open>auto simp: reads'_def bindE_def add.assoc\<close>)
qed

lemma reads_bindE [readers]:
  assumes "reads m b1 a" and "reads' (f a) b2 c" and "b1 \<noteq> []"
  shows "reads (bindE m f) (b1 @ b2) c"
  unfolding reads_def
proof (intro conjI allI impI)
  fix rest n
  show "bindE m f ((b1 @ b2) @ rest, n) = (Inr c, rest, n + length (b1 @ b2))"
    using assms by (simp add: reads_def reads'_def bindE_def add.assoc)
next
  fix p n assume "strict_prefix p (b1 @ b2)"
  then show "bindE m f (p, n) = (Inl (if p = [] then EOF else ErrUnexpectedEOF), [], n + length p)"
    by (cases rule: strict_prefix_append_cases)
       (use assms in \<open>auto simp: reads_def reads'_def bindE_def add.assoc\<close>)
qed

lemma reads_map: "reads m bs a \<Longrightarrow> reads (bindE m (\<lambda>x. retE (g x))) bs (g a)"
  by (auto simp: reads_def bindE_def retE_def)

lemma reads'_map: "reads' m bs a \<Longrightarrow> reads' (bindE m (\<lambda>x. retE (g x))) bs (g a)"
  by (auto simp: reads'_def bindE_def retE_def)

lemma reads'_repE [readers]:
  assumes "\<And>x. x \<in> set xs \<Longrightarrow> reads' m (enc x) (dec x)"
  shows "reads' (repE (length xs) m) (concat (map enc xs)) (map dec xs)"
  using assms
proof (induction xs)
  case (Cons x xs)
  have "reads' (bindE m (\<lambda>y. bindE (repE (length xs) m) (\<lambda>ys. retE (y # ys))))
      (enc x @ concat (map enc xs)) (dec x # map dec xs)"
    by (rule reads'_bindE [OF _ reads'_map]) (use Cons in auto)
  then show ?case by simp
qed (simp add: reads'_retE)

lemma reads_le:
  fixes w :: "'a::len word"
  assumes "LENGTH('a) \<le> 8 * k"
  shows "reads (bindE (ReadFull k) (\<lambda>bs. retE (le_word bs))) (le_bytes k w) w"
  using reads_map [OF reads_ReadFull [of "le_bytes k w" k], where g = "le_word :: byte list \<Rightarrow> 'a word"] assms
  by simp

lemma reads_words [readers]:
  "reads readU32 (le_bytes 4 w) w" "reads readU64 (le_bytes 8 v) v" "reads readHash (le_bytes 32 h) h"
  unfolding readU32_def readU64_def readHash_def by (rule reads_le; simp)+

lemma reads_byte [readers]: "reads readByte [b] b"
  unfolding readByte_def using reads_map [OF reads_ReadFull [of "[b]" 1], of hd] by simp

text \<open>The rules for one more field, in the middle and at the end of a structure.\<close>

lemma le_bytes_neq_Nil: "0 < k \<Longrightarrow> le_bytes k w \<noteq> []"
  using length_le_bytes [of k w] by (metis length_0_conv less_not_refl)

lemma reads_first:
  "reads' (f w) bs a \<Longrightarrow> reads (bindE readU32 f) (le_bytes 4 w @ bs) a"
  "reads' (g h) bs a \<Longrightarrow> reads (bindE readHash g) (le_bytes 32 h @ bs) a"
  by (rule reads_bindE [OF reads_words(1)], assumption, simp add: le_bytes_neq_Nil)
     (rule reads_bindE [OF reads_words(3)], assumption, simp add: le_bytes_neq_Nil)

lemma reads'_next:
  "reads' (f w) bs a \<Longrightarrow> reads' (bindE (noEOF readU32) f) (le_bytes 4 w @ bs) a"
  "reads' (g v) bs a \<Longrightarrow> reads' (bindE (noEOF readU64) g) (le_bytes 8 v @ bs) a"
  "reads' (h d) bs a \<Longrightarrow> reads' (bindE (noEOF readHash) h) (le_bytes 32 d @ bs) a"
  "reads' (k b) bs a \<Longrightarrow> reads' (bindE (noEOF readByte) k) (b # bs) a"
  using reads'_bindE [OF reads'_noEOF [OF reads_words(1)]] reads'_bindE [OF reads'_noEOF [OF reads_words(2)]]
    reads'_bindE [OF reads'_noEOF [OF reads_words(3)]] reads'_bindE [OF reads'_noEOF [OF reads_byte]]
  by fastforce+

lemma reads'_last:
  "reads' (bindE (noEOF readU32) (\<lambda>x. retE (g x))) (le_bytes 4 w) (g w)"
  "reads' (bindE (noEOF readU64) (\<lambda>x. retE (g' x))) (le_bytes 8 v) (g' v)"
  "reads' (bindE (noEOF readHash) (\<lambda>x. retE (g'' x))) (le_bytes 32 h) (g'' h)"
  by (intro reads'_map reads'_noEOF reads_words)+

text \<open>A count followed by as many values.\<close>

definition small :: "'a list \<Rightarrow> bool" where
  "small xs \<longleftrightarrow> length xs < 2 ^ 32"

definition encList :: "('a \<Rightarrow> byte list) \<Rightarrow> 'a list \<Rightarrow> byte list" where
  "encList enc xs = le_bytes 4 (of_nat (length xs) :: u32) @ concat (map enc xs)"

lemma small_count: "small xs \<Longrightarrow> unat (of_nat (length xs) :: u32) = length xs"
  by (simp add: small_def unat_of_nat_small)

lemma reads'_counted:
  assumes "small xs" and "\<And>x. x \<in> set xs \<Longrightarrow> reads' m (enc x) (dec x)"
    and "reads' (f (map dec xs)) bs a"
  shows "reads' (bindE (noEOF readU32) (\<lambda>c. bindE (repE (unat c) m) f)) (encList enc xs @ bs) a"
proof -
  have "reads' (bindE (repE (unat (of_nat (length xs) :: u32)) m) f) (concat (map enc xs) @ bs) a"
    unfolding small_count [OF assms(1)] by (rule reads'_bindE [where a = "map dec xs"]) (rule reads'_repE, erule assms(2), rule assms(3))
  then show ?thesis unfolding encList_def append_assoc by (rule reads'_next(1))
qed

lemma reads'_counted_last:
  assumes "small xs" and "\<And>x. x \<in> set xs \<Longrightarrow> reads' m (enc x) (dec x)"
  shows "reads' (bindE (noEOF readU32) (\<lambda>c. bindE (repE (unat c) m) (\<lambda>ys. retE (g ys))))
    (encList enc xs) (g (map dec xs))"
  using reads'_counted [OF assms reads'_retE, of "\<lambda>x. x" g] by simp

section \<open>What a writer does\<close>

lemma Write_Nil: "Write [] w = (Inr (), w)"
  by (cases w; cases "snd w") (auto simp: Write_def)

text \<open>Two writes are one write of the concatenation, also when the writer is full in between.\<close>

lemma Write_append: "bindE (Write a) (\<lambda>_. Write b) = Write (a @ b)"
proof
  fix w :: wstate
  show "bindE (Write a) (\<lambda>_. Write b) w = Write (a @ b) w"
    by (cases "snd w") (auto simp: bindE_def Write_def)
qed

lemma bindE_assoc: "bindE (bindE m f) g = bindE m (\<lambda>a. bindE (f a) g)"
  by (rule ext) (auto simp: bindE_def split: prod.split sum.split)

lemma Write_bind: "bindE (Write a) (\<lambda>_. bindE (Write b) f) = bindE (Write (a @ b)) f"
  by (simp add: Write_append [symmetric] bindE_assoc)

lemma forE_Write: "(\<And>x. x \<in> set xs \<Longrightarrow> f x = Write (enc x)) \<Longrightarrow> forE f xs = Write (concat (map enc xs))"
proof (induction xs)
  case Nil
  then show ?case by (auto simp: Write_Nil)
next
  case (Cons x xs)
  have "forE f (x # xs) = bindE (f x) (\<lambda>_. forE f xs)" by (rule ext) (simp add: bindE_def)
  then show ?case using Cons by (simp add: Write_append)
qed

lemma retE_Write: "retE () = Write []"
  by (rule ext) (simp add: Write_Nil retE_def)

lemmas writers = Write_append Write_bind retE_Write

section \<open>Codecs\<close>

text \<open>\<open>wr\<close> writes exactly \<open>enc x\<close>, \<open>rd\<close> reads it back to \<open>dec x\<close>.\<close>

locale codec =
  fixes wr :: "'a \<Rightarrow> wr" and rd :: "'b rd" and enc :: "'a \<Rightarrow> byte list" and dec :: "'a \<Rightarrow> 'b"
    and valid :: "'a \<Rightarrow> bool"
  assumes writes: "valid x \<Longrightarrow> wr x = Write (enc x)"
    and reads: "valid x \<Longrightarrow> reads rd (enc x) (dec x)"
begin

lemma write_all: "valid x \<Longrightarrow> wr x (out, None) = (Inr (), (out @ enc x, None))"
  by (simp add: writes Write_def)

lemma write_full:
  "valid x \<Longrightarrow> room < length (enc x) \<Longrightarrow>
   wr x (out, Some room) = (Inl ErrShortWrite, (out @ take room (enc x), Some 0))"
  by (simp add: writes Write_def)

lemma round_trip:
  assumes "valid x" and "wr x ([], None) = (res, (bs, room))"
  shows "rd (bs @ rest, n) = (Inr (dec x), (rest, n + length bs))"
  using assms reads [of x] by (simp add: write_all reads_def)

lemma truncated:
  assumes "valid x" and "strict_prefix p (enc x)"
  shows "rd (p, n) = (Inl (if p = [] then EOF else ErrUnexpectedEOF), ([], n + length p))"
  using assms reads [of x] by (simp add: reads_def)

lemma reads_next: "valid x \<Longrightarrow> reads' (f (dec x)) bs a \<Longrightarrow> reads' (bindE (noEOF rd) f) (enc x @ bs) a"
  by (rule reads'_bindE [OF reads'_noEOF [OF reads]])

lemma inner: "valid x \<Longrightarrow> reads' (noEOF rd) (enc x) (dec x)"
  by (rule reads'_noEOF [OF reads])

text \<open>A list of values after its count, as the code writes slices.\<close>

lemma writes_list: "\<forall>x \<in> set xs. valid x \<Longrightarrow> forE wr xs = Write (concat (map enc xs))"
  by (rule forE_Write) (simp add: writes)

lemma reads_list:
  assumes "\<forall>x \<in> set xs. valid x"
  shows "reads' (repE (length xs) (noEOF rd)) (concat (map enc xs)) (map dec xs)"
  by (rule reads'_repE) (use assms inner in auto)

end

end
