(* ===== verification/Tx_Serial.thy ===== *)
theory Tx_Serial
  imports Tx_Query Go_IO
begin

text \<open>
  \<open>src/txstore/serialization.go\<close>: the \<open>ReadFrom\<close> and \<open>WriteTo\<close> methods of the keys, records, block
  collections, the unconfirmed store and the store.

  A \<open>ReadFrom\<close> that fills a fresh structure returns it as a value, since its callers drop the structure
  on an error; \<open>unconfirmedStore.ReadFrom\<close> and \<open>Store.ReadFrom\<close> fill a structure that stays, so they
  are actions on a store beside the reader, and what was read before an error remains.

  The library \<open>btcwire\<close> is a parameter: \<open>tx_Serialize\<close>, \<open>tx_SerializeSize\<close> and \<open>tx_TxSha\<close> of a message, and
  \<open>tx_Deserialize\<close>, which gives the message or the error and the number of bytes taken from the input.
\<close>

section \<open>The transaction library\<close>

record txlib =
  tx_Serialize :: "MsgTx \<Rightarrow> byte list"
  tx_Deserialize :: "byte list \<Rightarrow> (err + MsgTx) \<times> nat"
  tx_SerializeSize :: "MsgTx \<Rightarrow> nat"
  tx_TxSha :: "MsgTx \<Rightarrow> ShaHash"

section \<open>Keys\<close>

definition versFastRewrite :: u32 where
  "versFastRewrite = 4"

definition BlockTxKey_ReadFrom :: "BlockTxKey rd" where
  "BlockTxKey_ReadFrom =
     bindE readU32 (\<lambda>i. bindE (noEOF readU32) (\<lambda>h.
       retE \<lparr>BlockIndex = ucast i, BlockHeight = h\<rparr>))"

definition BlockTxKey_WriteTo :: "BlockTxKey \<Rightarrow> wr" where
  "BlockTxKey_WriteTo k =
     bindE (Write (le_bytes 4 (ucast (BlockIndex k) :: u32))) (\<lambda>_.
       Write (le_bytes 4 (BlockHeight k)))"

definition BlockOutputKey_ReadFrom :: "BlockOutputKey rd" where
  "BlockOutputKey_ReadFrom =
     bindE BlockTxKey_ReadFrom (\<lambda>k. bindE (noEOF readU32) (\<lambda>i.
       retE \<lparr>bok_TxKey = k, bok_OutputIndex = i\<rparr>))"

definition BlockOutputKey_WriteTo :: "BlockOutputKey \<Rightarrow> wr" where
  "BlockOutputKey_WriteTo k =
     bindE (BlockTxKey_WriteTo (bok_TxKey k)) (\<lambda>_. Write (le_bytes 4 (bok_OutputIndex k)))"

section \<open>Transaction records\<close>

definition nilPointer :: byte where "nilPointer = 0"
definition validPointer :: byte where "validPointer = 1"
definition falseByte :: byte where "falseByte = 0"
definition trueByte :: byte where "trueByte = 1"

definition byteMarksValidPointer :: "byte \<Rightarrow> err + bool" where
  "byteMarksValidPointer b =
     (if b = nilPointer then Inr False
      else if b = validPointer then Inr True
      else Inl (ErrorString ''invalid byte representation of valid pointer''))"

definition byteAsBool :: "byte \<Rightarrow> err + bool" where
  "byteAsBool b =
     (if b = falseByte then Inr False
      else if b = trueByte then Inr True
      else Inl (ErrorString ''invalid byte representation of bool''))"

definition msgTx_ReadFrom :: "txlib \<Rightarrow> MsgTx rd" where
  "msgTx_ReadFrom lib r =
     (case tx_Deserialize lib (fst r) of
        (Inl e, k) \<Rightarrow> (Inl (if k \<noteq> 0 \<and> e = EOF then ErrUnexpectedEOF else e), (drop k (fst r), snd r + k))
      | (Inr m, k) \<Rightarrow> (Inr m, (drop k (fst r), snd r + tx_SerializeSize lib m)))"

definition msgTx_WriteTo :: "txlib \<Rightarrow> MsgTx \<Rightarrow> wr" where
  "msgTx_WriteTo lib m = Write (tx_Serialize lib m)"

definition readDebits :: "debits option rd" where
  "readDebits =
     bindE (noEOF readByte) (\<lambda>b. bindE (liftE (\<lambda>_. byteMarksValidPointer b)) (\<lambda>hasDebits.
       if hasDebits then
         bindE (noEOF readU64) (\<lambda>amount. bindE (noEOF readU32) (\<lambda>spendsCount.
         bindE (repE (unat spendsCount) (noEOF BlockOutputKey_ReadFrom)) (\<lambda>spends.
           retE (Some \<lparr>debit_amount = amount,
                       debit_spends = (if spends = [] then None else Some spends)\<rparr>))))
       else retE None))"

definition readCredit :: "credit option rd" where
  "readCredit =
     bindE (noEOF readByte) (\<lambda>b. bindE (liftE (\<lambda>_. byteMarksValidPointer b)) (\<lambda>validCredit.
       if \<not> validCredit then retE None
       else
         bindE (noEOF readByte) (\<lambda>cb. bindE (liftE (\<lambda>_. byteAsBool cb)) (\<lambda>change.
         bindE (noEOF readByte) (\<lambda>unused.
         bindE (noEOF readByte) (\<lambda>sb. bindE (liftE (\<lambda>_. byteMarksValidPointer sb)) (\<lambda>validSpentBy.
           if validSpentBy then
             bindE (noEOF BlockTxKey_ReadFrom) (\<lambda>k.
               retE (Some \<lparr>credit_change = change, credit_spentBy = Some k\<rparr>))
           else retE (Some \<lparr>credit_change = change, credit_spentBy = None\<rparr>))))))))"

definition txRecord_ReadFrom :: "txlib \<Rightarrow> txRecord rd" where
  "txRecord_ReadFrom lib =
     bindE readU32 (\<lambda>txIndex. bindE (noEOF (msgTx_ReadFrom lib)) (\<lambda>m.
     bindE readDebits (\<lambda>d.
     bindE (noEOF readU32) (\<lambda>creditsCount. bindE (repE (unat creditsCount) readCredit) (\<lambda>cs.
     bindE (noEOF readU64) (\<lambda>received.
       retE \<lparr>rec_tx = \<lparr>TxMsg = m, TxSha = tx_TxSha lib m, TxIndex = ucast txIndex\<rparr>,
             rec_debits = d, rec_credits = cs,
             rec_received = \<lparr>time_sec = received, time_nsec = 0\<rparr>\<rparr>))))))"

abbreviation spendsOf :: "debits \<Rightarrow> BlockOutputKey list" where
  "spendsOf d \<equiv> (case debit_spends d of None \<Rightarrow> [] | Some ks \<Rightarrow> ks)"

definition writeDebits :: "debits option \<Rightarrow> wr" where
  "writeDebits dd = (case dd of
     None \<Rightarrow> Write [nilPointer]
   | Some d \<Rightarrow>
       bindE (Write [validPointer]) (\<lambda>_.
       bindE (Write (le_bytes 8 (debit_amount d))) (\<lambda>_.
       bindE (Write (le_bytes 4 (of_nat (length (spendsOf d)) :: u32))) (\<lambda>_.
         forE BlockOutputKey_WriteTo (spendsOf d)))))"

definition writeCredit :: "credit option \<Rightarrow> wr" where
  "writeCredit cc = (case cc of
     None \<Rightarrow> Write [nilPointer]
   | Some c \<Rightarrow>
       bindE (Write [validPointer]) (\<lambda>_.
       bindE (Write [if credit_change c then trueByte else falseByte, 0]) (\<lambda>_.
         (case credit_spentBy c of
            None \<Rightarrow> Write [nilPointer]
          | Some k \<Rightarrow> bindE (Write [validPointer]) (\<lambda>_. BlockTxKey_WriteTo k)))))"

definition txRecord_WriteTo :: "txlib \<Rightarrow> txRecord \<Rightarrow> wr" where
  "txRecord_WriteTo lib t =
     bindE (Write (le_bytes 4 (ucast (TxIndex (rec_tx t)) :: u32))) (\<lambda>_.
     bindE (msgTx_WriteTo lib (TxMsg (rec_tx t))) (\<lambda>_.
     bindE (writeDebits (rec_debits t)) (\<lambda>_.
     bindE (Write (le_bytes 4 (of_nat (length (rec_credits t)) :: u32))) (\<lambda>_.
     bindE (forE writeCredit (rec_credits t)) (\<lambda>_.
       Write (le_bytes 8 (time_sec (rec_received t))))))))"

section \<open>Block collections\<close>

text \<open>A collection as it is read: its fields with the records themselves instead of their addresses.\<close>

record collData =
  cd_Block :: Block
  cd_amounts :: blockAmounts
  cd_records :: "txRecord list"

text \<open>\<open>b.txIndexes[t.tx.Index()] = i\<close> for each record in turn.\<close>

definition dataIndexes :: "txRecord list \<Rightarrow> (i64, nat) gomap" where
  "dataIndexes ts = fold (\<lambda>(i, t). AList.update (TxIndex (rec_tx t)) i) (enumerate 0 ts) []"

definition coll_ReadFrom :: "txlib \<Rightarrow> collData rd" where
  "coll_ReadFrom lib =
     bindE readHash (\<lambda>hash. bindE (noEOF readU64) (\<lambda>time. bindE (noEOF readU32) (\<lambda>height.
     bindE (noEOF readU64) (\<lambda>spendable. bindE (noEOF readU64) (\<lambda>reward.
     bindE (noEOF readU32) (\<lambda>txCount.
     bindE (repE (unat txCount) (noEOF (txRecord_ReadFrom lib))) (\<lambda>ts.
       retE \<lparr>cd_Block = \<lparr>block_Hash = hash, block_Time = \<lparr>time_sec = time, time_nsec = 0\<rparr>,
               block_Height = height\<rparr>,
             cd_amounts = \<lparr>Spendable = spendable, Reward = reward\<rparr>,
             cd_records = ts\<rparr>)))))))"

definition coll_WriteTo :: "txlib \<Rightarrow> Store \<Rightarrow> bref \<Rightarrow> wr" where
  "coll_WriteTo lib s b =
     (let c = bget s b in
      bindE (Write (le_bytes 32 (block_Hash (coll_Block c)))) (\<lambda>_.
      bindE (Write (le_bytes 8 (time_sec (block_Time (coll_Block c))))) (\<lambda>_.
      bindE (Write (le_bytes 4 (block_Height (coll_Block c)))) (\<lambda>_.
      bindE (Write (le_bytes 8 (Spendable (amountDeltas c)))) (\<lambda>_.
      bindE (Write (le_bytes 8 (Reward (amountDeltas c)))) (\<lambda>_.
      bindE (Write (le_bytes 4 (of_nat (length (txs c)) :: u32))) (\<lambda>_.
        forE (\<lambda>r. txRecord_WriteTo lib (rget s r)) (txs c))))))))"

section \<open>The unconfirmed store\<close>

type_synonym 'a storerd = "(Store \<times> rstate, err, 'a) act"

definition onReader :: "'a rd \<Rightarrow> 'a storerd" where
  "onReader m sr = (case m (snd sr) of (x, r) \<Rightarrow> (x, (fst sr, r)))"

definition onStore :: "(Store \<Rightarrow> Store) \<Rightarrow> unit storerd" where
  "onStore f sr = (Inr (), (f (fst sr), snd sr))"

definition readOutPoint :: "OutPoint rd" where
  "readOutPoint = bindE (noEOF readHash) (\<lambda>h. bindE (noEOF readU32) (\<lambda>i.
     retE \<lparr>OpHash = h, OpIndex = i\<rparr>))"

definition missingUnconfirmed :: err where
  "missingUnconfirmed = ErrorString ''missing unconfirmed transaction record''"

text \<open>\<open>t, ok := u.txs[txHash]; if !ok { return error }\<close>\<close>

definition lookupUnconfirmed :: "ShaHash \<Rightarrow> rref storerd" where
  "lookupUnconfirmed h sr = (case map_of (u_txs (unconfirmed (fst sr))) h of
     None \<Rightarrow> (Inl missingUnconfirmed, sr)
   | Some r \<Rightarrow> (Inr r, sr))"

definition readUnconfirmedTx :: "txlib \<Rightarrow> nat \<Rightarrow> unit storerd" where
  "readUnconfirmedTx lib i =
     bindE (onReader (noEOF (txRecord_ReadFrom lib))) (\<lambda>t.
       onStore (\<lambda>s. upd_unc (\<lambda>u. u\<lparr>u_txs := AList.update (TxSha (rec_tx t)) (length (rheap s)) (u_txs u)\<rparr>)
         (s\<lparr>rheap := rheap s @ [t]\<rparr>)))"

definition readSpentBlockOutPoint :: "nat \<Rightarrow> unit storerd" where
  "readSpentBlockOutPoint i =
     bindE (onReader readOutPoint) (\<lambda>op.
     bindE (onReader (noEOF BlockTxKey_ReadFrom)) (\<lambda>k.
     bindE (onReader (noEOF readHash)) (\<lambda>txHash.
     bindE (lookupUnconfirmed txHash) (\<lambda>t.
       onStore (upd_unc (\<lambda>u.
         let opKey = \<lparr>bok_TxKey = k, bok_OutputIndex = OpIndex op\<rparr> in
         u\<lparr>spentBlockOutPoints := AList.update opKey t (spentBlockOutPoints u),
           spentBlockOutPointKeys := AList.update op opKey (spentBlockOutPointKeys u)\<rparr>))))))"

definition readSpentUnconfirmed :: "nat \<Rightarrow> unit storerd" where
  "readSpentUnconfirmed i =
     bindE (onReader readOutPoint) (\<lambda>op.
     bindE (onReader (noEOF readHash)) (\<lambda>txHash.
     bindE (lookupUnconfirmed txHash) (\<lambda>t.
       onStore (upd_unc (\<lambda>u. u\<lparr>spentUnconfirmed := AList.update op t (spentUnconfirmed u)\<rparr>)))))"

definition recreatePreviousOutpoints :: "Store \<Rightarrow> Store" where
  "recreatePreviousOutpoints s = upd_unc (\<lambda>u. u\<lparr>previousOutpoints :=
     fold (\<lambda>(k, r). fold (\<lambda>input. AList.update (PreviousOutpoint input) r) (recTxIns s r))
       (u_txs u) (previousOutpoints u)\<rparr>) s"

definition unconfirmed_ReadFrom :: "txlib \<Rightarrow> unit storerd" where
  "unconfirmed_ReadFrom lib =
     bindE (onReader readU32) (\<lambda>txCount.
     bindE (forE (readUnconfirmedTx lib) [0..<unat txCount]) (\<lambda>_.
     bindE (onReader (noEOF readU32)) (\<lambda>spentBlockOutPointCount.
     bindE (forE readSpentBlockOutPoint [0..<unat spentBlockOutPointCount]) (\<lambda>_.
     bindE (onReader (noEOF readU32)) (\<lambda>spentUnconfirmedCount.
     bindE (forE readSpentUnconfirmed [0..<unat spentUnconfirmedCount]) (\<lambda>_.
       onStore recreatePreviousOutpoints))))))"

definition writeSpentBlockOutPoint :: "Store \<Rightarrow> OutPoint \<times> BlockOutputKey \<Rightarrow> wr" where
  "writeSpentBlockOutPoint s e =
     (let op = fst e; opKey = snd e in
      bindE (Write (le_bytes 32 (OpHash op))) (\<lambda>_.
      bindE (Write (le_bytes 4 (OpIndex op))) (\<lambda>_.
      bindE (BlockTxKey_WriteTo (bok_TxKey opKey)) (\<lambda>_.
        (case map_of (spentBlockOutPoints (unconfirmed s)) opKey of
           None \<Rightarrow> failE (MissingCreditError opKey)
         | Some t \<Rightarrow> Write (le_bytes 32 (recSha s t)))))))"

definition writeSpentUnconfirmed :: "Store \<Rightarrow> OutPoint \<times> rref \<Rightarrow> wr" where
  "writeSpentUnconfirmed s e =
     bindE (Write (le_bytes 32 (OpHash (fst e)))) (\<lambda>_.
     bindE (Write (le_bytes 4 (OpIndex (fst e)))) (\<lambda>_.
       Write (le_bytes 32 (recSha s (snd e)))))"

definition unconfirmed_WriteTo :: "txlib \<Rightarrow> Store \<Rightarrow> wr" where
  "unconfirmed_WriteTo lib s =
     (let u = unconfirmed s in
      bindE (Write (le_bytes 4 (of_nat (length (u_txs u)) :: u32))) (\<lambda>_.
      bindE (forE (\<lambda>e. txRecord_WriteTo lib (rget s (snd e))) (u_txs u)) (\<lambda>_.
        if length (spentBlockOutPoints u) \<noteq> length (spentBlockOutPointKeys u)
        then failE (ErrorString ''spent block tx maps lengths differ'')
        else
          bindE (Write (le_bytes 4 (of_nat (length (spentBlockOutPoints u)) :: u32))) (\<lambda>_.
          bindE (forE (writeSpentBlockOutPoint s) (spentBlockOutPointKeys u)) (\<lambda>_.
          bindE (Write (le_bytes 4 (of_nat (length (spentUnconfirmed u)) :: u32))) (\<lambda>_.
            forE (writeSpentUnconfirmed s) (spentUnconfirmed u)))))))"

section \<open>The store\<close>

text \<open>The records and the collection go to the heaps; the unspent outputs of the block are recreated from
  its index map.\<close>

definition addUnspent :: "Store \<Rightarrow> i32 \<Rightarrow> i64 \<times> rref \<Rightarrow> (OutPoint, BlockTxKey) gomap \<Rightarrow>
    (OutPoint, BlockTxKey) gomap" where
  "addUnspent s height e m =
     (let cs = rec_credits (rget s (snd e)) in
      fold (\<lambda>i. AList.update \<lparr>OpHash = recSha s (snd e), OpIndex = of_nat i\<rparr>
              \<lparr>BlockIndex = fst e, BlockHeight = height\<rparr>)
        (filter (\<lambda>i. case cs ! i of None \<Rightarrow> False | Some c \<Rightarrow> credit_spentBy c = None) [0..<length cs]) m)"

definition attachColl :: "nat \<Rightarrow> collData \<Rightarrow> Store \<Rightarrow> Store" where
  "attachColl i d s =
     (let r0 = length (rheap s); b = length (bheap s); h = block_Height (cd_Block d);
          idx = dataIndexes (cd_records d);
          s1 = s\<lparr>rheap := rheap s @ cd_records d,
                bheap := bheap s @ [\<lparr>coll_Block = cd_Block d, amountDeltas = cd_amounts d,
                   txs = [r0..<r0 + length (cd_records d)], txIndexes = idx\<rparr>],
                blocks := blocks s @ [b],
                blockIndexes := AList.update h i (blockIndexes s)\<rparr>
      in s1\<lparr>unspent := fold (\<lambda>(k, j). addUnspent s1 h (k, r0 + j)) idx (unspent s1)\<rparr>)"

definition readBlock :: "txlib \<Rightarrow> nat \<Rightarrow> unit storerd" where
  "readBlock lib i = bindE (onReader (noEOF (coll_ReadFrom lib))) (\<lambda>d. onStore (attachColl i d))"

definition Store_ReadFrom :: "txlib \<Rightarrow> unit storerd" where
  "Store_ReadFrom lib =
     bindE (onReader readU32) (\<lambda>vers.
       if vers < versFastRewrite then failE ErrUnsupportedVersion
       else
         bindE (onStore (\<lambda>_. New)) (\<lambda>_.
         bindE (onReader (noEOF readU32)) (\<lambda>blockCount.
         bindE (forE (readBlock lib) [0..<unat blockCount]) (\<lambda>_.
           noEOF (unconfirmed_ReadFrom lib)))))"

definition Store_WriteTo :: "txlib \<Rightarrow> Store \<Rightarrow> wr" where
  "Store_WriteTo lib s =
     bindE (Write (le_bytes 4 versFastRewrite)) (\<lambda>_.
     bindE (Write (le_bytes 4 (of_nat (length (blocks s)) :: u32))) (\<lambda>_.
     bindE (forE (coll_WriteTo lib s) (blocks s)) (\<lambda>_.
       unconfirmed_WriteTo lib s)))"

end
