(* ===== verification/Tx_SerialProps.thy ===== *)
theory Tx_SerialProps
  imports Tx_Serial
begin

text \<open>
  Round trips of the serialization. For each type a function gives the bytes that \<open>WriteTo\<close> writes and
  another the value that \<open>ReadFrom\<close> gives back: block indexes pass through 32 bits, times keep
  their seconds, an empty list of spends becomes nil, and the hash of a transaction is recomputed. Each
  pair of methods is an interpretation of \<open>codec\<close>, from which follow the round trip, the behaviour of
  a reader on a truncated file and of a full disk.
\<close>

section \<open>Keys\<close>

definition encKey :: "BlockTxKey \<Rightarrow> byte list" where
  "encKey k = le_bytes 4 (ucast (BlockIndex k) :: u32) @ le_bytes 4 (BlockHeight k)"

definition normKey :: "BlockTxKey \<Rightarrow> BlockTxKey" where
  "normKey k = \<lparr>BlockIndex = ucast (ucast (BlockIndex k) :: u32), BlockHeight = BlockHeight k\<rparr>"

definition encOutKey :: "BlockOutputKey \<Rightarrow> byte list" where
  "encOutKey k = encKey (bok_TxKey k) @ le_bytes 4 (bok_OutputIndex k)"

definition normOutKey :: "BlockOutputKey \<Rightarrow> BlockOutputKey" where
  "normOutKey k = \<lparr>bok_TxKey = normKey (bok_TxKey k), bok_OutputIndex = bok_OutputIndex k\<rparr>"

interpretation btk: codec BlockTxKey_WriteTo BlockTxKey_ReadFrom encKey normKey "\<lambda>_. True"
proof
  fix k
  show "BlockTxKey_WriteTo k = Write (encKey k)"
    by (simp add: BlockTxKey_WriteTo_def encKey_def writers)
  show "reads BlockTxKey_ReadFrom (encKey k) (normKey k)"
    unfolding BlockTxKey_ReadFrom_def encKey_def normKey_def
    by (rule reads_first(1), rule reads'_last)
qed

interpretation bok: codec BlockOutputKey_WriteTo BlockOutputKey_ReadFrom encOutKey normOutKey "\<lambda>_. True"
proof
  fix k
  show "BlockOutputKey_WriteTo k = Write (encOutKey k)"
    by (simp add: BlockOutputKey_WriteTo_def encOutKey_def btk.writes writers)
  show "reads BlockOutputKey_ReadFrom (encOutKey k) (normOutKey k)"
    unfolding BlockOutputKey_ReadFrom_def encOutKey_def normOutKey_def
    by (rule reads_bindE [OF btk.reads], simp, rule reads'_last) (simp add: encKey_def le_bytes_neq_Nil)
qed

section \<open>Records\<close>

definition encDebits :: "debits option \<Rightarrow> byte list" where
  "encDebits dd = (case dd of
     None \<Rightarrow> [nilPointer]
   | Some d \<Rightarrow> [validPointer] @ le_bytes 8 (debit_amount d) @ encList encOutKey (spendsOf d))"

definition normDebits :: "debits option \<Rightarrow> debits option" where
  "normDebits dd = map_option (\<lambda>d. \<lparr>debit_amount = debit_amount d,
     debit_spends = (if spendsOf d = [] then None else Some (map normOutKey (spendsOf d)))\<rparr>) dd"

definition encCredit :: "credit option \<Rightarrow> byte list" where
  "encCredit cc = (case cc of
     None \<Rightarrow> [nilPointer]
   | Some c \<Rightarrow> [validPointer, if credit_change c then trueByte else falseByte, 0] @
       (case credit_spentBy c of None \<Rightarrow> [nilPointer] | Some k \<Rightarrow> validPointer # encKey k))"

definition normCredit :: "credit option \<Rightarrow> credit option" where
  "normCredit = map_option (\<lambda>c. c\<lparr>credit_spentBy := map_option normKey (credit_spentBy c)\<rparr>)"

lemma pointer_bytes [simp]:
  "byteMarksValidPointer nilPointer = Inr False" "byteMarksValidPointer validPointer = Inr True"
  "byteAsBool (if b then trueByte else falseByte) = Inr b"
  by (simp_all add: byteMarksValidPointer_def byteAsBool_def nilPointer_def validPointer_def
      trueByte_def falseByte_def)

lemma bindE_liftE_Inr: "bindE (liftE (\<lambda>_. Inr a)) f = f a"
  by (rule ext) (simp add: bindE_def liftE_def)

lemma reads'_marker:
  "reads' (f False) bs a \<Longrightarrow>
   reads' (bindE (noEOF readByte) (\<lambda>b. bindE (liftE (\<lambda>_. byteMarksValidPointer b)) f)) (nilPointer # bs) a"
  "reads' (f True) bs a \<Longrightarrow>
   reads' (bindE (noEOF readByte) (\<lambda>b. bindE (liftE (\<lambda>_. byteMarksValidPointer b)) f)) (validPointer # bs) a"
  "reads' (f v) bs a \<Longrightarrow>
   reads' (bindE (noEOF readByte) (\<lambda>b. bindE (liftE (\<lambda>_. byteAsBool b)) f))
     ((if v then trueByte else falseByte) # bs) a"
  by (rule reads'_next(4), simp add: bindE_liftE_Inr del: if_True if_False)+

lemma writeDebits_Write: "writeDebits dd = Write (encDebits dd)"
  by (cases dd) (simp_all add: writeDebits_def encDebits_def encList_def bok.writes_list writers)

lemma reads'_readDebits:
  assumes "\<And>d. dd = Some d \<Longrightarrow> small (spendsOf d)"
  shows "reads' readDebits (encDebits dd) (normDebits dd)"
proof (cases dd)
  case None
  then show ?thesis
    unfolding readDebits_def by (simp add: encDebits_def normDebits_def) (rule reads'_marker(1), simp add: reads'_retE)
next
  case (Some d)
  have "reads' (bindE (noEOF readU64) (\<lambda>amount. bindE (noEOF readU32) (\<lambda>spendsCount.
         bindE (repE (unat spendsCount) (noEOF BlockOutputKey_ReadFrom)) (\<lambda>spends.
           retE (Some \<lparr>debit_amount = amount,
                       debit_spends = (if spends = [] then None else Some spends)\<rparr>)))))
     (le_bytes 8 (debit_amount d) @ encList encOutKey (spendsOf d))
     (Some \<lparr>debit_amount = debit_amount d, debit_spends = (if map normOutKey (spendsOf d) = [] then None
        else Some (map normOutKey (spendsOf d)))\<rparr>)"
    by (rule reads'_next(2), rule reads'_counted_last) (use Some assms bok.inner in auto)
  moreover have "encDebits dd = validPointer # le_bytes 8 (debit_amount d) @ encList encOutKey (spendsOf d)"
    and "normDebits dd = Some \<lparr>debit_amount = debit_amount d, debit_spends =
      (if map normOutKey (spendsOf d) = [] then None else Some (map normOutKey (spendsOf d)))\<rparr>"
    using Some by (simp_all add: encDebits_def normDebits_def)
  ultimately show ?thesis unfolding readDebits_def
    by (simp only:) (rule reads'_marker(2), simp only: if_True)
qed

lemma writeCredit_Write: "writeCredit cc = Write (encCredit cc)"
  by (cases cc) (auto simp: writeCredit_def encCredit_def btk.writes writers split: option.split)

lemma reads'_readCredit: "reads' readCredit (encCredit cc) (normCredit cc)"
proof (cases cc)
  case None
  then show ?thesis unfolding readCredit_def
    by (simp add: encCredit_def normCredit_def) (rule reads'_marker(1), simp add: reads'_retE)
next
  case (Some c)
  have last: "reads' (bindE (noEOF readByte) (\<lambda>sb. bindE (liftE (\<lambda>_. byteMarksValidPointer sb)) (\<lambda>validSpentBy.
           if validSpentBy then
             bindE (noEOF BlockTxKey_ReadFrom) (\<lambda>k.
               retE (Some \<lparr>credit_change = credit_change c, credit_spentBy = Some k\<rparr>))
           else retE (Some \<lparr>credit_change = credit_change c, credit_spentBy = None\<rparr>))))
      (case credit_spentBy c of None \<Rightarrow> [nilPointer] | Some k \<Rightarrow> validPointer # encKey k)
      (Some \<lparr>credit_change = credit_change c, credit_spentBy = map_option normKey (credit_spentBy c)\<rparr>)"
  proof (cases "credit_spentBy c")
    case None
    then show ?thesis by (simp, intro reads'_marker(1)) (simp add: reads'_retE)
  next
    case (Some k)
    then show ?thesis by (simp, intro reads'_marker(2)) (simp, rule reads'_map, simp add: btk.inner)
  qed
  have "normCredit cc =
      Some \<lparr>credit_change = credit_change c, credit_spentBy = map_option normKey (credit_spentBy c)\<rparr>"
    using Some by (cases c) (simp add: normCredit_def)
  moreover have "encCredit cc = validPointer # (if credit_change c then trueByte else falseByte) # 0 #
      (case credit_spentBy c of None \<Rightarrow> [nilPointer] | Some k \<Rightarrow> validPointer # encKey k)"
    using Some by (simp add: encCredit_def)
  ultimately show ?thesis unfolding readCredit_def
    by (simp only:) (rule reads'_marker(2), simp only: not_True_eq_False if_False,
      rule reads'_marker(3), rule reads'_next(4), rule last)
qed

text \<open>What the code relies on of the library, for one message: reading back what was serialized gives the
  message and takes exactly its bytes, the size is their number, and a truncated message ends in an
  end-of-file error after everything was read.\<close>

definition good_msg :: "txlib \<Rightarrow> MsgTx \<Rightarrow> bool" where
  "good_msg lib m \<longleftrightarrow> tx_Serialize lib m \<noteq> [] \<and> tx_SerializeSize lib m = length (tx_Serialize lib m)
     \<and> (\<forall>rest. tx_Deserialize lib (tx_Serialize lib m @ rest) = (Inr m, length (tx_Serialize lib m)))
     \<and> (\<forall>p. strict_prefix p (tx_Serialize lib m) \<longrightarrow>
          tx_Deserialize lib p = (Inl EOF, length p) \<or>
          p \<noteq> [] \<and> tx_Deserialize lib p = (Inl ErrUnexpectedEOF, length p))"

interpretation msg: codec "msgTx_WriteTo lib" "msgTx_ReadFrom lib" "tx_Serialize lib" "\<lambda>m. m" "good_msg lib" for lib
proof
  fix m assume g: "good_msg lib m"
  show "msgTx_WriteTo lib m = Write (tx_Serialize lib m)" by (simp add: msgTx_WriteTo_def)
  show "reads (msgTx_ReadFrom lib) (tx_Serialize lib m) m"
    unfolding reads_def
  proof (intro conjI allI impI)
    fix rest n
    show "msgTx_ReadFrom lib (tx_Serialize lib m @ rest, n) = (Inr m, rest, n + length (tx_Serialize lib m))"
      using g by (simp add: msgTx_ReadFrom_def good_msg_def)
  next
    fix p n assume "strict_prefix p (tx_Serialize lib m)"
    then have "tx_Deserialize lib p = (Inl EOF, length p) \<or>
        p \<noteq> [] \<and> tx_Deserialize lib p = (Inl ErrUnexpectedEOF, length p)" using g by (simp add: good_msg_def)
    then show "msgTx_ReadFrom lib (p, n) = (Inl (if p = [] then EOF else ErrUnexpectedEOF), [], n + length p)"
      by (auto simp: msgTx_ReadFrom_def)
  qed
qed

definition normTx :: "txlib \<Rightarrow> Tx \<Rightarrow> Tx" where
  "normTx lib tx = \<lparr>TxMsg = TxMsg tx, TxSha = tx_TxSha lib (TxMsg tx), TxIndex = ucast (ucast (TxIndex tx) :: u32)\<rparr>"

definition encRecord :: "txlib \<Rightarrow> txRecord \<Rightarrow> byte list" where
  "encRecord lib t = le_bytes 4 (ucast (TxIndex (rec_tx t)) :: u32) @ tx_Serialize lib (TxMsg (rec_tx t)) @
     encDebits (rec_debits t) @ encList encCredit (rec_credits t) @ le_bytes 8 (time_sec (rec_received t))"

definition normRecord :: "txlib \<Rightarrow> txRecord \<Rightarrow> txRecord" where
  "normRecord lib t = \<lparr>rec_tx = normTx lib (rec_tx t), rec_debits = normDebits (rec_debits t),
     rec_credits = map normCredit (rec_credits t),
     rec_received = \<lparr>time_sec = time_sec (rec_received t), time_nsec = 0\<rparr>\<rparr>"

definition validRecord :: "txlib \<Rightarrow> txRecord \<Rightarrow> bool" where
  "validRecord lib t \<longleftrightarrow> good_msg lib (TxMsg (rec_tx t)) \<and> small (rec_credits t) \<and>
     (case rec_debits t of None \<Rightarrow> True | Some d \<Rightarrow> small (spendsOf d))"

lemma forE_writeCredit: "forE writeCredit cs = Write (concat (map encCredit cs))"
  by (rule forE_Write) (rule writeCredit_Write)

interpretation rec: codec "txRecord_WriteTo lib" "txRecord_ReadFrom lib" "encRecord lib" "normRecord lib"
  "validRecord lib" for lib
proof
  fix t assume v: "validRecord lib t"
  then have g: "good_msg lib (TxMsg (rec_tx t))" and sc: "small (rec_credits t)"
    and sd: "\<And>d. rec_debits t = Some d \<Longrightarrow> small (spendsOf d)" by (auto simp: validRecord_def)
  show "txRecord_WriteTo lib t = Write (encRecord lib t)"
    by (simp add: txRecord_WriteTo_def encRecord_def msgTx_WriteTo_def writeDebits_Write forE_writeCredit
        encList_def writers)
  show "reads (txRecord_ReadFrom lib) (encRecord lib t) (normRecord lib t)"
    unfolding txRecord_ReadFrom_def encRecord_def normRecord_def normTx_def
    by (rule reads_first(1), rule msg.reads_next [OF g], rule reads'_bindE [OF reads'_readDebits [OF sd]], assumption,
        rule reads'_counted [OF sc reads'_readCredit], rule reads'_last(2))
qed

section \<open>Block collections\<close>

definition dataOf :: "Store \<Rightarrow> bref \<Rightarrow> collData" where
  "dataOf s b = \<lparr>cd_Block = coll_Block (bget s b), cd_amounts = amountDeltas (bget s b),
     cd_records = map (rget s) (txs (bget s b))\<rparr>"

definition encColl :: "txlib \<Rightarrow> collData \<Rightarrow> byte list" where
  "encColl lib d = le_bytes 32 (block_Hash (cd_Block d)) @ le_bytes 8 (time_sec (block_Time (cd_Block d))) @
     le_bytes 4 (block_Height (cd_Block d)) @ le_bytes 8 (Spendable (cd_amounts d)) @
     le_bytes 8 (Reward (cd_amounts d)) @ encList (encRecord lib) (cd_records d)"

definition normColl :: "txlib \<Rightarrow> collData \<Rightarrow> collData" where
  "normColl lib d = \<lparr>cd_Block = \<lparr>block_Hash = block_Hash (cd_Block d),
       block_Time = \<lparr>time_sec = time_sec (block_Time (cd_Block d)), time_nsec = 0\<rparr>,
       block_Height = block_Height (cd_Block d)\<rparr>,
     cd_amounts = \<lparr>Spendable = Spendable (cd_amounts d), Reward = Reward (cd_amounts d)\<rparr>,
     cd_records = map (normRecord lib) (cd_records d)\<rparr>"

definition validColl :: "txlib \<Rightarrow> collData \<Rightarrow> bool" where
  "validColl lib d \<longleftrightarrow> small (cd_records d) \<and> (\<forall>t \<in> set (cd_records d). validRecord lib t)"

interpretation coll: codec "coll_WriteTo lib s" "coll_ReadFrom lib" "\<lambda>b. encColl lib (dataOf s b)"
  "\<lambda>b. normColl lib (dataOf s b)" "\<lambda>b. validColl lib (dataOf s b)" for lib s
proof
  fix b assume v: "validColl lib (dataOf s b)"
  then have sm: "small (cd_records (dataOf s b))" and
    r: "\<And>t. t \<in> set (cd_records (dataOf s b)) \<Longrightarrow> validRecord lib t" by (auto simp: validColl_def)
  have "forE (\<lambda>r. txRecord_WriteTo lib (rget s r)) (txs (bget s b)) =
      Write (concat (map (\<lambda>r. encRecord lib (rget s r)) (txs (bget s b))))"
    by (rule forE_Write) (use r in \<open>auto simp: dataOf_def rec.writes\<close>)
  then show "coll_WriteTo lib s b = Write (encColl lib (dataOf s b))"
    by (simp add: coll_WriteTo_def encColl_def dataOf_def encList_def Let_def writers comp_def)
  show "reads (coll_ReadFrom lib) (encColl lib (dataOf s b)) (normColl lib (dataOf s b))"
    unfolding coll_ReadFrom_def encColl_def normColl_def
    by (rule reads_first(2), rule reads'_next(2), rule reads'_next(1), rule reads'_next(2), rule reads'_next(2),
        rule reads'_counted_last [OF sm rec.inner]) (rule r)
qed

end
