(* ===== verification/Tx_StoreIO.thy ===== *)
theory Tx_StoreIO
  imports Tx_SerialProps Tx_Machine
begin

text \<open>
  \<open>Store.WriteTo\<close> and \<open>Store.ReadFrom\<close>. \<open>readsS m bs s s'\<close> is \<open>reads'\<close> for actions that also change a store:
  from \<open>s\<close> and input that begins with \<open>bs\<close> the action succeeds with \<open>s'\<close>, and from \<open>s\<close> and a proper
  prefix it fails with \<open>ErrUnexpectedEOF\<close>. The store that is read back is described field by field:
  the collections with their records, the block index map and the unconfirmed transactions.
\<close>

section \<open>Reading into a store\<close>

definition readsS :: "unit storerd \<Rightarrow> byte list \<Rightarrow> Store \<Rightarrow> Store \<Rightarrow> bool" where
  "readsS m bs s s' \<longleftrightarrow> (\<forall>rest n. m (s, (bs @ rest, n)) = (Inr (), (s', (rest, n + length bs)))) \<and>
     (\<forall>p n. strict_prefix p bs \<longrightarrow>
        (\<exists>t. m (s, (p, n)) = (Inl ErrUnexpectedEOF, (t, ([], n + length p)))))"

lemma readsS_bindE:
  assumes "readsS m b1 s t" and "readsS (f ()) b2 t s'"
  shows "readsS (bindE m f) (b1 @ b2) s s'"
  unfolding readsS_def
proof (intro conjI allI impI)
  fix rest n
  show "bindE m f (s, (b1 @ b2) @ rest, n) = (Inr (), s', rest, n + length (b1 @ b2))"
    using assms by (simp add: readsS_def bindE_def add.assoc)
next
  fix p n assume "strict_prefix p (b1 @ b2)"
  then show "\<exists>t. bindE m f (s, p, n) = (Inl ErrUnexpectedEOF, t, [], n + length p)"
  proof (cases rule: strict_prefix_append_cases)
    case first
    then obtain t where "m (s, p, n) = (Inl ErrUnexpectedEOF, t, [], n + length p)"
      using assms(1) unfolding readsS_def by blast
    then show ?thesis by (simp add: bindE_def)
  next
    case (second q)
    then obtain u where "f () (t, q, n + length b1) = (Inl ErrUnexpectedEOF, u, [], n + length b1 + length q)"
      using assms(2) unfolding readsS_def by blast
    then show ?thesis using assms(1) second by (simp add: readsS_def bindE_def add.assoc)
  qed
qed

lemma readsS_onReader:
  assumes "reads' m b1 a" and "readsS (f a) b2 s s'"
  shows "readsS (bindE (onReader m) f) (b1 @ b2) s s'"
  unfolding readsS_def
proof (intro conjI allI impI)
  fix rest n
  show "bindE (onReader m) f (s, (b1 @ b2) @ rest, n) = (Inr (), s', rest, n + length (b1 @ b2))"
    using assms by (simp add: readsS_def reads'_def onReader_def bindE_def add.assoc)
next
  fix p n assume "strict_prefix p (b1 @ b2)"
  then show "\<exists>t. bindE (onReader m) f (s, p, n) = (Inl ErrUnexpectedEOF, t, [], n + length p)"
  proof (cases rule: strict_prefix_append_cases)
    case first
    then show ?thesis using assms(1) by (simp add: reads'_def onReader_def bindE_def)
  next
    case (second q)
    then obtain u where "f a (s, q, n + length b1) = (Inl ErrUnexpectedEOF, u, [], n + length b1 + length q)"
      using assms(2) unfolding readsS_def by blast
    then show ?thesis using assms(1) second by (simp add: reads'_def onReader_def bindE_def add.assoc)
  qed
qed

lemma readsS_onStore: "readsS (onStore g) [] s (g s)"
  by (simp add: readsS_def onStore_def)

lemma readsS_lookup:
  assumes "map_of (u_txs (unconfirmed s)) h = Some r" and "readsS (f r) bs s s'"
  shows "readsS (bindE (lookupUnconfirmed h) f) bs s s'"
proof -
  have "bindE (lookupUnconfirmed h) f (s, x) = f r (s, x)" for x
    using assms(1) by (simp add: bindE_def lookupUnconfirmed_def)
  then show ?thesis using assms(2) by (simp add: readsS_def)
qed

text \<open>The code turns \<open>EOF\<close> into \<open>ErrUnexpectedEOF\<close> once more after \<open>unconfirmedStore.ReadFrom\<close>.\<close>

lemma readsS_noEOF:
  assumes "reads m b1 a" and "readsS (f a) b2 s s'"
  shows "readsS (noEOF (bindE (onReader m) f)) (b1 @ b2) s s'"
proof -
  have "noEOF (bindE (onReader m) f) (s, p, n) = bindE (onReader (noEOF m)) (\<lambda>a. noEOF (f a)) (s, p, n)" for p n
    by (auto simp: noEOF_def bindE_def onReader_def split: prod.split sum.split)
  moreover have "readsS (noEOF (f a)) b2 s s'"
    unfolding readsS_def
  proof (intro conjI allI impI)
    show "noEOF (f a) (s, b2 @ rest, n) = (Inr (), s', rest, n + length b2)" for rest n
      using assms(2) by (simp add: readsS_def noEOF_def)
    fix p n assume "strict_prefix p b2"
    then obtain t where "f a (s, p, n) = (Inl ErrUnexpectedEOF, t, [], n + length p)"
      using assms(2) unfolding readsS_def by blast
    then show "\<exists>t. noEOF (f a) (s, p, n) = (Inl ErrUnexpectedEOF, t, [], n + length p)"
      by (simp add: noEOF_def)
  qed
  ultimately show ?thesis
    using readsS_onReader [OF reads'_noEOF [OF assms(1)], of "\<lambda>a. noEOF (f a)" b2 s s'] by (simp add: readsS_def)
qed

primrec foldi :: "(nat \<Rightarrow> 'x \<Rightarrow> 's \<Rightarrow> 's) \<Rightarrow> nat \<Rightarrow> 'x list \<Rightarrow> 's \<Rightarrow> 's" where
  "foldi g i [] s = s"
| "foldi g i (x # xs) s = foldi g (Suc i) xs (g i x s)"

lemma readsS_forE:
  assumes "\<And>i x s. x \<in> set xs \<Longrightarrow> I s \<Longrightarrow> readsS (f i) (enc x) s (g i x s) \<and> I (g i x s)" and "I s"
  shows "readsS (forE f [k..<k + length xs]) (concat (map enc xs)) s (foldi g k xs s) \<and> I (foldi g k xs s)"
  using assms
proof (induction xs arbitrary: k s)
  case Nil
  then show ?case by (simp add: readsS_def)
next
  case (Cons x xs)
  have x: "readsS (f k) (enc x) s (g k x s)" "I (g k x s)" using Cons.prems by auto
  have "readsS (forE f [Suc k..<Suc k + length xs]) (concat (map enc xs)) (g k x s) (foldi g (Suc k) xs (g k x s))
      \<and> I (foldi g (Suc k) xs (g k x s))"
    by (rule Cons.IH) (use Cons.prems x in auto)
  moreover have "forE f [k..<k + length (x # xs)] = bindE (f k) (\<lambda>_. forE f [Suc k..<Suc k + length xs])"
    by (rule ext) (simp add: bindE_def upt_rec [of k] del: upt_Suc)
  ultimately show ?case using readsS_bindE [OF x(1)] by simp
qed

lemma readsS_counted:
  assumes "small xs" and "\<And>i x s. x \<in> set xs \<Longrightarrow> I s \<Longrightarrow> readsS (f i) (enc x) s (g i x s) \<and> I (g i x s)"
    and "I s" and "readsS h bs (foldi g 0 xs s) s'"
  shows "readsS (bindE (onReader (noEOF readU32)) (\<lambda>c. bindE (forE f [0..<unat c]) (\<lambda>_. h)))
    (encList enc xs @ bs) s s'"
proof -
  have "readsS (forE f [0..<0 + length xs]) (concat (map enc xs)) s (foldi g 0 xs s)"
    by (rule readsS_forE [where I = I, THEN conjunct1]) (use assms(2,3) in auto)
  then have "readsS (bindE (forE f [0..<unat (of_nat (length xs) :: u32)]) (\<lambda>_. h)) (concat (map enc xs) @ bs) s s'"
    unfolding small_count [OF assms(1)] using readsS_bindE [OF _ assms(4)] by simp
  then show ?thesis unfolding encList_def append_assoc
    by (rule readsS_onReader [OF reads'_noEOF [OF reads_words(1)]])
qed

section \<open>The bytes of a store\<close>

abbreviation spender :: "Store \<Rightarrow> BlockOutputKey \<Rightarrow> rref" where
  "spender s key \<equiv> the (map_of (spentBlockOutPoints (unconfirmed s)) key)"

definition encOp :: "OutPoint \<Rightarrow> byte list" where
  "encOp op = le_bytes 32 (OpHash op) @ le_bytes 4 (OpIndex op)"

definition encSpentBlock :: "Store \<Rightarrow> OutPoint \<times> BlockOutputKey \<Rightarrow> byte list" where
  "encSpentBlock s e = encOp (fst e) @ encKey (bok_TxKey (snd e)) @ le_bytes 32 (recSha s (spender s (snd e)))"

definition encSpentUnc :: "Store \<Rightarrow> OutPoint \<times> rref \<Rightarrow> byte list" where
  "encSpentUnc s e = encOp (fst e) @ le_bytes 32 (recSha s (snd e))"

definition encUnc :: "txlib \<Rightarrow> Store \<Rightarrow> byte list" where
  "encUnc lib s = encList (\<lambda>e. encRecord lib (rget s (snd e))) (u_txs (unconfirmed s)) @
     encList (encSpentBlock s) (spentBlockOutPointKeys (unconfirmed s)) @
     encList (encSpentUnc s) (spentUnconfirmed (unconfirmed s))"

definition encStore :: "txlib \<Rightarrow> Store \<Rightarrow> byte list" where
  "encStore lib s = le_bytes 4 versFastRewrite @
     encList (\<lambda>b. encColl lib (dataOf s b)) (blocks s) @ encUnc lib s"

text \<open>The stores that can be written: every count fits in 32 bits, every message is one the library handles, the hash an
  unconfirmed transaction is filed under is that of its message, and the two maps of spent block outputs belong together.\<close>

definition writableUnc :: "txlib \<Rightarrow> Store \<Rightarrow> bool" where
  "writableUnc lib s \<longleftrightarrow> (let u = unconfirmed s in
     small (u_txs u) \<and> small (spentBlockOutPointKeys u) \<and> small (spentUnconfirmed u)
     \<and> length (spentBlockOutPoints u) = length (spentBlockOutPointKeys u)
     \<and> (\<forall>e \<in> set (u_txs u). validRecord lib (rget s (snd e)) \<and> fst e = recSha s (snd e) \<and>
          recSha s (snd e) = tx_TxSha lib (TxMsg (rec_tx (rget s (snd e)))))
     \<and> (\<forall>e \<in> set (spentBlockOutPointKeys u). map_of (spentBlockOutPoints u) (snd e) \<noteq> None))"

definition writableStore :: "txlib \<Rightarrow> Store \<Rightarrow> bool" where
  "writableStore lib s \<longleftrightarrow> small (blocks s) \<and> (\<forall>b \<in> set (blocks s). validColl lib (dataOf s b)) \<and> writableUnc lib s"

text \<open>The stores that can be read back: moreover every spender that the maps of spent outputs record is still an unconfirmed
  transaction of the store. A spender that is not is an orphan.\<close>

definition orphanSpender :: "Store \<Rightarrow> bool" where
  "orphanSpender s \<longleftrightarrow> (let u = unconfirmed s in
     (\<exists>e \<in> set (spentBlockOutPointKeys u). recSha s (spender s (snd e)) \<notin> fst ` set (u_txs u))
   \<or> (\<exists>e \<in> set (spentUnconfirmed u). recSha s (snd e) \<notin> fst ` set (u_txs u)))"

definition validStore :: "txlib \<Rightarrow> Store \<Rightarrow> bool" where
  "validStore lib s \<longleftrightarrow> writableStore lib s \<and> \<not> orphanSpender s"

abbreviation validUnc :: "txlib \<Rightarrow> Store \<Rightarrow> bool" where
  "validUnc lib s \<equiv> writableUnc lib s \<and> \<not> orphanSpender s"

lemmas validUnc_def = writableUnc_def orphanSpender_def

lemma validStore_unc: "validStore lib s \<Longrightarrow> validUnc lib s"
  by (simp add: validStore_def writableStore_def)

lemma unconfirmed_WriteTo_Write:
  assumes v: "writableUnc lib s"
  shows "unconfirmed_WriteTo lib s = Write (encUnc lib s)"
proof -
  let ?u = "unconfirmed s"
  have 1: "forE (\<lambda>e. txRecord_WriteTo lib (rget s (snd e))) (u_txs ?u) =
      Write (concat (map (\<lambda>e. encRecord lib (rget s (snd e))) (u_txs ?u)))"
    by (rule forE_Write) (use v in \<open>simp add: rec.writes writableUnc_def Let_def\<close>)
  have 2: "forE (writeSpentBlockOutPoint s) (spentBlockOutPointKeys ?u) =
      Write (concat (map (encSpentBlock s) (spentBlockOutPointKeys ?u)))"
    by (rule forE_Write) (use v in \<open>auto simp: writeSpentBlockOutPoint_def encSpentBlock_def encOp_def writableUnc_def
        Let_def btk.writes writers\<close>)
  have 3: "forE (writeSpentUnconfirmed s) (spentUnconfirmed ?u) =
      Write (concat (map (encSpentUnc s) (spentUnconfirmed ?u)))"
    by (rule forE_Write) (simp add: writeSpentUnconfirmed_def encSpentUnc_def encOp_def writers)
  show ?thesis using v unfolding unconfirmed_WriteTo_def Let_def 1 2 3
    by (simp add: writableUnc_def Let_def encUnc_def encList_def writers)
qed

lemma Store_WriteTo_Write:
  assumes "writableStore lib s"
  shows "Store_WriteTo lib s = Write (encStore lib s)"
proof -
  have "forE (coll_WriteTo lib s) (blocks s) = Write (concat (map (\<lambda>b. encColl lib (dataOf s b)) (blocks s)))"
    by (rule coll.writes_list) (use assms in \<open>simp add: writableStore_def\<close>)
  then show ?thesis using unconfirmed_WriteTo_Write [of lib s] assms
    by (simp add: Store_WriteTo_def encStore_def encList_def writableStore_def writers)
qed

section \<open>Reading it back\<close>

definition loadTx :: "txRecord \<Rightarrow> Store \<Rightarrow> Store" where
  "loadTx t s = upd_unc (\<lambda>u. u\<lparr>u_txs := AList.update (TxSha (rec_tx t)) (length (rheap s)) (u_txs u)\<rparr>)
     (s\<lparr>rheap := rheap s @ [t]\<rparr>)"

definition loadSpentBlock :: "OutPoint \<Rightarrow> BlockTxKey \<Rightarrow> ShaHash \<Rightarrow> Store \<Rightarrow> Store" where
  "loadSpentBlock op k h s = upd_unc (\<lambda>u. u\<lparr>
     spentBlockOutPoints := AList.update \<lparr>bok_TxKey = k, bok_OutputIndex = OpIndex op\<rparr>
       (the (map_of (u_txs u) h)) (spentBlockOutPoints u),
     spentBlockOutPointKeys := AList.update op \<lparr>bok_TxKey = k, bok_OutputIndex = OpIndex op\<rparr>
       (spentBlockOutPointKeys u)\<rparr>) s"

definition loadSpentUnc :: "OutPoint \<Rightarrow> ShaHash \<Rightarrow> Store \<Rightarrow> Store" where
  "loadSpentUnc op h s = upd_unc (\<lambda>u. u\<lparr>spentUnconfirmed :=
     AList.update op (the (map_of (u_txs u) h)) (spentUnconfirmed u)\<rparr>) s"

lemma reads'_readOutPoint: "reads' readOutPoint (encOp op) op"
proof -
  have "reads' readOutPoint (encOp op) \<lparr>OpHash = OpHash op, OpIndex = OpIndex op\<rparr>"
    unfolding readOutPoint_def encOp_def by (rule reads'_next(3), rule reads'_last(1))
  then show ?thesis by (cases op) simp
qed

lemma readsS_Tx:
  "validRecord lib t \<Longrightarrow> readsS (readUnconfirmedTx lib i) (encRecord lib t) s (loadTx (normRecord lib t) s)"
  using readsS_onReader [OF rec.inner [of lib t] readsS_onStore, of "\<lambda>t s. loadTx t s" s]
  by (simp add: readUnconfirmedTx_def loadTx_def)

lemma readsS_SpentBlock:
  assumes "map_of (u_txs (unconfirmed s)) h = Some r"
  shows "readsS (readSpentBlockOutPoint i) (encOp op @ encKey k @ le_bytes 32 h) s (loadSpentBlock op (normKey k) h s)"
proof -
  let ?g = "upd_unc (\<lambda>u. let opKey = \<lparr>bok_TxKey = normKey k, bok_OutputIndex = OpIndex op\<rparr> in
         u\<lparr>spentBlockOutPoints := AList.update opKey r (spentBlockOutPoints u),
           spentBlockOutPointKeys := AList.update op opKey (spentBlockOutPointKeys u)\<rparr>)"
  have "readsS (readSpentBlockOutPoint i) (encOp op @ encKey k @ le_bytes 32 h @ []) s (?g s)"
    unfolding readSpentBlockOutPoint_def
    by (rule readsS_onReader [OF reads'_readOutPoint], rule readsS_onReader [OF btk.inner], simp,
        rule readsS_onReader [OF reads'_noEOF [OF reads_words(3)]], rule readsS_lookup [OF assms], rule readsS_onStore)
  then show ?thesis using assms by (simp add: loadSpentBlock_def upd_unc_def Let_def)
qed

lemma readsS_SpentUnc:
  assumes "map_of (u_txs (unconfirmed s)) h = Some r"
  shows "readsS (readSpentUnconfirmed i) (encOp op @ le_bytes 32 h) s (loadSpentUnc op h s)"
proof -
  have "readsS (readSpentUnconfirmed i) (encOp op @ le_bytes 32 h @ []) s
     (upd_unc (\<lambda>u. u\<lparr>spentUnconfirmed := AList.update op r (spentUnconfirmed u)\<rparr>) s)"
    unfolding readSpentUnconfirmed_def
    by (rule readsS_onReader [OF reads'_readOutPoint],
        rule readsS_onReader [OF reads'_noEOF [OF reads_words(3)]], rule readsS_lookup [OF assms], rule readsS_onStore)
  then show ?thesis using assms by (simp add: loadSpentUnc_def upd_unc_def)
qed

lemma readsS_Block:
  "validColl lib (dataOf s0 b) \<Longrightarrow>
   readsS (readBlock lib i) (encColl lib (dataOf s0 b)) s (attachColl i (normColl lib (dataOf s0 b)) s)"
  using readsS_onReader [OF coll.inner [of lib s0 b] readsS_onStore, of "\<lambda>d. attachColl i d" s]
  by (simp add: readBlock_def)

text \<open>The store that \<open>ReadFrom\<close> makes of the bytes of \<open>s0\<close>.\<close>

definition loadBlocks :: "txlib \<Rightarrow> Store \<Rightarrow> Store" where
  "loadBlocks lib s0 = foldi (\<lambda>i b. attachColl i (normColl lib (dataOf s0 b))) 0 (blocks s0) New"

definition loadTxs :: "txlib \<Rightarrow> Store \<Rightarrow> Store \<Rightarrow> Store" where
  "loadTxs lib s0 = foldi (\<lambda>i e. loadTx (normRecord lib (rget s0 (snd e)))) 0 (u_txs (unconfirmed s0))"

definition loadSpends :: "Store \<Rightarrow> Store \<Rightarrow> Store" where
  "loadSpends s0 s = foldi (\<lambda>i e. loadSpentUnc (fst e) (recSha s0 (snd e))) 0 (spentUnconfirmed (unconfirmed s0))
     (foldi (\<lambda>i e. loadSpentBlock (fst e) (normKey (bok_TxKey (snd e))) (recSha s0 (spender s0 (snd e)))) 0
        (spentBlockOutPointKeys (unconfirmed s0)) s)"

definition loadStore :: "txlib \<Rightarrow> Store \<Rightarrow> Store" where
  "loadStore lib s0 = recreatePreviousOutpoints (loadSpends s0 (loadTxs lib s0 (loadBlocks lib s0)))"

lemma loadSpent_u_txs [simp]:
  "u_txs (unconfirmed (loadSpentBlock op k h s)) = u_txs (unconfirmed s)"
  "u_txs (unconfirmed (loadSpentUnc op h s)) = u_txs (unconfirmed s)"
  by (simp_all add: loadSpentBlock_def loadSpentUnc_def)

lemma loadTx_u_txs: "fst ` set (u_txs (unconfirmed (loadTx t s))) =
    insert (TxSha (rec_tx t)) (fst ` set (u_txs (unconfirmed s)))"
  by (simp add: loadTx_def dom_update)

text \<open>Every hash of an unconfirmed transaction is known once the transactions are loaded.\<close>

lemma loadTxs_known:
  assumes "validUnc lib s0"
  shows "fst ` set (u_txs (unconfirmed s0)) \<subseteq> fst ` set (u_txs (unconfirmed (loadTxs lib s0 s)))"
proof -
  have "fst ` set es \<subseteq> fst ` set (u_txs (unconfirmed (foldi (\<lambda>i e. loadTx (normRecord lib (rget s0 (snd e)))) k es s)))
      \<and> fst ` set (u_txs (unconfirmed s)) \<subseteq>
        fst ` set (u_txs (unconfirmed (foldi (\<lambda>i e. loadTx (normRecord lib (rget s0 (snd e)))) k es s)))"
    if "set es \<subseteq> set (u_txs (unconfirmed s0))" for es k s
    using that
  proof (induction es arbitrary: k s)
    case (Cons e es)
    have "TxSha (rec_tx (normRecord lib (rget s0 (snd e)))) = fst e"
      using assms Cons.prems by (auto simp: validUnc_def Let_def normRecord_def normTx_def)
    then have "insert (fst e) (fst ` set (u_txs (unconfirmed s))) \<subseteq>
        fst ` set (u_txs (unconfirmed (loadTx (normRecord lib (rget s0 (snd e))) s)))"
      by (simp add: loadTx_u_txs)
    moreover have "set es \<subseteq> set (u_txs (unconfirmed s0))" using Cons.prems by simp
    note Cons.IH [OF this, where s = "loadTx (normRecord lib (rget s0 (snd e))) s" and k = "Suc k"]
    ultimately show ?case by (simp add: subset_iff)
  qed simp
  then show ?thesis unfolding loadTxs_def by blast
qed

lemma key_lookup: "h \<in> fst ` set m \<Longrightarrow> \<exists>r. map_of m h = Some r"
  by (metis domD dom_map_of_conv_image_fst)

lemma readsS_unconfirmed:
  assumes v: "validUnc lib s0" and k: "fst ` set (u_txs (unconfirmed s0)) \<subseteq> fst ` set (u_txs (unconfirmed (loadTxs lib s0 s)))"
  shows "readsS (noEOF (unconfirmed_ReadFrom lib)) (encUnc lib s0) s
     (recreatePreviousOutpoints (loadSpends s0 (loadTxs lib s0 s)))"
proof -
  let ?u = "unconfirmed s0" and ?I = "\<lambda>s. fst ` set (u_txs (unconfirmed s0)) \<subseteq> fst ` set (u_txs (unconfirmed s))"
  let ?s1 = "loadTxs lib s0 s"
  let ?s2 = "foldi (\<lambda>i e. loadSpentBlock (fst e) (normKey (bok_TxKey (snd e))) (recSha s0 (spender s0 (snd e)))) 0
        (spentBlockOutPointKeys ?u) ?s1"
  have b: "readsS (readSpentBlockOutPoint i) (encSpentBlock s0 e) t
        (loadSpentBlock (fst e) (normKey (bok_TxKey (snd e))) (recSha s0 (spender s0 (snd e))) t)
      \<and> ?I (loadSpentBlock (fst e) (normKey (bok_TxKey (snd e))) (recSha s0 (spender s0 (snd e))) t)"
    if "e \<in> set (spentBlockOutPointKeys ?u)" "?I t" for i e t
  proof -
    have "recSha s0 (spender s0 (snd e)) \<in> fst ` set (u_txs (unconfirmed t))"
      using v that by (auto simp: validUnc_def Let_def)
    then obtain r where r: "map_of (u_txs (unconfirmed t)) (recSha s0 (spender s0 (snd e))) = Some r"
      using key_lookup by metis
    show ?thesis using readsS_SpentBlock [OF r] that(2) by (simp add: encSpentBlock_def)
  qed
  have c: "readsS (readSpentUnconfirmed i) (encSpentUnc s0 e) t (loadSpentUnc (fst e) (recSha s0 (snd e)) t)
      \<and> ?I (loadSpentUnc (fst e) (recSha s0 (snd e)) t)"
    if "e \<in> set (spentUnconfirmed ?u)" "?I t" for i e t
  proof -
    have "recSha s0 (snd e) \<in> fst ` set (u_txs (unconfirmed t))" using v that by (auto simp: validUnc_def Let_def)
    then obtain r where r: "map_of (u_txs (unconfirmed t)) (recSha s0 (snd e)) = Some r"
      using key_lookup by metis
    show ?thesis using readsS_SpentUnc [OF r] that(2) by (simp add: encSpentUnc_def)
  qed
  have I2: "?I ?s2"
    by (rule readsS_forE [where I = ?I and f = readSpentBlockOutPoint and enc = "encSpentBlock s0",
          THEN conjunct2]) (rule b, assumption, assumption, rule k)
  have sm: "small (u_txs ?u)" "small (spentBlockOutPointKeys ?u)" "small (spentUnconfirmed ?u)"
    using v by (simp_all add: validUnc_def Let_def)
  have u: "readsS (bindE (onReader (noEOF readU32)) (\<lambda>c. bindE (forE readSpentUnconfirmed [0..<unat c])
      (\<lambda>_. onStore recreatePreviousOutpoints))) (encList (encSpentUnc s0) (spentUnconfirmed ?u) @ []) ?s2
      (recreatePreviousOutpoints (loadSpends s0 ?s1))"
    unfolding loadSpends_def by (rule readsS_counted [where I = ?I, OF sm(3) c I2 readsS_onStore])
  have "readsS (bindE (onReader (noEOF readU32)) (\<lambda>c. bindE (forE readSpentBlockOutPoint [0..<unat c]) (\<lambda>_.
      bindE (onReader (noEOF readU32)) (\<lambda>c. bindE (forE readSpentUnconfirmed [0..<unat c])
      (\<lambda>_. onStore recreatePreviousOutpoints)))))
     (encList (encSpentBlock s0) (spentBlockOutPointKeys ?u) @ encList (encSpentUnc s0) (spentUnconfirmed ?u) @ []) ?s1
      (recreatePreviousOutpoints (loadSpends s0 ?s1))"
    by (rule readsS_counted [where I = ?I, OF sm(2) b k u])
  moreover have "readsS (forE (readUnconfirmedTx lib) [0..<0 + length (u_txs ?u)])
      (concat (map (\<lambda>e. encRecord lib (rget s0 (snd e))) (u_txs ?u))) s ?s1"
    unfolding loadTxs_def
    by (rule readsS_forE [where I = "\<lambda>_. True", THEN conjunct1])
       (use v readsS_Tx in \<open>auto simp: validUnc_def Let_def\<close>)
  ultimately show ?thesis
    unfolding unconfirmed_ReadFrom_def encUnc_def encList_def [of "\<lambda>e. encRecord lib (rget s0 (snd e))"] append_assoc
    using readsS_noEOF [OF reads_words(1) readsS_bindE] small_count [OF sm(1)] by simp
qed

section \<open>Store.ReadFrom\<close>

lemma readsS_loadStore:
  assumes v: "validStore lib s0"
  shows "readsS (bindE (onReader (noEOF readU32)) (\<lambda>blockCount.
         bindE (forE (readBlock lib) [0..<unat blockCount]) (\<lambda>_. noEOF (unconfirmed_ReadFrom lib))))
     (encList (\<lambda>b. encColl lib (dataOf s0 b)) (blocks s0) @ encUnc lib s0) New (loadStore lib s0)"
proof (rule readsS_counted [where I = "\<lambda>_. True" and g = "\<lambda>i b. attachColl i (normColl lib (dataOf s0 b))"])
  show "small (blocks s0)" using v by (simp add: validStore_def writableStore_def)
  have u: "validUnc lib s0" using v by (rule validStore_unc)
  show "readsS (noEOF (unconfirmed_ReadFrom lib)) (encUnc lib s0)
     (foldi (\<lambda>i b. attachColl i (normColl lib (dataOf s0 b))) 0 (blocks s0) New) (loadStore lib s0)"
    unfolding loadStore_def loadBlocks_def by (rule readsS_unconfirmed [OF u loadTxs_known [OF u]])
qed (use v readsS_Block in \<open>auto simp: validStore_def writableStore_def\<close>)

lemma Store_ReadFrom_reads:
  assumes v: "validStore lib s0"
  shows "Store_ReadFrom lib (s, (encStore lib s0 @ rest, n)) =
      (Inr (), (loadStore lib s0, (rest, n + length (encStore lib s0))))"
    and "strict_prefix p (encStore lib s0) \<Longrightarrow>
      \<exists>t. Store_ReadFrom lib (s, (p, n)) =
        (Inl (if p = [] then EOF else ErrUnexpectedEOF), (t, ([], n + length p)))"
proof -
  let ?rest = "encList (\<lambda>b. encColl lib (dataOf s0 b)) (blocks s0) @ encUnc lib s0"
  let ?body = "bindE (onReader (noEOF readU32)) (\<lambda>blockCount.
         bindE (forE (readBlock lib) [0..<unat blockCount]) (\<lambda>_. noEOF (unconfirmed_ReadFrom lib)))"
  have e: "encStore lib s0 = le_bytes 4 versFastRewrite @ ?rest" by (simp add: encStore_def)
  have R: "reads readU32 (le_bytes 4 versFastRewrite) versFastRewrite" by (rule reads_words)
  note B = readsS_loadStore [OF v]
  have step: "Store_ReadFrom lib (s, (le_bytes 4 versFastRewrite @ x, n)) = ?body (New, (x, n + 4))" for x
    using R by (simp add: Store_ReadFrom_def bindE_def [of "onReader readU32"] onReader_def [of readU32] reads_def
        bindE_def [of "onStore _"] onStore_def)
  show "Store_ReadFrom lib (s, (encStore lib s0 @ rest, n)) =
      (Inr (), (loadStore lib s0, (rest, n + length (encStore lib s0))))"
    using B unfolding e append_assoc step by (simp add: readsS_def)
  show "\<exists>t. Store_ReadFrom lib (s, (p, n)) =
        (Inl (if p = [] then EOF else ErrUnexpectedEOF), (t, ([], n + length p)))"
    if "strict_prefix p (encStore lib s0)"
    using that unfolding e
  proof (cases rule: strict_prefix_append_cases)
    case first
    then show ?thesis using R
      by (simp add: Store_ReadFrom_def bindE_def [of "onReader readU32"] onReader_def [of readU32] reads_def)
  next
    case (second q)
    then obtain t where "?body (New, (q, n + 4)) = (Inl ErrUnexpectedEOF, (t, ([], n + 4 + length q)))"
      using B unfolding readsS_def by blast
    moreover have "le_bytes 4 versFastRewrite \<noteq> []" by (simp add: le_bytes_neq_Nil)
    ultimately show ?thesis using second step [of q] by simp
  qed
qed

section \<open>The store that was read\<close>

text \<open>\<open>collsAre L s\<close>: the blocks of \<open>s\<close> hold the collections \<open>L\<close>, with valid references and a correct map of
  heights.\<close>

definition collsAre :: "collData list \<Rightarrow> Store \<Rightarrow> bool" where
  "collsAre L s \<longleftrightarrow> map (dataOf s) (blocks s) = L \<and>
     index_ok (collHeight s) (blocks s) (blockIndexes s) \<and>
     (\<forall>b \<in> set (blocks s). b < length (bheap s) \<and> (\<forall>r \<in> set (txs (bget s b)). r < length (rheap s)))"

lemma dataOf_stable:
  assumes "b < length (bheap s)" and "\<forall>r \<in> set (txs (bget s b)). r < length (rheap s)"
    and "take (length (bheap s)) (bheap s') = bheap s" and "take (length (rheap s)) (rheap s') = rheap s"
  shows "dataOf s' b = dataOf s b" and "collHeight s' b = collHeight s b" and "bget s' b = bget s b"
proof -
  show b: "bget s' b = bget s b" using assms(1,3) by (metis nth_take)
  have "\<And>r. r < length (rheap s) \<Longrightarrow> rget s' r = rget s r" using assms(4) by (metis nth_take)
  then show "dataOf s' b = dataOf s b" using assms(2) b by (simp add: dataOf_def)
  show "collHeight s' b = collHeight s b" using b by (simp add: collHeight_def)
qed

lemma collsAre_attach:
  assumes c: "collsAre L s" and i: "i = length L"
    and new: "block_Height (cd_Block d) \<notin> (\<lambda>d. block_Height (cd_Block d)) ` set L"
  shows "collsAre (L @ [d]) (attachColl i d s)"
proof -
  let ?s = "attachColl i d s" and ?b = "length (bheap s)"
  have pre: "take (length (bheap s)) (bheap ?s) = bheap s" "take (length (rheap s)) (rheap ?s) = rheap s"
    and bl: "blocks ?s = blocks s @ [?b]" and len: "length (bheap ?s) = Suc ?b"
    and rl: "length (rheap ?s) = length (rheap s) + length (cd_records d)"
    and bi: "blockIndexes ?s = AList.update (block_Height (cd_Block d)) i (blockIndexes s)"
    by (simp_all add: attachColl_def Let_def)
  have nb: "bget ?s ?b = \<lparr>coll_Block = cd_Block d, amountDeltas = cd_amounts d,
      txs = [length (rheap s)..<length (rheap s) + length (cd_records d)], txIndexes = dataIndexes (cd_records d)\<rparr>"
    by (simp add: attachColl_def Let_def)
  have rs: "rheap ?s = rheap s @ cd_records d" by (simp add: attachColl_def Let_def)
  have "map (rget ?s) [length (rheap s)..<length (rheap s) + length (cd_records d)] = cd_records d"
    unfolding rs by (rule nth_equalityI) simp_all
  then have "dataOf ?s ?b = \<lparr>cd_Block = cd_Block d, cd_amounts = cd_amounts d, cd_records = cd_records d\<rparr>"
    by (simp add: dataOf_def nb)
  then have nd: "dataOf ?s ?b = d" by (cases d) simp
  have L: "map (dataOf s) (blocks s) = L" and ix: "index_ok (collHeight s) (blocks s) (blockIndexes s)"
    and ok: "\<And>b. b \<in> set (blocks s) \<Longrightarrow> b < length (bheap s) \<and> (\<forall>r \<in> set (txs (bget s b)). r < length (rheap s))"
    using c by (auto simp: collsAre_def)
  have old: "dataOf ?s b = dataOf s b" "collHeight ?s b = collHeight s b" "bget ?s b = bget s b"
    if "b \<in> set (blocks s)" for b
    using dataOf_stable [OF _ _ pre] ok [OF that] by auto
  have h: "collHeight ?s ?b = block_Height (cd_Block d)" by (simp add: collHeight_def nb)
  have hs: "collHeight s b = block_Height (cd_Block (dataOf s b))" for b by (simp add: collHeight_def dataOf_def)
  have "collHeight ?s ?b \<notin> collHeight ?s ` set (blocks s)"
  proof
    assume "collHeight ?s ?b \<in> collHeight ?s ` set (blocks s)"
    then obtain b where b: "b \<in> set (blocks s)" "block_Height (cd_Block d) = collHeight s b" using old(2) h by auto
    moreover have "dataOf s b \<in> set L" using b(1) L by auto
    ultimately show False using new hs by auto
  qed
  moreover have "index_ok (collHeight ?s) (blocks s) (blockIndexes s)"
    using ix index_ok_cong [of "blocks s" "collHeight ?s" "collHeight s"] old(2) by simp
  ultimately have "index_ok (collHeight ?s) (blocks ?s) (blockIndexes ?s)"
    using index_ok_append [of "collHeight ?s" "blocks s" "blockIndexes s" ?b] L i h bl bi by auto
  moreover have "map (dataOf ?s) (blocks ?s) = L @ [d]" using L old(1) nd bl by auto
  moreover have "\<forall>b \<in> set (blocks ?s). b < length (bheap ?s) \<and> (\<forall>r \<in> set (txs (bget ?s b)). r < length (rheap ?s))"
  proof
    fix b assume "b \<in> set (blocks ?s)"
    then consider "b \<in> set (blocks s)" | "b = ?b" using bl by auto
    then show "b < length (bheap ?s) \<and> (\<forall>r \<in> set (txs (bget ?s b)). r < length (rheap ?s))"
      by cases (use ok old(3) len rl nb in \<open>auto intro: less_SucI trans_less_add1\<close>)
  qed
  ultimately show ?thesis by (simp add: collsAre_def)
qed

lemma collsAre_frame:
  assumes "collsAre L s" and "blocks s' = blocks s" and "blockIndexes s' = blockIndexes s" and "bheap s' = bheap s"
    and "take (length (rheap s)) (rheap s') = rheap s"
  shows "collsAre L s'"
proof -
  have ok: "\<And>b. b \<in> set (blocks s) \<Longrightarrow> b < length (bheap s) \<and> (\<forall>r \<in> set (txs (bget s b)). r < length (rheap s))"
    using assms(1) by (auto simp: collsAre_def)
  have "length (rheap s) \<le> length (rheap s')" using assms(5) by (metis length_take min.cobounded1)
  moreover have "dataOf s' b = dataOf s b" if "b \<in> set (blocks s)" for b
    using dataOf_stable(1) [of b s s'] ok [OF that] assms(4,5) by simp
  moreover have "collHeight s' = collHeight s" by (simp add: collHeight_def assms(4) fun_eq_iff)
  ultimately show ?thesis using assms by (fastforce simp: collsAre_def)
qed

lemma collsAre_foldi:
  assumes "\<And>i x s. collsAre L s \<Longrightarrow> collsAre L (g i x s)" and "collsAre L s"
  shows "collsAre L (foldi g k xs s)"
  using assms by (induction xs arbitrary: k s) auto

lemma collsAre_loadBlocks:
  assumes "distinct (map (\<lambda>b. collHeight s0 b) (blocks s0))"
  shows "collsAre (map (\<lambda>b. normColl lib (dataOf s0 b)) (blocks s0)) (loadBlocks lib s0)"
proof -
  let ?d = "\<lambda>b. normColl lib (dataOf s0 b)"
  have h: "block_Height (cd_Block (?d b)) = collHeight s0 b" for b
    by (simp add: normColl_def dataOf_def collHeight_def)
  have "collsAre (map ?d (ys @ bs)) (foldi (\<lambda>i b. attachColl i (?d b)) (length ys) bs s)"
    if "collsAre (map ?d ys) s" "distinct (map (collHeight s0) (ys @ bs))" for ys bs s
    using that
  proof (induction bs arbitrary: ys s)
    case (Cons b bs)
    have "collsAre (map ?d ys @ [?d b]) (attachColl (length ys) (?d b) s)"
      by (rule collsAre_attach) (use Cons.prems h in \<open>auto simp: image_iff\<close>)
    then have "collsAre (map ?d (ys @ [b])) (attachColl (length ys) (?d b) s)" by simp
    from Cons.IH [OF this] Cons.prems(2) show ?case by simp
  qed simp
  from this [of "[]" New "blocks s0"] assms show ?thesis by (simp add: loadBlocks_def collsAre_def)
qed

lemma collsAre_loadStore:
  assumes "distinct (map (\<lambda>b. collHeight s0 b) (blocks s0))"
  shows "collsAre (map (\<lambda>b. normColl lib (dataOf s0 b)) (blocks s0)) (loadStore lib s0)"
proof -
  let ?L = "map (\<lambda>b. normColl lib (dataOf s0 b)) (blocks s0)"
  have "collsAre ?L (loadTxs lib s0 (loadBlocks lib s0))"
    unfolding loadTxs_def
    by (rule collsAre_foldi [OF _ collsAre_loadBlocks [OF assms]], erule collsAre_frame) (simp_all add: loadTx_def)
  then have "collsAre ?L (loadSpends s0 (loadTxs lib s0 (loadBlocks lib s0)))"
    unfolding loadSpends_def
    by (intro collsAre_foldi; (elim collsAre_frame)?) (simp_all add: loadSpentUnc_def loadSpentBlock_def)
  then show ?thesis unfolding loadStore_def
    by (rule collsAre_frame) (simp_all add: recreatePreviousOutpoints_def)
qed

text \<open>The records filed under each hash.\<close>

definition uncRecord :: "Store \<Rightarrow> ShaHash \<Rightarrow> txRecord option" where
  "uncRecord s h = map_option (rget s) (map_of (u_txs (unconfirmed s)) h)"

definition uncAre :: "(ShaHash \<Rightarrow> txRecord option) \<Rightarrow> Store \<Rightarrow> bool" where
  "uncAre M s \<longleftrightarrow> uncRecord s = M \<and> (\<forall>h r. map_of (u_txs (unconfirmed s)) h = Some r \<longrightarrow> r < length (rheap s))"

lemma uncAre_loadTx:
  assumes "uncAre M s"
  shows "uncAre (M(TxSha (rec_tx t) \<mapsto> t)) (loadTx t s)"
proof -
  let ?h = "TxSha (rec_tx t)"
  have lt: "map_of (u_txs (unconfirmed s)) h = Some r \<Longrightarrow> r < length (rheap s)" for h r
    using assms by (simp add: uncAre_def)
  have "uncRecord (loadTx t s) h = (M(?h \<mapsto> t)) h" for h
  proof (cases "h = ?h")
    case False
    then have "uncRecord (loadTx t s) h = uncRecord s h"
      using lt [of h] by (cases "map_of (u_txs (unconfirmed s)) h") (auto simp: uncRecord_def loadTx_def nth_append)
    then show ?thesis using False assms by (simp add: uncAre_def)
  qed (simp add: uncRecord_def loadTx_def)
  moreover have "map_of (u_txs (unconfirmed (loadTx t s))) h = Some r \<Longrightarrow> r < length (rheap (loadTx t s))" for h r
    using lt [of h r] by (auto simp: loadTx_def split: if_splits)
  ultimately show ?thesis unfolding uncAre_def by blast
qed

lemma uncAre_loadTxs:
  assumes "uncAre Map.empty s" and w: "wf_map (u_txs (unconfirmed s0))" and v: "validUnc lib s0"
  shows "uncAre (\<lambda>h. map_option (normRecord lib) (uncRecord s0 h)) (loadTxs lib s0 s)"
proof -
  let ?N = "\<lambda>r. normRecord lib (rget s0 r)"
  have "uncAre (\<lambda>h. case map_of es h of Some r \<Rightarrow> Some (?N r) | None \<Rightarrow> M h)
      (foldi (\<lambda>i e. loadTx (?N (snd e))) k es s)"
    if "set es \<subseteq> set (u_txs (unconfirmed s0))" "wf_map es" "uncAre M s" for es k s M
    using that
  proof (induction es arbitrary: k s M)
    case (Cons e es)
    have h: "TxSha (rec_tx (?N (snd e))) = fst e"
      using v Cons.prems(1) by (auto simp: validUnc_def Let_def normRecord_def normTx_def)
    have "uncAre (M(fst e \<mapsto> ?N (snd e))) (loadTx (?N (snd e)) s)"
      using uncAre_loadTx [OF Cons.prems(3), of "?N (snd e)"] h by simp
    from Cons.IH [OF _ _ this, of "Suc k"] Cons.prems(1,2)
    have "uncAre (\<lambda>h. case map_of es h of Some r \<Rightarrow> Some (?N r) | None \<Rightarrow> (M(fst e \<mapsto> ?N (snd e))) h)
      (foldi (\<lambda>i e. loadTx (?N (snd e))) k (e # es) s)" by simp
    moreover have "map_of es (fst e) = None" using Cons.prems(2) by (simp add: map_of_eq_None_iff)
    then have "(\<lambda>h. case map_of es h of Some r \<Rightarrow> Some (?N r) | None \<Rightarrow> (M(fst e \<mapsto> ?N (snd e))) h) =
        (\<lambda>h. case map_of (e # es) h of Some r \<Rightarrow> Some (?N r) | None \<Rightarrow> M h)"
      by (cases e) (auto simp: fun_eq_iff split: option.split)
    ultimately show ?case by simp
  qed simp
  from this [OF subset_refl w assms(1), of 0]
  have "uncAre (\<lambda>h. case map_of (u_txs (unconfirmed s0)) h of Some r \<Rightarrow> Some (?N r) | None \<Rightarrow> None)
      (loadTxs lib s0 s)" by (simp add: loadTxs_def)
  moreover have "(\<lambda>h. case map_of (u_txs (unconfirmed s0)) h of Some r \<Rightarrow> Some (?N r) | None \<Rightarrow> None) =
      (\<lambda>h. map_option (normRecord lib) (uncRecord s0 h))"
    by (auto simp: uncRecord_def fun_eq_iff split: option.split)
  ultimately show ?thesis by simp
qed

lemma foldi_keeps: "(\<And>i x s. f (g i x s) = f s) \<Longrightarrow> f (foldi g k xs s) = f s"
  by (induction xs arbitrary: k s) auto

lemma uncRecord_loadStore:
  assumes w: "wf_map (u_txs (unconfirmed s0))" and v: "validUnc lib s0"
  shows "uncRecord (loadStore lib s0) h = map_option (normRecord lib) (uncRecord s0 h)"
proof -
  have "unconfirmed (loadBlocks lib s0) = unconfirmed New"
    unfolding loadBlocks_def by (rule foldi_keeps) (simp add: attachColl_def Let_def)
  then have "uncAre Map.empty (loadBlocks lib s0)" by (simp add: uncAre_def uncRecord_def fun_eq_iff)
  note U = uncAre_loadTxs [OF this w v]
  let ?f = "\<lambda>s. (u_txs (unconfirmed s), rheap s)"
  have "?f (loadStore lib s0) = ?f (loadSpends s0 (loadTxs lib s0 (loadBlocks lib s0)))"
    by (simp add: loadStore_def recreatePreviousOutpoints_def)
  also have "\<dots> = ?f (loadTxs lib s0 (loadBlocks lib s0))"
    unfolding loadSpends_def
    by (subst foldi_keeps [where f = ?f], simp add: loadSpentUnc_def,
        subst foldi_keeps [where f = ?f], simp_all add: loadSpentBlock_def)
  finally show ?thesis using U by (simp add: uncAre_def uncRecord_def fun_eq_iff)
qed

section \<open>Properties\<close>

text \<open>A library for the witnesses: a message is two bytes, its version and its lock time.\<close>

definition lib0 :: txlib where
  "lib0 = \<lparr>tx_Serialize = (\<lambda>m. [ucast (Version m), ucast (LockTime m)]),
     tx_Deserialize = (\<lambda>bs. case bs of v # l # rest \<Rightarrow>
         (Inr \<lparr>Version = ucast v, TxIns = [], TxOuts = [], LockTime = ucast l\<rparr>, 2)
       | [v] \<Rightarrow> (Inl ErrUnexpectedEOF, 1) | [] \<Rightarrow> (Inl EOF, 0)),
     tx_SerializeSize = (\<lambda>m. 2), tx_TxSha = (\<lambda>m. ucast (Version m))\<rparr>"

definition msg0 :: MsgTx where
  "msg0 = \<lparr>Version = 1, TxIns = [], TxOuts = [], LockTime = 7\<rparr>"

lemma good_msg0: "good_msg lib0 msg0"
proof -
  have "strict_prefix p [1, 7] \<Longrightarrow> p = [] \<or> p = [1 :: byte]" for p
    by (auto simp: strict_prefix_def prefix_Cons)
  then have "tx_Deserialize lib0 p = (Inl EOF, length p) \<or>
      p \<noteq> [] \<and> tx_Deserialize lib0 p = (Inl ErrUnexpectedEOF, length p)" if "strict_prefix p [1, 7]" for p
    using that by (fastforce simp: lib0_def)
  moreover have "tx_Serialize lib0 msg0 = [1, 7]" "tx_SerializeSize lib0 msg0 = 2"
    "tx_Deserialize lib0 (1 # 7 # rest) = (Inr msg0, 2)" for rest
    by (simp_all add: lib0_def msg0_def)
  ultimately show ?thesis unfolding good_msg_def by simp
qed

definition rec0 :: txRecord where
  "rec0 = \<lparr>rec_tx = \<lparr>TxMsg = msg0, TxSha = 1, TxIndex = 3\<rparr>,
     rec_debits = Some \<lparr>debit_amount = 9, debit_spends =
       Some [\<lparr>bok_TxKey = \<lparr>BlockIndex = 2, BlockHeight = 4\<rparr>, bok_OutputIndex = 1\<rparr>]\<rparr>,
     rec_credits = [None, Some \<lparr>credit_change = True, credit_spentBy = None\<rparr>],
     rec_received = \<lparr>time_sec = 100, time_nsec = 0\<rparr>\<rparr>"

lemma valid_rec0: "validRecord lib0 rec0"
  using good_msg0 by (simp add: validRecord_def rec0_def small_def)

text \<open>A transaction record that is written and read back is the record, up to what the format
  does not keep (\<open>normRecord\<close>: nanoseconds, the high half of the index, an empty spends slice); the reader
  takes exactly the bytes that were written and reports their number; and reading any proper prefix of them
  fails with an end-of-file error.\<close>

theorem txRecord_roundtrip:
  assumes "validRecord lib t" and "txRecord_WriteTo lib t ([], None) = (res, (bs, room))"
  shows "res = Inr () \<and> txRecord_ReadFrom lib (bs @ rest, n) = (Inr (normRecord lib t), (rest, n + length bs))
    \<and> (\<forall>p. strict_prefix p bs \<longrightarrow> txRecord_ReadFrom lib (p, n) =
         (Inl (if p = [] then EOF else ErrUnexpectedEOF), ([], n + length p)))"
  using rec.round_trip [OF assms] rec.write_all [OF assms(1), of "[]"] assms(2)
    rec.truncated [OF assms(1)] by auto

theorem txRecord_roundtrip_witness:
  "\<exists>bs. txRecord_WriteTo lib0 rec0 ([], None) = (Inr (), (bs, None)) \<and>
     txRecord_ReadFrom lib0 (bs, 0) = (Inr rec0, ([], length bs))"
proof -
  have w: "txRecord_WriteTo lib0 rec0 ([], None) = (Inr (), (encRecord lib0 rec0, None))"
    using rec.write_all [OF valid_rec0, of "[]"] by simp
  have "normRecord lib0 rec0 = rec0" by code_simp
  with txRecord_roundtrip [OF valid_rec0 w, of "[]" 0] w show ?thesis
    by (intro exI [of _ "encRecord lib0 rec0"]) simp
qed

text \<open>A full disk. Writing a record to a writer that accepts fewer bytes than the record has fails,
  and what was written is exactly the prefix the writer accepted.\<close>

theorem txRecord_short_write:
  assumes "validRecord lib t" and "room < length (encRecord lib t)"
  shows "txRecord_WriteTo lib t (out, Some room) =
    (Inl ErrShortWrite, (out @ take room (encRecord lib t), Some 0))"
  using assms by (rule rec.write_full)

theorem txRecord_short_write_witness:
  "txRecord_WriteTo lib0 rec0 ([], Some 5) = (Inl ErrShortWrite, ([3, 0, 0, 0, 1], Some 0))"
proof -
  have "5 < length (encRecord lib0 rec0)" and "take 5 (encRecord lib0 rec0) = [3, 0, 0, 0, 1]" by code_simp+
  then show ?thesis using txRecord_short_write [OF valid_rec0, of 5 "[]"] by simp
qed

lemma heights_distinct: "blocks_ok s \<Longrightarrow> distinct (map (collHeight s) (blocks s))"
proof -
  assume "blocks_ok s"
  then have "sorted_wrt (\<lambda>a b. collHeight s a <s collHeight s b) (blocks s)" by (simp add: blocks_ok_def)
  then have "sorted_wrt (\<lambda>a b. a <s b) (map (collHeight s) (blocks s))" by (simp add: sorted_wrt_map)
  then show ?thesis by (rule sorted_wrt_sless_distinct [where k = "\<lambda>x. x"])
qed

lemma index_ok_unique:
  assumes "index_ok k xs m" and "index_ok k' ys m'" and "map k xs = map k' ys"
  shows "map_of m = map_of m'"
proof
  fix h
  have l: "length xs = length ys" using assms(3) by (rule map_eq_imp_length_eq)
  have n: "i < length xs \<Longrightarrow> k (xs ! i) = k' (ys ! i)" for i using assms(3) l by (metis nth_map)
  have a: "map_of m h = Some i \<longleftrightarrow> i < length xs \<and> k (xs ! i) = h"
    "map_of m' h = Some i \<longleftrightarrow> i < length ys \<and> k' (ys ! i) = h" for i
    using assms(1,2) unfolding index_ok_def by blast+
  have e: "map_of m h = Some i \<longleftrightarrow> map_of m' h = Some i" for i
    unfolding a using n [of i] l by auto
  show "map_of m h = map_of m' h"
  proof (cases "map_of m h")
    case None
    then show ?thesis using e by (cases "map_of m' h") auto
  next
    case (Some i)
    then show ?thesis using e [of i] by simp
  qed
qed

text \<open>C4. A well-formed store that is valid for its format: its counts fit 32 bits, the library handles its messages, its
  unconfirmed transactions are filed under the hashes of their messages, the two maps of spent block outputs belong together, and
  every recorded spender of an output is still an unconfirmed transaction of the store (stores that violate the last
  condition are reached and cannot be read back; see \<open>Tx_Orphan\<close>).
  Writing such a store and reading it back into any store succeeds, consumes exactly the written
  bytes, and gives the same blocks in the same order with the same amounts and records (up to
  \<open>normColl\<close>), the same map of block heights and the same unconfirmed transaction under every hash.
  Nothing of the store it was read into remains.\<close>

theorem Store_roundtrip:
  assumes "store_wf s" and "validStore lib s" and "Store_WriteTo lib s ([], None) = (res, (bs, room))"
  shows "\<exists>s'. res = Inr () \<and> Store_ReadFrom lib (old, (bs @ rest, n)) = (Inr (), (s', (rest, n + length bs)))
    \<and> map (dataOf s') (blocks s') = map (\<lambda>b. normColl lib (dataOf s b)) (blocks s)
    \<and> map_of (blockIndexes s') = map_of (blockIndexes s)
    \<and> (\<forall>h. uncRecord s' h = map_option (normRecord lib) (uncRecord s h))"
proof (intro exI conjI allI)
  let ?s = "loadStore lib s"
  have B: "blocks_ok s" and w: "wf_map (u_txs (unconfirmed s))" and v: "validUnc lib s"
    using assms(1,2) by (auto simp: store_wf_def unc_ok_def uwf_def refs_ok_def validStore_def writableStore_def)
  have bs: "res = Inr ()" "bs = encStore lib s"
    using assms(3) Store_WriteTo_Write [of lib s] assms(2) by (simp_all add: Write_def validStore_def)
  show "res = Inr ()" by (rule bs)
  show "Store_ReadFrom lib (old, (bs @ rest, n)) = (Inr (), (?s, (rest, n + length bs)))"
    unfolding bs by (rule Store_ReadFrom_reads(1) [OF assms(2)])
  note C = collsAre_loadStore [OF heights_distinct [OF B], of lib]
  then show D: "map (dataOf ?s) (blocks ?s) = map (\<lambda>b. normColl lib (dataOf s b)) (blocks s)"
    by (simp add: collsAre_def)
  have h: "collHeight s b = block_Height (cd_Block (dataOf s b))" for b and s :: Store
    by (simp add: collHeight_def dataOf_def)
  have "map (\<lambda>d. block_Height (cd_Block d)) (map (dataOf ?s) (blocks ?s)) =
      map (\<lambda>d. block_Height (cd_Block d)) (map (\<lambda>b. normColl lib (dataOf s b)) (blocks s))" unfolding D ..
  then have "map (collHeight ?s) (blocks ?s) = map (collHeight s) (blocks s)"
    by (simp add: h [abs_def] normColl_def comp_def)
  then show "map_of (blockIndexes ?s) = map_of (blockIndexes s)"
    using index_ok_unique C B by (auto simp: collsAre_def blocks_ok_def)
  show "uncRecord ?s h = map_option (normRecord lib) (uncRecord s h)" for h
    by (rule uncRecord_loadStore [OF w v])
qed

text \<open>A store with one mined transaction and one unconfirmed.\<close>

definition msg1 :: MsgTx where
  "msg1 = \<lparr>Version = 2, TxIns = [], TxOuts = [], LockTime = 7\<rparr>"

definition storeS :: Store where
  "storeS = snd (InsertTx ext0 zeroTime \<lparr>TxMsg = msg1, TxSha = 2, TxIndex = - 1\<rparr> None
     (snd (InsertTx ext0 zeroTime \<lparr>TxMsg = msg0, TxSha = 1, TxIndex = 1\<rparr> (Some (mkBlock 5)) New)))"

lemma good_msg1: "good_msg lib0 msg1"
proof -
  have "strict_prefix p [2, 7] \<Longrightarrow> p = [] \<or> p = [2 :: byte]" for p
    by (auto simp: strict_prefix_def prefix_Cons)
  then have "tx_Deserialize lib0 p = (Inl EOF, length p) \<or>
      p \<noteq> [] \<and> tx_Deserialize lib0 p = (Inl ErrUnexpectedEOF, length p)" if "strict_prefix p [2, 7]" for p
    using that by (fastforce simp: lib0_def)
  moreover have "tx_Serialize lib0 msg1 = [2, 7]" "tx_SerializeSize lib0 msg1 = 2"
    "tx_Deserialize lib0 (2 # 7 # rest) = (Inr msg1, 2)" for rest
    by (simp_all add: lib0_def msg1_def)
  ultimately show ?thesis unfolding good_msg_def by simp
qed

lemma storeS_ok: "store_wf storeS" "validStore lib0 storeS"
proof -
  have o: "insert_in_order New \<lparr>TxMsg = msg0, TxSha = 1, TxIndex = 1\<rparr> (Some (mkBlock 5))" by code_simp
  have "reachable ext0 storeS" unfolding storeS_def
    by (rule reach_insert [OF reach_insert [OF reach_New o]]) (simp add: insert_in_order_def)
  then show "store_wf storeS" by (rule reachable_store_wf)
  have b: "blocks storeS = [0]" "map (\<lambda>t. (TxMsg (rec_tx t), rec_debits t, rec_credits t)) (cd_records (dataOf storeS 0)) =
      [(msg0, None, [])]" "u_txs (unconfirmed storeS) = [(2, 1)]" "recSha storeS 1 = 2"
     "TxMsg (rec_tx (rget storeS 1)) = msg1" "rec_debits (rget storeS 1) = None" "rec_credits (rget storeS 1) = []"
     "spentBlockOutPoints (unconfirmed storeS) = []" "spentBlockOutPointKeys (unconfirmed storeS) = []"
     "spentUnconfirmed (unconfirmed storeS) = []" "tx_TxSha lib0 msg1 = 2" by code_simp+
  have "validColl lib0 (dataOf storeS 0)"
    using b(2) good_msg0 by (auto simp: validColl_def validRecord_def small_def)
  moreover have "validRecord lib0 (rget storeS 1)" using b(5,6,7) good_msg1 by (simp add: validRecord_def small_def)
  ultimately show "validStore lib0 storeS"
    using b by (simp add: validStore_def writableStore_def validUnc_def small_def Let_def)
qed

theorem Store_roundtrip_witness:
  "\<exists>s' bs. fst (Store_WriteTo lib0 storeS ([], None)) = Inr () \<and> Store_ReadFrom lib0 (New, (bs, 0)) = (Inr (), (s', ([], length bs)))
     \<and> length (blocks s') = 1 \<and> uncRecord s' 2 \<noteq> None"
proof -
  have w: "Store_WriteTo lib0 storeS ([], None) = (Inr (), (encStore lib0 storeS, None))"
    using Store_WriteTo_Write [of lib0 storeS] storeS_ok(2) by (simp add: Write_def validStore_def)
  have b: "length (blocks storeS) = 1" "uncRecord storeS 2 \<noteq> None" by code_simp+
  from Store_roundtrip [OF storeS_ok w, of New "[]" 0]
  obtain s' where s': "Store_ReadFrom lib0 (New, (encStore lib0 storeS, 0)) = (Inr (), (s', ([], length (encStore lib0 storeS))))"
    "map (dataOf s') (blocks s') = map (\<lambda>b. normColl lib0 (dataOf storeS b)) (blocks storeS)"
    "uncRecord s' 2 = map_option (normRecord lib0) (uncRecord storeS 2)" by auto
  have "length (blocks s') = 1" using s'(2) b(1) by (metis length_map)
  then show ?thesis using w s' b by auto
qed

text \<open>C23. A truncated file of a store that is valid for its format (as above, every recorded spender
  among the unconfirmed transactions included) is noticed: reading any proper prefix of the written store fails with
  \<open>EOF\<close> if it is empty and with \<open>ErrUnexpectedEOF\<close> otherwise, after consuming all of it; a file of an older
  version is refused and the store is left as it was.\<close>

theorem Store_ReadFrom_rejects:
  assumes "validStore lib s" and "strict_prefix p (encStore lib s)" and "vers < versFastRewrite"
  shows "(\<exists>t. Store_ReadFrom lib (old, (p, n)) =
      (Inl (if p = [] then EOF else ErrUnexpectedEOF), (t, ([], n + length p))))
    \<and> Store_ReadFrom lib (old, (le_bytes 4 vers @ rest, n)) = (Inl ErrUnsupportedVersion, (old, (rest, n + 4)))"
proof
  show "\<exists>t. Store_ReadFrom lib (old, (p, n)) =
      (Inl (if p = [] then EOF else ErrUnexpectedEOF), (t, ([], n + length p)))"
    by (rule Store_ReadFrom_reads(2) [OF assms(1,2)])
  have "reads readU32 (le_bytes 4 vers) vers" by (rule reads_words)
  then show "Store_ReadFrom lib (old, (le_bytes 4 vers @ rest, n)) = (Inl ErrUnsupportedVersion, (old, (rest, n + 4)))"
    using assms(3) by (simp add: Store_ReadFrom_def bindE_def onReader_def reads_def failE_def)
qed

theorem Store_ReadFrom_rejects_witness:
  "fst (Store_ReadFrom lib0 (New, ([4, 0, 0], 0))) = Inl ErrUnexpectedEOF"
proof -
  have "le_bytes 4 versFastRewrite = [4, 0, 0, 0]" by code_simp
  then have "strict_prefix [4, 0, 0] (encStore lib0 storeS)" by (simp add: encStore_def)
  from Store_ReadFrom_rejects [OF storeS_ok(2) this, of 0 New 0 "[]"] show ?thesis
    by (auto simp: versFastRewrite_def)
qed

end
