(* ===== verification/Tx_Orphan.thy ===== *)
theory Tx_Orphan
  imports Tx_StoreIO
begin

text \<open>
  Stores that are written and cannot be read back. \<open>moveMinedTx\<close> of \<open>src/txstore/tx.go\<close> files an unconfirmed transaction
  under its block and forgets the spent outputs of mined transactions that were recorded for it, but not those of unconfirmed
  ones. The recorded spender is then an orphan: \<open>WriteTo\<close> writes its hash, and \<open>ReadFrom\<close> does not find it.
  \<open>failsS\<close> is the counterpart of \<open>readsS\<close> for a read that ends in the error of a missing transaction.
\<close>

section \<open>Reads that fail\<close>

definition failsS :: "unit storerd \<Rightarrow> byte list \<Rightarrow> Store \<Rightarrow> bool" where
  "failsS m bs s \<longleftrightarrow> (\<forall>rest n. fst (m (s, (bs @ rest, n))) = Inl missingUnconfirmed)"

lemma failsS_first: "failsS m b1 s \<Longrightarrow> failsS (bindE m f) (b1 @ b2) s"
  unfolding failsS_def bindE_def by (auto split: prod.split sum.split) (metis fst_conv sum.inject(1), metis fst_conv sum.distinct(1))

lemma failsS_bindE: "readsS m b1 s t \<Longrightarrow> failsS (f ()) b2 t \<Longrightarrow> failsS (bindE m f) (b1 @ b2) s"
  by (simp add: failsS_def readsS_def bindE_def)

lemma failsS_onReader: "reads' m b1 a \<Longrightarrow> failsS (f a) b2 s \<Longrightarrow> failsS (bindE (onReader m) f) (b1 @ b2) s"
  by (simp add: failsS_def reads'_def onReader_def bindE_def)

lemma failsS_count: "reads m b1 a \<Longrightarrow> failsS (f a) b2 s \<Longrightarrow> failsS (bindE (onReader m) f) (b1 @ b2) s"
  by (simp add: failsS_def reads_def onReader_def bindE_def)

lemma failsS_lookup: "map_of (u_txs (unconfirmed s)) h = None \<Longrightarrow> failsS (bindE (lookupUnconfirmed h) f) bs s"
  by (simp add: failsS_def lookupUnconfirmed_def bindE_def)

lemma failsS_noEOF: "failsS m bs s \<Longrightarrow> failsS (noEOF m) bs s"
  unfolding failsS_def noEOF_def
  by (auto simp: missingUnconfirmed_def split: prod.split sum.split) (metis err.distinct fst_conv sum.inject(1) sum.distinct(1))+

lemma failsS_forE:
  assumes "\<And>i x s. x \<in> set xs \<Longrightarrow> I s \<Longrightarrow> good x \<Longrightarrow> readsS (f i) (enc x) s (g i x s) \<and> I (g i x s)"
    and "\<And>i x s. x \<in> set xs \<Longrightarrow> I s \<Longrightarrow> \<not> good x \<Longrightarrow> failsS (f i) (enc x) s"
    and "I s" and "\<exists>x \<in> set xs. \<not> good x"
  shows "failsS (forE f [k..<k + length xs]) (concat (map enc xs)) s"
  using assms
proof (induction xs arbitrary: k s)
  case (Cons x xs)
  have run: "forE f [k..<k + length (x # xs)] = bindE (f k) (\<lambda>_. forE f [Suc k..<Suc k + length xs])"
    by (rule ext) (simp add: bindE_def upt_rec [of k] del: upt_Suc)
  show ?case
  proof (cases "good x")
    case True
    then have x: "readsS (f k) (enc x) s (g k x s)" "I (g k x s)" using Cons.prems by auto
    have "failsS (forE f [Suc k..<Suc k + length xs]) (concat (map enc xs)) (g k x s)"
      by (rule Cons.IH) (use Cons.prems x True in auto)
    then show ?thesis unfolding run using failsS_bindE [OF x(1)] by simp
  next
    case False
    then have "failsS (f k) (enc x) s" using Cons.prems by simp
    then show ?thesis unfolding run by (simp add: failsS_first)
  qed
qed simp

lemma failsS_counted:
  assumes "small xs" and "failsS (forE f [0..<length xs]) (concat (map enc xs)) s"
  shows "failsS (bindE (onReader (noEOF readU32)) (\<lambda>c. bindE (forE f [0..<unat c]) h)) (encList enc xs @ bs) s"
proof -
  have "failsS (bindE (forE f [0..<unat (of_nat (length xs) :: u32)]) h) (concat (map enc xs) @ bs) s"
    unfolding small_count [OF assms(1)] by (rule failsS_first [OF assms(2)])
  then show ?thesis unfolding encList_def append_assoc
    by (rule failsS_onReader [OF reads'_noEOF [OF reads_words(1)]])
qed

lemma failsS_after_counted:
  assumes "small xs" and "readsS (forE f [0..<length xs]) (concat (map enc xs)) s t" and "failsS h bs t"
  shows "failsS (bindE (onReader (noEOF readU32)) (\<lambda>c. bindE (forE f [0..<unat c]) (\<lambda>_. h))) (encList enc xs @ bs) s"
proof -
  have "failsS (bindE (forE f [0..<unat (of_nat (length xs) :: u32)]) (\<lambda>_. h)) (concat (map enc xs) @ bs) s"
    unfolding small_count [OF assms(1)] by (rule failsS_bindE [OF assms(2,3)])
  then show ?thesis unfolding encList_def append_assoc
    by (rule failsS_onReader [OF reads'_noEOF [OF reads_words(1)]])
qed

section \<open>The unconfirmed transactions that are known\<close>

text \<open>\<open>known s0 s\<close>: \<open>s\<close> has unconfirmed transactions under exactly the hashes of \<open>s0\<close>.\<close>

definition known :: "Store \<Rightarrow> Store \<Rightarrow> bool" where
  "known s0 s \<longleftrightarrow> fst ` set (u_txs (unconfirmed s)) = fst ` set (u_txs (unconfirmed s0))"

lemma known_load [simp]:
  "known s0 (loadSpentBlock op k h s) = known s0 s" "known s0 (loadSpentUnc op h s) = known s0 s"
  by (simp_all add: known_def)

lemma known_lookup: "known s0 s \<Longrightarrow> map_of (u_txs (unconfirmed s)) h = None \<longleftrightarrow> h \<notin> fst ` set (u_txs (unconfirmed s0))"
  by (simp add: known_def map_of_eq_None_iff)

lemma known_loadTxs:
  assumes "writableUnc lib s0" and "u_txs (unconfirmed s) = []"
  shows "known s0 (loadTxs lib s0 s)"
proof -
  have "fst ` set (u_txs (unconfirmed (foldi (\<lambda>i e. loadTx (normRecord lib (rget s0 (snd e)))) k es s))) =
      fst ` set (u_txs (unconfirmed s)) \<union> fst ` set es"
    if "set es \<subseteq> set (u_txs (unconfirmed s0))" for es k s
    using that
  proof (induction es arbitrary: k s)
    case (Cons e es)
    have "TxSha (rec_tx (normRecord lib (rget s0 (snd e)))) = fst e"
      using assms(1) Cons.prems by (auto simp: writableUnc_def Let_def normRecord_def normTx_def)
    then show ?case using Cons by (simp add: loadTx_u_txs)
  qed simp
  then show ?thesis using assms(2) by (simp add: loadTxs_def known_def)
qed

lemma spentBlock_step:
  assumes "known s0 t" and "h = recSha s0 (spender s0 (snd e))"
  shows "h \<in> fst ` set (u_txs (unconfirmed s0)) \<Longrightarrow>
      readsS (readSpentBlockOutPoint i) (encSpentBlock s0 e) t (loadSpentBlock (fst e) (normKey (bok_TxKey (snd e))) h t)"
    and "h \<notin> fst ` set (u_txs (unconfirmed s0)) \<Longrightarrow> failsS (readSpentBlockOutPoint i) (encSpentBlock s0 e) t"
proof -
  show "readsS (readSpentBlockOutPoint i) (encSpentBlock s0 e) t (loadSpentBlock (fst e) (normKey (bok_TxKey (snd e))) h t)"
    if "h \<in> fst ` set (u_txs (unconfirmed s0))"
    using that readsS_SpentBlock known_lookup [OF assms(1), of h] assms(2)
    by (cases "map_of (u_txs (unconfirmed t)) h") (auto simp: encSpentBlock_def)
  assume "h \<notin> fst ` set (u_txs (unconfirmed s0))"
  then have "map_of (u_txs (unconfirmed t)) h = None" using known_lookup [OF assms(1)] by simp
  then have "failsS (readSpentBlockOutPoint i) (encOp (fst e) @ encKey (bok_TxKey (snd e)) @ le_bytes 32 h @ []) t"
    unfolding readSpentBlockOutPoint_def
    by (intro failsS_onReader [OF reads'_readOutPoint] failsS_onReader [OF btk.inner]
        failsS_onReader [OF reads'_noEOF [OF reads_words(3)]] failsS_lookup) simp_all
  then show "failsS (readSpentBlockOutPoint i) (encSpentBlock s0 e) t" by (simp add: encSpentBlock_def assms(2))
qed

lemma spentUnc_step:
  assumes "known s0 t" and "h = recSha s0 (snd e)"
  shows "h \<in> fst ` set (u_txs (unconfirmed s0)) \<Longrightarrow>
      readsS (readSpentUnconfirmed i) (encSpentUnc s0 e) t (loadSpentUnc (fst e) h t)"
    and "h \<notin> fst ` set (u_txs (unconfirmed s0)) \<Longrightarrow> failsS (readSpentUnconfirmed i) (encSpentUnc s0 e) t"
proof -
  show "readsS (readSpentUnconfirmed i) (encSpentUnc s0 e) t (loadSpentUnc (fst e) h t)"
    if "h \<in> fst ` set (u_txs (unconfirmed s0))"
    using that readsS_SpentUnc known_lookup [OF assms(1), of h] assms(2)
    by (cases "map_of (u_txs (unconfirmed t)) h") (auto simp: encSpentUnc_def)
  assume "h \<notin> fst ` set (u_txs (unconfirmed s0))"
  then have "map_of (u_txs (unconfirmed t)) h = None" using known_lookup [OF assms(1)] by simp
  then have "failsS (readSpentUnconfirmed i) (encOp (fst e) @ le_bytes 32 h @ []) t"
    unfolding readSpentUnconfirmed_def
    by (intro failsS_onReader [OF reads'_readOutPoint] failsS_onReader [OF reads'_noEOF [OF reads_words(3)]] failsS_lookup)
  then show "failsS (readSpentUnconfirmed i) (encSpentUnc s0 e) t" by (simp add: encSpentUnc_def assms(2))
qed

section \<open>A store with an orphan\<close>

lemma failsS_spends:
  assumes w: "writableUnc lib s0" and o: "orphanSpender s0" and k: "known s0 s"
  shows "failsS (bindE (onReader (noEOF readU32)) (\<lambda>c. bindE (forE readSpentBlockOutPoint [0..<unat c]) (\<lambda>_.
      bindE (onReader (noEOF readU32)) (\<lambda>c. bindE (forE readSpentUnconfirmed [0..<unat c])
      (\<lambda>_. onStore recreatePreviousOutpoints)))))
     (encList (encSpentBlock s0) (spentBlockOutPointKeys (unconfirmed s0)) @
      encList (encSpentUnc s0) (spentUnconfirmed (unconfirmed s0)) @ []) s"
proof -
  let ?u = "unconfirmed s0" and ?K = "fst ` set (u_txs (unconfirmed s0))"
  let ?g = "\<lambda>i e. loadSpentBlock (fst e) (normKey (bok_TxKey (snd e))) (recSha s0 (spender s0 (snd e)))"
  have sm: "small (spentBlockOutPointKeys ?u)" "small (spentUnconfirmed ?u)" using w by (simp_all add: writableUnc_def Let_def)
  show ?thesis
  proof (cases "\<exists>e \<in> set (spentBlockOutPointKeys ?u). recSha s0 (spender s0 (snd e)) \<notin> ?K")
    case True
    have "failsS (forE readSpentBlockOutPoint [0..<0 + length (spentBlockOutPointKeys ?u)])
        (concat (map (encSpentBlock s0) (spentBlockOutPointKeys ?u))) s"
      by (rule failsS_forE [where I = "known s0" and good = "\<lambda>e. recSha s0 (spender s0 (snd e)) \<in> ?K" and g = ?g])
         (use spentBlock_step k True in auto)
    then show ?thesis using failsS_counted [OF sm(1)] by simp
  next
    case False
    have all: "readsS (forE readSpentBlockOutPoint [0..<0 + length (spentBlockOutPointKeys ?u)])
        (concat (map (encSpentBlock s0) (spentBlockOutPointKeys ?u))) s (foldi ?g 0 (spentBlockOutPointKeys ?u) s)
        \<and> known s0 (foldi ?g 0 (spentBlockOutPointKeys ?u) s)"
      by (rule readsS_forE [where I = "known s0"]) (use spentBlock_step k False in auto)
    have "failsS (forE readSpentUnconfirmed [0..<0 + length (spentUnconfirmed ?u)])
        (concat (map (encSpentUnc s0) (spentUnconfirmed ?u))) (foldi ?g 0 (spentBlockOutPointKeys ?u) s)"
      by (rule failsS_forE [where I = "known s0" and good = "\<lambda>e. recSha s0 (snd e) \<in> ?K"
            and g = "\<lambda>i e. loadSpentUnc (fst e) (recSha s0 (snd e))"])
         (use spentUnc_step all o False in \<open>auto simp: orphanSpender_def Let_def\<close>)
    then have "failsS (bindE (onReader (noEOF readU32)) (\<lambda>c. bindE (forE readSpentUnconfirmed [0..<unat c])
        (\<lambda>_. onStore recreatePreviousOutpoints))) (encList (encSpentUnc s0) (spentUnconfirmed ?u) @ [])
        (foldi ?g 0 (spentBlockOutPointKeys ?u) s)" by (intro failsS_counted [OF sm(2)]) simp
    with all show ?thesis by (intro failsS_after_counted [OF sm(1)]) simp_all
  qed
qed

lemma failsS_unconfirmed:
  assumes w: "writableUnc lib s0" and o: "orphanSpender s0" and e: "u_txs (unconfirmed s) = []"
  shows "failsS (noEOF (unconfirmed_ReadFrom lib)) (encUnc lib s0) s"
proof (rule failsS_noEOF)
  let ?u = "unconfirmed s0"
  have sm: "small (u_txs ?u)" using w by (simp add: writableUnc_def Let_def)
  have "readsS (forE (readUnconfirmedTx lib) [0..<0 + length (u_txs ?u)])
      (concat (map (\<lambda>e. encRecord lib (rget s0 (snd e))) (u_txs ?u))) s (loadTxs lib s0 s)"
    unfolding loadTxs_def
    by (rule readsS_forE [where I = "\<lambda>_. True", THEN conjunct1])
       (use w readsS_Tx in \<open>auto simp: writableUnc_def Let_def\<close>)
  from failsS_bindE [OF this failsS_spends [OF w o known_loadTxs [OF w e]]] small_count [OF sm]
  show "failsS (unconfirmed_ReadFrom lib) (encUnc lib s0) s"
    unfolding unconfirmed_ReadFrom_def encUnc_def encList_def [of "\<lambda>e. encRecord lib (rget s0 (snd e))"] append_assoc
    by (intro failsS_count [OF reads_words(1)]) simp
qed

lemma loadBlocks_unconfirmed: "unconfirmed (loadBlocks lib s0) = unconfirmed New"
  unfolding loadBlocks_def by (rule foldi_keeps) (simp add: attachColl_def Let_def)

lemma Store_ReadFrom_orphan:
  assumes w: "writableStore lib s0" and o: "orphanSpender s0"
  shows "fst (Store_ReadFrom lib (s, (encStore lib s0 @ rest, n))) = Inl missingUnconfirmed"
proof -
  have sm: "small (blocks s0)" and u: "writableUnc lib s0" using w by (simp_all add: writableStore_def)
  have b: "readsS (forE (readBlock lib) [0..<0 + length (blocks s0)]) (concat (map (\<lambda>b. encColl lib (dataOf s0 b)) (blocks s0)))
      New (loadBlocks lib s0)"
    unfolding loadBlocks_def
    by (rule readsS_forE [where I = "\<lambda>_. True", THEN conjunct1])
       (use w readsS_Block in \<open>auto simp: writableStore_def\<close>)
  have "failsS (bindE (onReader (noEOF readU32)) (\<lambda>blockCount.
         bindE (forE (readBlock lib) [0..<unat blockCount]) (\<lambda>_. noEOF (unconfirmed_ReadFrom lib))))
     (encList (\<lambda>b. encColl lib (dataOf s0 b)) (blocks s0) @ encUnc lib s0) New"
    by (rule failsS_after_counted [OF sm]) (use b failsS_unconfirmed [OF u o, of "loadBlocks lib s0"] loadBlocks_unconfirmed in simp_all)
  moreover have "reads readU32 (le_bytes 4 versFastRewrite) versFastRewrite" by (rule reads_words)
  ultimately show ?thesis
    by (simp add: Store_ReadFrom_def encStore_def bindE_def [of "onReader readU32"] onReader_def [of readU32] reads_def
        bindE_def [of "onStore _"] onStore_def failsS_def)
qed

section \<open>Properties\<close>

text \<open>C24. Which files of a transaction store can be read. A store whose counts fit 32 bits, whose messages the library
  handles, whose unconfirmed transactions are filed under their hashes and whose two maps of spent block outputs belong together is
  always written, and the bytes depend on the store alone. They are read back if every transaction that is recorded as the
  spender of an output is still an unconfirmed transaction of the store; when one is not, reading fails
  with the error of a missing transaction, into whatever store it is read. A finding: stores with such a spender are
  reached, as the witness shows, for \<open>moveMinedTx\<close> does not remove the outputs of unconfirmed transactions that the moved transaction spends.\<close>

theorem Store_readable_iff:
  assumes "writableStore lib s"
  shows "Store_WriteTo lib s ([], None) = (Inr (), (encStore lib s, None))
    \<and> fst (Store_ReadFrom lib (old, (encStore lib s @ rest, n))) = (if orphanSpender s then Inl missingUnconfirmed else Inr ())"
proof
  show "Store_WriteTo lib s ([], None) = (Inr (), (encStore lib s, None))"
    using Store_WriteTo_Write [OF assms] by (simp add: Write_def)
  show "fst (Store_ReadFrom lib (old, (encStore lib s @ rest, n))) = (if orphanSpender s then Inl missingUnconfirmed else Inr ())"
    using Store_ReadFrom_orphan [OF assms] Store_ReadFrom_reads(1) [of lib s] assms by (simp add: validStore_def)
qed

text \<open>Transaction 1 has a credit that transaction 2 spends, both unconfirmed; then transaction 2 is mined.\<close>

definition lib1 :: txlib where
  "lib1 = \<lparr>tx_Serialize = (\<lambda>m. [of_nat (length (TxIns m))]),
     tx_Deserialize = (\<lambda>bs. case bs of [] \<Rightarrow> (Inl EOF, 0) | b # rest \<Rightarrow>
       (Inr (TxMsg (if b = 0 then mkTx 1 [] [10] (- 1) else mkTx 2 [\<lparr>OpHash = 1, OpIndex = 0\<rparr>] [] (- 1))), 1)),
     tx_SerializeSize = (\<lambda>m. 1), tx_TxSha = (\<lambda>m. of_nat (Suc (length (TxIns m))))\<rparr>"

definition storeOrphan1 :: Store where
  "storeOrphan1 = snd (AddCredit \<lparr>tr_key = unminedKey, tr_rec = 0\<rparr> 0 False (snd (InsertTx ext0 zeroTime (mkTx 1 [] [10] (- 1)) None New)))"

definition storeOrphan2 :: Store where
  "storeOrphan2 = snd (AddDebits \<lparr>tr_key = unminedKey, tr_rec = 1\<rparr> []
     (snd (InsertTx ext0 zeroTime (mkTx 2 [\<lparr>OpHash = 1, OpIndex = 0\<rparr>] [] (- 1)) None storeOrphan1)))"

definition storeOrphan3 :: Store where
  "storeOrphan3 = snd (InsertTx ext0 zeroTime (mkTx 2 [\<lparr>OpHash = 1, OpIndex = 0\<rparr>] [] 1) (Some (mkBlock 5)) storeOrphan2)"

lemma storeOrphan3_reachable: "reachable ext0 storeOrphan3"
proof -
  have "reachable ext0 storeOrphan1" unfolding storeOrphan1_def
    by (intro reach_credit reach_insert reach_New) (simp add: insert_in_order_def)
  then have "reachable ext0 (snd (InsertTx ext0 zeroTime (mkTx 2 [\<lparr>OpHash = 1, OpIndex = 0\<rparr>] [] (- 1)) None storeOrphan1))"
    by (rule reach_insert) (simp add: insert_in_order_def)
  then have "reachable ext0 storeOrphan2" unfolding storeOrphan2_def by (rule reach_debits) code_simp
  then show ?thesis unfolding storeOrphan3_def by (rule reach_insert) code_simp
qed

lemma good_msgs: "good_msg lib1 (TxMsg (mkTx 1 [] [10] i))" "good_msg lib1 (TxMsg (mkTx 2 [\<lparr>OpHash = 1, OpIndex = 0\<rparr>] [] i))"
  by (auto simp: good_msg_def lib1_def mkTx_def strict_prefix_def prefix_Cons)

lemma storeOrphan3_writable: "writableStore lib1 storeOrphan3"
proof -
  have b: "blocks storeOrphan3 = [0]" "map (\<lambda>t. (TxMsg (rec_tx t), rec_credits t)) (cd_records (dataOf storeOrphan3 0)) =
      [(TxMsg (mkTx 2 [\<lparr>OpHash = 1, OpIndex = 0\<rparr>] [] 1), [])]"
    "map (\<lambda>t. map_option spendsOf (rec_debits t)) (cd_records (dataOf storeOrphan3 0)) = [Some []]"
    "u_txs (unconfirmed storeOrphan3) = [(1, 0)]" "recSha storeOrphan3 0 = 1"
    "TxMsg (rec_tx (rget storeOrphan3 0)) = TxMsg (mkTx 1 [] [10] (- 1))" "rec_debits (rget storeOrphan3 0) = None"
    "length (rec_credits (rget storeOrphan3 0)) = 1" "spentBlockOutPoints (unconfirmed storeOrphan3) = []"
    "spentBlockOutPointKeys (unconfirmed storeOrphan3) = []" "length (spentUnconfirmed (unconfirmed storeOrphan3)) = 1"
    "tx_TxSha lib1 (TxMsg (mkTx 1 [] [10] (- 1))) = 1" by code_simp+
  have "validColl lib1 (dataOf storeOrphan3 0)"
    using b(2,3) good_msgs(2) by (auto simp: validColl_def validRecord_def small_def)
  moreover have "validRecord lib1 (rget storeOrphan3 0)" using b(6-8) good_msgs(1) by (simp add: validRecord_def small_def)
  ultimately show ?thesis using b by (simp add: writableStore_def writableUnc_def small_def Let_def)
qed

theorem Store_readable_iff_witness:
  "reachable ext0 storeOrphan3 \<and> fst (Store_WriteTo lib1 storeOrphan3 ([], None)) = Inr ()
   \<and> fst (Store_ReadFrom lib1 (New, (encStore lib1 storeOrphan3, 0))) = Inl missingUnconfirmed"
proof -
  have "orphanSpender storeOrphan3" by code_simp
  then show ?thesis using Store_readable_iff [OF storeOrphan3_writable, of New "[]" 0] storeOrphan3_reachable by simp
qed

end
