(* ===== verification/Ks_Types.thy ===== *)
theory Ks_Types
  imports Go_IO
begin

text \<open>
  The data of \<open>src/keystore/keystore.go\<close>: versions, flags, addresses and the key store.

  Byte slices and byte arrays are lists of bytes; \<open>nil\<close> and the empty slice are the empty list, which the
  code never tells apart (it only asks for lengths). A fixed-size array is a list whose length is part of
  the well-formedness of the record that holds it.

  Pointers. \<open>addrMap\<close> and \<open>importedAddrs\<close> share \<open>*btcAddress\<close> and \<open>*scriptAddress\<close> pointers, and one
  of them points into the store itself (\<open>&s.keyGenerator\<close>). The model keeps a heap of addresses beside the
  fields of the store; address 0 of the heap is the field \<open>keyGenerator\<close>. The back pointer
  \<open>btcAddress.store\<close> is the store an operation runs on and an argument of the operations that use it.

  Third-party code. \<open>kslib\<close> collects the operations of \<open>btcec\<close>, \<open>btcutil\<close>, \<open>btcwire\<close>, \<open>btcscript\<close> and the
  cryptographic primitives (hashes, the AES block function, ECDSA) that the store calls; it is an argument of
  every definition that uses one of them. \<open>RandRead\<close> and \<open>NowUnix\<close> are the answers of \<open>rand.Read\<close> and
  \<open>time.Now\<close>, and \<open>Elapsed\<close> is what \<open>time.Since\<close> measures, in nanoseconds: their first argument counts the
  interactions with the environment, so that no two calls are assumed to agree.
\<close>

type_synonym bytes = "byte list"

section \<open>Library types and operations\<close>

record netParams =
  Net :: u32

record PublicKey =
  PubX :: nat
  PubY :: nat

record Address =
  ScriptAddress :: bytes
  AddrNet :: netParams

record kslib =
  MainNet :: u32
  TestNet3 :: u32
  SimNet :: u32
  DoubleSha256 :: "bytes \<Rightarrow> bytes"
  Hash160 :: "bytes \<Rightarrow> bytes"
  Sum512 :: "bytes \<Rightarrow> bytes"
  AES :: "bytes \<Rightarrow> bytes \<Rightarrow> bytes"
  CurveN :: nat
  ScalarBaseMult :: "bytes \<Rightarrow> PublicKey"
  ScalarMult :: "PublicKey \<Rightarrow> bytes \<Rightarrow> PublicKey"
  PrivKeyFromBytes :: "bytes \<Rightarrow> PublicKey"
  ParsePubKey :: "bytes \<Rightarrow> err + PublicKey"
  SerializeCompressed :: "PublicKey \<Rightarrow> bytes"
  SerializeUncompressed :: "PublicKey \<Rightarrow> bytes"
  EcdsaSign :: "nat \<Rightarrow> PublicKey \<Rightarrow> nat \<Rightarrow> bytes \<Rightarrow> err + (nat \<times> nat)"
  EcdsaVerify :: "PublicKey \<Rightarrow> bytes \<Rightarrow> nat \<times> nat \<Rightarrow> bool"
  NewAddressPubKeyHash :: "bytes \<Rightarrow> netParams \<Rightarrow> err + Address"
  NewAddressScriptHashFromHash :: "bytes \<Rightarrow> netParams \<Rightarrow> err + Address"
  ExtractPkScriptAddrs :: "bytes \<Rightarrow> netParams \<Rightarrow> err + (nat \<times> Address list \<times> i64)"
  RandRead :: "nat \<Rightarrow> nat \<Rightarrow> err + bytes"
  NowUnix :: "nat \<Rightarrow> i64"
  Elapsed :: "nat \<Rightarrow> nat"

section \<open>Versions\<close>

record version =
  major :: byte
  minor :: byte
  bugfix :: byte
  autoincrement :: byte

definition mkVersion :: "byte \<Rightarrow> byte \<Rightarrow> byte \<Rightarrow> byte \<Rightarrow> version" where
  "mkVersion a b c d = \<lparr>major = a, minor = b, bugfix = c, autoincrement = d\<rparr>"

definition version_Uint32 :: "version \<Rightarrow> u32" where
  "version_Uint32 v =
     or (or (or (push_bit 6 (ucast (major v))) (push_bit 4 (ucast (minor v))))
       (push_bit 2 (ucast (bugfix v)))) (ucast (autoincrement v))"

definition version_LT :: "version \<Rightarrow> version \<Rightarrow> bool" where
  "version_LT v v2 =
     (if major v < major v2 then True
      else if minor v < minor v2 then True
      else if bugfix v < bugfix v2 then True
      else if autoincrement v < autoincrement v2 then True
      else False)"

definition version_EQ :: "version \<Rightarrow> version \<Rightarrow> bool" where
  "version_EQ v v2 =
     (if major v \<noteq> major v2 then False
      else if minor v \<noteq> minor v2 then False
      else if bugfix v \<noteq> bugfix v2 then False
      else if autoincrement v \<noteq> autoincrement v2 then False
      else True)"

definition version_GT :: "version \<Rightarrow> version \<Rightarrow> bool" where
  "version_GT v v2 =
     (if major v > major v2 then True
      else if minor v > minor v2 then True
      else if bugfix v > bugfix v2 then True
      else if autoincrement v > autoincrement v2 then True
      else False)"

definition VersArmory :: version where
  "VersArmory = mkVersion 1 35 0 0"

definition Vers20LastBlocks :: version where
  "Vers20LastBlocks = mkVersion 1 36 0 0"

definition VersUnsetNeedsPrivkeyFlag :: version where
  "VersUnsetNeedsPrivkeyFlag = mkVersion 1 36 1 0"

definition VersCurrent :: version where
  "VersCurrent = VersUnsetNeedsPrivkeyFlag"

section \<open>Flags, recent blocks, key derivation parameters\<close>

record walletFlags =
  useEncryption :: bool
  watchingOnly :: bool

record addrFlags =
  hasPrivKey :: bool
  hasPubKey :: bool
  encrypted :: bool
  createPrivKeyNextUnlock :: bool
  compressed :: bool
  af_change :: bool
  af_unsynced :: bool
  af_partialSync :: bool

record scriptFlags =
  hasScript :: bool
  sf_change :: bool
  sf_unsynced :: bool
  sf_partialSync :: bool

record recentBlocks =
  rb_hashes :: "256 word list"
  rb_lastHeight :: i32

record kdfParameters =
  kdf_mem :: u64
  kdf_nIter :: u32
  kdf_salt :: bytes

record BlockStamp =
  bs_Height :: i32
  bs_Hash :: "256 word"

datatype SyncStatus = Unsynced i32 | PartialSync i32 | FullSync

section \<open>Addresses\<close>

definition rootKeyChainIdx :: i64 where "rootKeyChainIdx = - 1"
definition importedKeyChainIdx :: i64 where "importedKeyChainIdx = - 2"

record btcAddress =
  a_address :: Address
  a_flags :: addrFlags
  a_chaincode :: bytes
  a_chainIndex :: i64
  a_chainDepth :: i64
  a_initVector :: bytes
  a_privKey :: bytes
  a_pubKey :: PublicKey
  a_firstSeen :: i64
  a_lastSeen :: i64
  a_firstBlock :: i32
  a_partialSyncHeight :: i32
  a_privKeyCT :: bytes

record scriptAddress =
  sa_address :: Address
  sa_class :: nat
  sa_addresses :: "Address list"
  sa_reqSigs :: i64
  sa_flags :: scriptFlags
  sa_script :: bytes
  sa_firstSeen :: i64
  sa_lastSeen :: i64
  sa_firstBlock :: i32
  sa_partialSyncHeight :: i32

datatype walletAddress = BtcAddr btcAddress | ScriptAddr scriptAddress

section \<open>The store\<close>

type_synonym aref = nat
type_synonym addressKey = bytes
type_synonym comment = bytes

record KStore =
  ks_vers :: version
  ks_net :: netParams
  ks_flags :: walletFlags
  ks_createDate :: i64
  ks_name :: bytes
  ks_desc :: bytes
  ks_highestUsed :: i64
  ks_kdfParams :: kdfParameters
  ks_recent :: recentBlocks
  addrMap :: "(addressKey, aref) gomap"
  addrCommentMap :: "(addressKey, comment) gomap"
  txCommentMap :: "(bytes, comment) gomap"
  ks_passphrase :: bytes
  ks_secret :: bytes
  chainIdxMap :: "(i64, Address) gomap"
  importedAddrs :: "aref list"
  lastChainIdx :: i64
  missingKeysStart :: i64
  aheap :: "walletAddress list"
  ks_events :: nat

type_synonym 'a ksact = "(KStore, err, 'a) act"

abbreviation aget :: "KStore \<Rightarrow> aref \<Rightarrow> walletAddress" where
  "aget s r \<equiv> aheap s ! r"

definition keyGenerator :: aref where
  "keyGenerator = 0"

definition IsLocked :: "KStore \<Rightarrow> bool" where
  "IsLocked s \<longleftrightarrow> length (ks_secret s) \<noteq> 32"

definition Name :: "KStore \<Rightarrow> bytes" where
  "Name s = takeWhile (\<lambda>b. b \<noteq> 0) (ks_name s)"

text \<open>\<open>getAddressKey\<close> calls a method of its argument, which panics on the nil interface that a failed map
  lookup returns.\<close>

definition getAddressKey :: "Address option \<Rightarrow> err + addressKey" where
  "getAddressKey a = (case a of None \<Rightarrow> Inl nil_panic | Some x \<Rightarrow> Inr (ScriptAddress x))"

fun wa_Address :: "walletAddress \<Rightarrow> Address" where
  "wa_Address (BtcAddr a) = a_address a"
| "wa_Address (ScriptAddr a) = sa_address a"

fun wa_FirstBlock :: "walletAddress \<Rightarrow> i32" where
  "wa_FirstBlock (BtcAddr a) = a_firstBlock a"
| "wa_FirstBlock (ScriptAddr a) = sa_firstBlock a"

fun wa_Imported :: "walletAddress \<Rightarrow> bool" where
  "wa_Imported (BtcAddr a) = (a_chainIndex a = importedKeyChainIdx)"
| "wa_Imported (ScriptAddr a) = True"

fun wa_Change :: "walletAddress \<Rightarrow> bool" where
  "wa_Change (BtcAddr a) = af_change (a_flags a)"
| "wa_Change (ScriptAddr a) = sf_change (sa_flags a)"

fun wa_Compressed :: "walletAddress \<Rightarrow> bool" where
  "wa_Compressed (BtcAddr a) = compressed (a_flags a)"
| "wa_Compressed (ScriptAddr a) = False"

fun wa_SyncStatus :: "walletAddress \<Rightarrow> SyncStatus" where
  "wa_SyncStatus (BtcAddr a) =
     (if af_unsynced (a_flags a) \<and> \<not> af_partialSync (a_flags a) then Unsynced (a_firstBlock a)
      else if af_unsynced (a_flags a) \<and> af_partialSync (a_flags a) then PartialSync (a_partialSyncHeight a)
      else FullSync)"
| "wa_SyncStatus (ScriptAddr a) =
     (if sf_unsynced (sa_flags a) \<and> \<not> sf_partialSync (sa_flags a) then Unsynced (sa_firstBlock a)
      else if sf_unsynced (sa_flags a) \<and> sf_partialSync (sa_flags a) then PartialSync (sa_partialSyncHeight a)
      else FullSync)"

definition btc_setSyncStatus :: "SyncStatus \<Rightarrow> btcAddress \<Rightarrow> btcAddress" where
  "btc_setSyncStatus ss a = (case ss of
     Unsynced _ \<Rightarrow> a\<lparr>a_flags := (a_flags a)\<lparr>af_unsynced := True, af_partialSync := False\<rparr>,
       a_partialSyncHeight := 0\<rparr>
   | PartialSync h \<Rightarrow> a\<lparr>a_flags := (a_flags a)\<lparr>af_unsynced := True, af_partialSync := True\<rparr>,
       a_partialSyncHeight := h\<rparr>
   | FullSync \<Rightarrow> a\<lparr>a_flags := (a_flags a)\<lparr>af_unsynced := False, af_partialSync := False\<rparr>,
       a_partialSyncHeight := 0\<rparr>)"

definition script_setSyncStatus :: "SyncStatus \<Rightarrow> scriptAddress \<Rightarrow> scriptAddress" where
  "script_setSyncStatus ss a = (case ss of
     Unsynced _ \<Rightarrow> a\<lparr>sa_flags := (sa_flags a)\<lparr>sf_unsynced := True, sf_partialSync := False\<rparr>,
       sa_partialSyncHeight := 0\<rparr>
   | PartialSync h \<Rightarrow> a\<lparr>sa_flags := (sa_flags a)\<lparr>sf_unsynced := True, sf_partialSync := True\<rparr>,
       sa_partialSyncHeight := h\<rparr>
   | FullSync \<Rightarrow> a\<lparr>sa_flags := (sa_flags a)\<lparr>sf_unsynced := False, sf_partialSync := False\<rparr>,
       sa_partialSyncHeight := 0\<rparr>)"

fun setSyncStatus :: "SyncStatus \<Rightarrow> walletAddress \<Rightarrow> walletAddress" where
  "setSyncStatus ss (BtcAddr a) = BtcAddr (btc_setSyncStatus ss a)"
| "setSyncStatus ss (ScriptAddr a) = ScriptAddr (script_setSyncStatus ss a)"

end
