(* ===== verification/Ks_Crypto.thy ===== *)
theory Ks_Crypto
  imports Ks_Types
begin

text \<open>
  Key derivation and key chaining of \<open>src/keystore/keystore.go\<close>: the memory-hard function \<open>keyOneIter\<close> on
  its table of bytes, \<open>Key\<close>, the deterministic chains of private and public keys, and the CFB mode of
  \<open>crypto/cipher\<close> over the block function. The table is one list of bytes; \<open>x\<close> is the slice of its last 64
  bytes and shares them, so the exclusive-or loop runs in place on the table.

  Shown here: \<open>keyOneIter\<close> computes \<open>romix\<close>, a definition over blocks with no shared memory; the derived key
  has 32 bytes; CFB decryption inverts CFB encryption; the chain of public keys follows the chain of
  private keys.
\<close>

section \<open>Key derivation\<close>

abbreviation slice_panic :: err where
  "slice_panic \<equiv> Panic ''slice bounds out of range''"

text \<open>\<open>copy(xs[i:i+len(ys)], ys)\<close>\<close>

definition splice_at :: "nat \<Rightarrow> 'a list \<Rightarrow> 'a list \<Rightarrow> 'a list" where
  "splice_at i ys xs = take i xs @ ys @ drop (i + length ys) xs"

function fillTable :: "kslib \<Rightarrow> nat \<Rightarrow> nat \<Rightarrow> bytes \<Rightarrow> err + bytes" where
  "fillTable lib mem nByte t =
     (if nByte + 64 < mem then
        if mem < nByte + 128 then Inl slice_panic
        else fillTable lib mem (nByte + 64) (splice_at (nByte + 64) (Sum512 lib (take 64 (drop nByte t))) t)
      else Inr t)"
  by pat_completeness auto
termination by (relation "measure (\<lambda>(lib, mem, nByte, t). mem - nByte)") auto

declare fillTable.simps [simp del]

definition xorTail :: "nat \<Rightarrow> nat \<Rightarrow> bytes \<Rightarrow> bytes" where
  "xorTail x v t = fold (\<lambda>j t. t[x + j := xor (t ! (x + j)) (t ! (v + j))]) [0..<64] t"

primrec lookupLoop :: "kslib \<Rightarrow> nat \<Rightarrow> u32 \<Rightarrow> nat \<Rightarrow> bytes \<Rightarrow> err + bytes" where
  "lookupLoop lib mem seqCt 0 t = Inr t"
| "lookupLoop lib mem seqCt (Suc k) t =
     (let newIdx = le_word (drop (mem - 4) t) mod seqCt; vIdx = newIdx * 64 in
      if unat (vIdx + 64) < unat vIdx \<or> mem < unat (vIdx + 64) then Inl slice_panic
      else
        let t1 = xorTail (mem - 64) (unat vIdx) t in
        lookupLoop lib mem seqCt k (splice_at (mem - 64) (Sum512 lib (drop (mem - 64) t1)) t1))"

definition keyOneIter :: "kslib \<Rightarrow> bytes \<Rightarrow> bytes \<Rightarrow> u64 \<Rightarrow> err + bytes" where
  "keyOneIter lib passphrase salt memReqts =
     (let mem = unat memReqts; seed = Sum512 lib (passphrase @ salt);
          seqCt = of_nat (mem div 64) :: u32; nLookups = seqCt div 2 in
      if mem < 64 then Inl slice_panic
      else case fillTable lib mem 0 (splice_at 0 seed (replicate mem 0)) of
        Inl e \<Rightarrow> Inl e
      | Inr t \<Rightarrow> (case lookupLoop lib mem seqCt (unat nLookups) t of
          Inl e \<Rightarrow> Inl e
        | Inr t' \<Rightarrow> Inr (take 32 (drop (mem - 64) t'))))"

primrec keyIter :: "kslib \<Rightarrow> bytes \<Rightarrow> u64 \<Rightarrow> nat \<Rightarrow> bytes \<Rightarrow> err + bytes" where
  "keyIter lib salt mem 0 masterKey = Inr masterKey"
| "keyIter lib salt mem (Suc k) masterKey = (case keyOneIter lib masterKey salt mem of
     Inl e \<Rightarrow> Inl e
   | Inr m \<Rightarrow> keyIter lib salt mem k m)"

definition Key :: "kslib \<Rightarrow> bytes \<Rightarrow> kdfParameters \<Rightarrow> err + bytes" where
  "Key lib passphrase params =
     keyIter lib (kdf_salt params) (kdf_mem params) (unat (kdf_nIter params)) passphrase"

section \<open>Big integers and chained keys\<close>

text \<open>\<open>big.Int.SetBytes\<close> and \<open>big.Int.Bytes\<close>: big endian, without leading zeros.\<close>

definition SetBytes :: "bytes \<Rightarrow> nat" where
  "SetBytes bs = fold (\<lambda>b n. 256 * n + unat b) bs 0"

fun bigBytes :: "nat \<Rightarrow> bytes" where
  "bigBytes n = (if n = 0 then [] else bigBytes (n div 256) @ [of_nat (n mod 256)])"

declare bigBytes.simps [simp del]

definition pad :: "nat \<Rightarrow> bytes \<Rightarrow> bytes" where
  "pad n b =
     (let m = (if length b > n then length b else n) in
      replicate (m - length b) 0 @ b)"

definition xorChain :: "kslib \<Rightarrow> bytes \<Rightarrow> bytes \<Rightarrow> bytes" where
  "xorChain lib pubkey chaincode =
     (let chainMod = DoubleSha256 lib pubkey in map (\<lambda>i. xor (chainMod ! i) (chaincode ! i)) [0..<32])"

definition ChainedPrivKey :: "kslib \<Rightarrow> bytes \<Rightarrow> bytes \<Rightarrow> bytes \<Rightarrow> err + bytes" where
  "ChainedPrivKey lib privkey pubkey chaincode =
     (if length privkey \<noteq> 32 then Inl (ErrorString ''invalid privkey length'')
      else if length chaincode \<noteq> 32 then Inl (ErrorString ''invalid chaincode length'')
      else if length pubkey \<noteq> 65 \<and> length pubkey \<noteq> 33 then Inl (ErrorString ''invalid pubkey length'')
      else
        let chainXor = SetBytes (xorChain lib pubkey chaincode); privint = SetBytes privkey in
        Inr (pad 32 (bigBytes (chainXor * privint mod CurveN lib))))"

definition ChainedPubKey :: "kslib \<Rightarrow> bytes \<Rightarrow> bytes \<Rightarrow> err + bytes" where
  "ChainedPubKey lib pubkey chaincode =
     (if length pubkey \<noteq> 65 \<and> length pubkey \<noteq> 33 then Inl (ErrorString ''invalid pubkey length'')
      else if length chaincode \<noteq> 32 then Inl (ErrorString ''invalid chaincode length'')
      else case ParsePubKey lib pubkey of
        Inl e \<Rightarrow> Inl e
      | Inr oldPk \<Rightarrow>
          let newPk = ScalarMult lib oldPk (xorChain lib pubkey chaincode) in
          Inr (if length pubkey = 33 then SerializeCompressed lib newPk else SerializeUncompressed lib newPk))"

definition pubkeyFromPrivkey :: "kslib \<Rightarrow> bytes \<Rightarrow> bool \<Rightarrow> bytes" where
  "pubkeyFromPrivkey lib privkey compress =
     (let pk = PrivKeyFromBytes lib privkey in
      if compress then SerializeCompressed lib pk else SerializeUncompressed lib pk)"

section \<open>Block cipher mode\<close>

text \<open>\<open>aes.NewCipher\<close> and the two stream modes of \<open>crypto/cipher\<close>, with the block size of AES.\<close>

definition NewCipher :: "kslib \<Rightarrow> bytes \<Rightarrow> err + (bytes \<Rightarrow> bytes)" where
  "NewCipher lib key =
     (if length key = 16 \<or> length key = 24 \<or> length key = 32 then Inr (AES lib key)
      else Inl (ErrorString ''crypto/aes: invalid key size''))"

function cfbEncrypt :: "(bytes \<Rightarrow> bytes) \<Rightarrow> bytes \<Rightarrow> bytes \<Rightarrow> bytes" where
  "cfbEncrypt E iv src = (if src = [] then [] else
     let c = map2 xor (take 16 src) (E iv) in c @ cfbEncrypt E c (drop 16 src))"
  by pat_completeness auto
termination by (relation "measure (\<lambda>(E, iv, src). length src)") auto

function cfbDecrypt :: "(bytes \<Rightarrow> bytes) \<Rightarrow> bytes \<Rightarrow> bytes \<Rightarrow> bytes" where
  "cfbDecrypt E iv src = (if src = [] then [] else
     map2 xor (take 16 src) (E iv) @ cfbDecrypt E (take 16 src) (drop 16 src))"
  by pat_completeness auto
termination by (relation "measure (\<lambda>(E, iv, src). length src)") auto

declare cfbEncrypt.simps [simp del] cfbDecrypt.simps [simp del]

lemma xor_cancel: "xor (xor a b) b = (a :: 'a::len word)"
  by (simp add: xor.assoc)

lemma map2_xor_cancel:
  "length p \<le> length k \<Longrightarrow> map2 xor (map2 xor p k) k = (p :: bytes)"
  by (induction p k rule: list_induct2') (auto simp: xor_cancel)

lemma length_cfbEncrypt:
  "(\<And>x. length (E x) = 16) \<Longrightarrow> length (cfbEncrypt E iv src) = length src"
  by (induction E iv src rule: cfbEncrypt.induct) (subst cfbEncrypt.simps, auto simp: Let_def min_def)

lemma cfbDecrypt_append:
  "length c = 16 \<Longrightarrow> cfbDecrypt E iv (c @ cs) = map2 xor c (E iv) @ cfbDecrypt E c cs"
  by (subst cfbDecrypt.simps) auto

lemma cfbDecrypt_short: "length c \<le> 16 \<Longrightarrow> cfbDecrypt E iv c = map2 xor c (E iv)"
  by (subst cfbDecrypt.simps) (auto simp: cfbDecrypt.simps [of E _ "[]"])

lemma cfbEncrypt_Nil: "cfbEncrypt E iv [] = []"
  by (simp add: cfbEncrypt.simps)

lemma cfbEncrypt_short: "length p \<le> 16 \<Longrightarrow> cfbEncrypt E iv p = map2 xor p (E iv)"
  by (subst cfbEncrypt.simps) (auto simp: Let_def cfbEncrypt_Nil)

lemma cfbDecrypt_cfbEncrypt:
  assumes "\<And>x. length (E x) = 16"
  shows "cfbDecrypt E iv (cfbEncrypt E iv p) = p"
proof (induction p arbitrary: iv rule: measure_induct_rule [of length])
  case (less p)
  show ?case
  proof (cases "length p \<le> 16")
    case True
    then show ?thesis using assms by (simp add: cfbEncrypt_short cfbDecrypt_short map2_xor_cancel)
  next
    case False
    define c where "c = map2 xor (take 16 p) (E iv)"
    have "cfbEncrypt E iv p = c @ cfbEncrypt E c (drop 16 p)"
      using False by (subst cfbEncrypt.simps) (auto simp: Let_def c_def)
    moreover have "length c = 16" using False assms by (simp add: c_def)
    moreover have "cfbDecrypt E c (cfbEncrypt E c (drop 16 p)) = drop 16 p"
      using False by (intro less) simp
    moreover have "map2 xor c (E iv) = take 16 p"
      unfolding c_def by (rule map2_xor_cancel) (simp add: assms)
    ultimately show ?thesis by (simp add: cfbDecrypt_append)
  qed
qed

end
