(* ===== verification/Ks_Kdf.thy ===== *)
theory Ks_Kdf
  imports Ks_Crypto
begin

text \<open>
  The key derivation function against its specification. \<open>romix\<close> is the algorithm of Percival's paper on
  64-byte blocks, with the deviation that the code has: the last block of the table is the running value
  itself. \<open>keyOneIter\<close>, which works in place on one array, computes it whenever the memory is a multiple of 64
  bytes below 4 GiB, and its slice expressions then never panic.
\<close>

definition romixStep :: "kslib \<Rightarrow> bytes list \<Rightarrow> nat \<Rightarrow> bytes \<Rightarrow> bytes" where
  "romixStep lib V n X =
     (let j = unat (le_word (drop 60 X) :: u32) mod n in
      Sum512 lib (map2 xor X (if j = n - 1 then X else V ! j)))"

definition romixTable :: "kslib \<Rightarrow> nat \<Rightarrow> bytes \<Rightarrow> bytes list" where
  "romixTable lib n x = map (\<lambda>i. (Sum512 lib ^^ Suc i) x) [0..<n]"

definition romix :: "kslib \<Rightarrow> nat \<Rightarrow> bytes \<Rightarrow> bytes" where
  "romix lib n x = (romixStep lib (romixTable lib (n - 1) x) n ^^ (n div 2)) ((Sum512 lib ^^ n) x)"

definition hash_ok :: "kslib \<Rightarrow> bool" where
  "hash_ok lib \<longleftrightarrow> (\<forall>x. length (Sum512 lib x) = 64)"

lemma hash_okD [simp]: "hash_ok lib \<Longrightarrow> length (Sum512 lib x) = 64"
  by (simp add: hash_ok_def)

lemma length_romixTable [simp]: "length (romixTable lib n x) = n"
  by (simp add: romixTable_def)

lemma romixTable_Suc: "romixTable lib (Suc n) x = romixTable lib n x @ [(Sum512 lib ^^ Suc n) x]"
  by (simp add: romixTable_def)

lemma length_concat_table:
  assumes "hash_ok lib"
  shows "length (concat (romixTable lib n x)) = 64 * n"
  by (induction n) (use assms in \<open>simp_all add: romixTable_Suc, simp add: romixTable_def\<close>)

section \<open>The table\<close>

lemma splice_at_append:
  "length a = i \<Longrightarrow> length b = length ys \<Longrightarrow> splice_at i ys (a @ b @ c) = a @ ys @ c"
  by (simp add: splice_at_def)

lemma fillTable_romix:
  assumes "hash_ok lib" and "i < n"
  shows "fillTable lib (64 * n) (64 * i) (concat (romixTable lib (Suc i) x) @ replicate (64 * (n - Suc i)) 0) =
    Inr (concat (romixTable lib n x))"
  using assms(2)
proof (induction "n - Suc i" arbitrary: i)
  case 0
  then have "n = Suc i" by simp
  then show ?case by (simp add: fillTable.simps)
next
  case (Suc k)
  let ?t = "concat (romixTable lib (Suc i) x)"
  have n: "Suc i < n" "n - Suc i = Suc (n - Suc (Suc i))" using Suc by simp_all
  have r: "replicate (64 * (n - Suc i)) (0::byte) = replicate 64 0 @ replicate (64 * (n - Suc (Suc i))) 0"
    using n(2) by (simp add: replicate_add [symmetric])
  have b: "take 64 (drop (64 * i) (?t @ y)) = (Sum512 lib ^^ Suc i) x" for y
    using assms(1) by (simp add: romixTable_Suc length_concat_table)
  have l: "length ?t = 64 * Suc i" using assms(1) by (rule length_concat_table)
  have "splice_at (64 * i + 64) (Sum512 lib ((Sum512 lib ^^ Suc i) x)) (?t @ replicate (64 * (n - Suc i)) 0) =
      concat (romixTable lib (Suc (Suc i)) x) @ replicate (64 * (n - Suc (Suc i))) 0"
    unfolding r romixTable_Suc [of lib "Suc i"] using l assms(1) by (subst splice_at_append) simp_all
  moreover have "fillTable lib (64 * n) (64 * i) t =
      fillTable lib (64 * n) (64 * Suc i) (splice_at (64 * i + 64) (Sum512 lib (take 64 (drop (64 * i) t))) t)" for t
    using n by (subst fillTable.simps) (simp add: add.commute)
  ultimately show ?case
    using Suc(1) [of "Suc i"] Suc(2) n by (simp only: b)
qed

section \<open>One lookup\<close>

text \<open>The in-place loop, when the block that is read is the running block or does not overlap it.\<close>

lemma xorTail_blocks:
  assumes "length A = x" and "length X = 64" and "length W = 64"
    and "v = x \<and> W = X \<or> v + 64 \<le> x \<and> W = take 64 (drop v A)"
  shows "xorTail x v (A @ X) = A @ map2 xor X W"
proof -
  have w: "j < 64 \<Longrightarrow> (A @ map2 xor (take j X) (take j W) @ drop j X) ! (v + j) = W ! j" for j
    using assms by (auto simp: nth_append)
  have "k \<le> 64 \<Longrightarrow> fold (\<lambda>j t. t[x + j := xor (t ! (x + j)) (t ! (v + j))]) [0..<k] (A @ X) =
      A @ map2 xor (take k X) (take k W) @ drop k X" for k
  proof (induction k)
    case (Suc k)
    then have k: "k < 64" "k \<le> 64" by simp_all
    have "drop k X = X ! k # drop (Suc k) X" using k assms by (simp add: Cons_nth_drop_Suc)
    moreover have "map2 xor (take (Suc k) X) (take (Suc k) W) =
        map2 xor (take k X) (take k W) @ [xor (X ! k) (W ! k)]"
      using k assms by (simp add: take_Suc_conv_app_nth)
    ultimately show ?case
      using Suc.IH [OF k(2)] w [OF k(1)] k assms by (simp add: list_update_append nth_append)
  qed simp
  from this [of 64] show ?thesis using assms by (simp add: xorTail_def)
qed

lemma concat_block:
  "(\<forall>v \<in> set V. length v = 64) \<Longrightarrow> j < length V \<Longrightarrow> take 64 (drop (64 * j) (concat V)) = V ! j"
proof (induction V arbitrary: j)
  case (Cons v V)
  then show ?case by (cases j) (simp_all add: add.commute)
qed simp

lemma drop_tail: "length A = m - 64 \<Longrightarrow> length X = 64 \<Longrightarrow> 64 \<le> m \<Longrightarrow> drop (m - 4) (A @ X) = drop 60 X"
  by (simp add: Suc_diff_le)

lemma lookupLoop_romix:
  assumes "hash_ok lib" and "\<forall>v \<in> set V. length v = 64" and "length V = n - 1" and "length X = 64"
    and "0 < n" and "n < 2 ^ 26"
  shows "lookupLoop lib (64 * n) (of_nat n) k (concat V @ X) = Inr (concat V @ (romixStep lib V n ^^ k) X)"
  using assms(4)
proof (induction k arbitrary: X)
  case (Suc k)
  have lv: "length (concat V) = 64 * n - 64"
    using assms(2,3) by (simp add: length_concat cong: map_cong) (simp add: map_replicate_const sum_list_replicate diff_mult_distrib2)
  have nn: "unat (of_nat n :: u32) = n" using assms(6) by (simp add: unat_of_nat_small)
  define idx where "idx = (le_word (drop 60 X) :: u32) mod of_nat n"
  have idx: "unat idx = unat (le_word (drop 60 X) :: u32) mod n"
    by (simp add: idx_def unat_mod nn)
  have lt: "unat idx < n" using assms(5) by (simp add: idx)
  have v: "unat (idx * 64) = 64 * unat idx"
    using lt assms(6) by (simp add: unat_word_ariths)
  have v64: "unat (idx * 64 + 64) = 64 * unat idx + 64"
    using lt assms(6) v by (simp add: unat_word_ariths)
  define W where "W = (if unat idx = n - 1 then X else V ! unat idx)"
  have "xorTail (64 * n - 64) (64 * unat idx) (concat V @ X) = concat V @ map2 xor X W"
  proof (rule xorTail_blocks)
    show "length W = 64" using Suc.prems assms(2,3) lt by (auto simp: W_def)
    show "64 * unat idx = 64 * n - 64 \<and> W = X \<or>
        64 * unat idx + 64 \<le> 64 * n - 64 \<and> W = take 64 (drop (64 * unat idx) (concat V))"
      using lt assms(2,3) concat_block [of V "unat idx"] by (auto simp: W_def)
  qed (use lv Suc.prems in auto)
  moreover have "romixStep lib V n X = Sum512 lib (map2 xor X W)"
    by (simp add: romixStep_def W_def idx)
  moreover have "drop (64 * n - 4) (concat V @ X) = drop 60 X"
    using lv Suc.prems assms(5) by (intro drop_tail) simp_all
  ultimately show ?case
    using Suc.IH [of "romixStep lib V n X"] lv lt assms(1) Suc.prems v v64
    by (simp add: Let_def idx_def [symmetric] splice_at_def funpow_swap1)
qed simp

section \<open>The whole function\<close>

lemma keyOneIter_blocks:
  assumes "hash_ok lib" and "0 < n" and "n < 2 ^ 26"
  shows "keyOneIter lib p salt (of_nat (64 * n)) = Inr (take 32 (romix lib n (p @ salt)))"
proof -
  let ?x = "p @ salt"
  obtain m where m: "n = Suc m" using assms(2) gr0_implies_Suc by blast
  have mem: "unat (of_nat (64 * n) :: u64) = 64 * n" using assms(3) by (subst unat_of_nat_small) simp_all
  have sq: "unat (of_nat n div 2 :: u32) = n div 2" using assms(3) by (simp add: unat_div unat_of_nat_small)
  have "splice_at 0 (Sum512 lib ?x) (replicate (64 * n) 0) =
      concat (romixTable lib (Suc 0) ?x) @ replicate (64 * (n - Suc 0)) 0"
    using assms(1) by (simp add: splice_at_def romixTable_def m)
  then have f: "fillTable lib (64 * n) 0 (splice_at 0 (Sum512 lib ?x) (replicate (64 * n) 0)) =
      Inr (concat (romixTable lib m ?x) @ (Sum512 lib ^^ n) ?x)"
    using fillTable_romix [OF assms(1), of 0 n ?x] by (simp add: m romixTable_Suc)
  have l: "\<forall>v \<in> set (romixTable lib m ?x). length v = 64" "length ((Sum512 lib ^^ n) ?x) = 64"
    using assms(1) by (auto simp: romixTable_def m)
  have "lookupLoop lib (64 * n) (of_nat n) (n div 2) (concat (romixTable lib m ?x) @ (Sum512 lib ^^ n) ?x) =
      Inr (concat (romixTable lib m ?x) @ romix lib n ?x)"
    using lookupLoop_romix [OF assms(1) l(1) _ l(2) assms(2,3), of "n div 2"] m by (simp add: romix_def)
  moreover have "length (concat (romixTable lib m ?x)) = 64 * n - 64"
    using length_concat_table [OF assms(1), of m ?x] m by simp
  ultimately show ?thesis using mem sq f assms(2) by (simp add: keyOneIter_def Let_def)
qed

lemma length_romix: "hash_ok lib \<Longrightarrow> 0 < n \<Longrightarrow> length (romix lib n x) = 64"
proof -
  assume h: "hash_ok lib" "0 < n"
  have "length X = 64 \<Longrightarrow> length ((romixStep lib V n ^^ k) X) = 64" for V k X
    by (cases k) (use h in \<open>simp_all add: romixStep_def Let_def\<close>)
  moreover have "length ((Sum512 lib ^^ n) x) = 64" using h by (cases n) simp_all
  ultimately show ?thesis by (simp add: romix_def)
qed

end
