(* ===== verification/Ks_Chain.thy ===== *)
theory Ks_Chain
  imports Ks_Kdf
begin

text \<open>
  The two key chains agree. \<open>curve_ok\<close> states what the code relies on of the elliptic curve library: scalar
  multiplication is a group action of exponent \<open>CurveN\<close>, and parsing inverts the two serializations away
  from the point at infinity. Under these laws the public key that \<open>ChainedPubKey\<close> derives without the
  private key is the public key of what \<open>ChainedPrivKey\<close> derives with it, step by step along a chain.
\<close>

section \<open>Big-endian numbers\<close>

lemma SetBytes_snoc: "SetBytes (bs @ [b]) = 256 * SetBytes bs + unat b"
  by (simp add: SetBytes_def)

lemma bigBytes_0 [simp]: "bigBytes 0 = []"
  by (simp add: bigBytes.simps)

lemma SetBytes_Nil [simp]: "SetBytes [] = 0"
  by (simp add: SetBytes_def)

lemma SetBytes_bigBytes [simp]: "SetBytes (bigBytes n) = n"
proof (induction n rule: bigBytes.induct)
  case (1 n)
  have "unat (of_nat (n mod 256) :: byte) = n mod 256" by (subst unat_of_nat_small) simp_all
  with 1 show ?case
    by (cases "n = 0") (simp_all add: bigBytes.simps [of n] SetBytes_snoc)
qed

lemma SetBytes_pad [simp]: "SetBytes (pad n bs) = SetBytes bs"
proof -
  have "fold (\<lambda>b n. 256 * n + unat b) (replicate k 0) 0 = 0" for k :: nat
    by (induction k) simp_all
  then show ?thesis by (simp add: pad_def SetBytes_def Let_def)
qed

lemma length_bigBytes: "n < 256 ^ k \<Longrightarrow> length (bigBytes n) \<le> k"
proof (induction k arbitrary: n)
  case 0
  then show ?case by (simp add: bigBytes.simps)
next
  case (Suc k)
  then have "length (bigBytes (n div 256)) \<le> k"
    by (intro Suc.IH) (simp add: less_mult_imp_div_less mult.commute)
  then show ?case by (subst bigBytes.simps) simp
qed

lemma length_pad: "length bs \<le> n \<Longrightarrow> length (pad n bs) = n"
  by (simp add: pad_def Let_def)

lemma length_pad_bigBytes: "m < 2 ^ 256 \<Longrightarrow> length (pad 32 (bigBytes m)) = 32"
  by (rule length_pad, rule length_bigBytes) simp

section \<open>The laws of the curve\<close>

definition curve_ok :: "kslib \<Rightarrow> bool" where
  "curve_ok lib \<longleftrightarrow> 0 < CurveN lib \<and> CurveN lib \<le> 2 ^ 256 \<and>
     (\<forall>k. PrivKeyFromBytes lib k = ScalarBaseMult lib k) \<and>
     (\<exists>smul. (\<forall>k. ScalarBaseMult lib k = smul (SetBytes k)) \<and>
        (\<forall>a c. ScalarMult lib (smul a) c = smul (a * SetBytes c)) \<and>
        (\<forall>a. smul (a mod CurveN lib) = smul a) \<and>
        (\<forall>a. length (SerializeCompressed lib (smul a)) = 33 \<and> length (SerializeUncompressed lib (smul a)) = 65) \<and>
        (\<forall>a. a mod CurveN lib \<noteq> 0 \<longrightarrow>
           ParsePubKey lib (SerializeCompressed lib (smul a)) = Inr (smul a) \<and>
           ParsePubKey lib (SerializeUncompressed lib (smul a)) = Inr (smul a)))"

lemma curve_base:
  assumes "curve_ok lib"
  shows "0 < CurveN lib" "CurveN lib \<le> 2 ^ 256" "PrivKeyFromBytes lib k = ScalarBaseMult lib k"
    "SetBytes j mod CurveN lib = SetBytes k mod CurveN lib \<Longrightarrow> ScalarBaseMult lib j = ScalarBaseMult lib k"
    "SetBytes m = SetBytes k * SetBytes c \<Longrightarrow> ScalarMult lib (ScalarBaseMult lib k) c = ScalarBaseMult lib m"
proof -
  from assms obtain smul where s: "\<And>k. ScalarBaseMult lib k = smul (SetBytes k)"
    "\<And>a c. ScalarMult lib (smul a) c = smul (a * SetBytes c)" "\<And>a. smul (a mod CurveN lib) = smul a"
    unfolding curve_ok_def by blast
  show "0 < CurveN lib" "CurveN lib \<le> 2 ^ 256" "PrivKeyFromBytes lib k = ScalarBaseMult lib k"
    using assms by (simp_all add: curve_ok_def)
  show "ScalarBaseMult lib j = ScalarBaseMult lib k" if "SetBytes j mod CurveN lib = SetBytes k mod CurveN lib"
    using that s(1,3) by metis
  show "ScalarMult lib (ScalarBaseMult lib k) c = ScalarBaseMult lib m" if "SetBytes m = SetBytes k * SetBytes c"
    using that by (simp add: s(1,2))
qed

lemma curve_keys:
  assumes "curve_ok lib"
  shows "length (pubkeyFromPrivkey lib k cmp) = (if cmp then 33 else 65)"
    "SetBytes k mod CurveN lib \<noteq> 0 \<Longrightarrow> ParsePubKey lib (pubkeyFromPrivkey lib k cmp) = Inr (ScalarBaseMult lib k)"
proof -
  from assms obtain smul where s: "\<And>k. ScalarBaseMult lib k = smul (SetBytes k)"
    "\<And>a. length (SerializeCompressed lib (smul a)) = 33 \<and> length (SerializeUncompressed lib (smul a)) = 65"
    "\<And>a. a mod CurveN lib \<noteq> 0 \<Longrightarrow> ParsePubKey lib (SerializeCompressed lib (smul a)) = Inr (smul a) \<and>
           ParsePubKey lib (SerializeUncompressed lib (smul a)) = Inr (smul a)"
    unfolding curve_ok_def by blast
  show "length (pubkeyFromPrivkey lib k cmp) = (if cmp then 33 else 65)"
    using s(2) by (simp add: pubkeyFromPrivkey_def Let_def curve_base(3) [OF assms] s(1))
  show "ParsePubKey lib (pubkeyFromPrivkey lib k cmp) = Inr (ScalarBaseMult lib k)"
    if "SetBytes k mod CurveN lib \<noteq> 0"
    using s(3) [OF that] by (simp add: pubkeyFromPrivkey_def Let_def curve_base(3) [OF assms] s(1))
qed

section \<open>One step and the whole chain\<close>

lemma chained_keys_step:
  fixes cmp :: bool
  assumes "curve_ok lib" and "length priv = 32" and "length cc = 32"
  defines "pub \<equiv> pubkeyFromPrivkey lib priv cmp"
  obtains priv' where "ChainedPrivKey lib priv pub cc = Inr priv'" and "length priv' = 32"
    and "SetBytes priv mod CurveN lib \<noteq> 0 \<Longrightarrow> ChainedPubKey lib pub cc = Inr (pubkeyFromPrivkey lib priv' cmp)"
proof -
  let ?x = "xorChain lib pub cc"
  let ?p = "SetBytes ?x * SetBytes priv"
  let ?priv' = "pad 32 (bigBytes (?p mod CurveN lib))"
  have l: "length pub = (if cmp then 33 else 65)" unfolding pub_def by (rule curve_keys(1) [OF assms(1)])
  have "?p mod CurveN lib < 2 ^ 256"
    using curve_base(1,2) [OF assms(1)] mod_less_divisor order_less_le_trans by blast
  then have 32: "length ?priv' = 32" by (rule length_pad_bigBytes)
  have "ScalarMult lib (ScalarBaseMult lib priv) ?x = ScalarBaseMult lib (bigBytes ?p)"
    by (rule curve_base(5) [OF assms(1)]) simp
  also have "\<dots> = ScalarBaseMult lib ?priv'" by (rule curve_base(4) [OF assms(1)]) simp
  finally have "ChainedPubKey lib pub cc = Inr (pubkeyFromPrivkey lib ?priv' cmp)"
    if "SetBytes priv mod CurveN lib \<noteq> 0"
    using l assms(3) curve_keys(2) [OF assms(1) that, of cmp] curve_base(3) [OF assms(1)]
    by (auto simp: ChainedPubKey_def pub_def pubkeyFromPrivkey_def Let_def)
  moreover have "ChainedPrivKey lib priv pub cc = Inr ?priv'"
    using l assms(2,3) by (auto simp: ChainedPrivKey_def Let_def)
  ultimately show thesis using that 32 by blast
qed

primrec privChain :: "kslib \<Rightarrow> bytes \<Rightarrow> bool \<Rightarrow> nat \<Rightarrow> bytes \<Rightarrow> err + bytes list" where
  "privChain lib cc cmp 0 priv = Inr []"
| "privChain lib cc cmp (Suc n) priv =
     (case ChainedPrivKey lib priv (pubkeyFromPrivkey lib priv cmp) cc of
        Inl e \<Rightarrow> Inl e
      | Inr p \<Rightarrow> map_sum id (Cons p) (privChain lib cc cmp n p))"

primrec pubChain :: "kslib \<Rightarrow> bytes \<Rightarrow> nat \<Rightarrow> bytes \<Rightarrow> err + bytes list" where
  "pubChain lib cc 0 pub = Inr []"
| "pubChain lib cc (Suc n) pub =
     (case ChainedPubKey lib pub cc of
        Inl e \<Rightarrow> Inl e
      | Inr p \<Rightarrow> map_sum id (Cons p) (pubChain lib cc n p))"

text \<open>C19. The chain of public keys follows the chain of private keys. Deriving \<open>n\<close> private keys always
  succeeds with 32-byte keys, and as long as none of them is zero modulo the order of the curve, deriving \<open>n\<close>
  public keys from the public key alone succeeds too and gives exactly their public keys, compressed or not.\<close>

theorem chained_keys_agree:
  assumes "curve_ok lib" and "length priv = 32" and "length cc = 32"
  shows "\<exists>ps. privChain lib cc cmp n priv = Inr ps \<and> length ps = n \<and> (\<forall>p \<in> set ps. length p = 32) \<and>
    ((\<forall>p \<in> set (priv # ps). SetBytes p mod CurveN lib \<noteq> 0) \<longrightarrow>
      pubChain lib cc n (pubkeyFromPrivkey lib priv cmp) = Inr (map (\<lambda>p. pubkeyFromPrivkey lib p cmp) ps))"
  using assms(2)
proof (induction n arbitrary: priv)
  case (Suc n)
  obtain p' where p': "ChainedPrivKey lib priv (pubkeyFromPrivkey lib priv cmp) cc = Inr p'" "length p' = 32"
    "SetBytes priv mod CurveN lib \<noteq> 0 \<Longrightarrow>
       ChainedPubKey lib (pubkeyFromPrivkey lib priv cmp) cc = Inr (pubkeyFromPrivkey lib p' cmp)"
    using chained_keys_step [OF assms(1) Suc.prems assms(3)] by blast
  from Suc.IH [OF p'(2)] obtain qs where "privChain lib cc cmp n p' = Inr qs" "length qs = n"
    "\<forall>p \<in> set qs. length p = 32"
    "(\<forall>p \<in> set (p' # qs). SetBytes p mod CurveN lib \<noteq> 0) \<longrightarrow>
      pubChain lib cc n (pubkeyFromPrivkey lib p' cmp) = Inr (map (\<lambda>p. pubkeyFromPrivkey lib p cmp) qs)"
    by blast
  with p' show ?case by (intro exI [of _ "p' # qs"]) simp
qed simp

section \<open>A small library\<close>

text \<open>A library that satisfies the laws: the integers modulo 251 for the curve, and hashes that extend or cut
  their argument to the right length.\<close>

definition cut :: "nat \<Rightarrow> bytes \<Rightarrow> bytes" where
  "cut k x = take k (x @ replicate k 1)"

definition point :: "nat \<Rightarrow> PublicKey" where
  "point a = \<lparr>PubX = a mod 251, PubY = 0\<rparr>"

definition kslib0 :: kslib where
  "kslib0 = \<lparr>MainNet = 1, TestNet3 = 2, SimNet = 3, DoubleSha256 = (\<lambda>x. replicate 31 0 @ [1]), Hash160 = (\<lambda>x. rev (cut 20 (rev x))), Sum512 = cut 64,
     AES = (\<lambda>k x. cut 16 (map2 xor k x)), CurveN = 251,
     ScalarBaseMult = (\<lambda>k. point (SetBytes k)), ScalarMult = (\<lambda>p c. point (PubX p * SetBytes c)),
     PrivKeyFromBytes = (\<lambda>k. point (SetBytes k)),
     ParsePubKey = (\<lambda>b. Inr \<lparr>PubX = SetBytes (take 32 (tl b)), PubY = 0\<rparr>),
     SerializeCompressed = (\<lambda>p. 2 # pad 32 (bigBytes (PubX p))),
     SerializeUncompressed = (\<lambda>p. 4 # pad 32 (bigBytes (PubX p)) @ replicate 32 0),
     EcdsaSign = (\<lambda>i p d m. Inr (d, 0)), EcdsaVerify = (\<lambda>p m r. fst r mod 251 = PubX p),
     NewAddressPubKeyHash = (\<lambda>h n. if length h = 20 then Inr \<lparr>ScriptAddress = h, AddrNet = n\<rparr> else Inl (ErrorString ''length'')),
     NewAddressScriptHashFromHash = (\<lambda>h n. if length h = 20 then Inr \<lparr>ScriptAddress = h, AddrNet = n\<rparr> else Inl (ErrorString ''length'')),
     ExtractPkScriptAddrs = (\<lambda>b n. Inr (0, [], 1)),
     RandRead = (\<lambda>i k. Inr (replicate k (of_nat i))), NowUnix = of_nat, Elapsed = (\<lambda>i. i)\<rparr>"

lemma length_cut: "length (cut k x) = k"
  by (simp add: cut_def)

lemma hash_ok0: "hash_ok kslib0"
  by (simp add: hash_ok_def kslib0_def length_cut)

lemma curve_ok0: "curve_ok kslib0"
proof -
  have l: "length (pad 32 (bigBytes (a mod 251))) = 32" for a
  proof (rule length_pad_bigBytes)
    have "a mod 251 < 251" by simp
    then show "a mod 251 < 2 ^ 256" by (rule less_trans) simp
  qed
  show ?thesis
    unfolding curve_ok_def
  proof (intro conjI exI [of _ point])
  qed (auto simp: kslib0_def point_def l mod_simps)
qed

theorem chained_keys_agree_witness:
  "pubChain kslib0 (replicate 31 0 @ [3]) 3 (pubkeyFromPrivkey kslib0 (replicate 31 0 @ [5]) True) =
     map_sum id (map (\<lambda>p. pubkeyFromPrivkey kslib0 p True))
       (privChain kslib0 (replicate 31 0 @ [3]) True 3 (replicate 31 0 @ [5]))"
proof -
  have z: "case privChain kslib0 (replicate 31 0 @ [3]) True 3 (replicate 31 0 @ [5]) of Inl e \<Rightarrow> False
    | Inr ps \<Rightarrow> list_all (\<lambda>p. SetBytes p mod CurveN kslib0 \<noteq> 0) ((replicate 31 0 @ [5]) # ps)"
    by code_simp
  from chained_keys_agree [OF curve_ok0, of "replicate 31 0 @ [5]" "replicate 31 0 @ [3]" True 3] z
  show ?thesis by (auto simp: list_all_iff)
qed

section \<open>Key derivation\<close>

text \<open>C20. Key derivation computes the specified function. For a memory size of \<open>n\<close> blocks below 4 GiB, \<open>Key\<close>
  never panics and is the \<open>nIter\<close>-fold iteration of \<open>romix\<close>, cut to 32 bytes; with at least one iteration the
  key has the 32 bytes that an unlocked key store is recognised by.\<close>

theorem Key_romix:
  assumes "hash_ok lib" and "unat (kdf_mem params) = 64 * n" and "0 < n" and "n < 2 ^ 26"
  shows "\<exists>k. Key lib passphrase params = Inr k
    \<and> k = ((\<lambda>m. take 32 (romix lib n (m @ kdf_salt params))) ^^ unat (kdf_nIter params)) passphrase
    \<and> (0 < kdf_nIter params \<longrightarrow> length k = 32)"
proof -
  define f where "f = (\<lambda>m. take 32 (romix lib n (m @ kdf_salt params)))"
  have "kdf_mem params = of_nat (64 * n)" using assms(2) by (metis of_nat_unat ucast_id)
  then have "keyOneIter lib m (kdf_salt params) (kdf_mem params) = Inr (f m)" for m
    using keyOneIter_blocks [OF assms(1,3,4)] by (simp add: f_def del: of_nat_mult)
  then have "keyIter lib (kdf_salt params) (kdf_mem params) i p = Inr ((f ^^ i) p)" for i p
    by (induction i arbitrary: p) (simp_all add: funpow_swap1)
  moreover have "0 < i \<Longrightarrow> length ((f ^^ i) p) = 32" for i p
    by (cases i) (simp_all add: f_def length_romix [OF assms(1,3)])
  ultimately show ?thesis by (simp add: Key_def unat_gt_0 word_neq_0_conv f_def)
qed

theorem Key_romix_witness:
  "\<exists>k. Key kslib0 [1, 2] \<lparr>kdf_mem = 128, kdf_nIter = 2, kdf_salt = [3]\<rparr> = Inr k \<and> length k = 32"
  using Key_romix [OF hash_ok0, of "\<lparr>kdf_mem = 128, kdf_nIter = 2, kdf_salt = [3]\<rparr>" 2] by simp

end
