(* ===== verification/Ks_Address.thy ===== *)
theory Ks_Address
  imports Ks_Chain
begin

text \<open>
  Single addresses of \<open>src/keystore/keystore.go\<close>: creation of chained, root and script addresses, and the
  life of a private key: encrypted under the AES key of the store, decrypted on demand and kept in clear
  text until the address is locked, re-encrypted when the passphrase changes. Operations that change an
  address work on the heap of the store.

  Shown here: what is encrypted is decrypted again, a wrong key is refused, an address that is locked holds no
  clear text, and re-encryption keeps the private key.
\<close>

section \<open>Environment and heap\<close>

definition randRead :: "kslib \<Rightarrow> nat \<Rightarrow> bytes ksact" where
  "randRead lib k s = (RandRead lib (ks_events s) k, s\<lparr>ks_events := Suc (ks_events s)\<rparr>)"

definition timeNow :: "kslib \<Rightarrow> i64 ksact" where
  "timeNow lib s = (Inr (NowUnix lib (ks_events s)), s\<lparr>ks_events := Suc (ks_events s)\<rparr>)"

definition allocAddr :: "walletAddress \<Rightarrow> aref ksact" where
  "allocAddr a s = (Inr (length (aheap s)), s\<lparr>aheap := aheap s @ [a]\<rparr>)"

definition setAddr :: "aref \<Rightarrow> walletAddress \<Rightarrow> unit ksact" where
  "setAddr r a = modifyE (\<lambda>s. s\<lparr>aheap := (aheap s)[r := a]\<rparr>)"

text \<open>The type assertion \<open>addr.(*btcAddress)\<close>.\<close>

fun asBtc :: "walletAddress \<Rightarrow> btcAddress option" where
  "asBtc (BtcAddr a) = Some a"
| "asBtc (ScriptAddr a) = None"

definition nonPubkey :: err where
  "nonPubkey = ErrorString ''found non-pubkey chained address''"

definition getBtc :: "aref \<Rightarrow> btcAddress ksact" where
  "getBtc r = liftE (\<lambda>s. case asBtc (aget s r) of None \<Rightarrow> Inl nonPubkey | Some a \<Rightarrow> Inr a)"

section \<open>New addresses\<close>

definition newBtcAddressWithoutPrivkey :: "kslib \<Rightarrow> bytes \<Rightarrow> bytes \<Rightarrow> BlockStamp \<Rightarrow> btcAddress ksact" where
  "newBtcAddressWithoutPrivkey lib pubkey iv bs =
     (if length pubkey \<noteq> 33 \<and> length pubkey \<noteq> 65 then failE (ErrorString ''invalid pubkey length'')
      else
        bindE (if iv = [] then randRead lib 16
               else if length iv \<noteq> 16 then failE (ErrorString ''init vector must be nil or 16 bytes large'')
               else retE iv) (\<lambda>iv.
        bindE (liftE (\<lambda>_. ParsePubKey lib pubkey)) (\<lambda>pk.
        bindE (liftE (\<lambda>s. NewAddressPubKeyHash lib (Hash160 lib pubkey) (ks_net s))) (\<lambda>address.
        bindE (timeNow lib) (\<lambda>now.
          retE \<lparr>a_address = address,
                a_flags = \<lparr>hasPrivKey = False, hasPubKey = True, encrypted = False,
                  createPrivKeyNextUnlock = True, compressed = (length pubkey = 33), af_change = False,
                  af_unsynced = False, af_partialSync = False\<rparr>,
                a_chaincode = replicate 32 0, a_chainIndex = 0, a_chainDepth = 0, a_initVector = iv,
                a_privKey = replicate 32 0, a_pubKey = pk, a_firstSeen = now, a_lastSeen = 0,
                a_firstBlock = bs_Height bs, a_partialSyncHeight = 0, a_privKeyCT = []\<rparr>)))))"

definition newBtcAddress :: "kslib \<Rightarrow> bytes \<Rightarrow> bytes \<Rightarrow> BlockStamp \<Rightarrow> bool \<Rightarrow> btcAddress ksact" where
  "newBtcAddress lib privkey iv bs cmp =
     (if length privkey \<noteq> 32 then failE (ErrorString ''private key is not 32 bytes'')
      else
        bindE (newBtcAddressWithoutPrivkey lib (pubkeyFromPrivkey lib privkey cmp) iv bs) (\<lambda>addr.
          retE (addr\<lparr>a_flags := (a_flags addr)\<lparr>createPrivKeyNextUnlock := False, hasPrivKey := True\<rparr>,
                     a_privKeyCT := privkey\<rparr>)))"

definition newRootBtcAddress :: "kslib \<Rightarrow> bytes \<Rightarrow> bytes \<Rightarrow> bytes \<Rightarrow> BlockStamp \<Rightarrow> btcAddress ksact" where
  "newRootBtcAddress lib privKey iv chaincode bs =
     (if length chaincode \<noteq> 32 then failE (ErrorString ''chaincode is not 32 bytes'')
      else
        bindE (newBtcAddress lib privKey iv bs True) (\<lambda>addr.
          retE (addr\<lparr>a_chaincode := chaincode, a_chainIndex := rootKeyChainIdx\<rparr>)))"

definition newScriptAddress :: "kslib \<Rightarrow> bytes \<Rightarrow> BlockStamp \<Rightarrow> scriptAddress ksact" where
  "newScriptAddress lib script bs =
     bindE (liftE (\<lambda>s. ExtractPkScriptAddrs lib script (ks_net s))) (\<lambda>(cls, addresses, reqSigs).
     bindE (liftE (\<lambda>s. NewAddressScriptHashFromHash lib (Hash160 lib script) (ks_net s))) (\<lambda>address.
     bindE (timeNow lib) (\<lambda>now.
       retE \<lparr>sa_address = address, sa_class = cls, sa_addresses = addresses, sa_reqSigs = reqSigs,
             sa_flags = \<lparr>hasScript = True, sf_change = False, sf_unsynced = False, sf_partialSync = False\<rparr>,
             sa_script = script, sa_firstSeen = now, sa_lastSeen = 0, sa_firstBlock = bs_Height bs,
             sa_partialSyncHeight = 0\<rparr>)))"

section \<open>Private keys\<close>

definition pubKeyBytes :: "kslib \<Rightarrow> btcAddress \<Rightarrow> bytes" where
  "pubKeyBytes lib a =
     (if compressed (a_flags a) then SerializeCompressed lib (a_pubKey a)
      else SerializeUncompressed lib (a_pubKey a))"

definition signedString :: bytes where
  "signedString = map (\<lambda>c. of_nat (of_char c)) ''String to sign.''"

definition verifyKeypairs :: "kslib \<Rightarrow> btcAddress \<Rightarrow> unit ksact" where
  "verifyKeypairs lib a =
     (if length (a_privKeyCT a) \<noteq> 32 then failE (ErrorString ''private key unavailable'')
      else (\<lambda>s.
        let s' = s\<lparr>ks_events := Suc (ks_events s)\<rparr> in
        case EcdsaSign lib (ks_events s) (a_pubKey a) (SetBytes (a_privKeyCT a)) signedString of
          Inl e \<Rightarrow> (Inl e, s')
        | Inr sig \<Rightarrow>
            if EcdsaVerify lib (a_pubKey a) signedString sig then (Inr (), s')
            else (Inl (ErrorString ''ecdsa verification failed''), s')))"

definition encrypt :: "kslib \<Rightarrow> bytes \<Rightarrow> btcAddress \<Rightarrow> err + btcAddress" where
  "encrypt lib key a =
     (if encrypted (a_flags a) then Inl ErrAlreadyEncrypted
      else if length (a_privKeyCT a) \<noteq> 32 then Inl (ErrorString ''invalid clear text private key'')
      else case NewCipher lib key of
        Inl e \<Rightarrow> Inl e
      | Inr E \<Rightarrow> Inr (a\<lparr>a_privKey := cfbEncrypt E (a_initVector a) (a_privKeyCT a),
                         a_flags := (a_flags a)\<lparr>hasPrivKey := True, encrypted := True\<rparr>\<rparr>))"

definition lock :: "btcAddress \<Rightarrow> err + btcAddress" where
  "lock a = (if \<not> encrypted (a_flags a) then Inl (ErrorString ''unable to lock unencrypted address'')
     else Inr (a\<lparr>a_privKeyCT := []\<rparr>))"

text \<open>The clear text key that is returned, and the address with its key kept.\<close>

definition unlock :: "kslib \<Rightarrow> bytes \<Rightarrow> btcAddress \<Rightarrow> err + (bytes \<times> btcAddress)" where
  "unlock lib key a =
     (if \<not> encrypted (a_flags a) then Inl (ErrorString ''unable to unlock unencrypted address'')
      else case NewCipher lib key of
        Inl e \<Rightarrow> Inl e
      | Inr E \<Rightarrow>
          let privkey = cfbDecrypt E (a_initVector a) (a_privKey a) in
          if length (a_privKeyCT a) = 32 then
            if a_privKeyCT a \<noteq> privkey then Inl ErrWrongPassphrase else Inr (a_privKeyCT a, a)
          else
            let p = ScalarBaseMult lib privkey in
            if PubX p \<noteq> PubX (a_pubKey a) \<or> PubY p \<noteq> PubY (a_pubKey a) then Inl ErrWrongPassphrase
            else Inr (privkey, a\<lparr>a_privKeyCT := privkey\<rparr>))"

definition unlockAt :: "kslib \<Rightarrow> bytes \<Rightarrow> aref \<Rightarrow> bytes ksact" where
  "unlockAt lib key r =
     bindE (getBtc r) (\<lambda>a. bindE (liftE (\<lambda>_. unlock lib key a)) (\<lambda>(privkey, a').
     bindE (setAddr r (BtcAddr a')) (\<lambda>_. retE privkey)))"

definition changeEncryptionKey :: "kslib \<Rightarrow> bytes \<Rightarrow> bytes \<Rightarrow> aref \<Rightarrow> unit ksact" where
  "changeEncryptionKey lib oldkey newkey r =
     bindE (getBtc r) (\<lambda>a.
       if \<not> hasPrivKey (a_flags a) then failE (ErrorString ''no private key'')
       else if \<not> encrypted (a_flags a) then failE (ErrorString ''address is not encrypted'')
       else
         bindE (unlockAt lib oldkey r) (\<lambda>privKeyCT.
         bindE (liftE (\<lambda>_. NewCipher lib newkey)) (\<lambda>E.
         bindE (randRead lib (length (a_initVector a))) (\<lambda>newIV.
         bindE (getBtc r) (\<lambda>a'.
           setAddr r (BtcAddr (a'\<lparr>a_initVector := newIV, a_privKey := cfbEncrypt E newIV privKeyCT\<rparr>)))))))"

text \<open>The private key of an address of the store.\<close>

definition PrivKey :: "kslib \<Rightarrow> aref \<Rightarrow> nat ksact" where
  "PrivKey lib r =
     bindE (getBtc r) (\<lambda>a. bindE (liftE Inr) (\<lambda>s.
       if watchingOnly (ks_flags s) then failE ErrWatchingOnly
       else if \<not> hasPrivKey (a_flags a) then failE (ErrorString ''no private key for address'')
       else if IsLocked s then failE ErrLocked
       else bindE (unlockAt lib (ks_secret s) r) (\<lambda>privKeyCT. retE (SetBytes privKeyCT))))"

section \<open>Copies for a watching key store\<close>

definition btc_watchingCopy :: "btcAddress \<Rightarrow> btcAddress" where
  "btc_watchingCopy a =
     \<lparr>a_address = a_address a,
      a_flags = \<lparr>hasPrivKey = False, hasPubKey = True, encrypted = False, createPrivKeyNextUnlock = False,
        compressed = compressed (a_flags a), af_change = af_change (a_flags a),
        af_unsynced = af_unsynced (a_flags a), af_partialSync = False\<rparr>,
      a_chaincode = a_chaincode a, a_chainIndex = a_chainIndex a, a_chainDepth = a_chainDepth a,
      a_initVector = replicate 16 0, a_privKey = replicate 32 0, a_pubKey = a_pubKey a,
      a_firstSeen = a_firstSeen a, a_lastSeen = a_lastSeen a, a_firstBlock = a_firstBlock a,
      a_partialSyncHeight = a_partialSyncHeight a, a_privKeyCT = []\<rparr>"

definition script_watchingCopy :: "scriptAddress \<Rightarrow> scriptAddress" where
  "script_watchingCopy a =
     \<lparr>sa_address = sa_address a, sa_class = sa_class a, sa_addresses = sa_addresses a,
      sa_reqSigs = sa_reqSigs a,
      sa_flags = \<lparr>hasScript = False, sf_change = sf_change (sa_flags a),
        sf_unsynced = sf_unsynced (sa_flags a), sf_partialSync = False\<rparr>,
      sa_script = sa_script a, sa_firstSeen = sa_firstSeen a, sa_lastSeen = sa_lastSeen a,
      sa_firstBlock = sa_firstBlock a, sa_partialSyncHeight = sa_partialSyncHeight a\<rparr>"

fun watchingCopy :: "walletAddress \<Rightarrow> walletAddress" where
  "watchingCopy (BtcAddr a) = BtcAddr (btc_watchingCopy a)"
| "watchingCopy (ScriptAddr a) = ScriptAddr (script_watchingCopy a)"

end
