(* ===== verification/Ks_Store.thy ===== *)
theory Ks_Store
  imports Ks_Address
begin

text \<open>
  The operations of the key store of \<open>src/keystore/keystore.go\<close> on its state: creation, locking and unlocking,
  the address chain with its key pool, imports, sync status and recent blocks, and the export of a watching
  copy. Every early return and every panic is a branch; an operation that fails half way leaves the state it
  has made so far.

  Lengths of \<open>uint\<close> parameters are natural numbers. The loop of \<open>createMissingPrivateKeys\<close> has no bound in the
  code; it takes as fuel one more than the number of chained addresses, which is shown to be enough. The loops
  of \<open>computeKdfParameters\<close> wait for the clock; after 64 rounds the doubled counters are zero and the model
  gives up with \<open>Diverges\<close>.
\<close>

section \<open>Key derivation parameters\<close>

primrec kdfMemLoop :: "kslib \<Rightarrow> nat \<Rightarrow> u64 \<Rightarrow> bytes \<Rightarrow> bytes \<Rightarrow> nat \<Rightarrow> nat \<Rightarrow> u64 \<Rightarrow> u64 ksact" where
  "kdfMemLoop lib target maxMem testKey salt 0 approx mem = failE Diverges"
| "kdfMemLoop lib target maxMem testKey salt (Suc k) approx mem =
     (if approx \<le> target div 4 \<and> mem < maxMem then
        bindE (liftE (\<lambda>_. keyOneIter lib testKey salt (mem * 2))) (\<lambda>_. \<lambda>s.
          kdfMemLoop lib target maxMem testKey salt k (Elapsed lib (ks_events s)) (mem * 2)
            (s\<lparr>ks_events := Suc (ks_events s)\<rparr>))
      else retE mem)"

primrec kdfIterLoop :: "kslib \<Rightarrow> bytes \<Rightarrow> bytes \<Rightarrow> u64 \<Rightarrow> nat \<Rightarrow> nat \<Rightarrow> u32 \<Rightarrow> u32 ksact" where
  "kdfIterLoop lib testKey salt mem 0 allIters nIter = failE Diverges"
| "kdfIterLoop lib testKey salt mem (Suc k) allIters nIter =
     (if allIters < 20000000 then
        bindE (forE (\<lambda>_. bindE (liftE (\<lambda>_. keyOneIter lib testKey salt mem)) (\<lambda>_. retE ()))
          [0..<unat (nIter * 2)]) (\<lambda>_. \<lambda>s.
          kdfIterLoop lib testKey salt mem k (Elapsed lib (ks_events s)) (nIter * 2)
            (s\<lparr>ks_events := Suc (ks_events s)\<rparr>))
      else retE nIter)"

definition testKey :: bytes where
  "testKey = map (\<lambda>c. of_nat (of_char c)) ''This is an example key to test KDF iteration speed''"

definition computeKdfParameters :: "kslib \<Rightarrow> nat \<Rightarrow> u64 \<Rightarrow> kdfParameters ksact" where
  "computeKdfParameters lib target maxMem =
     bindE (randRead lib 32) (\<lambda>salt.
     bindE (kdfMemLoop lib target maxMem testKey salt 64 0 1024) (\<lambda>mem.
     bindE (kdfIterLoop lib testKey salt mem 64 0 1) (\<lambda>nIter.
       retE \<lparr>kdf_mem = mem, kdf_nIter = nIter, kdf_salt = salt\<rparr>)))"

section \<open>The address chain\<close>

definition addAddr :: "walletAddress \<Rightarrow> aref ksact" where
  "addAddr a = bindE (allocAddr a) (\<lambda>r.
     bindE (modifyE (\<lambda>s. s\<lparr>addrMap := AList.update (ScriptAddress (wa_Address a)) r (addrMap s)\<rparr>)) (\<lambda>_. retE r))"

definition addChained :: "btcAddress \<Rightarrow> aref ksact" where
  "addChained a = bindE (addAddr (BtcAddr a)) (\<lambda>r.
     bindE (modifyE (\<lambda>s. s\<lparr>chainIdxMap := AList.update (a_chainIndex a) (a_address a) (chainIdxMap s),
       lastChainIdx := lastChainIdx s + 1\<rparr>)) (\<lambda>_. retE r))"

definition lastChained :: "aref ksact" where
  "lastChained =
     bindE (liftE (\<lambda>s. getAddressKey (map_of (chainIdxMap s) (lastChainIdx s)))) (\<lambda>k.
       liftE (\<lambda>s. case map_of (addrMap s) k of
         None \<Rightarrow> Inl (ErrorString ''expected last chained address not found'')
       | Some r \<Rightarrow> Inr r))"

primrec extendLoop :: "kslib \<Rightarrow> BlockStamp \<Rightarrow> bytes \<Rightarrow> nat \<Rightarrow> bytes \<Rightarrow> aref \<Rightarrow> unit ksact" where
  "extendLoop lib bs cc 0 privkey r = retE ()"
| "extendLoop lib bs cc (Suc n) privkey r =
     bindE (getBtc r) (\<lambda>addr.
     bindE (liftE (\<lambda>_. ChainedPrivKey lib privkey (pubKeyBytes lib addr) cc)) (\<lambda>privkey'.
     bindE (newBtcAddress lib privkey' [] bs True) (\<lambda>newaddr.
     bindE (verifyKeypairs lib newaddr) (\<lambda>_.
     bindE (liftE (\<lambda>s. encrypt lib (ks_secret s) newaddr)) (\<lambda>newaddr'.
     bindE (addChained (newaddr'\<lparr>a_chainIndex := a_chainIndex addr + 1, a_chaincode := cc\<rparr>)) (\<lambda>r'.
       extendLoop lib bs cc n privkey' r'))))))"

definition extendKeypool :: "kslib \<Rightarrow> nat \<Rightarrow> BlockStamp \<Rightarrow> unit ksact" where
  "extendKeypool lib n bs =
     bindE lastChained (\<lambda>r. bindE (liftE Inr) (\<lambda>s.
       if IsLocked s then failE ErrLocked
       else
         bindE (getBtc r) (\<lambda>addr.
         bindE (unlockAt lib (ks_secret s) r) (\<lambda>privkey.
           extendLoop lib bs (a_chaincode addr) n privkey r))))"

definition extendLockedWallet :: "kslib \<Rightarrow> BlockStamp \<Rightarrow> unit ksact" where
  "extendLockedWallet lib bs =
     bindE lastChained (\<lambda>r. bindE (getBtc r) (\<lambda>addr.
     bindE (liftE (\<lambda>_. ChainedPubKey lib (pubKeyBytes lib addr) (a_chaincode addr))) (\<lambda>nextPubkey.
     bindE (newBtcAddressWithoutPrivkey lib nextPubkey [] bs) (\<lambda>newaddr.
     bindE (addChained (newaddr\<lparr>a_chainIndex := a_chainIndex addr + 1, a_chaincode := a_chaincode addr\<rparr>)) (\<lambda>_.
       modifyE (\<lambda>s. if missingKeysStart s = 0 then s\<lparr>missingKeysStart := a_chainIndex addr + 1\<rparr> else s))))))"

text \<open>A lookup in \<open>addrMap\<close> whose result goes into a type assertion: a missing entry is the nil interface and
  fails the assertion.\<close>

definition chainedBtc :: "Address \<Rightarrow> aref ksact" where
  "chainedBtc apkh = liftE (\<lambda>s. case map_of (addrMap s) (ScriptAddress apkh) of
     None \<Rightarrow> Inl nonPubkey
   | Some r \<Rightarrow> (case asBtc (aget s r) of None \<Rightarrow> Inl nonPubkey | Some a \<Rightarrow> Inr r))"

definition setMissingKey :: "kslib \<Rightarrow> bytes \<Rightarrow> aref \<Rightarrow> unit ksact" where
  "setMissingKey lib privkey r =
     bindE (getBtc r) (\<lambda>a0.
       let a = a0\<lparr>a_privKeyCT := privkey\<rparr>;
           fin = (\<lambda>b. setAddr r (BtcAddr (b\<lparr>a_flags := (a_flags b)\<lparr>createPrivKeyNextUnlock := False\<rparr>\<rparr>))) in
       bindE (setAddr r (BtcAddr a)) (\<lambda>_. bindE (liftE Inr) (\<lambda>s.
         (case encrypt lib (ks_secret s) a of
            Inl e \<Rightarrow>
              if e \<noteq> ErrAlreadyEncrypted \<or> \<not> version_LT (ks_vers s) VersUnsetNeedsPrivkeyFlag then failE e
              else fin a
          | Inr a' \<Rightarrow> fin a'))))"

primrec missingLoop :: "kslib \<Rightarrow> nat \<Rightarrow> i64 \<Rightarrow> bytes \<Rightarrow> aref \<Rightarrow> unit ksact" where
  "missingLoop lib 0 i prevPrivKey prev = failE Diverges"
| "missingLoop lib (Suc fuel) i prevPrivKey prev =
     bindE (getBtc prev) (\<lambda>prevAddr.
     bindE (liftE (\<lambda>_. ChainedPrivKey lib prevPrivKey (pubKeyBytes lib prevAddr) (a_chaincode prevAddr)))
       (\<lambda>ithPrivKey.
     bindE (liftE (\<lambda>s. Inr (map_of (chainIdxMap s) i))) (\<lambda>found.
       (case found of
          None \<Rightarrow> retE ()
        | Some apkh \<Rightarrow>
            bindE (chainedBtc apkh) (\<lambda>r.
            bindE (setMissingKey lib ithPrivKey r) (\<lambda>_.
              missingLoop lib fuel (i + 1) ithPrivKey r))))))"

definition createMissingPrivateKeys :: "kslib \<Rightarrow> unit ksact" where
  "createMissingPrivateKeys lib s =
     (let idx = missingKeysStart s in
      if idx = 0 then (Inr (), s)
      else case map_of (chainIdxMap s) (idx - 1) of
        None \<Rightarrow> (Inl (ErrorString ''missing previous chained address''), s)
      | Some apkh \<Rightarrow>
          if IsLocked s then (Inl ErrLocked, s)
          else
            bindE (chainedBtc apkh) (\<lambda>prev.
            bindE (unlockAt lib (ks_secret s) prev) (\<lambda>prevPrivKey.
            bindE (missingLoop lib (Suc (length (chainIdxMap s))) idx prevPrivKey prev) (\<lambda>_.
              modifyE (\<lambda>s. s\<lparr>missingKeysStart := 0\<rparr>)))) s)"

definition nextChainedAddress :: "kslib \<Rightarrow> BlockStamp \<Rightarrow> nat \<Rightarrow> aref ksact" where
  "nextChainedAddress lib bs keypoolSize =
     bindE (\<lambda>s. case map_of (chainIdxMap s) (ks_highestUsed s + 1) of
         Some a \<Rightarrow> (Inr a, s)
       | None \<Rightarrow>
           bindE (if IsLocked s then extendLockedWallet lib bs else extendKeypool lib keypoolSize bs) (\<lambda>_.
             liftE (\<lambda>s. case map_of (chainIdxMap s) (ks_highestUsed s + 1) of
               None \<Rightarrow> Inl (ErrorString ''chain index map inproperly updated'')
             | Some a \<Rightarrow> Inr a)) s) (\<lambda>nextAPKH.
     bindE (liftE (\<lambda>s. case map_of (addrMap s) (ScriptAddress nextAPKH) of
         None \<Rightarrow> Inl (ErrorString ''cannot find generated address'')
       | Some r \<Rightarrow> Inr r)) (\<lambda>r.
     bindE (getBtc r) (\<lambda>_.
     bindE (modifyE (\<lambda>s. s\<lparr>ks_highestUsed := ks_highestUsed s + 1\<rparr>)) (\<lambda>_. retE r))))"

definition NextChainedAddress :: "kslib \<Rightarrow> BlockStamp \<Rightarrow> nat \<Rightarrow> Address ksact" where
  "NextChainedAddress lib bs keypoolSize =
     bindE (nextChainedAddress lib bs keypoolSize) (\<lambda>r. liftE (\<lambda>s. Inr (wa_Address (aget s r))))"

definition ChangeAddress :: "kslib \<Rightarrow> BlockStamp \<Rightarrow> nat \<Rightarrow> Address ksact" where
  "ChangeAddress lib bs keypoolSize =
     bindE (nextChainedAddress lib bs keypoolSize) (\<lambda>r. bindE (getBtc r) (\<lambda>a.
     bindE (setAddr r (BtcAddr (a\<lparr>a_flags := (a_flags a)\<lparr>af_change := True\<rparr>\<rparr>))) (\<lambda>_.
       retE (a_address a))))"

definition LastChainedAddress :: "KStore \<Rightarrow> Address option" where
  "LastChainedAddress s = map_of (chainIdxMap s) (ks_highestUsed s)"

definition ExtendActiveAddresses :: "kslib \<Rightarrow> i64 \<Rightarrow> nat \<Rightarrow> Address list ksact" where
  "ExtendActiveAddresses lib n keypoolSize =
     (if n \<le>s 0 then failE (ErrorString ''n is not positive'')
      else
        bindE (liftE (\<lambda>s. getAddressKey (map_of (chainIdxMap s) (ks_highestUsed s)))) (\<lambda>k.
        bindE (liftE (\<lambda>s. case map_of (addrMap s) k of
            None \<Rightarrow> Inl nil_panic
          | Some r \<Rightarrow> Inr \<lparr>bs_Height = wa_FirstBlock (aget s r), bs_Hash = 0\<rparr>)) (\<lambda>bs.
          repE (unat n) (NextChainedAddress lib bs keypoolSize))))"

end
