(* ===== verification/Ks_Ops.thy ===== *)
theory Ks_Ops
  imports Ks_Store
begin

text \<open>
  The remaining operations of the key store of \<open>src/keystore/keystore.go\<close>: the passphrase, lookups, the sync
  status with the ring of recent blocks, imports, the export of a watching copy and the creation of a store.
\<close>

section \<open>Locking\<close>

definition Unlock :: "kslib \<Rightarrow> bytes \<Rightarrow> unit ksact" where
  "Unlock lib passphrase s =
     (if watchingOnly (ks_flags s) then (Inl ErrWatchingOnly, s)
      else
        bindE (liftE (\<lambda>s. Key lib passphrase (ks_kdfParams s))) (\<lambda>key.
        bindE (unlockAt lib key keyGenerator) (\<lambda>_.
        bindE (modifyE (\<lambda>s. s\<lparr>ks_passphrase := passphrase, ks_secret := key\<rparr>)) (\<lambda>_.
          createMissingPrivateKeys lib))) s)"

text \<open>\<open>if baddr, ok := addr.(*btcAddress); ok { _ = baddr.lock() }\<close>\<close>

definition lockAddr :: "aref \<Rightarrow> KStore \<Rightarrow> KStore" where
  "lockAddr r s = (case asBtc (aget s r) of
     None \<Rightarrow> s
   | Some a \<Rightarrow> (case lock a of Inl e \<Rightarrow> s | Inr a' \<Rightarrow> s\<lparr>aheap := (aheap s)[r := BtcAddr a']\<rparr>))"

definition lockAddrs :: "KStore \<Rightarrow> KStore" where
  "lockAddrs s = fold (\<lambda>e. lockAddr (snd e)) (addrMap s) s"

definition Lock :: "unit ksact" where
  "Lock s =
     (if watchingOnly (ks_flags s) then (Inl ErrWatchingOnly, s)
      else if IsLocked s then (Inl ErrLocked, lockAddrs s)
      else (Inr (), lockAddrs (s\<lparr>ks_passphrase := [], ks_secret := []\<rparr>)))"

definition Passphrase :: "KStore \<Rightarrow> err + bytes" where
  "Passphrase s = (if length (ks_passphrase s) \<noteq> 0 then Inr (ks_passphrase s) else Inl ErrLocked)"

definition changeAddrKey :: "kslib \<Rightarrow> bytes \<Rightarrow> bytes \<Rightarrow> addressKey \<times> aref \<Rightarrow> unit ksact" where
  "changeAddrKey lib oldkey newkey e =
     bindE (liftE (\<lambda>s. Inr (asBtc (aget s (snd e))))) (\<lambda>a.
       if a = None then retE () else changeEncryptionKey lib oldkey newkey (snd e))"

definition ChangePassphrase :: "kslib \<Rightarrow> bytes \<Rightarrow> unit ksact" where
  "ChangePassphrase lib new s =
     (if watchingOnly (ks_flags s) then (Inl ErrWatchingOnly, s)
      else if IsLocked s then (Inl ErrLocked, s)
      else
        bindE (liftE (\<lambda>s. Key lib new (ks_kdfParams s))) (\<lambda>newkey.
        bindE (forE (changeAddrKey lib (ks_secret s) newkey) (addrMap s)) (\<lambda>_.
          modifyE (\<lambda>s. s\<lparr>ks_passphrase := new, ks_secret := newkey\<rparr>))) s)"

section \<open>Lookups and sync status\<close>

definition Address_lookup :: "KStore \<Rightarrow> Address \<Rightarrow> err + aref" where
  "Address_lookup s a = (case map_of (addrMap s) (ScriptAddress a) of
     None \<Rightarrow> Inl ErrAddressNotFound
   | Some r \<Rightarrow> Inr r)"

definition SetSyncStatus :: "Address \<Rightarrow> SyncStatus \<Rightarrow> unit ksact" where
  "SetSyncStatus a ss =
     bindE (liftE (\<lambda>s. Address_lookup s a)) (\<lambda>r.
       modifyE (\<lambda>s. s\<lparr>aheap := (aheap s)[r := setSyncStatus ss (aget s r)]\<rparr>))"

definition pushRecent :: "256 word \<Rightarrow> 256 word list \<Rightarrow> 256 word list" where
  "pushRecent h hs = (if length hs = 20 then tl hs @ [h] else hs @ [h])"

definition recent_SetSyncedWith :: "BlockStamp \<Rightarrow> recentBlocks \<Rightarrow> recentBlocks" where
  "recent_SetSyncedWith bs rb =
     (let maybeIdx = int (length (rb_hashes rb)) - 1 - sint (rb_lastHeight rb - bs_Height bs) in
      if bs_Height bs <s rb_lastHeight rb \<and> 0 \<le> maybeIdx \<and> maybeIdx < int (length (rb_hashes rb)) \<and>
         rb_hashes rb ! nat maybeIdx = bs_Hash bs
      then \<lparr>rb_hashes = take (nat maybeIdx) (rb_hashes rb), rb_lastHeight = bs_Height bs\<rparr>
      else
        let hashes = (if bs_Height bs <s rb_lastHeight rb then [] else rb_hashes rb);
            hashes = (if bs_Height bs \<noteq> rb_lastHeight rb + 1 then [] else hashes) in
        \<lparr>rb_hashes = pushRecent (bs_Hash bs) hashes, rb_lastHeight = bs_Height bs\<rparr>)"

definition SetSyncedWith :: "BlockStamp option \<Rightarrow> KStore \<Rightarrow> KStore" where
  "SetSyncedWith bs s = (case bs of
     None \<Rightarrow>
       let fb = wa_FirstBlock (aget s keyGenerator) in
       s\<lparr>ks_recent := \<lparr>rb_hashes = [], rb_lastHeight = fb\<rparr>,
         aheap := (aheap s)[keyGenerator := setSyncStatus (Unsynced fb) (aget s keyGenerator)]\<rparr>
   | Some b \<Rightarrow> s\<lparr>ks_recent := recent_SetSyncedWith b (ks_recent s)\<rparr>)"

text \<open>The loop over all addresses with its \<open>break\<close> at height 0.\<close>

fun syncLoop :: "SyncStatus list \<Rightarrow> i32 \<Rightarrow> i32" where
  "syncLoop [] height = height"
| "syncLoop (FullSync # ss) height = syncLoop ss height"
| "syncLoop (Unsynced h # ss) height =
     (if h <s height then (if h = 0 then h else syncLoop ss h) else syncLoop ss height)"
| "syncLoop (PartialSync h # ss) height =
     (if h <s height then (if h = 0 then h else syncLoop ss h) else syncLoop ss height)"

definition SyncHeight :: "KStore \<Rightarrow> i32" where
  "SyncHeight s =
     (let last = rb_lastHeight (ks_recent s);
          height = (case wa_SyncStatus (aget s keyGenerator) of
              PartialSync h \<Rightarrow> if last <s h then h else last
            | _ \<Rightarrow> last) in
      syncLoop (map (\<lambda>e. wa_SyncStatus (aget s (snd e))) (addrMap s)) height)"

text \<open>Iterators over the recent blocks hold a position; the blocks are read from the store.\<close>

definition NewIterator :: "recentBlocks \<Rightarrow> int option" where
  "NewIterator rb =
     (if rb_lastHeight rb = - 1 \<or> rb_hashes rb = [] then None else Some (int (length (rb_hashes rb)) - 1))"

definition iter_Next :: "recentBlocks \<Rightarrow> int \<Rightarrow> bool \<times> int" where
  "iter_Next rb i = (if int (length (rb_hashes rb)) \<le> i + 1 then (False, i) else (True, i + 1))"

definition iter_Prev :: "recentBlocks \<Rightarrow> int \<Rightarrow> bool \<times> int" where
  "iter_Prev rb i = (if i - 1 < 0 then (False, i) else (True, i - 1))"

definition iter_BlockStamp :: "recentBlocks \<Rightarrow> int \<Rightarrow> err + BlockStamp" where
  "iter_BlockStamp rb i =
     (if 0 \<le> i \<and> i < int (length (rb_hashes rb)) then
        Inr \<lparr>bs_Height = rb_lastHeight rb - of_int (int (length (rb_hashes rb)) - 1 - i),
             bs_Hash = rb_hashes rb ! nat i\<rparr>
      else Inl index_panic)"

section \<open>Active addresses\<close>

definition activeIdxs :: "KStore \<Rightarrow> i64 list" where
  "activeIdxs s = map of_int [-1 .. sint (ks_highestUsed s)]"

definition SortedActiveAddresses :: "KStore \<Rightarrow> err + aref list" where
  "SortedActiveAddresses s =
     map_sum id (\<lambda>rs. concat rs @ importedAddrs s)
       (mapE (\<lambda>i. case getAddressKey (map_of (chainIdxMap s) i) of
          Inl e \<Rightarrow> Inl e
        | Inr k \<Rightarrow> (case map_of (addrMap s) k of None \<Rightarrow> Inr [] | Some r \<Rightarrow> Inr [r])) (activeIdxs s))"

definition ActiveAddresses :: "KStore \<Rightarrow> err + (Address, aref) gomap" where
  "ActiveAddresses s =
     map_sum id (\<lambda>rs. fold (\<lambda>r. AList.update (wa_Address (aget s r)) r) (rs @ importedAddrs s) [])
       (mapE (\<lambda>i. case getAddressKey (map_of (chainIdxMap s) i) of
          Inl e \<Rightarrow> Inl e
        | Inr k \<Rightarrow> (case map_of (addrMap s) k of None \<Rightarrow> Inl nil_panic | Some r \<Rightarrow> Inr r)) (activeIdxs s))"

section \<open>Imports\<close>

text \<open>Of a \<open>btcutil.WIF\<close> the code reads the serialized public key, the serialized private key and the format.\<close>

record WIF =
  wif_SerializePubKey :: bytes
  wif_PrivKey :: bytes
  wif_CompressPubKey :: bool

definition behind :: "BlockStamp \<Rightarrow> KStore \<Rightarrow> bool" where
  "behind bs s \<longleftrightarrow> length (rb_hashes (ks_recent s)) \<noteq> 0 \<and> bs_Height bs <s rb_lastHeight (ks_recent s)"

definition addImported :: "walletAddress \<Rightarrow> Address ksact" where
  "addImported a = bindE (addAddr a) (\<lambda>r.
     bindE (modifyE (\<lambda>s. s\<lparr>importedAddrs := importedAddrs s @ [r]\<rparr>)) (\<lambda>_. retE (wa_Address a)))"

definition ImportPrivateKey :: "kslib \<Rightarrow> WIF \<Rightarrow> BlockStamp \<Rightarrow> Address ksact" where
  "ImportPrivateKey lib wif bs s =
     (if watchingOnly (ks_flags s) then (Inl ErrWatchingOnly, s)
      else if map_of (addrMap s) (Hash160 lib (wif_SerializePubKey wif)) \<noteq> None then (Inl ErrDuplicate, s)
      else if IsLocked s then (Inl ErrLocked, s)
      else
        bindE (newBtcAddress lib (wif_PrivKey wif) [] bs (wif_CompressPubKey wif)) (\<lambda>btcaddr.
        bindE (liftE (\<lambda>s. Inr (btcaddr\<lparr>a_chainIndex := importedKeyChainIdx,
            a_flags := (if behind bs s then (a_flags btcaddr)\<lparr>af_unsynced := True\<rparr> else a_flags btcaddr)\<rparr>)))
          (\<lambda>a.
        bindE (liftE (\<lambda>s. encrypt lib (ks_secret s) a)) (\<lambda>a'. addImported (BtcAddr a')))) s)"

definition ImportScript :: "kslib \<Rightarrow> bytes \<Rightarrow> BlockStamp \<Rightarrow> Address ksact" where
  "ImportScript lib script bs s =
     (if watchingOnly (ks_flags s) then (Inl ErrWatchingOnly, s)
      else if map_of (addrMap s) (Hash160 lib script) \<noteq> None then (Inl ErrDuplicate, s)
      else
        bindE (newScriptAddress lib script bs) (\<lambda>scriptaddr.
        bindE (liftE (\<lambda>s. Inr (scriptaddr\<lparr>
            sa_flags := (if behind bs s then (sa_flags scriptaddr)\<lparr>sf_unsynced := True\<rparr> else sa_flags scriptaddr)\<rparr>)))
          (\<lambda>a. addImported (ScriptAddr a))) s)"

section \<open>Watching copies\<close>

definition zeroKdf :: kdfParameters where
  "zeroKdf = \<lparr>kdf_mem = 0, kdf_nIter = 0, kdf_salt = replicate 32 0\<rparr>"

text \<open>Every entry of the maps and of the imported addresses gets its own copy.\<close>

definition copyEntry :: "KStore \<Rightarrow> addressKey \<times> aref \<Rightarrow> KStore \<Rightarrow> KStore" where
  "copyEntry s e ws =
     (let a = aget s (snd e); r = length (aheap ws);
          cm = (case a of
              BtcAddr b \<Rightarrow> if wa_Imported a then chainIdxMap ws
                else AList.update (a_chainIndex b) (a_address b) (chainIdxMap ws)
            | ScriptAddr _ \<Rightarrow> chainIdxMap ws) in
      ws\<lparr>chainIdxMap := cm, aheap := aheap ws @ [watchingCopy a],
         addrMap := AList.update (fst e) r (addrMap ws)\<rparr>)"

definition copyImported :: "KStore \<Rightarrow> aref \<Rightarrow> KStore \<Rightarrow> KStore" where
  "copyImported s r ws =
     ws\<lparr>importedAddrs := importedAddrs ws @ [length (aheap ws)], aheap := aheap ws @ [watchingCopy (aget s r)]\<rparr>"

definition watchingBase :: "KStore \<Rightarrow> KStore" where
  "watchingBase s =
     \<lparr>ks_vers = ks_vers s, ks_net = ks_net s, ks_flags = \<lparr>useEncryption = False, watchingOnly = True\<rparr>,
      ks_createDate = ks_createDate s, ks_name = ks_name s, ks_desc = ks_desc s,
      ks_highestUsed = ks_highestUsed s, ks_kdfParams = zeroKdf, ks_recent = ks_recent s,
      addrMap = [], addrCommentMap = addrCommentMap s, txCommentMap = [], ks_passphrase = [], ks_secret = [],
      chainIdxMap = [], importedAddrs = [], lastChainIdx = lastChainIdx s, missingKeysStart = 0,
      aheap = [watchingCopy (aget s keyGenerator)], ks_events = ks_events s\<rparr>"

definition ExportWatchingWallet :: "KStore \<Rightarrow> err + KStore" where
  "ExportWatchingWallet s =
     (if watchingOnly (ks_flags s) then Inl ErrWatchingOnly
      else Inr (fold (copyImported s) (importedAddrs s) (fold (copyEntry s) (addrMap s) (watchingBase s))))"

section \<open>Creation\<close>

definition zeroName :: "nat \<Rightarrow> bytes \<Rightarrow> bytes" where
  "zeroName k b = b @ replicate (k - length b) 0"

definition newBase :: "bytes \<Rightarrow> bytes \<Rightarrow> netParams \<Rightarrow> BlockStamp \<Rightarrow> kdfParameters \<Rightarrow> bytes \<Rightarrow> i64 \<Rightarrow> nat \<Rightarrow> KStore" where
  "newBase name desc net createdAt kdfp aeskey now events =
     \<lparr>ks_vers = VersCurrent, ks_net = net, ks_flags = \<lparr>useEncryption = True, watchingOnly = False\<rparr>,
      ks_createDate = now, ks_name = zeroName 32 name, ks_desc = zeroName 256 desc,
      ks_highestUsed = rootKeyChainIdx, ks_kdfParams = kdfp,
      ks_recent = \<lparr>rb_hashes = [bs_Hash createdAt], rb_lastHeight = bs_Height createdAt\<rparr>,
      addrMap = [], addrCommentMap = [], txCommentMap = [], ks_passphrase = [], ks_secret = aeskey,
      chainIdxMap = [], importedAddrs = [], lastChainIdx = rootKeyChainIdx, missingKeysStart = 0,
      aheap = [], ks_events = events\<rparr>"

text \<open>The root address becomes the field \<open>keyGenerator\<close>, the first address of the heap.\<close>

definition installRoot :: "btcAddress \<Rightarrow> KStore \<Rightarrow> KStore" where
  "installRoot root s =
     s\<lparr>aheap := [BtcAddr root],
       addrMap := AList.update (ScriptAddress (a_address root)) keyGenerator (addrMap s),
       chainIdxMap := AList.update rootKeyChainIdx (a_address root) (chainIdxMap s)\<rparr>"

definition NewStore :: "kslib \<Rightarrow> bytes \<Rightarrow> bytes \<Rightarrow> bytes \<Rightarrow> netParams \<Rightarrow> BlockStamp \<Rightarrow> nat \<Rightarrow> nat \<Rightarrow> err + KStore" where
  "NewStore lib name desc passphrase net createdAt keypoolSize events =
     (if length name > 32 then Inl (ErrorString ''name exceeds 32 byte maximum size'')
      else if length desc > 256 then Inl (ErrorString ''desc exceeds 256 byte maximum size'')
      else
        case bindE (randRead lib 32) (\<lambda>rootkey.
          bindE (randRead lib 32) (\<lambda>chaincode.
          bindE (computeKdfParameters lib 250000000 (32 * 1024 * 1024)) (\<lambda>kdfp.
          bindE (liftE (\<lambda>_. Key lib passphrase kdfp)) (\<lambda>aeskey.
          bindE (timeNow lib) (\<lambda>now.
          bindE (modifyE (\<lambda>s. newBase name desc net createdAt kdfp aeskey now (ks_events s))) (\<lambda>_.
          bindE (newRootBtcAddress lib rootkey [] chaincode createdAt) (\<lambda>root.
          bindE (verifyKeypairs lib root) (\<lambda>_.
          bindE (liftE (\<lambda>_. encrypt lib aeskey root)) (\<lambda>root'.
          bindE (modifyE (installRoot root')) (\<lambda>_.
          bindE (extendKeypool lib keypoolSize createdAt) (\<lambda>_. Lock)))))))))))
          (newBase [] [] net createdAt zeroKdf [] 0 events) of
        (Inl e, s) \<Rightarrow> Inl e
      | (Inr _, s) \<Rightarrow> Inr s)"

end
