(* ===== verification/Go_Into.thy ===== *)
theory Go_Into
  imports Go_IO
begin

text \<open>
  Readers that fill a value in place. A \<open>ReadFrom\<close> method of Go reads into its receiver field by field and leaves
  what it has read so far when it fails; a struct is read by a loop over pointers to its fields. Such a reader runs
  on the input together with the value it fills; \<open>into\<close> reads one field, \<open>inside\<close> runs the reader of a nested
  struct on its place in the outer one, and \<open>withLocals\<close> adds the local variables of the method.

  \<open>fills m bs x y\<close> is the contract: on input that begins with \<open>bs\<close> the reader turns \<open>x\<close> into \<open>y\<close> and consumes
  exactly \<open>bs\<close>; on a proper prefix of \<open>bs\<close> it fails with \<open>EOF\<close> or \<open>ErrUnexpectedEOF\<close> at the end of the input.
  The code of the key store does not turn \<open>EOF\<close> into \<open>ErrUnexpectedEOF\<close> inside a struct, so which of the two it
  is depends on where the input is cut.
\<close>

type_synonym 'x into = "(rstate \<times> 'x, err, unit) act"

definition into :: "'a rd \<Rightarrow> ('a \<Rightarrow> 'x \<Rightarrow> 'x) \<Rightarrow> 'x into" where
  "into m put s = (case m (fst s) of
     (Inl e, r) \<Rightarrow> (Inl e, (r, snd s))
   | (Inr a, r) \<Rightarrow> (Inr (), (r, put a (snd s))))"

definition inside :: "('x \<Rightarrow> 'y) \<Rightarrow> ('y \<Rightarrow> 'x \<Rightarrow> 'x) \<Rightarrow> 'y into \<Rightarrow> 'x into" where
  "inside get put m s = (case m (fst s, get (snd s)) of (res, (r, y)) \<Rightarrow> (res, (r, put y (snd s))))"

definition withLocals :: "'l \<Rightarrow> ('x \<times> 'l) into \<Rightarrow> 'x into" where
  "withLocals l m s = (case m (fst s, (snd s, l)) of (res, (r, (x, l'))) \<Rightarrow> (res, (r, x)))"

text \<open>A step that inspects and changes the value without reading.\<close>

definition pureStep :: "('x \<Rightarrow> err + 'x) \<Rightarrow> 'x into" where
  "pureStep f s = (case f (snd s) of Inl e \<Rightarrow> (Inl e, s) | Inr x \<Rightarrow> (Inr (), (fst s, x)))"

text \<open>\<open>for _, data := range datas { ... }\<close>\<close>

abbreviation steps :: "('s, err, unit) act list \<Rightarrow> ('s, err, unit) act" where
  "steps \<equiv> forE (\<lambda>m. m)"

text \<open>A value that is read in place starting from a fresh one.\<close>

definition fresh :: "'x \<Rightarrow> 'x into \<Rightarrow> 'x rd" where
  "fresh x m r = (case m (r, x) of (Inl e, (r', y)) \<Rightarrow> (Inl e, r') | (Inr u, (r', y)) \<Rightarrow> (Inr y, r'))"

section \<open>The contract\<close>

definition short :: "err \<Rightarrow> bool" where
  "short e \<longleftrightarrow> e = EOF \<or> e = ErrUnexpectedEOF"

definition fills :: "'x into \<Rightarrow> byte list \<Rightarrow> 'x \<Rightarrow> 'x \<Rightarrow> bool" where
  "fills m bs x y \<longleftrightarrow> (\<forall>rest n. m ((bs @ rest, n), x) = (Inr (), ((rest, n + length bs), y))) \<and>
     (\<forall>p n. strict_prefix p bs \<longrightarrow> (\<exists>e z. m ((p, n), x) = (Inl e, (([], n + length p), z)) \<and> short e))"

definition gets :: "'a rd \<Rightarrow> byte list \<Rightarrow> 'a \<Rightarrow> bool" where
  "gets m bs a \<longleftrightarrow> (\<forall>rest n. m (bs @ rest, n) = (Inr a, (rest, n + length bs))) \<and>
     (\<forall>p n. strict_prefix p bs \<longrightarrow> (\<exists>e. m (p, n) = (Inl e, ([], n + length p)) \<and> short e))"

lemma fillsD: "fills m bs x y \<Longrightarrow> m ((bs @ rest, n), x) = (Inr (), ((rest, n + length bs), y))"
  by (simp add: fills_def)

lemma fillsE:
  assumes "fills m bs x y" and "strict_prefix p bs"
  obtains e z where "m ((p, n), x) = (Inl e, (([], n + length p), z))" and "short e"
  using assms unfolding fills_def by blast

lemma getsD: "gets m bs a \<Longrightarrow> m (bs @ rest, n) = (Inr a, (rest, n + length bs))"
  by (simp add: gets_def)

lemma getsE:
  assumes "gets m bs a" and "strict_prefix p bs"
  obtains e where "m (p, n) = (Inl e, ([], n + length p))" and "short e"
  using assms unfolding gets_def by blast

lemma fillsI:
  assumes "\<And>rest n. m ((bs @ rest, n), x) = (Inr (), ((rest, n + length bs), y))"
    and "\<And>p n. strict_prefix p bs \<Longrightarrow> \<exists>e z. m ((p, n), x) = (Inl e, (([], n + length p), z)) \<and> short e"
  shows "fills m bs x y"
  using assms by (simp add: fills_def)

lemma getsI:
  assumes "\<And>rest n. m (bs @ rest, n) = (Inr a, (rest, n + length bs))"
    and "\<And>p n. strict_prefix p bs \<Longrightarrow> \<exists>e. m (p, n) = (Inl e, ([], n + length p)) \<and> short e"
  shows "gets m bs a"
  using assms by (simp add: gets_def)

named_theorems fillers \<open>rules for \<open>fills\<close> and \<open>gets\<close>\<close>

lemma gets_reads: "reads m bs a \<Longrightarrow> gets m bs a"
  by (auto simp: reads_def gets_def short_def)

lemma gets_words [fillers]:
  "gets readU32 (le_bytes 4 w) w" "gets readU64 (le_bytes 8 v) v" "gets readHash (le_bytes 32 h) h" "gets readByte [b] b"
  by (intro gets_reads reads_words reads_byte)+

lemma gets_ReadFull: "length bs = k \<Longrightarrow> gets (ReadFull k) bs bs"
  by (intro gets_reads reads_ReadFull)

lemma gets_map: "gets m bs a \<Longrightarrow> gets (bindE m (\<lambda>x. retE (g x))) bs (g a)"
proof (rule getsI)
  fix p n assume "gets m bs a" "strict_prefix p bs"
  then obtain e where "m (p, n) = (Inl e, ([], n + length p))" "short e" by (rule getsE)
  then show "\<exists>e. bindE m (\<lambda>x. retE (g x)) (p, n) = (Inl e, [], n + length p) \<and> short e" by (simp add: bindE_def)
qed (simp add: bindE_def retE_def getsD)

lemma gets_bindE [fillers]:
  assumes "gets m b1 a" and "gets (f a) b2 c"
  shows "gets (bindE m f) (b1 @ b2) c"
  unfolding gets_def
proof (intro conjI allI impI)
  fix rest n
  show "bindE m f ((b1 @ b2) @ rest, n) = (Inr c, rest, n + length (b1 @ b2))"
    using assms by (simp add: gets_def bindE_def add.assoc)
next
  fix p n assume "strict_prefix p (b1 @ b2)"
  then show "\<exists>e. bindE m f (p, n) = (Inl e, [], n + length p) \<and> short e"
  proof (cases rule: strict_prefix_append_cases)
    case first
    then obtain e where "m (p, n) = (Inl e, [], n + length p)" "short e" using assms(1) by (elim getsE)
    then show ?thesis by (simp add: bindE_def)
  next
    case (second q)
    then obtain e where "f a (q, n + length b1) = (Inl e, [], n + length b1 + length q)" "short e"
      using assms(2) by (elim getsE)
    moreover have "m (p, n) = (Inr a, q, n + length b1)" using assms(1) second by (simp add: gets_def)
    ultimately show ?thesis using second by (simp add: bindE_def add.assoc)
  qed
qed

lemma gets_retE [fillers]: "gets (retE a) [] a"
  by (simp add: gets_def retE_def)

lemma fills_into [fillers]: "gets m bs a \<Longrightarrow> fills (into m put) bs x (put a x)"
proof (rule fillsI)
  fix p n assume "gets m bs a" "strict_prefix p bs"
  then obtain e where "m (p, n) = (Inl e, ([], n + length p))" "short e" by (rule getsE)
  then show "\<exists>e z. into m put ((p, n), x) = (Inl e, ([], n + length p), z) \<and> short e" by (simp add: into_def)
qed (simp add: into_def getsD)

text \<open>A reader that runs another one and wraps its value.\<close>

lemma fills_via:
  assumes "fills m bs x y" and "\<And>r. m' (r, x') = (case m (r, x) of (res, (r', z)) \<Rightarrow> (res, (r', g z)))"
  shows "fills m' bs x' (g y)"
proof (rule fillsI)
  fix p n assume "strict_prefix p bs"
  then obtain e z where "m ((p, n), x) = (Inl e, (([], n + length p), z))" "short e" using fillsE [OF assms(1)] by blast
  then show "\<exists>e z. m' ((p, n), x') = (Inl e, ([], n + length p), z) \<and> short e" by (simp add: assms(2))
qed (simp add: assms(2) fillsD [OF assms(1)])

lemma fills_inside [fillers]: "fills m bs (get x) y \<Longrightarrow> fills (inside get put m) bs x (put y x)"
  by (rule fills_via) (simp_all add: inside_def)

lemma fills_withLocals: "fills m bs (x, l) (y, l') \<Longrightarrow> fills (withLocals l m) bs x y"
  using fills_via [of m bs "(x, l)" "(y, l')" "withLocals l m" x fst] by (simp add: withLocals_def split_def)

lemma fills_pureStep: "f x = Inr y \<Longrightarrow> fills (pureStep f) [] x y"
  by (simp add: fills_def pureStep_def)

lemma fills_bindE:
  assumes "fills m b1 x y" and "fills m' b2 y z"
  shows "fills (bindE m (\<lambda>_. m')) (b1 @ b2) x z"
  unfolding fills_def
proof (intro conjI allI impI)
  fix rest n
  show "bindE m (\<lambda>_. m') (((b1 @ b2) @ rest, n), x) = (Inr (), (rest, n + length (b1 @ b2)), z)"
    using assms by (simp add: fills_def bindE_def add.assoc)
next
  fix p n assume "strict_prefix p (b1 @ b2)"
  then show "\<exists>e w. bindE m (\<lambda>_. m') ((p, n), x) = (Inl e, ([], n + length p), w) \<and> short e"
  proof (cases rule: strict_prefix_append_cases)
    case first
    then obtain e w where "m ((p, n), x) = (Inl e, ([], n + length p), w)" "short e"
      using assms(1) by (elim fillsE)
    then show ?thesis by (simp add: bindE_def)
  next
    case (second q)
    then obtain e w where "m' ((q, n + length b1), y) = (Inl e, ([], n + length b1 + length q), w)" "short e"
      using assms(2) unfolding fills_def by blast
    moreover have "m ((p, n), x) = (Inr (), (q, n + length b1), y)" using assms(1) second by (simp add: fills_def)
    ultimately show ?thesis using second by (simp add: bindE_def add.assoc)
  qed
qed

lemma fills_Nil: "fills (steps []) [] x x"
  by (simp add: fills_def)

lemma steps_Cons: "steps (m # ms) = bindE m (\<lambda>_. steps ms)"
  by (rule ext) (simp add: bindE_def)

lemma fills_Cons: "fills m b1 x y \<Longrightarrow> fills (steps ms) b2 y z \<Longrightarrow> fills (steps (m # ms)) (b1 @ b2) x z"
  unfolding steps_Cons by (rule fills_bindE)

lemma gets_fresh: "fills m bs x y \<Longrightarrow> gets (fresh x m) bs y"
proof (rule getsI)
  fix p n assume "fills m bs x y" "strict_prefix p bs"
  then obtain e z where "m ((p, n), x) = (Inl e, (([], n + length p), z))" "short e" by (rule fillsE)
  then show "\<exists>e. fresh x m (p, n) = (Inl e, [], n + length p) \<and> short e" by (simp add: fresh_def)
qed (simp add: fresh_def fillsD)

section \<open>Writers\<close>

lemma steps_Nil: "steps [] = Write []"
  by (rule ext) (simp add: Write_Nil)

lemmas step_writers = steps_Cons steps_Nil writers

text \<open>The contract of a \<open>WriteTo\<close> and a \<open>ReadFrom\<close> that fills its receiver.\<close>

locale filler =
  fixes wr :: "'a \<Rightarrow> wr" and rd :: "'x into" and enc :: "'a \<Rightarrow> byte list" and dec :: "'a \<Rightarrow> 'x \<Rightarrow> 'x"
    and valid :: "'a \<Rightarrow> bool"
  assumes writes: "valid a \<Longrightarrow> wr a = Write (enc a)"
    and fill: "valid a \<Longrightarrow> fills rd (enc a) x (dec a x)"
begin

lemma round_trip:
  assumes "valid a" and "wr a ([], None) = (res, (bs, room))"
  shows "res = Inr () \<and> rd ((bs @ rest, n), x) = (Inr (), ((rest, n + length bs), dec a x))"
  using assms fill [of a x] by (simp add: writes Write_def fills_def)

lemma truncated:
  assumes "valid a" and "strict_prefix p (enc a)"
  shows "\<exists>e z. rd ((p, n), x) = (Inl e, (([], n + length p), z)) \<and> short e"
  using assms fill [of a x] by (simp add: fills_def)

lemma as_field: "valid a \<Longrightarrow> fills (inside get put rd) (enc a) t (put (dec a (get t)) t)"
  by (intro fills_inside fill)

end

end
