(* ===== verification/Ks_Format.thy ===== *)
theory Ks_Format
  imports Ks_Ops Go_Into
begin

text \<open>
  The file format of the key store, from \<open>src/keystore/keystore.go\<close>: the \<open>ReadFrom\<close> and \<open>WriteTo\<close> methods of
  every struct, the appended entries and the store. \<open>binaryRead\<close> and \<open>binaryWrite\<close> of a fixed-size value are
  \<open>ReadFull\<close> and \<open>Write\<close> of its little-endian bytes; the loops over \<open>datas\<close> are \<open>steps\<close>. Methods that set a field
  before they can fail fill their receiver in place, the others return a value. The loop of \<open>varEntries.ReadFrom\<close>
  reads until the end of the input; as each entry takes at least its header byte, one round more than the input has
  bytes is enough.
\<close>

section \<open>Checksums\<close>

definition walletHash :: "kslib \<Rightarrow> bytes \<Rightarrow> u32" where
  "walletHash lib b = le_word (take 4 (DoubleSha256 lib b))"

definition verifyAndFix :: "kslib \<Rightarrow> bytes \<Rightarrow> u32 \<Rightarrow> err + unit" where
  "verifyAndFix lib b chk = (if walletHash lib b \<noteq> chk then Inl ErrChecksumMismatch else Inr ())"

text \<open>\<open>for i := range checks { ... }\<close>\<close>

definition verifyAll :: "kslib \<Rightarrow> (bytes \<times> u32) list \<Rightarrow> err + unit" where
  "verifyAll lib checks = map_sum id (\<lambda>_. ()) (mapE (\<lambda>(b, chk). verifyAndFix lib b chk) checks)"

abbreviation writeHash :: "kslib \<Rightarrow> bytes \<Rightarrow> wr" where
  "writeHash lib b \<equiv> Write (le_bytes 4 (walletHash lib b))"

section \<open>Version, network and flags\<close>

definition version_ReadFrom :: "version rd" where
  "version_ReadFrom = bindE (ReadFull 4) (\<lambda>b. retE (mkVersion (b ! 0) (b ! 1) (b ! 2) (b ! 3)))"

definition version_WriteTo :: "version \<Rightarrow> wr" where
  "version_WriteTo v = Write [major v, minor v, bugfix v, autoincrement v]"

definition netParams_ReadFrom :: "kslib \<Rightarrow> netParams rd" where
  "netParams_ReadFrom lib =
     bindE readU32 (\<lambda>n.
       if n = MainNet lib then retE \<lparr>Net = MainNet lib\<rparr>
       else if n = TestNet3 lib then retE \<lparr>Net = TestNet3 lib\<rparr>
       else if n = SimNet lib then retE \<lparr>Net = SimNet lib\<rparr>
       else failE (ErrorString ''unknown network''))"

definition netParams_WriteTo :: "netParams \<Rightarrow> wr" where
  "netParams_WriteTo net = Write (le_bytes 4 (Net net))"

text \<open>\<open>if f { b[0] |= 1 << i }\<close>\<close>

definition flagBit :: "bool \<Rightarrow> nat \<Rightarrow> byte" where
  "flagBit f i = (if f then push_bit i 1 else 0)"

text \<open>\<open>var b [8]byte\<close> with its first byte set.\<close>

definition flagBytes :: "byte \<Rightarrow> bytes" where
  "flagBytes b = b # replicate 7 0"

definition walletFlags_ReadFrom :: "walletFlags rd" where
  "walletFlags_ReadFrom = bindE (ReadFull 8) (\<lambda>b. retE \<lparr>useEncryption = bit (b ! 0) 0, watchingOnly = bit (b ! 0) 1\<rparr>)"

definition walletFlags_WriteTo :: "walletFlags \<Rightarrow> wr" where
  "walletFlags_WriteTo fl = Write (flagBytes (flagBit (useEncryption fl) 0 OR flagBit (watchingOnly fl) 1))"

definition addrFlagsOf :: "byte \<Rightarrow> addrFlags" where
  "addrFlagsOf b = \<lparr>hasPrivKey = bit b 0, hasPubKey = bit b 1, encrypted = bit b 2, createPrivKeyNextUnlock = bit b 3,
     compressed = bit b 4, af_change = bit b 5, af_unsynced = bit b 6, af_partialSync = bit b 7\<rparr>"

definition addrFlags_ReadFrom :: "addrFlags into" where
  "addrFlags_ReadFrom =
     bindE (into (ReadFull 8) (\<lambda>b _. addrFlagsOf (b ! 0))) (\<lambda>_.
       pureStep (\<lambda>af. if hasPrivKey af \<and> \<not> encrypted af then Inl (ErrorString ''private key is unencrypted'') else Inr af))"

definition addrFlags_WriteTo :: "addrFlags \<Rightarrow> wr" where
  "addrFlags_WriteTo af =
     (if hasPrivKey af \<and> \<not> encrypted af then failE (ErrorString ''address must be encrypted'')
      else Write (flagBytes (flagBit (hasPrivKey af) 0 OR flagBit (hasPubKey af) 1 OR flagBit (encrypted af) 2 OR
        flagBit (createPrivKeyNextUnlock af) 3 OR flagBit (compressed af) 4 OR flagBit (af_change af) 5 OR
        flagBit (af_unsynced af) 6 OR flagBit (af_partialSync af) 7)))"

definition scriptFlags_ReadFrom :: "scriptFlags rd" where
  "scriptFlags_ReadFrom =
     bindE (ReadFull 8) (\<lambda>b. retE \<lparr>hasScript = bit (b ! 0) 1, sf_change = bit (b ! 0) 5,
       sf_unsynced = bit (b ! 0) 6, sf_partialSync = bit (b ! 0) 7\<rparr>)"

definition scriptFlags_WriteTo :: "scriptFlags \<Rightarrow> wr" where
  "scriptFlags_WriteTo sf =
     Write (flagBytes (flagBit (hasScript sf) 1 OR flagBit (sf_change sf) 5 OR flagBit (sf_unsynced sf) 6 OR
       flagBit (sf_partialSync sf) 7))"

section \<open>Recent blocks in the unused space\<close>

text \<open>\<open>for i := uint32(0); i < n; i++\<close> with a count that was read before.\<close>

definition repeatN :: "('x \<Rightarrow> nat) \<Rightarrow> 'x into \<Rightarrow> 'x into" where
  "repeatN n m s = forE (\<lambda>_. m) [0..<n (snd s)] s"

record recentLocals =
  nBlocks :: u32
  height :: i32

definition recent_ReadFrom :: "recentBlocks into" where
  "recent_ReadFrom = withLocals \<lparr>nBlocks = 0, height = 0\<rparr> (steps
     [into readU32 (\<lambda>n (rb, l). (rb, l\<lparr>nBlocks := n\<rparr>)),
      pureStep (\<lambda>(rb, l). if 20 < nBlocks l
        then Inl (ErrorString ''number of last seen blocks exceeds maximum of 20'') else Inr (rb, l)),
      into readU32 (\<lambda>h (rb, l). (rb, l\<lparr>height := h\<rparr>)),
      pureStep (\<lambda>(rb, l). if height l <s 0
        then Inl (ErrorString ''expected a block but specified height is negative'')
        else Inr (rb\<lparr>rb_lastHeight := height l, rb_hashes := []\<rparr>, l)),
      repeatN (\<lambda>(rb, l). unat (nBlocks l)) (into readHash (\<lambda>h (rb, l). (rb\<lparr>rb_hashes := rb_hashes rb @ [h]\<rparr>, l)))])"

definition recent_ReadFromVersion :: "version \<Rightarrow> recentBlocks into" where
  "recent_ReadFromVersion v =
     (if \<not> version_LT v Vers20LastBlocks then recent_ReadFrom
      else
        bindE (into readU32 (\<lambda>h rb. rb\<lparr>rb_lastHeight := h\<rparr>)) (\<lambda>_ s.
          if rb_lastHeight (snd s) = - 1 then pureStep (\<lambda>rb. Inr (rb\<lparr>rb_hashes := []\<rparr>)) s
          else into readHash (\<lambda>h rb. rb\<lparr>rb_hashes := [h]\<rparr>) s))"

definition recent_WriteTo :: "recentBlocks \<Rightarrow> wr" where
  "recent_WriteTo rb =
     (let n = of_nat (length (rb_hashes rb)) :: u32 in
      if 20 < n then failE (ErrorString ''number of last seen blocks exceeds maximum of 20'')
      else if n \<noteq> 0 \<and> rb_lastHeight rb <s 0 then
        failE (ErrorString ''number of block hashes is positive, but height is negative'')
      else steps ([Write (le_bytes 4 n), Write (le_bytes 4 (rb_lastHeight rb))] @
        map (\<lambda>h. Write (le_bytes 32 h)) (rb_hashes rb)))"

text \<open>The space of \<open>nBytes\<close> bytes that Armory leaves, with one struct at its start.\<close>

definition unusedSpace_ReadFromVersion :: "nat \<Rightarrow> 'x into \<Rightarrow> 'x into" where
  "unusedSpace_ReadFromVersion nBytes rfv s =
     (let n0 = snd (fst s) in
      bindE rfv (\<lambda>_ s'.
        let read = snd (fst s') - n0 in
        if nBytes < read then (Inl (ErrorString ''read too much from armory's unused space''), s')
        else into (ReadFull (nBytes - read)) (\<lambda>_ x. x) s') s)"

definition unusedSpace_WriteTo :: "nat \<Rightarrow> wr \<Rightarrow> wr" where
  "unusedSpace_WriteTo nBytes wt w =
     (let n0 = length (fst w) in
      bindE wt (\<lambda>_ w'.
        let written = length (fst w') - n0 in
        if nBytes < written then (Inl (ErrorString ''wrote too much to armory's unused space''), w')
        else Write (replicate (nBytes - written) 0) w') w)"

section \<open>Public keys, scripts and key derivation parameters\<close>

definition publicKey_ReadFrom :: "bytes rd" where
  "publicKey_ReadFrom =
     bindE readByte (\<lambda>format.
       let noodd = format AND NOT 1 in
       if noodd = 4 then bindE (ReadFull 64) (\<lambda>s. retE (format # s))
       else if noodd = 2 then bindE (ReadFull 32) (\<lambda>s. retE (format # s))
       else failE (ErrorString ''unrecognized pubkey format''))"

definition p2SHScript_ReadFrom :: "bytes rd" where
  "p2SHScript_ReadFrom = bindE readU32 (\<lambda>len. ReadFull (unat len))"

definition p2SHScript_WriteTo :: "bytes \<Rightarrow> wr" where
  "p2SHScript_WriteTo a = bindE (Write (le_bytes 4 (of_nat (length a) :: u32))) (\<lambda>_. Write a)"

definition kdf_WriteTo :: "kslib \<Rightarrow> kdfParameters \<Rightarrow> wr" where
  "kdf_WriteTo lib params =
     (let chkedBytes = le_bytes 8 (kdf_mem params) @ le_bytes 4 (kdf_nIter params) @ kdf_salt params in
      steps [Write (le_bytes 8 (kdf_mem params)), Write (le_bytes 4 (kdf_nIter params)), Write (kdf_salt params),
        writeHash lib chkedBytes, Write (replicate (256 - (44 + 4)) 0)])"

definition kdf_ReadFrom :: "kslib \<Rightarrow> kdfParameters rd" where
  "kdf_ReadFrom lib =
     bindE (ReadFull 44) (\<lambda>chkedBytes. bindE readU32 (\<lambda>chk. bindE (ReadFull (256 - (44 + 4))) (\<lambda>_.
       bindE (liftE (\<lambda>_. verifyAndFix lib chkedBytes chk)) (\<lambda>_.
         retE \<lparr>kdf_mem = le_word (take 8 chkedBytes), kdf_nIter = le_word (take 4 (drop 8 chkedBytes)),
               kdf_salt = drop 12 chkedBytes\<rparr>))))"

section \<open>Addresses\<close>

record addrLocals =
  chkPubKeyHash :: u32
  chkChaincode :: u32
  chkInitVector :: u32
  chkPrivKey :: u32
  chkPubKey :: u32
  pubKeyHash :: bytes
  pubKeyIn :: bytes

definition zeroAddrLocals :: addrLocals where
  "zeroAddrLocals = \<lparr>chkPubKeyHash = 0, chkChaincode = 0, chkInitVector = 0, chkPrivKey = 0, chkPubKey = 0,
     pubKeyHash = replicate 20 0, pubKeyIn = []\<rparr>"

text \<open>The fields in the order of the file.\<close>

definition addrFields :: "(btcAddress \<times> addrLocals) into list" where
  "addrFields =
     [into (ReadFull 20) (\<lambda>h (a, l). (a, l\<lparr>pubKeyHash := h\<rparr>)),
      into readU32 (\<lambda>c (a, l). (a, l\<lparr>chkPubKeyHash := c\<rparr>)),
      into (ReadFull 4) (\<lambda>_ x. x),
      inside (\<lambda>(a, l). a_flags a) (\<lambda>f (a, l). (a\<lparr>a_flags := f\<rparr>, l)) addrFlags_ReadFrom,
      into (ReadFull 32) (\<lambda>c (a, l). (a\<lparr>a_chaincode := c\<rparr>, l)),
      into readU32 (\<lambda>c (a, l). (a, l\<lparr>chkChaincode := c\<rparr>)),
      into readU64 (\<lambda>i (a, l). (a\<lparr>a_chainIndex := i\<rparr>, l)),
      into readU64 (\<lambda>d (a, l). (a\<lparr>a_chainDepth := d\<rparr>, l)),
      into (ReadFull 16) (\<lambda>v (a, l). (a\<lparr>a_initVector := v\<rparr>, l)),
      into readU32 (\<lambda>c (a, l). (a, l\<lparr>chkInitVector := c\<rparr>)),
      into (ReadFull 32) (\<lambda>k (a, l). (a\<lparr>a_privKey := k\<rparr>, l)),
      into readU32 (\<lambda>c (a, l). (a, l\<lparr>chkPrivKey := c\<rparr>)),
      into publicKey_ReadFrom (\<lambda>k (a, l). (a, l\<lparr>pubKeyIn := k\<rparr>)),
      into readU32 (\<lambda>c (a, l). (a, l\<lparr>chkPubKey := c\<rparr>)),
      into readU64 (\<lambda>t (a, l). (a\<lparr>a_firstSeen := t\<rparr>, l)),
      into readU64 (\<lambda>t (a, l). (a\<lparr>a_lastSeen := t\<rparr>, l)),
      into readU32 (\<lambda>h (a, l). (a\<lparr>a_firstBlock := h\<rparr>, l)),
      into readU32 (\<lambda>h (a, l). (a\<lparr>a_partialSyncHeight := h\<rparr>, l))]"

text \<open>The checks after the fields are read. The public key is set before the address is made.\<close>

definition addrChecks :: "kslib \<Rightarrow> netParams \<Rightarrow> (btcAddress \<times> addrLocals) into list" where
  "addrChecks lib net =
     [pureStep (\<lambda>(a, l). case verifyAll lib [(pubKeyHash l, chkPubKeyHash l), (a_chaincode a, chkChaincode l),
          (a_initVector a, chkInitVector l), (a_privKey a, chkPrivKey l), (pubKeyIn l, chkPubKey l)] of
        Inl e \<Rightarrow> Inl e | Inr _ \<Rightarrow> Inr (a, l)),
      pureStep (\<lambda>(a, l). if \<not> hasPubKey (a_flags a)
        then Inl (ErrorString ''read in an address without a public key'') else Inr (a, l)),
      pureStep (\<lambda>(a, l). case ParsePubKey lib (pubKeyIn l) of
        Inl e \<Rightarrow> Inl e | Inr pk \<Rightarrow> Inr (a\<lparr>a_pubKey := pk\<rparr>, l)),
      pureStep (\<lambda>(a, l). case NewAddressPubKeyHash lib (pubKeyHash l) net of
        Inl e \<Rightarrow> Inl e | Inr addr \<Rightarrow> Inr (a\<lparr>a_address := addr\<rparr>, l))]"

definition btcAddress_ReadFrom :: "kslib \<Rightarrow> netParams \<Rightarrow> btcAddress into" where
  "btcAddress_ReadFrom lib net = withLocals zeroAddrLocals (steps (addrFields @ addrChecks lib net))"

definition btcAddress_WriteTo :: "kslib \<Rightarrow> btcAddress \<Rightarrow> wr" where
  "btcAddress_WriteTo lib a =
     (let pubKey = pubKeyBytes lib a; hash = ScriptAddress (a_address a) in
      steps [Write hash, writeHash lib hash, Write (replicate 4 0), addrFlags_WriteTo (a_flags a),
        Write (a_chaincode a), writeHash lib (a_chaincode a),
        Write (le_bytes 8 (a_chainIndex a)), Write (le_bytes 8 (a_chainDepth a)),
        Write (a_initVector a), writeHash lib (a_initVector a),
        Write (a_privKey a), writeHash lib (a_privKey a), Write pubKey, writeHash lib pubKey,
        Write (le_bytes 8 (a_firstSeen a)), Write (le_bytes 8 (a_lastSeen a)),
        Write (le_bytes 4 (a_firstBlock a)), Write (le_bytes 4 (a_partialSyncHeight a))])"

record scriptLocals =
  chkScriptHash :: u32
  chkScript :: u32
  scriptHash :: bytes

definition scriptFields :: "(scriptAddress \<times> scriptLocals) into list" where
  "scriptFields =
     [into (ReadFull 20) (\<lambda>h (a, l). (a, l\<lparr>scriptHash := h\<rparr>)),
      into readU32 (\<lambda>c (a, l). (a, l\<lparr>chkScriptHash := c\<rparr>)),
      into (ReadFull 4) (\<lambda>_ x. x),
      into scriptFlags_ReadFrom (\<lambda>f (a, l). (a\<lparr>sa_flags := f\<rparr>, l)),
      into p2SHScript_ReadFrom (\<lambda>b (a, l). (a\<lparr>sa_script := b\<rparr>, l)),
      into readU32 (\<lambda>c (a, l). (a, l\<lparr>chkScript := c\<rparr>)),
      into readU64 (\<lambda>t (a, l). (a\<lparr>sa_firstSeen := t\<rparr>, l)),
      into readU64 (\<lambda>t (a, l). (a\<lparr>sa_lastSeen := t\<rparr>, l)),
      into readU32 (\<lambda>h (a, l). (a\<lparr>sa_firstBlock := h\<rparr>, l)),
      into readU32 (\<lambda>h (a, l). (a\<lparr>sa_partialSyncHeight := h\<rparr>, l))]"

definition scriptChecks :: "kslib \<Rightarrow> netParams \<Rightarrow> (scriptAddress \<times> scriptLocals) into list" where
  "scriptChecks lib net =
     [pureStep (\<lambda>(a, l). case verifyAll lib [(scriptHash l, chkScriptHash l), (sa_script a, chkScript l)] of
        Inl e \<Rightarrow> Inl e | Inr _ \<Rightarrow> Inr (a, l)),
      pureStep (\<lambda>(a, l). case NewAddressScriptHashFromHash lib (scriptHash l) net of
        Inl e \<Rightarrow> Inl e | Inr addr \<Rightarrow> Inr (a\<lparr>sa_address := addr\<rparr>, l)),
      pureStep (\<lambda>(a, l). if \<not> hasScript (sa_flags a)
        then Inl (ErrorString ''read in an addresss with no script'') else Inr (a, l)),
      pureStep (\<lambda>(a, l). case ExtractPkScriptAddrs lib (sa_script a) net of
        Inl e \<Rightarrow> Inl e
      | Inr (cls, addresses, reqSigs) \<Rightarrow> Inr (a\<lparr>sa_class := cls, sa_addresses := addresses, sa_reqSigs := reqSigs\<rparr>, l))]"

definition scriptAddress_ReadFrom :: "kslib \<Rightarrow> netParams \<Rightarrow> scriptAddress into" where
  "scriptAddress_ReadFrom lib net =
     withLocals \<lparr>chkScriptHash = 0, chkScript = 0, scriptHash = replicate 20 0\<rparr> (steps (scriptFields @ scriptChecks lib net))"

definition scriptAddress_WriteTo :: "kslib \<Rightarrow> scriptAddress \<Rightarrow> wr" where
  "scriptAddress_WriteTo lib sa =
     (let hash = ScriptAddress (sa_address sa) in
      steps [Write hash, writeHash lib hash, Write (replicate 4 0), scriptFlags_WriteTo (sa_flags sa),
        p2SHScript_WriteTo (sa_script sa), writeHash lib (sa_script sa),
        Write (le_bytes 8 (sa_firstSeen sa)), Write (le_bytes 8 (sa_lastSeen sa)),
        Write (le_bytes 4 (sa_firstBlock sa)), Write (le_bytes 4 (sa_partialSyncHeight sa))])"

end
