(* ===== verification/Ks_File.thy ===== *)
theory Ks_File
  imports Ks_Format
begin

text \<open>
  The appended entries of a key store file and the file itself, from \<open>src/keystore/keystore.go\<close>. \<open>ks_ReadFrom\<close> fills a
  store in place: it resets the network and the maps, reads the header fields in their order, and only then checks
  the file identifier and files the entries. The count that the Go methods return is the count of the reader.
\<close>

section \<open>Entries\<close>

datatype ksEntry =
    AddrEntry bytes btcAddress
  | ScriptEntry bytes scriptAddress
  | AddrCommentEntry bytes comment
  | TxCommentEntry bytes comment

definition addrCommentHeader :: byte where "addrCommentHeader = 1"
definition txCommentHeader :: byte where "txCommentHeader = 2"
definition deletedHeader :: byte where "deletedHeader = 4"
definition scriptHeader :: byte where "scriptHeader = 8"
definition addrHeader :: byte where "addrHeader = 0"

definition maxCommentLen :: nat where "maxCommentLen = 2 ^ 16 - 1"

definition addrEntry_WriteTo :: "kslib \<Rightarrow> bytes \<Rightarrow> btcAddress \<Rightarrow> wr" where
  "addrEntry_WriteTo lib h a = steps [Write [addrHeader], Write h, btcAddress_WriteTo lib a]"

definition scriptEntry_WriteTo :: "kslib \<Rightarrow> bytes \<Rightarrow> scriptAddress \<Rightarrow> wr" where
  "scriptEntry_WriteTo lib h a = steps [Write [scriptHeader], Write h, scriptAddress_WriteTo lib a]"

definition addrCommentEntry_WriteTo :: "bytes \<Rightarrow> comment \<Rightarrow> wr" where
  "addrCommentEntry_WriteTo h c =
     (if maxCommentLen < length c then failE ErrMalformedEntry
      else steps [Write [addrCommentHeader], Write h, Write (le_bytes 2 (of_nat (length c) :: u16)), Write c])"

text \<open>The hash of the transaction is not written.\<close>

definition txCommentEntry_WriteTo :: "bytes \<Rightarrow> comment \<Rightarrow> wr" where
  "txCommentEntry_WriteTo h c =
     (if maxCommentLen < length c then failE ErrMalformedEntry
      else steps [Write [txCommentHeader], Write (le_bytes 2 (of_nat (length c) :: u16)), Write c])"

fun entry_WriteTo :: "kslib \<Rightarrow> ksEntry \<Rightarrow> wr" where
  "entry_WriteTo lib (AddrEntry h a) = addrEntry_WriteTo lib h a"
| "entry_WriteTo lib (ScriptEntry h a) = scriptEntry_WriteTo lib h a"
| "entry_WriteTo lib (AddrCommentEntry h c) = addrCommentEntry_WriteTo h c"
| "entry_WriteTo lib (TxCommentEntry h c) = txCommentEntry_WriteTo h c"

text \<open>The zero values the entries are read into.\<close>

definition zeroAddress :: Address where
  "zeroAddress = \<lparr>ScriptAddress = [], AddrNet = \<lparr>Net = 0\<rparr>\<rparr>"

definition zeroBtcAddress :: btcAddress where
  "zeroBtcAddress = \<lparr>a_address = zeroAddress, a_flags = addrFlagsOf 0, a_chaincode = replicate 32 0, a_chainIndex = 0,
     a_chainDepth = 0, a_initVector = replicate 16 0, a_privKey = replicate 32 0, a_pubKey = \<lparr>PubX = 0, PubY = 0\<rparr>,
     a_firstSeen = 0, a_lastSeen = 0, a_firstBlock = 0, a_partialSyncHeight = 0, a_privKeyCT = []\<rparr>"

definition zeroScriptAddress :: scriptAddress where
  "zeroScriptAddress = \<lparr>sa_address = zeroAddress, sa_class = 0, sa_addresses = [], sa_reqSigs = 0,
     sa_flags = \<lparr>hasScript = False, sf_change = False, sf_unsynced = False, sf_partialSync = False\<rparr>, sa_script = [],
     sa_firstSeen = 0, sa_lastSeen = 0, sa_firstBlock = 0, sa_partialSyncHeight = 0\<rparr>"

definition readU16 :: "u16 rd" where
  "readU16 = bindE (ReadFull 2) (\<lambda>bs. retE (le_word bs))"

definition addrEntry_ReadFrom :: "kslib \<Rightarrow> netParams \<Rightarrow> ksEntry rd" where
  "addrEntry_ReadFrom lib net =
     bindE (ReadFull 20) (\<lambda>h. bindE (fresh zeroBtcAddress (btcAddress_ReadFrom lib net)) (\<lambda>a. retE (AddrEntry h a)))"

definition scriptEntry_ReadFrom :: "kslib \<Rightarrow> netParams \<Rightarrow> ksEntry rd" where
  "scriptEntry_ReadFrom lib net =
     bindE (ReadFull 20) (\<lambda>h. bindE (fresh zeroScriptAddress (scriptAddress_ReadFrom lib net)) (\<lambda>a. retE (ScriptEntry h a)))"

definition addrCommentEntry_ReadFrom :: "ksEntry rd" where
  "addrCommentEntry_ReadFrom =
     bindE (ReadFull 20) (\<lambda>h. bindE readU16 (\<lambda>clen. bindE (ReadFull (unat clen)) (\<lambda>c. retE (AddrCommentEntry h c))))"

definition txCommentEntry_ReadFrom :: "ksEntry rd" where
  "txCommentEntry_ReadFrom =
     bindE (ReadFull 32) (\<lambda>h. bindE readU16 (\<lambda>clen. bindE (ReadFull (unat clen)) (\<lambda>c. retE (TxCommentEntry h c))))"

definition deletedEntry_ReadFrom :: "unit rd" where
  "deletedEntry_ReadFrom = bindE readU16 (\<lambda>ulen. bindE (ReadFull (unat ulen)) (\<lambda>_. retE ()))"

definition readEntry :: "kslib \<Rightarrow> netParams \<Rightarrow> byte \<Rightarrow> ksEntry list rd" where
  "readEntry lib net header =
     (if header = addrHeader then bindE (addrEntry_ReadFrom lib net) (\<lambda>e. retE [e])
      else if header = scriptHeader then bindE (scriptEntry_ReadFrom lib net) (\<lambda>e. retE [e])
      else if header = addrCommentHeader then bindE addrCommentEntry_ReadFrom (\<lambda>e. retE [e])
      else if header = txCommentHeader then bindE txCommentEntry_ReadFrom (\<lambda>e. retE [e])
      else if header = deletedHeader then bindE deletedEntry_ReadFrom (\<lambda>_. retE [])
      else failE (ErrorString ''unknown entry header''))"

primrec entriesLoop :: "kslib \<Rightarrow> netParams \<Rightarrow> nat \<Rightarrow> ksEntry list \<Rightarrow> ksEntry list rd" where
  "entriesLoop lib net 0 entries r = (Inl Diverges, r)"
| "entriesLoop lib net (Suc k) entries r =
     (case readByte r of
        (Inl e, r') \<Rightarrow> if e = EOF then (Inr entries, r') else (Inl e, r')
      | (Inr header, r') \<Rightarrow> bindE (readEntry lib net header) (\<lambda>es. entriesLoop lib net k (entries @ es)) r')"

definition varEntries_ReadFrom :: "kslib \<Rightarrow> netParams \<Rightarrow> ksEntry list rd" where
  "varEntries_ReadFrom lib net r = entriesLoop lib net (Suc (length (fst r))) [] r"

text \<open>An entry is an interface value; calling a method of a nil one panics.\<close>

definition varEntries_WriteTo :: "kslib \<Rightarrow> ksEntry option list \<Rightarrow> wr" where
  "varEntries_WriteTo lib = forE (\<lambda>e. case e of None \<Rightarrow> failE nil_panic | Some x \<Rightarrow> entry_WriteTo lib x)"

section \<open>Reading a store\<close>

definition fileID :: bytes where
  "fileID = [0xba, 0x57, 0x41, 0x4c, 0x4c, 0x45, 0x54, 0x00]"

definition rootOf :: "KStore \<Rightarrow> btcAddress" where
  "rootOf s = (case aget s keyGenerator of BtcAddr a \<Rightarrow> a | ScriptAddr _ \<Rightarrow> zeroBtcAddress)"

definition setRoot :: "btcAddress \<Rightarrow> KStore \<Rightarrow> KStore" where
  "setRoot a s = s\<lparr>aheap := (aheap s)[keyGenerator := BtcAddr a]\<rparr>"

record storeLocals =
  fileIDIn :: bytes
  appended :: "ksEntry list"

definition resetStore :: "KStore \<Rightarrow> KStore" where
  "resetStore s = s\<lparr>ks_net := \<lparr>Net = 0\<rparr>, addrMap := [], addrCommentMap := [], chainIdxMap := [], txCommentMap := []\<rparr>"

text \<open>The fields of the file before the appended entries.\<close>

definition storeFields :: "kslib \<Rightarrow> (KStore \<times> storeLocals) into list" where
  "storeFields lib =
     [into (ReadFull 8) (\<lambda>b (s, l). (s, l\<lparr>fileIDIn := b\<rparr>)),
      into version_ReadFrom (\<lambda>v (s, l). (s\<lparr>ks_vers := v\<rparr>, l)),
      into (netParams_ReadFrom lib) (\<lambda>n (s, l). (s\<lparr>ks_net := n\<rparr>, l)),
      into walletFlags_ReadFrom (\<lambda>f (s, l). (s\<lparr>ks_flags := f\<rparr>, l)),
      into (ReadFull 6) (\<lambda>_ x. x),
      into readU64 (\<lambda>d (s, l). (s\<lparr>ks_createDate := d\<rparr>, l)),
      into (ReadFull 32) (\<lambda>b (s, l). (s\<lparr>ks_name := b\<rparr>, l)),
      into (ReadFull 256) (\<lambda>b (s, l). (s\<lparr>ks_desc := b\<rparr>, l)),
      into readU64 (\<lambda>i (s, l). (s\<lparr>ks_highestUsed := i\<rparr>, l)),
      into (kdf_ReadFrom lib) (\<lambda>k (s, l). (s\<lparr>ks_kdfParams := k\<rparr>, l)),
      into (ReadFull 256) (\<lambda>_ x. x),
      (\<lambda>st. inside (\<lambda>(s, l). rootOf s) (\<lambda>a (s, l). (setRoot a s, l))
         (btcAddress_ReadFrom lib (ks_net (fst (snd st)))) st),
      (\<lambda>st. inside (\<lambda>(s, l). ks_recent s) (\<lambda>rb (s, l). (s\<lparr>ks_recent := rb\<rparr>, l))
         (unusedSpace_ReadFromVersion 1024 (recent_ReadFromVersion (ks_vers (fst (snd st))))) st)]"

text \<open>\<open>rootAddr\<close> is filed first; its heap cell is the field \<open>keyGenerator\<close>.\<close>

definition fileRoot :: "KStore \<Rightarrow> KStore" where
  "fileRoot s = s\<lparr>addrMap := AList.update (ScriptAddress (a_address (rootOf s))) keyGenerator (addrMap s),
     chainIdxMap := AList.update rootKeyChainIdx (a_address (rootOf s)) (chainIdxMap s)\<rparr>"

text \<open>A new address at the end of the heap, filed under its hash.\<close>

definition fileAddr :: "walletAddress \<Rightarrow> KStore \<Rightarrow> KStore" where
  "fileAddr a s = s\<lparr>aheap := aheap s @ [a],
     addrMap := AList.update (ScriptAddress (wa_Address a)) (length (aheap s)) (addrMap s)\<rparr>"

definition fileChain :: "aref \<Rightarrow> btcAddress \<Rightarrow> KStore \<Rightarrow> KStore" where
  "fileChain r a s =
     (let s1 = (if wa_Imported (BtcAddr a) then s\<lparr>importedAddrs := importedAddrs s @ [r]\<rparr>
        else s\<lparr>chainIdxMap := AList.update (a_chainIndex a) (a_address a) (chainIdxMap s),
               lastChainIdx := (if lastChainIdx s <s a_chainIndex a then a_chainIndex a else lastChainIdx s)\<rparr>) in
      if createPrivKeyNextUnlock (a_flags a) \<and> (missingKeysStart s1 = 0 \<or> a_chainIndex a <s missingKeysStart s1)
      then s1\<lparr>missingKeysStart := a_chainIndex a\<rparr> else s1)"

fun fileEntry :: "kslib \<Rightarrow> ksEntry \<Rightarrow> KStore \<Rightarrow> err + KStore" where
  "fileEntry lib (AddrEntry h a) s = Inr (fileChain (length (aheap s)) a (fileAddr (BtcAddr a) s))"
| "fileEntry lib (ScriptEntry h a) s =
     (let s1 = fileAddr (ScriptAddr a) s in Inr (s1\<lparr>importedAddrs := importedAddrs s1 @ [length (aheap s)]\<rparr>))"
| "fileEntry lib (AddrCommentEntry h c) s =
     (case NewAddressPubKeyHash lib h (ks_net s) of
        Inl e \<Rightarrow> Inl e
      | Inr addr \<Rightarrow> Inr (s\<lparr>addrCommentMap := AList.update (ScriptAddress addr) c (addrCommentMap s)\<rparr>))"
| "fileEntry lib (TxCommentEntry h c) s = Inr (s\<lparr>txCommentMap := AList.update h c (txCommentMap s)\<rparr>)"

definition ks_ReadFrom :: "kslib \<Rightarrow> KStore into" where
  "ks_ReadFrom lib =
     bindE (pureStep (\<lambda>s. Inr (resetStore s))) (\<lambda>_.
       withLocals \<lparr>fileIDIn = replicate 8 0, appended = []\<rparr> (steps (storeFields lib @
         [(\<lambda>st. into (varEntries_ReadFrom lib (ks_net (fst (snd st)))) (\<lambda>es (s, l). (s, l\<lparr>appended := es\<rparr>)) st),
          pureStep (\<lambda>(s, l). if fileIDIn l \<noteq> fileID then Inl (ErrorString ''unknown file ID'') else Inr (s, l)),
          pureStep (\<lambda>(s, l). Inr (fileRoot s, l)),
          (\<lambda>st. forE (\<lambda>e. pureStep (\<lambda>(s, l). map_sum id (\<lambda>s'. (s', l)) (fileEntry lib e s))) (appended (snd (snd st))) st)])))"

section \<open>Writing a store\<close>

text \<open>\<open>copy(e.hash[:], h)\<close> into an array of 20 bytes.\<close>

definition copy20 :: "bytes \<Rightarrow> bytes" where
  "copy20 h = take 20 (h @ replicate 20 0)"

text \<open>One step of the loop over \<open>addrMap\<close>: the slots of the chained addresses and the list of the imported ones.\<close>

definition collect :: "walletAddress \<Rightarrow> ksEntry option list \<times> ksEntry option list \<Rightarrow>
    err + ksEntry option list \<times> ksEntry option list" where
  "collect w acc = (case w of
     BtcAddr a \<Rightarrow>
       let e = AddrEntry (copy20 (ScriptAddress (a_address a))) a in
       if wa_Imported w then Inr (fst acc, snd acc @ [Some e])
       else if 0 \<le>s a_chainIndex a then
         if unat (a_chainIndex a) < length (fst acc) then Inr ((fst acc)[unat (a_chainIndex a) := Some e], snd acc)
         else Inl index_panic
       else Inr acc
   | ScriptAddr a \<Rightarrow> Inr (fst acc, snd acc @ [Some (ScriptEntry (copy20 (ScriptAddress (sa_address a))) a)]))"

primrec collectAll :: "walletAddress list \<Rightarrow> ksEntry option list \<times> ksEntry option list \<Rightarrow>
    err + ksEntry option list \<times> ksEntry option list" where
  "collectAll [] acc = Inr acc"
| "collectAll (w # ws) acc = (case collect w acc of Inl e \<Rightarrow> Inl e | Inr acc' \<Rightarrow> collectAll ws acc')"

definition copy32 :: "bytes \<Rightarrow> bytes" where
  "copy32 h = take 32 (h @ replicate 32 0)"

definition writeEntries :: "KStore \<Rightarrow> err + ksEntry option list" where
  "writeEntries s =
     (if chainIdxMap s = [] then Inl (Panic ''makeslice: len out of range'')
      else case collectAll (map (\<lambda>e. aget s (snd e)) (addrMap s)) (replicate (length (chainIdxMap s) - 1) None, []) of
        Inl e \<Rightarrow> Inl e
      | Inr (chained, imported) \<Rightarrow> Inr (chained @ imported @
          map (\<lambda>(k, c). Some (AddrCommentEntry (copy20 k) c)) (addrCommentMap s) @
          map (\<lambda>(k, c). Some (TxCommentEntry (copy32 k) c)) (txCommentMap s)))"

definition ks_WriteTo :: "kslib \<Rightarrow> KStore \<Rightarrow> wr" where
  "ks_WriteTo lib s = (case writeEntries s of
     Inl e \<Rightarrow> failE e
   | Inr wts \<Rightarrow> steps
       [Write fileID, version_WriteTo VersCurrent, netParams_WriteTo (ks_net s), walletFlags_WriteTo (ks_flags s),
        Write (replicate 6 0), Write (le_bytes 8 (ks_createDate s)), Write (ks_name s), Write (ks_desc s),
        Write (le_bytes 8 (ks_highestUsed s)), kdf_WriteTo lib (ks_kdfParams s), Write (replicate 256 0),
        btcAddress_WriteTo lib (rootOf s), unusedSpace_WriteTo 1024 (recent_WriteTo (ks_recent s)),
        varEntries_WriteTo lib wts])"

end
