(* ===== verification/Go_Fs.thy ===== *)
theory Go_Fs
  imports Go_IO
begin

text \<open>
  The file system calls of the packages \<open>os\<close>, \<open>io/ioutil\<close> and \<open>path/filepath\<close>, as \<open>src/disksync.go\<close>,
  \<open>src/acctmgr.go\<close> and \<open>src/updates.go\<close> use them.

  A path is the list of its components, so \<open>filepath.Join\<close> appends and \<open>filepath.Split\<close> takes off the last one. The
  file system is the contents of its files and the list of its directories. Every call may fail: \<open>OsErr\<close> is the
  error of a call, if any, \<open>OsRoom\<close> the room on the device for a new file, \<open>TempNames\<close> the endings \<open>ioutil.TempFile\<close>
  tries. Their argument counts the calls, so that no two of them are assumed to agree.
\<close>

type_synonym path = "string list"

record oslib =
  OsErr :: "nat \<Rightarrow> err option"
  OsRoom :: "nat \<Rightarrow> nat option"
  TempNames :: "nat \<Rightarrow> string list"
  Getwd :: path

record fs =
  fs_files :: "(path, byte list) gomap"
  fs_dirs :: "path list"
  fs_calls :: nat

type_synonym 'a fsact = "(fs, err, 'a) act"

section \<open>Calls\<close>

definition syscall :: "oslib \<Rightarrow> unit fsact" where
  "syscall os s =
     (case OsErr os (fs_calls s) of None \<Rightarrow> Inr () | Some e \<Rightarrow> Inl e, s\<lparr>fs_calls := Suc (fs_calls s)\<rparr>)"

text \<open>\<open>os.Stat\<close>: whether the path is a directory.\<close>

definition os_Stat :: "oslib \<Rightarrow> path \<Rightarrow> bool fsact" where
  "os_Stat os p = bindE (syscall os) (\<lambda>_. liftE (\<lambda>s.
     if p \<in> set (fs_dirs s) then Inr True
     else if map_of (fs_files s) p \<noteq> None then Inr False
     else Inl ErrNotExist))"

definition os_MkdirAll :: "oslib \<Rightarrow> path \<Rightarrow> unit fsact" where
  "os_MkdirAll os p = bindE (syscall os) (\<lambda>_. bindE (liftE Inr) (\<lambda>s.
     if \<exists>q \<in> set (prefixes p). map_of (fs_files s) q \<noteq> None then failE (ErrorString ''not a directory'')
     else modifyE (\<lambda>s. s\<lparr>fs_dirs := fs_dirs s @ filter (\<lambda>q. q \<notin> set (fs_dirs s)) (prefixes p)\<rparr>)))"

text \<open>Reading a whole file: \<open>os.Open\<close> gives a reader on its contents.\<close>

definition os_Open :: "oslib \<Rightarrow> path \<Rightarrow> byte list fsact" where
  "os_Open os p = bindE (syscall os) (\<lambda>_. liftE (\<lambda>s.
     case map_of (fs_files s) p of None \<Rightarrow> Inl ErrNotExist | Some bs \<Rightarrow> Inr bs))"

definition childOf :: "path \<Rightarrow> path \<Rightarrow> bool" where
  "childOf d p \<longleftrightarrow> p \<noteq> [] \<and> butlast p = d"

text \<open>\<open>os.Open\<close> and \<open>Readdirnames(0)\<close> of a directory.\<close>

definition os_Readdirnames :: "oslib \<Rightarrow> path \<Rightarrow> string list fsact" where
  "os_Readdirnames os d = bindE (syscall os) (\<lambda>_. liftE (\<lambda>s.
     if d \<in> set (fs_dirs s)
     then Inr (map last (filter (childOf d) (map fst (fs_files s) @ fs_dirs s)))
     else Inl ErrNotExist))"

definition below :: "path \<Rightarrow> path \<Rightarrow> bool" where
  "below d p \<longleftrightarrow> take (length d) p = d"

definition os_RemoveAll :: "oslib \<Rightarrow> path \<Rightarrow> unit fsact" where
  "os_RemoveAll os d = bindE (syscall os) (\<lambda>_. modifyE (\<lambda>s.
     s\<lparr>fs_files := filter (\<lambda>e. \<not> below d (fst e)) (fs_files s),
       fs_dirs := filter (\<lambda>p. \<not> below d p) (fs_dirs s)\<rparr>))"

definition exists :: "fs \<Rightarrow> path \<Rightarrow> bool" where
  "exists s p \<longleftrightarrow> p \<in> set (fs_dirs s) \<or> map_of (fs_files s) p \<noteq> None"

text \<open>\<open>os.Create\<close> truncates what is there; \<open>ioutil.TempFile\<close> takes the first name that is free.\<close>

definition os_Create :: "oslib \<Rightarrow> path \<Rightarrow> unit fsact" where
  "os_Create os p = bindE (syscall os) (\<lambda>_. bindE (liftE Inr) (\<lambda>s.
     if butlast p \<notin> set (fs_dirs s) then failE ErrNotExist
     else if p \<in> set (fs_dirs s) then failE (ErrorString ''is a directory'')
     else modifyE (\<lambda>s. s\<lparr>fs_files := AList.update p [] (fs_files s)\<rparr>)))"

definition ioutil_TempFile :: "oslib \<Rightarrow> path \<Rightarrow> string \<Rightarrow> path fsact" where
  "ioutil_TempFile os d name = bindE (liftE (\<lambda>s. Inr (TempNames os (fs_calls s)))) (\<lambda>names.
     bindE (syscall os) (\<lambda>_. bindE (liftE Inr) (\<lambda>s.
       if d \<notin> set (fs_dirs s) then failE ErrNotExist
       else case find (\<lambda>n. \<not> exists s (d @ [name @ n])) names of
         None \<Rightarrow> failE (ErrorString ''file exists'')
       | Some n \<Rightarrow>
           bindE (modifyE (\<lambda>s. s\<lparr>fs_files := AList.update (d @ [name @ n]) [] (fs_files s)\<rparr>)) (\<lambda>_.
             retE (d @ [name @ n])))))"

text \<open>A \<open>WriteTo\<close> into an open file appends to it what the device accepts.\<close>

definition writeFile :: "oslib \<Rightarrow> path \<Rightarrow> wr \<Rightarrow> unit fsact" where
  "writeFile os p w s =
     (case w ([], OsRoom os (fs_calls s)) of (res, (bs, _)) \<Rightarrow>
        (res, s\<lparr>fs_calls := Suc (fs_calls s),
          fs_files := (case map_of (fs_files s) p of
             None \<Rightarrow> fs_files s
           | Some old \<Rightarrow> AList.update p (old @ bs) (fs_files s))\<rparr>))"

definition truncateFile :: "oslib \<Rightarrow> path \<Rightarrow> unit fsact" where
  "truncateFile os p = bindE (syscall os) (\<lambda>_. modifyE (\<lambda>s.
     case map_of (fs_files s) p of
       None \<Rightarrow> s
     | Some old \<Rightarrow> s\<lparr>fs_files := AList.update p [] (fs_files s)\<rparr>))"

text \<open>\<open>os.Rename\<close>: a file replaces what is at the new path; a directory moves with all that is below it, and the new
  path must be free.\<close>

definition movePath :: "path \<Rightarrow> path \<Rightarrow> path \<Rightarrow> path" where
  "movePath old new p = (if below old p then new @ drop (length old) p else p)"

definition os_Rename :: "oslib \<Rightarrow> path \<Rightarrow> path \<Rightarrow> unit fsact" where
  "os_Rename os old new = bindE (syscall os) (\<lambda>_. bindE (liftE Inr) (\<lambda>s.
     if old \<in> set (fs_dirs s) then
       if exists s new then failE (ErrorString ''file exists'')
       else modifyE (\<lambda>s. s\<lparr>fs_files := map (\<lambda>(p, bs). (movePath old new p, bs)) (fs_files s),
         fs_dirs := map (movePath old new) (fs_dirs s)\<rparr>)
     else case map_of (fs_files s) old of
       None \<Rightarrow> failE ErrNotExist
     | Some bs \<Rightarrow>
         if new \<in> set (fs_dirs s) then failE (ErrorString ''is a directory'')
         else modifyE (\<lambda>s. s\<lparr>fs_files := AList.update new bs (AList.delete old (fs_files s))\<rparr>)))"

text \<open>\<open>Sync\<close> and \<open>Close\<close>, whose errors are logged only.\<close>

definition ignoring :: "unit fsact \<Rightarrow> unit fsact" where
  "ignoring m s = (Inr (), snd (m s))"

end
