(* ===== verification/Go_Triple.thy ===== *)
theory Go_Triple
  imports Go_Prelude
begin

text \<open>
  Triples for actions that may fail: from a state in \<open>P\<close>, an action returns in \<open>Q\<close> or fails in \<open>E\<close>. The rules
  follow the combinators; \<open>triple_conseq\<close> adapts a proved triple to its context.
\<close>

definition triple :: "('s \<Rightarrow> bool) \<Rightarrow> ('s, 'e, 'a) act \<Rightarrow> ('a \<Rightarrow> 's \<Rightarrow> bool) \<Rightarrow> ('e \<Rightarrow> 's \<Rightarrow> bool) \<Rightarrow> bool" where
  "triple P m Q E \<longleftrightarrow> (\<forall>s. P s \<longrightarrow> (case m s of (Inr a, s') \<Rightarrow> Q a s' | (Inl e, s') \<Rightarrow> E e s'))"

lemma tripleI:
  "(\<And>s a s'. P s \<Longrightarrow> m s = (Inr a, s') \<Longrightarrow> Q a s') \<Longrightarrow> (\<And>s e s'. P s \<Longrightarrow> m s = (Inl e, s') \<Longrightarrow> E e s') \<Longrightarrow>
   triple P m Q E"
  by (auto simp: triple_def split: sum.split prod.split)

lemma tripleD:
  assumes "triple P m Q E" and "P s"
  shows "m s = (Inr a, s') \<Longrightarrow> Q a s'" and "m s = (Inl e, s') \<Longrightarrow> E e s'"
  using assms by (force simp: triple_def)+

lemma triple_conseq:
  assumes "triple P m Q E" and "\<And>s. P' s \<Longrightarrow> P s" and "\<And>a s. Q a s \<Longrightarrow> Q' a s" and "\<And>e s. E e s \<Longrightarrow> E' e s"
  shows "triple P' m Q' E'"
  using assms by (fastforce simp: triple_def split: sum.splits prod.splits)

lemma triple_pre: "triple P m Q E \<Longrightarrow> (\<And>s. P' s \<Longrightarrow> P s) \<Longrightarrow> triple P' m Q E"
  by (erule triple_conseq) auto

lemma triple_bindE:
  assumes "triple P m R E" and "\<And>a. triple (R a) (f a) Q E"
  shows "triple P (bindE m f) Q E"
  unfolding triple_def
proof (intro allI impI)
  fix s assume s: "P s"
  obtain x t where m: "m s = (x, t)" by force
  show "case bindE m f s of (Inl e, s') \<Rightarrow> E e s' | (Inr a, s') \<Rightarrow> Q a s'"
  proof (cases x)
    case (Inl e)
    then show ?thesis using tripleD(2) [OF assms(1) s] m by (simp add: bindE_def)
  next
    case (Inr a)
    then have "R a t" using tripleD(1) [OF assms(1) s] m by simp
    then show ?thesis using assms(2) [of a] m Inr by (simp add: bindE_def triple_def)
  qed
qed

lemma triple_retE: "(\<And>s. P s \<Longrightarrow> Q a s) \<Longrightarrow> triple P (retE a) Q E"
  by (simp add: triple_def retE_def)

lemma triple_failE: "(\<And>s. P s \<Longrightarrow> E e s) \<Longrightarrow> triple P (failE e) Q E"
  by (simp add: triple_def failE_def)

lemma triple_liftE:
  "(\<And>s a. P s \<Longrightarrow> g s = Inr a \<Longrightarrow> Q a s) \<Longrightarrow> (\<And>s e. P s \<Longrightarrow> g s = Inl e \<Longrightarrow> E e s) \<Longrightarrow> triple P (liftE g) Q E"
  by (auto simp: triple_def liftE_def split: sum.split)

lemma triple_modifyE: "(\<And>s. P s \<Longrightarrow> Q () (f s)) \<Longrightarrow> triple P (modifyE f) Q E"
  by (simp add: triple_def modifyE_def)

lemma triple_if:
  "(b \<Longrightarrow> triple P m Q E) \<Longrightarrow> (\<not> b \<Longrightarrow> triple P n Q E) \<Longrightarrow> triple P (if b then m else n) Q E"
  by simp

text \<open>An action that inspects the state first.\<close>

lemma triple_at: "(\<And>s0. P s0 \<Longrightarrow> triple (\<lambda>s. s = s0) (m s0) Q E) \<Longrightarrow> triple P (\<lambda>s. m s s) Q E"
  by (simp add: triple_def)

lemma triple_forE:
  assumes "\<And>x. x \<in> set xs \<Longrightarrow> triple P (f x) (\<lambda>_. P) E"
  shows "triple P (forE f xs) (\<lambda>_. P) E"
  using assms
proof (induction xs)
  case (Cons x xs)
  have "forE f (x # xs) = bindE (f x) (\<lambda>_. forE f xs)" by (rule ext) (simp add: bindE_def)
  then show ?case using Cons by (auto intro: triple_bindE)
qed (auto simp: triple_def)

lemma preserves_triple: "preserves P m \<longleftrightarrow> triple P m (\<lambda>_. P) (\<lambda>_. P)"
  by (auto simp: preserves_def triple_def split: prod.splits sum.splits) (metis prod.collapse)

lemma triple_preserves: "preserves P m \<Longrightarrow> triple P m (\<lambda>_. P) (\<lambda>_. P)"
  by (simp add: preserves_triple)

lemma triple_conj:
  assumes "triple P m Q E" and "triple P' m Q' E'"
  shows "triple (\<lambda>s. P s \<and> P' s) m (\<lambda>a s. Q a s \<and> Q' a s) (\<lambda>e s. E e s \<and> E' e s)"
  using assms by (fastforce simp: triple_def split: prod.splits sum.splits)

lemma triple_ex: "(\<And>a. triple (P a) m Q E) \<Longrightarrow> triple (\<lambda>s. \<exists>a. P a s) m Q E"
  by (force simp: triple_def)

lemma triple_fact: "(A \<Longrightarrow> triple P m Q E) \<Longrightarrow> triple (\<lambda>s. A \<and> P s) m Q E"
  by (cases A) (simp_all add: triple_def)

lemma triple_case: "triple P m Q E \<Longrightarrow> P s \<Longrightarrow> (case m s of (Inl e, s') \<Rightarrow> E e s' | (Inr a, s') \<Rightarrow> Q a s')"
  by (simp add: triple_def)

lemma triple_snd: "triple P m (\<lambda>_. Q) (\<lambda>_. Q) \<Longrightarrow> P s \<Longrightarrow> Q (snd (m s))"
  by (cases "m s"; cases "fst (m s)") (auto simp: triple_def)

section \<open>Inversion of successful runs\<close>

lemma bindE_InrE:
  assumes "bindE m f s = (Inr b, s')"
  obtains a t where "m s = (Inr a, t)" and "f a t = (Inr b, s')"
  using assms by (auto simp: bindE_def split: prod.splits sum.splits)

lemma run_Inr:
  "liftE g s = (Inr a, s') \<longleftrightarrow> g s = Inr a \<and> s' = s" "retE x s = (Inr a, s') \<longleftrightarrow> x = a \<and> s' = s"
  "failE e s = (Inr a, s') \<longleftrightarrow> False" "modifyE h s = (Inr u, s') \<longleftrightarrow> s' = h s"
  by (auto simp: liftE_def retE_def failE_def modifyE_def)

end
