(* ===== verification/Wt_World.thy ===== *)
theory Wt_World
  imports Ks_File Tx_Serial Go_Fs Go_Triple
begin

text \<open>
  The state of the wallet process: the accounts of \<open>src/account.go\<close>, the maps of the account manager of
  \<open>src/acctmgr.go\<close>, the schedule of the disk syncer of \<open>src/disksync.go\<close>, the connection to the chain server of
  \<open>src/rpcclient.go\<close> and \<open>src/cmd.go\<close>, and the files.

  Pointers. An \<open>*Account\<close> is a position of the list \<open>w_accts\<close>. The account manager answers lookups and marks in a
  goroutine that only guards two maps; a lookup is a read and a mark an update of the world.

  A transaction that the account manager inserts into several stores is one \<open>*btcutil.Tx\<close>. Stores hold transactions by
  value, so \<open>w_shared\<close> lists which records of which accounts share one, and \<open>sharedTxs\<close> carries a change of its only
  mutable field, the block index, over to the others.

  What leaves the process is recorded: \<open>w_notices\<close> are the notifications broadcast to wallet clients, \<open>w_requests\<close>
  the requests sent to the chain server, \<open>w_jobs\<close> the jobs handed to the rescan manager, newest last.

  Third-party code. \<open>wenv\<close> collects the operations of \<open>btcutil\<close>, \<open>btcscript\<close>, \<open>btcwire\<close> and the answers of the chain
  server, beside the libraries of the two stores, the operating system and the configuration. Answers of the chain
  server and of the clock have as first argument the count of interactions.
\<close>

section \<open>Library types and operations\<close>

text \<open>The kinds of \<open>btcutil.Address\<close>.\<close>

datatype btcutilAddress =
    AddressPubKeyHash Address
  | AddressScriptHash Address
  | AddressPubKey Address

fun rawAddress :: "btcutilAddress \<Rightarrow> Address" where
  "rawAddress (AddressPubKeyHash a) = a"
| "rawAddress (AddressScriptHash a) = a"
| "rawAddress (AddressPubKey a) = a"

text \<open>Requests to the chain server and notifications to wallet clients.\<close>

datatype request =
    NotifyReceived "btcutilAddress list"
  | NotifySpent "OutPoint list"
  | NotifyBlocks
  | SendRawTransaction MsgTx
  | Rescan i32 "btcutilAddress list" "OutPoint list"

record ListTransactionsResult =
  ltr_Account :: bytes
  ltr_Address :: string
  ltr_Category :: string
  ltr_Amount :: Amount
  ltr_Fee :: Amount
  ltr_Confirmations :: i64
  ltr_BlockHash :: "ShaHash option"
  ltr_BlockIndex :: i64
  ltr_BlockTime :: i64
  ltr_TxID :: ShaHash
  ltr_Time :: i64

datatype notice =
    WalletLockState bytes bool
  | AccountBalance string Amount bool
  | NewTx bytes ListTransactionsResult
  | NewBlockChainHeight BlockStamp
  | BlockConnected "256 word" i32
  | BlockDisconnected "256 word" i32
  | BtcdConnected bool

record wenv =
  e_ks :: kslib
  e_btc :: btcparams
  e_tx :: txlib
  e_os :: oslib
  activeNet :: netParams
  NetName :: string
  DataDir :: path
  SatoshiPerBitcent :: i64
  SatoshiPerBitcoin :: int
  MaxSatoshi :: i64
  TxVersion :: i32
  MaxTxInSequenceNum :: u32
  KeypoolSize :: nat
  DisallowFree :: bool
  SigHashAll :: byte
  SigHashNone :: byte
  SigHashSingle :: byte
  SigHashAnyOneCanPay :: byte
  MultiSigTy :: nat
  ClassString :: "nat \<Rightarrow> string"
  IsForNet :: "btcutilAddress \<Rightarrow> netParams \<Rightarrow> bool"
  NewShaHashFromStr :: "string \<Rightarrow> err + ShaHash"
  NewAddressPubKey :: "bytes \<Rightarrow> netParams \<Rightarrow> err + btcutilAddress"
  NewAddressScriptHash :: "bytes \<Rightarrow> netParams \<Rightarrow> err + btcutilAddress"
  MultiSigScript :: "btcutilAddress list \<Rightarrow> i64 \<Rightarrow> err + bytes"
  DecodeWIF :: "string \<Rightarrow> err + WIF"
  WifIsForNet :: "WIF \<Rightarrow> netParams \<Rightarrow> bool"
  SignCompact :: "nat \<Rightarrow> nat \<Rightarrow> bytes \<Rightarrow> bool \<Rightarrow> err + bytes"
  RecoverCompact :: "bytes \<Rightarrow> bytes \<Rightarrow> err + (PublicKey \<times> bool)"
  EncodeAddress :: "btcutilAddress \<Rightarrow> string"
  DecodeAddress :: "string \<Rightarrow> err + btcutilAddress"
  PayToAddrScript :: "btcutilAddress \<Rightarrow> err + bytes"
  PkScriptAddrs :: "bytes \<Rightarrow> netParams \<Rightarrow> btcutilAddress list"
  IsPubKeyHashTy :: "bytes \<Rightarrow> bool"
  SignScript :: "nat \<Rightarrow> MsgTx \<Rightarrow> nat \<Rightarrow> bytes \<Rightarrow> nat \<Rightarrow> bool \<Rightarrow> err + bytes"
  NewScript :: "bytes \<Rightarrow> bytes \<Rightarrow> nat \<Rightarrow> MsgTx \<Rightarrow> bool \<Rightarrow> err + unit"
  Execute :: "bytes \<Rightarrow> bytes \<Rightarrow> nat \<Rightarrow> MsgTx \<Rightarrow> bool \<Rightarrow> err + unit"
  BtcEncode :: "MsgTx \<Rightarrow> err + bytes"
  EncodeWIF :: "nat \<Rightarrow> netParams \<Rightarrow> bool \<Rightarrow> string"
  GetBestBlock :: "nat \<Rightarrow> err + BlockStamp"
  GetBlock :: "nat \<Rightarrow> 256 word \<Rightarrow> err + i64"
  GetBlockHash :: "nat \<Rightarrow> i64 \<Rightarrow> err + ShaHash"
  GetRawTransaction :: "nat \<Rightarrow> ShaHash \<Rightarrow> err + MsgTx"
  GetInfo :: "nat \<Rightarrow> err + bytes"
  GetCurrentNet :: "nat \<Rightarrow> err + u32"
  Reply :: "nat \<Rightarrow> request \<Rightarrow> err + ShaHash"
  Rng :: "nat \<Rightarrow> nat"
  Bip16Active :: "nat \<Rightarrow> bool"
  Now :: "nat \<Rightarrow> Time"

section \<open>The world\<close>

record Account =
  acct_name :: string
  KeyStore :: KStore
  TxStore :: Store
  lockedOutpoints :: "(OutPoint, unit) gomap"
  FeeIncrement :: Amount

type_synonym acref = nat

record RescanJob =
  job_Addresses :: "(acref, btcutilAddress list) gomap"
  job_OutPoints :: "OutPoint list"
  job_StartHeight :: i32

record syncSchedule =
  sched_wallets :: "(acref, unit) gomap"
  sched_txs :: "(acref, unit) gomap"

record World =
  w_accts :: "Account list"
  nameToAccount :: "(string, acref) gomap"
  addressToAccount :: "(string, acref) gomap"
  w_client :: "BlockStamp option"
  w_schedule :: syncSchedule
  w_timer :: bool
  w_fs :: fs
  w_notices :: "notice list"
  w_requests :: "request list"
  w_jobs :: "RescanJob list"
  w_shared :: "(acref \<times> rref) list list"
  w_unlocked :: bool
  w_timeout :: bool
  w_events :: nat

type_synonym 'a wact = "(World, err, 'a) act"

abbreviation acct :: "World \<Rightarrow> acref \<Rightarrow> Account" where
  "acct w a \<equiv> w_accts w ! a"

definition defaultFeeIncrement :: Amount where
  "defaultFeeIncrement = 10000"

definition newAccount :: "string \<Rightarrow> KStore \<Rightarrow> Store \<Rightarrow> Account" where
  "newAccount name keys tstore = \<lparr>acct_name = name, KeyStore = keys, TxStore = tstore, lockedOutpoints = [],
     FeeIncrement = defaultFeeIncrement\<rparr>"

section \<open>Actions on a part of the state\<close>

definition zoom :: "('w \<Rightarrow> 's) \<Rightarrow> ('s \<Rightarrow> 'w \<Rightarrow> 'w) \<Rightarrow> ('s, 'e, 'a) act \<Rightarrow> ('w, 'e, 'a) act" where
  "zoom get put m w = (case m (get w) of (r, s) \<Rightarrow> (r, put s w))"

definition putAcct :: "acref \<Rightarrow> Account \<Rightarrow> World \<Rightarrow> World" where
  "putAcct a x w = w\<lparr>w_accts := (w_accts w)[a := x]\<rparr>"

definition onAcct :: "acref \<Rightarrow> (Account, err, 'a) act \<Rightarrow> 'a wact" where
  "onAcct a = zoom (\<lambda>w. acct w a) (putAcct a)"

definition onKeys :: "acref \<Rightarrow> 'a ksact \<Rightarrow> 'a wact" where
  "onKeys a m = onAcct a (zoom KeyStore (\<lambda>s x. x\<lparr>KeyStore := s\<rparr>) m)"

definition onTxs :: "acref \<Rightarrow> 'a storeact \<Rightarrow> 'a wact" where
  "onTxs a m = onAcct a (zoom TxStore (\<lambda>s x. x\<lparr>TxStore := s\<rparr>) m)"

definition syncShared :: "acref \<Rightarrow> World \<Rightarrow> World" where
  "syncShared a w = fold (\<lambda>(r, group) w.
       fold (\<lambda>(b, q) w. if b = a then w
         else putAcct b ((acct w b)\<lparr>TxStore := SetIndex q (recIndex (TxStore (acct w a)) r) (TxStore (acct w b))\<rparr>) w) group w)
     (concat (map (\<lambda>group. map (\<lambda>e. (snd e, group)) (filter (\<lambda>e. fst e = a) group)) (w_shared w))) w"

definition sharedTxs :: "acref \<Rightarrow> 'a storeact \<Rightarrow> 'a wact" where
  "sharedTxs a m w = (case onTxs a m w of (res, w') \<Rightarrow> (res, syncShared a w'))"

definition onFs :: "'a fsact \<Rightarrow> 'a wact" where
  "onFs = zoom w_fs (\<lambda>s w. w\<lparr>w_fs := s\<rparr>)"

text \<open>The next answer of the environment.\<close>

definition ask :: "(nat \<Rightarrow> 'a) \<Rightarrow> 'a wact" where
  "ask f w = (Inr (f (w_events w)), w\<lparr>w_events := Suc (w_events w)\<rparr>)"

definition askE :: "(nat \<Rightarrow> err + 'a) \<Rightarrow> 'a wact" where
  "askE f w = (f (w_events w), w\<lparr>w_events := Suc (w_events w)\<rparr>)"

text \<open>Wrapping an error: \<open>fmt.Errorf("...: %v", err)\<close>. A panic is not an error and stays one.\<close>

definition orFail :: "err \<Rightarrow> ('s, err, 'a) act \<Rightarrow> ('s, err, 'a) act" where
  "orFail e m s = (case m s of
     (Inl e', s') \<Rightarrow> (Inl (if isPanic e' then e' else e), s')
   | (Inr a, s') \<Rightarrow> (Inr a, s'))"

text \<open>An error that is logged and dropped.\<close>

definition logged :: "('s, err, 'a) act \<Rightarrow> ('s, err, unit) act" where
  "logged m s = (case m s of
     (Inl e, s') \<Rightarrow> (if isPanic e then Inl e else Inr (), s')
   | (Inr _, s') \<Rightarrow> (Inr (), s'))"

text \<open>Calls to a method of a nil interface or pointer panic.\<close>

definition deref :: "'a option \<Rightarrow> ('s, err, 'a) act" where
  "deref x = (case x of None \<Rightarrow> failE nil_panic | Some a \<Rightarrow> retE a)"

section \<open>The chain server\<close>

definition accessClient :: "BlockStamp wact" where
  "accessClient = liftE (\<lambda>w. case w_client w of
     None \<Rightarrow> Inl (ErrorString ''chain server disconnected'')
   | Some c \<Rightarrow> Inr c)"

text \<open>\<open>rpcClient.BlockStamp\<close>: the last block seen, asked for once if there was none (height \<open>-1\<close>).\<close>

definition client_BlockStamp :: "wenv \<Rightarrow> BlockStamp wact" where
  "client_BlockStamp env = bindE accessClient (\<lambda>c.
     if bs_Height c \<noteq> - 1 then retE c
     else bindE (askE (GetBestBlock env)) (\<lambda>bs.
       bindE (modifyE (\<lambda>w. w\<lparr>w_client := Some bs\<rparr>)) (\<lambda>_. retE bs)))"

definition send :: "wenv \<Rightarrow> request \<Rightarrow> ShaHash wact" where
  "send env r = bindE (modifyE (\<lambda>w. w\<lparr>w_requests := w_requests w @ [r]\<rparr>)) (\<lambda>_. askE (\<lambda>n. Reply env n r))"

definition notify :: "notice \<Rightarrow> unit wact" where
  "notify n = modifyE (\<lambda>w. w\<lparr>w_notices := w_notices w @ [n]\<rparr>)"

section \<open>The maps of the account manager\<close>

definition AllAccounts :: "World \<Rightarrow> acref list" where
  "AllAccounts w = map snd (nameToAccount w)"

definition am_Account :: "World \<Rightarrow> string \<Rightarrow> err + acref" where
  "am_Account w name = (case map_of (nameToAccount w) name of None \<Rightarrow> Inl ErrNotFound | Some a \<Rightarrow> Inr a)"

definition AccountByAddress :: "wenv \<Rightarrow> World \<Rightarrow> btcutilAddress \<Rightarrow> err + acref" where
  "AccountByAddress env w addr =
     (case map_of (addressToAccount w) (EncodeAddress env addr) of None \<Rightarrow> Inl ErrNotFound | Some a \<Rightarrow> Inr a)"

definition MarkAddressForAccount :: "wenv \<Rightarrow> btcutilAddress \<Rightarrow> acref \<Rightarrow> World \<Rightarrow> World" where
  "MarkAddressForAccount env addr a w =
     w\<lparr>addressToAccount := AList.update (EncodeAddress env addr) a (addressToAccount w)\<rparr>"

end
