(* ===== verification/Wt_Disk.thy ===== *)
theory Wt_Disk
  imports Wt_World
begin

text \<open>
  \<open>src/disksync.go\<close>: the schedule of account files to be written, its flushes, and the batch that replaces all files
  of the network directory. The disk syncer runs the requests one at a time in a goroutine; a request is one action,
  the case of its \<open>select\<close> loop that serves it. Every file is written under a temporary name and renamed.
\<close>

section \<open>Directories and names\<close>

definition networkDir :: "wenv \<Rightarrow> path" where
  "networkDir env = DataDir env @ [if Net (activeNet env) = TestNet3 (e_ks env) then ''testnet'' else NetName env]"

definition tmpNetworkDir :: "wenv \<Rightarrow> path" where
  "tmpNetworkDir env = butlast (networkDir env) @ [last (networkDir env) @ ''_tmp'']"

definition accountFilename :: "string \<Rightarrow> string \<Rightarrow> path \<Rightarrow> path" where
  "accountFilename suff account netdir =
     (if account = [] then netdir @ [suff] else netdir @ [account @ ''-'' @ suff])"

definition checkCreateDir :: "oslib \<Rightarrow> path \<Rightarrow> unit fsact" where
  "checkCreateDir os p s = (case os_Stat os p s of
     (Inl e, s') \<Rightarrow>
       if e = ErrNotExist then orFail (ErrorString ''cannot create directory'') (os_MkdirAll os p) s'
       else (Inl (ErrorString ''error checking directory''), s')
   | (Inr isDir, s') \<Rightarrow>
       if isDir then (Inr (), s') else (Inl (ErrorString ''path is not a directory''), s'))"

text \<open>\<open>os.RemoveAll(name)\<close> is given the bare name, which the operating system takes from the working directory.\<close>

definition freshDir :: "oslib \<Rightarrow> path \<Rightarrow> unit fsact" where
  "freshDir os p =
     bindE (checkCreateDir os p) (\<lambda>_. bindE (os_Readdirnames os p) (\<lambda>names.
       forE (\<lambda>name. os_RemoveAll os (Getwd os @ [name])) names))"

section \<open>Writing the files of an account\<close>

text \<open>The body that \<open>writeWallet\<close> and \<open>writeTxStore\<close> share.\<close>

definition writeVia :: "oslib \<Rightarrow> path \<Rightarrow> path \<Rightarrow> wr \<Rightarrow> unit fsact" where
  "writeVia os dir target w =
     bindE (ioutil_TempFile os dir (last target)) (\<lambda>tmp.
     bindE (writeFile os tmp w) (\<lambda>_.
     bindE (ignoring (syscall os)) (\<lambda>_.
     bindE (ignoring (syscall os)) (\<lambda>_.
       os_Rename os tmp target))))"

definition writeWallet :: "wenv \<Rightarrow> Account \<Rightarrow> path \<Rightarrow> unit fsact" where
  "writeWallet env a dir =
     writeVia (e_os env) dir (accountFilename ''wallet.bin'' (acct_name a) dir) (ks_WriteTo (e_ks env) (KeyStore a))"

definition writeTxStore :: "wenv \<Rightarrow> Account \<Rightarrow> path \<Rightarrow> unit fsact" where
  "writeTxStore env a dir =
     writeVia (e_os env) dir (accountFilename ''tx.bin'' (acct_name a) dir) (Store_WriteTo (e_tx env) (TxStore a))"

definition writeAll :: "wenv \<Rightarrow> path \<Rightarrow> Account \<Rightarrow> unit fsact" where
  "writeAll env dir a = bindE (writeTxStore env a dir) (\<lambda>_. writeWallet env a dir)"

definition batchWriteAccounts :: "wenv \<Rightarrow> Account list \<Rightarrow> path \<Rightarrow> path \<Rightarrow> unit fsact" where
  "batchWriteAccounts env accts tmpdir netdir =
     bindE (freshDir (e_os env) tmpdir) (\<lambda>_.
     bindE (forE (writeAll env tmpdir) accts) (\<lambda>_.
     bindE (os_RemoveAll (e_os env) netdir) (\<lambda>_.
       os_Rename (e_os env) tmpdir netdir)))"

section \<open>The schedule\<close>

definition newSyncSchedule :: syncSchedule where
  "newSyncSchedule = \<lparr>sched_wallets = [], sched_txs = []\<rparr>"

definition updSched :: "(syncSchedule \<Rightarrow> syncSchedule) \<Rightarrow> World \<Rightarrow> World" where
  "updSched f w = w\<lparr>w_schedule := f (w_schedule w)\<rparr>"

definition flushTxs :: "wenv \<Rightarrow> acref \<Rightarrow> unit wact" where
  "flushTxs env a w =
     bindE (onFs (writeTxStore env (acct w a) (networkDir env))) (\<lambda>_.
       modifyE (updSched (\<lambda>s. s\<lparr>sched_txs := AList.delete a (sched_txs s)\<rparr>))) w"

definition flushWallet :: "wenv \<Rightarrow> acref \<Rightarrow> unit wact" where
  "flushWallet env a w =
     bindE (onFs (writeWallet env (acct w a) (networkDir env))) (\<lambda>_.
       modifyE (updSched (\<lambda>s. s\<lparr>sched_wallets := AList.delete a (sched_wallets s)\<rparr>))) w"

definition sched_flushAccount :: "wenv \<Rightarrow> acref \<Rightarrow> unit wact" where
  "sched_flushAccount env a =
     bindE (\<lambda>w. if map_of (sched_txs (w_schedule w)) a \<noteq> None then flushTxs env a w else (Inr (), w)) (\<lambda>_.
       (\<lambda>w. if map_of (sched_wallets (w_schedule w)) a \<noteq> None then flushWallet env a w else (Inr (), w)))"

definition sched_flush :: "wenv \<Rightarrow> unit wact" where
  "sched_flush env =
     bindE (\<lambda>w. forE (\<lambda>e. flushTxs env (fst e)) (sched_txs (w_schedule w)) w) (\<lambda>_.
       (\<lambda>w. forE (\<lambda>e. flushWallet env (fst e)) (sched_wallets (w_schedule w)) w))"

section \<open>The requests of the disk syncer\<close>

definition FlushAccount :: "wenv \<Rightarrow> acref \<Rightarrow> unit wact" where
  "FlushAccount env a = sched_flushAccount env a"

definition ScheduleWalletWrite :: "acref \<Rightarrow> unit wact" where
  "ScheduleWalletWrite a = modifyE (\<lambda>w.
     (updSched (\<lambda>s. s\<lparr>sched_wallets := AList.update a () (sched_wallets s)\<rparr>) w)\<lparr>w_timer := True\<rparr>)"

definition ScheduleTxStoreWrite :: "acref \<Rightarrow> unit wact" where
  "ScheduleTxStoreWrite a = modifyE (\<lambda>w.
     (updSched (\<lambda>s. s\<lparr>sched_txs := AList.update a () (sched_txs s)\<rparr>) w)\<lparr>w_timer := True\<rparr>)"

text \<open>The timer has fired and the account manager is grabbed.\<close>

definition timedFlush :: "wenv \<Rightarrow> unit wact" where
  "timedFlush env = bindE (logged (sched_flush env)) (\<lambda>_. modifyE (\<lambda>w. w\<lparr>w_timer := False\<rparr>))"

definition WriteBatch :: "wenv \<Rightarrow> acref list \<Rightarrow> unit wact" where
  "WriteBatch env as w =
     bindE (onFs (batchWriteAccounts env (map (acct w) as) (tmpNetworkDir env) (networkDir env))) (\<lambda>_.
       modifyE (\<lambda>w. w\<lparr>w_schedule := newSyncSchedule, w_timer := False\<rparr>)) w"

definition ExportAccount :: "wenv \<Rightarrow> Account \<Rightarrow> path \<Rightarrow> unit wact" where
  "ExportAccount env a dir = onFs (writeAll env dir a)"

end
