(* ===== verification/Wt_Json.thy ===== *)
theory Wt_Json
  imports Wt_World
begin

text \<open>
  \<open>src/txstore/json.go\<close>: the categories of credits and the objects that describe a transaction in replies and
  notifications. Amounts are kept as amounts, the argument of \<open>ToUnit\<close>, hashes as hashes, the argument of \<open>String\<close>; a
  block hash that is not set is \<^term>\<open>None\<close>.
\<close>

datatype CreditCategory = CreditReceive | CreditGenerate | CreditImmature

definition Category :: "btcparams \<Rightarrow> Credit \<Rightarrow> i32 \<Rightarrow> CreditCategory" where
  "Category ext c chainHeight =
     (if IsCoinbase (cr_TxRecord c) then
        if Confirmed (cr_TxRecord c) (scast (CoinbaseMaturity ext)) chainHeight then CreditGenerate
        else CreditImmature
      else CreditReceive)"

fun category_String :: "CreditCategory \<Rightarrow> string" where
  "category_String CreditReceive = ''receive''"
| "category_String CreditGenerate = ''generate''"
| "category_String CreditImmature = ''immature''"

text \<open>The single address of a script, if there is exactly one.\<close>

definition soleAddress :: "wenv \<Rightarrow> bytes \<Rightarrow> netParams \<Rightarrow> string" where
  "soleAddress env script net = (case PkScriptAddrs env script net of [a] \<Rightarrow> EncodeAddress env a | _ \<Rightarrow> [])"

definition blankResult :: "bytes \<Rightarrow> string \<Rightarrow> string \<Rightarrow> Amount \<Rightarrow> Amount \<Rightarrow> ShaHash \<Rightarrow> Time \<Rightarrow> ListTransactionsResult" where
  "blankResult account address category amount fee sha received =
     \<lparr>ltr_Account = account, ltr_Address = address, ltr_Category = category, ltr_Amount = amount, ltr_Fee = fee,
      ltr_Confirmations = 0, ltr_BlockHash = None, ltr_BlockIndex = 0, ltr_BlockTime = 0, ltr_TxID = sha,
      ltr_Time = time_sec received\<rparr>"

text \<open>The fields that only a mined transaction has.\<close>

definition withBlock :: "Store \<Rightarrow> TxRecord \<Rightarrow> i32 \<Rightarrow> ListTransactionsResult \<Rightarrow> err + ListTransactionsResult" where
  "withBlock s t chainHeight r =
     (if BlockHeight (tr_key t) = - 1 then Inr r
      else case lookupBlock s (BlockHeight (tr_key t)) of
        Inl e \<Rightarrow> Inl e
      | Inr b \<Rightarrow>
          Inr (r\<lparr>ltr_BlockHash := Some (block_Hash (coll_Block (bget s b))),
            ltr_BlockIndex := recIndex s (tr_rec t),
            ltr_BlockTime := time_sec (block_Time (coll_Block (bget s b))),
            ltr_Confirmations := scast (Confirmations t chainHeight)\<rparr>))"

definition debit_ToJSON ::
    "wenv \<Rightarrow> Store \<Rightarrow> bytes \<Rightarrow> i32 \<Rightarrow> netParams \<Rightarrow> TxRecord \<Rightarrow> err + ListTransactionsResult list" where
  "debit_ToJSON env s account chainHeight net t =
     mapE (\<lambda>txOut. case Fee s t of
         Inl e \<Rightarrow> Inl e
       | Inr fee \<Rightarrow> withBlock s t chainHeight
           (blankResult account (soleAddress env (PkScript txOut) net) ''send'' (- Value txOut) fee
             (recSha s (tr_rec t)) (rec_received (rget s (tr_rec t)))))
       (recTxOuts s (tr_rec t))"

definition credit_ToJSON ::
    "wenv \<Rightarrow> Store \<Rightarrow> bytes \<Rightarrow> i32 \<Rightarrow> netParams \<Rightarrow> Credit \<Rightarrow> err + ListTransactionsResult" where
  "credit_ToJSON env s account chainHeight net c =
     (let t = cr_TxRecord c in
      case TxOutOf s c of
        Inl e \<Rightarrow> Inl e
      | Inr txout \<Rightarrow> withBlock s t chainHeight
          (blankResult account (soleAddress env (PkScript txout) net)
            (category_String (Category (e_btc env) c chainHeight)) (Value txout) 0
            (recSha s (tr_rec t)) (rec_received (rget s (tr_rec t)))))"

definition record_ToJSON ::
    "wenv \<Rightarrow> Store \<Rightarrow> bytes \<Rightarrow> i32 \<Rightarrow> netParams \<Rightarrow> TxRecord \<Rightarrow> err + ListTransactionsResult list" where
  "record_ToJSON env s account chainHeight net t =
     (case (case DebitsOf s t of Inl _ \<Rightarrow> Inr [] | Inr d \<Rightarrow> debit_ToJSON env s account chainHeight net d) of
        Inl e \<Rightarrow> Inl e
      | Inr ds \<Rightarrow>
          map_sum id (\<lambda>cs. ds @ cs) (mapE (credit_ToJSON env s account chainHeight net) (Credits s t)))"

end
