(* ===== verification/Wt_Account.thy ===== *)
theory Wt_Account
  imports Wt_Disk Wt_Json
begin

text \<open>
  \<open>src/account.go\<close>: the methods of an account. A method that only reads is a function of the world; one that writes
  is an action. Errors of the chain server that the code only logs are dropped, and a goroutine that is started and
  not waited for is run at the point where it is started.
\<close>

section \<open>Addresses and strings\<close>

fun walletAddr :: "walletAddress \<Rightarrow> btcutilAddress" where
  "walletAddr (BtcAddr a) = AddressPubKeyHash (a_address a)"
| "walletAddr (ScriptAddr a) = AddressScriptHash (sa_address a)"

definition stringBytes :: "string \<Rightarrow> bytes" where
  "stringBytes s = map (\<lambda>c. of_nat (of_char c)) s"

definition creditAddrs :: "wenv \<Rightarrow> Store \<Rightarrow> Credit \<Rightarrow> err + btcutilAddress list" where
  "creditAddrs env s c = map_sum id (\<lambda>out. PkScriptAddrs env (PkScript out) (activeNet env)) (TxOutOf s c)"

section \<open>Locking\<close>

definition acct_Lock :: "acref \<Rightarrow> unit wact" where
  "acct_Lock a w = (case onKeys a Lock w of
     (Inr _, w') \<Rightarrow> notify (WalletLockState (Name (KeyStore (acct w' a))) True) w'
   | (Inl e, w') \<Rightarrow> if e = ErrLocked then (Inr (), w') else (Inl e, w'))"

definition acct_Unlock :: "wenv \<Rightarrow> acref \<Rightarrow> bytes \<Rightarrow> unit wact" where
  "acct_Unlock env a passphrase =
     bindE (onKeys a (Unlock (e_ks env) passphrase)) (\<lambda>_. \<lambda>w.
       notify (WalletLockState (Name (KeyStore (acct w a))) False) w)"

section \<open>Balances\<close>

text \<open>The loops over all credits with an early return.\<close>

definition allCredits :: "Store \<Rightarrow> Credit list" where
  "allCredits s = concat (map (Credits s) (Records s))"

fun anyE :: "('a \<Rightarrow> 'e + bool) \<Rightarrow> 'a list \<Rightarrow> 'e + bool" where
  "anyE f [] = Inr False"
| "anyE f (x # xs) = (case f x of Inl e \<Rightarrow> Inl e | Inr b \<Rightarrow> if b then Inr True else anyE f xs)"

fun foldE :: "('b \<Rightarrow> 'a \<Rightarrow> 'e + 'b) \<Rightarrow> 'b \<Rightarrow> 'a list \<Rightarrow> 'e + 'b" where
  "foldE f b [] = Inr b"
| "foldE f b (x # xs) = (case f b x of Inl e \<Rightarrow> Inl e | Inr b' \<Rightarrow> foldE f b' xs)"

definition AddressUsed :: "wenv \<Rightarrow> Account \<Rightarrow> Address \<Rightarrow> err + bool" where
  "AddressUsed env x addr =
     anyE (\<lambda>c. map_sum id (\<lambda>as. \<exists>a \<in> set as. ScriptAddress (rawAddress a) = ScriptAddress addr)
       (creditAddrs env (TxStore x) c)) (allCredits (TxStore x))"

definition CalculateBalance :: "wenv \<Rightarrow> acref \<Rightarrow> i64 \<Rightarrow> Amount wact" where
  "CalculateBalance env a confs =
     bindE (client_BlockStamp env) (\<lambda>bs.
       liftE (\<lambda>w. Balance (e_btc env) (TxStore (acct w a)) confs (bs_Height bs)))"

definition addressCredit :: "wenv \<Rightarrow> Store \<Rightarrow> btcutilAddress \<Rightarrow> i64 \<Rightarrow> i32 \<Rightarrow> Amount \<Rightarrow> Credit \<Rightarrow> err + Amount" where
  "addressCredit env s addr confs curHeight bal c =
     (if Confirmed (cr_TxRecord c) confs curHeight then
        case creditAddrs env s c of
          Inl e \<Rightarrow> Inl e
        | Inr addrs \<Rightarrow>
            (case addrs of
               [a] \<Rightarrow> if EncodeAddress env a = EncodeAddress env addr then map_sum id (\<lambda>v. bal + v) (AmountOf s c)
                      else Inr bal
             | _ \<Rightarrow> Inr bal)
      else Inr bal)"

definition CalculateAddressBalance :: "wenv \<Rightarrow> acref \<Rightarrow> btcutilAddress \<Rightarrow> i64 \<Rightarrow> Amount wact" where
  "CalculateAddressBalance env a addr confs =
     bindE (client_BlockStamp env) (\<lambda>bs. liftE (\<lambda>w.
       let s = TxStore (acct w a) in
       case UnspentOutputs s of
         Inl e \<Rightarrow> Inl e
       | Inr us \<Rightarrow> foldE (addressCredit env s addr confs (bs_Height bs)) 0 us))"

definition receivedCredit :: "Store \<Rightarrow> i64 \<Rightarrow> i32 \<Rightarrow> Amount \<Rightarrow> Credit \<Rightarrow> err + Amount" where
  "receivedCredit s confs curHeight amount c =
     (case Change s c of
        Inl e \<Rightarrow> Inl e
      | Inr b \<Rightarrow>
          if \<not> b \<and> Confirmed (cr_TxRecord c) confs curHeight then map_sum id (\<lambda>v. amount + v) (AmountOf s c)
          else Inr amount)"

definition TotalReceived :: "wenv \<Rightarrow> acref \<Rightarrow> i64 \<Rightarrow> Amount wact" where
  "TotalReceived env a confs =
     bindE (client_BlockStamp env) (\<lambda>bs. liftE (\<lambda>w.
       let s = TxStore (acct w a) in foldE (receivedCredit s confs (bs_Height bs)) 0 (allCredits s)))"

section \<open>New addresses\<close>

text \<open>The part that \<open>NewAddress\<close> and \<open>NewChangeAddress\<close> share after the key store has given an address.\<close>

definition publishAddress :: "wenv \<Rightarrow> acref \<Rightarrow> Address \<Rightarrow> btcutilAddress wact" where
  "publishAddress env a addr =
     bindE (ScheduleWalletWrite a) (\<lambda>_.
     bindE (orFail (ErrorString ''account write failed'') (FlushAccount env a)) (\<lambda>_.
     bindE (modifyE (MarkAddressForAccount env (AddressPubKeyHash addr) a)) (\<lambda>_.
     bindE (send env (NotifyReceived [AddressPubKeyHash addr])) (\<lambda>_.
       retE (AddressPubKeyHash addr)))))"

definition NewAddress :: "wenv \<Rightarrow> acref \<Rightarrow> btcutilAddress wact" where
  "NewAddress env a =
     bindE (client_BlockStamp env) (\<lambda>bs.
     bindE (onKeys a (NextChainedAddress (e_ks env) bs (KeypoolSize env))) (publishAddress env a))"

definition NewChangeAddress :: "wenv \<Rightarrow> acref \<Rightarrow> btcutilAddress wact" where
  "NewChangeAddress env a =
     bindE (client_BlockStamp env) (\<lambda>bs.
     bindE (onKeys a (ChangeAddress (e_ks env) bs (KeypoolSize env))) (publishAddress env a))"

definition CurrentAddress :: "wenv \<Rightarrow> acref \<Rightarrow> btcutilAddress wact" where
  "CurrentAddress env a =
     bindE (liftE (\<lambda>w. Inr (LastChainedAddress (KeyStore (acct w a))))) (\<lambda>last.
     bindE (deref last) (\<lambda>addr.
     bindE (liftE (\<lambda>w. AddressUsed env (acct w a) addr)) (\<lambda>used.
       if used then NewAddress env a else retE (AddressPubKeyHash addr))))"

definition RecoverAddresses :: "wenv \<Rightarrow> acref \<Rightarrow> i64 \<Rightarrow> unit wact" where
  "RecoverAddresses env a n =
     bindE (liftE (\<lambda>w. Inr (LastChainedAddress (KeyStore (acct w a))))) (\<lambda>last.
     bindE (deref last) (\<lambda>addr.
     bindE (liftE (\<lambda>w. map_sum id (\<lambda>r. wa_FirstBlock (aget (KeyStore (acct w a)) r))
         (Address_lookup (KeyStore (acct w a)) addr))) (\<lambda>firstBlock.
     bindE (onKeys a (ExtendActiveAddresses (e_ks env) n (KeypoolSize env))) (\<lambda>addrs.
       logged (bindE accessClient (\<lambda>_. send env (Rescan firstBlock (map AddressPubKeyHash addrs) [])))))))"

section \<open>Lists of transactions\<close>

definition jsonOf :: "wenv \<Rightarrow> World \<Rightarrow> acref \<Rightarrow> i32 \<Rightarrow> TxRecord \<Rightarrow> err + ListTransactionsResult list" where
  "jsonOf env w a curHeight = record_ToJSON env (TxStore (acct w a)) (stringBytes (acct_name (acct w a))) curHeight
     (ks_net (KeyStore (acct w a)))"

definition ListSinceBlock :: "wenv \<Rightarrow> World \<Rightarrow> acref \<Rightarrow> i32 \<Rightarrow> i32 \<Rightarrow> i64 \<Rightarrow> err + ListTransactionsResult list" where
  "ListSinceBlock env w a since curBlockHeight minconf =
     map_sum id concat (mapE (jsonOf env w a curBlockHeight)
       (filter (\<lambda>t. \<not> (since \<noteq> - 1 \<and> BlockHeight (tr_key t) \<le>s since) \<and> Confirmed t minconf curBlockHeight)
         (Records (TxStore (acct w a)))))"

text \<open>\<open>for i := len(records) - 1; i >= from && i >= lastLookupIdx; i--\<close>, which indexes below zero when both bounds are
  negative.\<close>

definition listedIdxs :: "nat \<Rightarrow> i64 \<Rightarrow> i64 \<Rightarrow> int list" where
  "listedIdxs n from cnt = rev [max (sint from) (sint (of_nat n - cnt)) .. int n - 1]"

definition ListTransactions :: "wenv \<Rightarrow> acref \<Rightarrow> i64 \<Rightarrow> i64 \<Rightarrow> ListTransactionsResult list wact" where
  "ListTransactions env a from cnt =
     bindE (client_BlockStamp env) (\<lambda>bs. liftE (\<lambda>w.
       let records = Records (TxStore (acct w a)) in
       map_sum id concat (mapE (\<lambda>i. if i < 0 then Inl index_panic else jsonOf env w a (bs_Height bs) (records ! nat i))
         (listedIdxs (length records) from cnt))))"

definition ListAddressTransactions :: "wenv \<Rightarrow> acref \<Rightarrow> bytes list \<Rightarrow> ListTransactionsResult list wact" where
  "ListAddressTransactions env a pkHashes =
     bindE (client_BlockStamp env) (\<lambda>bs. liftE (\<lambda>w.
       let s = TxStore (acct w a) in
       map_sum id concat (mapE (\<lambda>c. case creditAddrs env s c of
           Inl e \<Rightarrow> Inl e
         | Inr addrs \<Rightarrow>
             (case addrs of
                [AddressPubKeyHash apkh] \<Rightarrow>
                  if ScriptAddress apkh \<in> set pkHashes
                  then map_sum id (\<lambda>r. [r]) (credit_ToJSON env s (stringBytes (acct_name (acct w a))) (bs_Height bs)
                    (ks_net (KeyStore (acct w a))) c)
                  else Inr []
              | _ \<Rightarrow> Inr [])) (allCredits s))))"

definition ListAllTransactions :: "wenv \<Rightarrow> acref \<Rightarrow> ListTransactionsResult list wact" where
  "ListAllTransactions env a =
     bindE (client_BlockStamp env) (\<lambda>bs. liftE (\<lambda>w.
       map_sum id concat (mapE (jsonOf env w a (bs_Height bs)) (rev (Records (TxStore (acct w a)))))))"

section \<open>Private keys\<close>

definition ExportPrivKey :: "wenv \<Rightarrow> aref \<Rightarrow> string ksact" where
  "ExportPrivKey env r =
     bindE (PrivKey (e_ks env) r) (\<lambda>pk. liftE (\<lambda>s.
       Inr (EncodeWIF env pk (ks_net s) (wa_Compressed (aget s r)))))"

primrec mapA :: "('x \<Rightarrow> ('s, 'e, 'y) act) \<Rightarrow> 'x list \<Rightarrow> ('s, 'e, 'y list) act" where
  "mapA f [] = retE []"
| "mapA f (x # xs) = bindE (f x) (\<lambda>y. bindE (mapA f xs) (\<lambda>ys. retE (y # ys)))"

definition DumpPrivKeys :: "wenv \<Rightarrow> acref \<Rightarrow> string list wact" where
  "DumpPrivKeys env a = onKeys a (
     bindE (liftE ActiveAddresses) (\<lambda>infos.
     bindE (liftE (\<lambda>s. Inr (filter (\<lambda>r. asBtc (aget s r) \<noteq> None) (map snd infos)))) (\<lambda>keyed.
       mapA (ExportPrivKey env) keyed)))"

definition DumpWIFPrivateKey :: "wenv \<Rightarrow> acref \<Rightarrow> btcutilAddress \<Rightarrow> string wact" where
  "DumpWIFPrivateKey env a addr = onKeys a (
     bindE (liftE (\<lambda>s. Address_lookup s (rawAddress addr))) (\<lambda>r.
     bindE (liftE (\<lambda>s. case asBtc (aget s r) of
         None \<Rightarrow> Inl (ErrorString ''address is not a key type'')
       | Some _ \<Rightarrow> Inr ())) (\<lambda>_.
       ExportPrivKey env r)))"

definition acct_ImportPrivateKey :: "wenv \<Rightarrow> acref \<Rightarrow> WIF \<Rightarrow> BlockStamp \<Rightarrow> bool \<Rightarrow> string wact" where
  "acct_ImportPrivateKey env a wif bs rescan =
     bindE (onKeys a (ImportPrivateKey (e_ks env) wif bs)) (\<lambda>addr.
     bindE (ScheduleWalletWrite a) (\<lambda>_.
     bindE (orFail (ErrorString ''cannot write account'') (FlushAccount env a)) (\<lambda>_.
     bindE (modifyE (\<lambda>w. if rescan
         then w\<lparr>w_jobs := w_jobs w @ [\<lparr>job_Addresses = [(a, [AddressPubKeyHash addr])], job_OutPoints = [],
           job_StartHeight = 0\<rparr>]\<rparr>
         else w)) (\<lambda>_.
     bindE (modifyE (MarkAddressForAccount env (AddressPubKeyHash addr) a)) (\<lambda>_.
       retE (EncodeAddress env (AddressPubKeyHash addr)))))))"

section \<open>Exports\<close>

definition ExportToDirectory :: "wenv \<Rightarrow> Account \<Rightarrow> string \<Rightarrow> unit wact" where
  "ExportToDirectory env x dirBaseName =
     (let dir = networkDir env @ [dirBaseName] in
      bindE (onFs (checkCreateDir (e_os env) dir)) (\<lambda>_. ExportAccount env x dir))"

definition acct_ExportWatchingWallet :: "Account \<Rightarrow> err + Account" where
  "acct_ExportWatchingWallet x = map_sum id (\<lambda>ww. x\<lparr>KeyStore := ww\<rparr>) (ExportWatchingWallet (KeyStore x))"

text \<open>\<open>base64.StdEncoding\<close>\<close>

definition base64Char :: "nat \<Rightarrow> char" where
  "base64Char n =
     (if n < 26 then char_of (65 + n) else if n < 52 then char_of (71 + n)
      else if n < 62 then char_of (n - 4) else if n = 62 then CHR ''+'' else CHR ''/'')"

fun base64 :: "bytes \<Rightarrow> string" where
  "base64 [] = []"
| "base64 [a] = (let x = unat a in
     [base64Char (x div 4), base64Char (x mod 4 * 16), CHR ''='', CHR ''=''])"
| "base64 [a, b] = (let x = unat a; y = unat b in
     [base64Char (x div 4), base64Char (x mod 4 * 16 + y div 16), base64Char (y mod 16 * 4), CHR ''=''])"
| "base64 (a # b # c # bs) = (let x = unat a; y = unat b; z = unat c in
     [base64Char (x div 4), base64Char (x mod 4 * 16 + y div 16), base64Char (y mod 16 * 4 + z div 64),
      base64Char (z mod 64)] @ base64 bs)"

definition exportBase64 :: "wenv \<Rightarrow> Account \<Rightarrow> err + (string, string) gomap" where
  "exportBase64 env x =
     (case ks_WriteTo (e_ks env) (KeyStore x) ([], None) of
        (Inl e, _) \<Rightarrow> Inl e
      | (Inr _, (kbs, _)) \<Rightarrow>
          (case Store_WriteTo (e_tx env) (TxStore x) ([], None) of
             (Inl e, _) \<Rightarrow> Inl e
           | (Inr _, (tbs, _)) \<Rightarrow> Inr [(''wallet'', base64 kbs), (''tx'', base64 tbs)]))"

section \<open>Locked outpoints\<close>

definition LockedOutpoint :: "Account \<Rightarrow> OutPoint \<Rightarrow> bool" where
  "LockedOutpoint x op \<longleftrightarrow> map_of (lockedOutpoints x) op \<noteq> None"

definition LockOutpoint :: "OutPoint \<Rightarrow> Account \<Rightarrow> Account" where
  "LockOutpoint op x = x\<lparr>lockedOutpoints := AList.update op () (lockedOutpoints x)\<rparr>"

definition UnlockOutpoint :: "OutPoint \<Rightarrow> Account \<Rightarrow> Account" where
  "UnlockOutpoint op x = x\<lparr>lockedOutpoints := AList.delete op (lockedOutpoints x)\<rparr>"

definition ResetLockedOutpoints :: "Account \<Rightarrow> Account" where
  "ResetLockedOutpoints x = x\<lparr>lockedOutpoints := []\<rparr>"

definition LockedOutpoints :: "Account \<Rightarrow> OutPoint list" where
  "LockedOutpoints x = map fst (lockedOutpoints x)"

section \<open>Tracking\<close>

definition ReqSpentUtxoNtfns :: "wenv \<Rightarrow> acref \<Rightarrow> Credit list \<Rightarrow> unit wact" where
  "ReqSpentUtxoNtfns env a credits =
     bindE (liftE (\<lambda>w. Inr (map (OutPointOf (TxStore (acct w a))) credits))) (\<lambda>ops.
       logged (bindE accessClient (\<lambda>_. send env (NotifySpent ops))))"

definition acct_Track :: "wenv \<Rightarrow> acref \<Rightarrow> unit wact" where
  "acct_Track env a w = (if w_client w = None then (Inr (), w) else
     bindE (liftE (\<lambda>w. map_sum id (\<lambda>m. map (\<lambda>e. walletAddr (aget (KeyStore (acct w a)) (snd e))) m)
         (ActiveAddresses (KeyStore (acct w a))))) (\<lambda>addrs.
     bindE (logged (send env (NotifyReceived addrs))) (\<lambda>_. \<lambda>w.
       case UnspentOutputs (TxStore (acct w a)) of
         Inl e \<Rightarrow> (if isPanic e then Inl e else Inr (), w)
       | Inr us \<Rightarrow> ReqSpentUtxoNtfns env a us w)) w)"

definition RescanActiveJob :: "World \<Rightarrow> acref \<Rightarrow> err + RescanJob" where
  "RescanActiveJob w a =
     (let ks = KeyStore (acct w a); s = TxStore (acct w a) in
      case SortedActiveAddresses ks of
        Inl e \<Rightarrow> Inl e
      | Inr actives \<Rightarrow>
          map_sum id (\<lambda>us. \<lparr>job_Addresses = [(a, map (\<lambda>r. walletAddr (aget ks r)) actives)],
              job_OutPoints = map (OutPointOf s) us, job_StartHeight = SyncHeight ks\<rparr>)
            (UnspentOutputs s))"

definition acct_ResendUnminedTxs :: "wenv \<Rightarrow> acref \<Rightarrow> unit wact" where
  "acct_ResendUnminedTxs env a w = (if w_client w = None then (Inr (), w) else
     forE (\<lambda>tx. logged (send env (SendRawTransaction (TxMsg tx)))) (UnminedDebitTxs (TxStore (acct w a))) w)"

definition SortedActivePaymentAddresses :: "wenv \<Rightarrow> Account \<Rightarrow> err + string list" where
  "SortedActivePaymentAddresses env x =
     map_sum id (map (\<lambda>r. EncodeAddress env (walletAddr (aget (KeyStore x) r)))) (SortedActiveAddresses (KeyStore x))"

definition ActivePaymentAddresses :: "wenv \<Rightarrow> Account \<Rightarrow> err + string list" where
  "ActivePaymentAddresses env x =
     map_sum id (\<lambda>m. remdups (map (\<lambda>e. EncodeAddress env (walletAddr (aget (KeyStore x) (snd e)))) m))
       (ActiveAddresses (KeyStore x))"

end
