(* ===== verification/Wt_CreateTx.thy ===== *)
theory Wt_CreateTx
  imports Complex_Main "HOL-Library.Log_Nat" Wt_Account
begin

text \<open>
  \<open>src/createtx.go\<close>: the creation of a transaction that pays to a set of addresses. Inputs are chosen from the
  eligible unspent outputs in descending order of amount; the fee starts at zero and is raised to the minimum fee of
  the transaction just built until it is enough. A round that raises the fee starts over, so the loop is a recursion
  on the fee, which grows as a signed 64-bit number and so must end.

  Arithmetic of \<open>float64\<close> is exact arithmetic of rationals followed by \<open>fl\<close>, rounding to 53 significant bits with ties
  to even; no value here leaves the range of normal numbers.
\<close>

section \<open>Floating point\<close>

definition roundEven :: "rat \<Rightarrow> int" where
  "roundEven x =
     (let q = \<lfloor>x\<rfloor>; r = x - of_int q in
      if r < 1 / 2 then q else if r > 1 / 2 then q + 1 else if even q then q else q + 1)"

text \<open>The exponent of the greatest power of two below a positive number.\<close>

definition expo :: "rat \<Rightarrow> int" where
  "expo x = (if 1 \<le> x then int (floorlog 2 (nat \<lfloor>x\<rfloor>)) - 1 else - int (floorlog 2 (nat (\<lceil>1 / x\<rceil> - 1))))"

definition fl :: "rat \<Rightarrow> rat" where
  "fl x = (if x = 0 then 0 else
     let u = 2 powi (expo \<bar>x\<bar> - 52) in of_int (roundEven (x / u)) * u)"

section \<open>Fees\<close>

definition chainDepth :: "i32 \<Rightarrow> i32 \<Rightarrow> i32" where
  "chainDepth target current = (if target = - 1 then 0 else current - target + 1)"

definition weigh :: "Store \<Rightarrow> i32 \<Rightarrow> i64 \<Rightarrow> Credit \<Rightarrow> err + i64" where
  "weigh s curHeight weightedSum c =
     map_sum id (\<lambda>v. weightedSum + v * scast (chainDepth (BlockHeight (tr_key (cr_TxRecord c))) curHeight)) (AmountOf s c)"

text \<open>A division by a size of zero gives an infinity or not-a-number.\<close>

definition priorityReached :: "wenv \<Rightarrow> i64 \<Rightarrow> nat \<Rightarrow> bool" where
  "priorityReached env weightedSum txSize =
     (if txSize = 0 then 0 < sint weightedSum
      else fl (of_int (SatoshiPerBitcoin env * 144) / 250) <
           fl (fl (of_int (sint weightedSum)) / fl (of_nat txSize)))"

definition allowFree :: "wenv \<Rightarrow> Store \<Rightarrow> i32 \<Rightarrow> Credit list \<Rightarrow> nat \<Rightarrow> err + bool" where
  "allowFree env s curHeight txouts txSize =
     map_sum id (\<lambda>sum. priorityReached env sum txSize) (foldE (weigh s curHeight) 0 txouts)"

definition minimumFee :: "wenv \<Rightarrow> Amount \<Rightarrow> MsgTx \<Rightarrow> bool \<Rightarrow> Amount" where
  "minimumFee env incr tx free =
     (let txLen = tx_SerializeSize (e_tx env) tx;
          fee = (if free \<and> txLen < 1000 then 0 else of_nat (1 + txLen div 1000) * incr) in
      if fee <s incr \<and> (\<exists>o' \<in> set (TxOuts tx). Value o' <s SatoshiPerBitcent env) then incr
      else if fee <s 0 \<or> MaxSatoshi env <s fee then MaxSatoshi env
      else fee)"

section \<open>Inputs\<close>

fun selectLoop :: "Store \<Rightarrow> Amount \<Rightarrow> Credit list \<Rightarrow> Amount \<Rightarrow> Credit list \<Rightarrow> err + (bool \<times> Credit list \<times> Amount)" where
  "selectLoop s target selected out [] = Inr (False, selected, out)"
| "selectLoop s target selected out (e # es) =
     (case AmountOf s e of
        Inl x \<Rightarrow> Inl x
      | Inr v \<Rightarrow>
          if target \<le>s out + v then Inr (True, selected @ [e], out + v)
          else selectLoop s target (selected @ [e]) (out + v) es)"

definition selectInputs :: "Store \<Rightarrow> Credit list \<Rightarrow> Amount \<Rightarrow> Amount \<Rightarrow> err + (Credit list \<times> Amount)" where
  "selectInputs s eligible amt fee =
     (case selectLoop s (amt + fee) [] 0 eligible of
        Inl e \<Rightarrow> Inl e
      | Inr (enough, selected, out) \<Rightarrow>
          if enough then Inr (selected, out)
          else if out <s amt + fee then Inl (InsufficientFunds out amt fee)
          else Inr (selected, out))"

definition isEligible :: "wenv \<Rightarrow> Account \<Rightarrow> i64 \<Rightarrow> i32 \<Rightarrow> Credit \<Rightarrow> err + bool" where
  "isEligible env x minconf curHeight c =
     map_sum id (\<lambda>out.
       IsPubKeyHashTy env (PkScript out) \<and>
       Confirmed (cr_TxRecord c) minconf curHeight \<and>
       (IsCoinbase (cr_TxRecord c) \<longrightarrow> Confirmed (cr_TxRecord c) (scast (CoinbaseMaturity (e_btc env))) curHeight) \<and>
       \<not> LockedOutpoint x (OutPointOf (TxStore x) c)) (TxOutOf (TxStore x) c)"

definition eligibleInputs :: "wenv \<Rightarrow> Account \<Rightarrow> i64 \<Rightarrow> i32 \<Rightarrow> Credit list \<Rightarrow> err + Credit list" where
  "eligibleInputs env x minconf curHeight us =
     map_sum id concat (mapE (\<lambda>c. map_sum id (\<lambda>b. if b then [c] else []) (isEligible env x minconf curHeight c)) us)"

text \<open>\<open>sort.Sort(sort.Reverse(ByAmount(eligible)))\<close>: every eligible credit has an output, so \<open>Amount\<close> does not panic
  here.\<close>

definition amountOr0 :: "Store \<Rightarrow> Credit \<Rightarrow> Amount" where
  "amountOr0 s c = (case AmountOf s c of Inl _ \<Rightarrow> 0 | Inr v \<Rightarrow> v)"

definition byAmountDesc :: "Store \<Rightarrow> Credit list \<Rightarrow> Credit list" where
  "byAmountDesc s = go_sort (\<lambda>a b. amountOr0 s b <s amountOr0 s a)"

section \<open>Outputs\<close>

fun pairsTotal :: "Amount \<Rightarrow> (string \<times> Amount) list \<Rightarrow> err + Amount" where
  "pairsTotal amt [] = Inr amt"
| "pairsTotal amt (p # ps) = (if snd p \<le>s 0 then Inl ErrNonPositiveAmount else pairsTotal (amt + snd p) ps)"

definition payOutput :: "wenv \<Rightarrow> string \<times> Amount \<Rightarrow> err + TxOut" where
  "payOutput env p =
     (case DecodeAddress env (fst p) of
        Inl e \<Rightarrow> Inl (ErrorString ''cannot decode address'')
      | Inr addr \<Rightarrow>
          (case PayToAddrScript env addr of
             Inl e \<Rightarrow> Inl (ErrorString ''cannot create txout script'')
           | Inr script \<Rightarrow> Inr \<lparr>Value = snd p, PkScript = script\<rparr>))"

definition swapAt :: "nat \<Rightarrow> nat \<Rightarrow> 'a list \<Rightarrow> 'a list" where
  "swapAt i j xs = xs[i := xs ! j, j := xs ! i]"

text \<open>\<open>rng.Int31n(int32(n))\<close>, which panics unless its argument is positive.\<close>

definition rngInt31n :: "wenv \<Rightarrow> nat \<Rightarrow> nat wact" where
  "rngInt31n env n =
     (let k = sint (of_nat n :: i32) in
      if k \<le> 0 then failE (Panic ''invalid argument to Int31n'')
      else bindE (ask (Rng env)) (\<lambda>r. retE (r mod nat k)))"

text \<open>A change address is made once and then reused.\<close>

definition changeAddress :: "wenv \<Rightarrow> acref \<Rightarrow> BlockStamp \<Rightarrow> btcutilAddress option \<Rightarrow> btcutilAddress wact" where
  "changeAddress env a bs changeAddr = (case changeAddr of
     Some addr \<Rightarrow> retE addr
   | None \<Rightarrow>
       bindE (orFail (ErrorString ''failed to get next address'')
         (onKeys a (ChangeAddress (e_ks env) bs (KeypoolSize env)))) (\<lambda>raw.
       bindE (modifyE (MarkAddressForAccount env (AddressPubKeyHash raw) a)) (\<lambda>_.
         retE (AddressPubKeyHash raw))))"

definition appendChange :: "wenv \<Rightarrow> Amount \<Rightarrow> TxOut list \<Rightarrow> btcutilAddress \<Rightarrow> (btcutilAddress option \<times> TxOut list) wact" where
  "appendChange env change outs addr = (case PayToAddrScript env addr of
     Inl e \<Rightarrow> failE (ErrorString ''cannot create txout script'')
   | Inr script \<Rightarrow>
       let outs' = outs @ [\<lparr>Value = change, PkScript = script\<rparr>] in
       bindE (rngInt31n env (length outs')) (\<lambda>r.
         retE (Some addr, swapAt r (length outs' - 1) outs')))"

definition addChange :: "wenv \<Rightarrow> acref \<Rightarrow> BlockStamp \<Rightarrow> Amount \<Rightarrow> btcutilAddress option \<Rightarrow> TxOut list \<Rightarrow>
    (btcutilAddress option \<times> TxOut list) wact" where
  "addChange env a bs change changeAddr outs =
     (if change \<le>s 0 then retE (changeAddr, outs)
      else bindE (changeAddress env a bs changeAddr) (appendChange env change outs))"

section \<open>Signing\<close>

definition newTxIn :: "wenv \<Rightarrow> OutPoint \<Rightarrow> TxIn" where
  "newTxIn env op = \<lparr>PreviousOutpoint = op, SignatureScript = [], Sequence = MaxTxInSequenceNum env\<rparr>"

definition setSigScript :: "nat \<Rightarrow> bytes \<Rightarrow> MsgTx \<Rightarrow> MsgTx" where
  "setSigScript i script m = m\<lparr>TxIns := (TxIns m)[i := (TxIns m ! i)\<lparr>SignatureScript := script\<rparr>]\<rparr>"

definition inputKey :: "wenv \<Rightarrow> acref \<Rightarrow> aref \<Rightarrow> nat wact" where
  "inputKey env a r w = (case onKeys a (PrivKey (e_ks env) r) w of
     (Inl e, w') \<Rightarrow> (Inl (if e = ErrLocked \<or> isPanic e then e else ErrorString ''cannot get address key''), w')
   | (Inr k, w') \<Rightarrow> (Inr k, w'))"

definition signInput :: "wenv \<Rightarrow> acref \<Rightarrow> nat \<Rightarrow> Credit \<Rightarrow> MsgTx \<Rightarrow> MsgTx wact" where
  "signInput env a i c m =
     bindE (liftE (\<lambda>w. creditAddrs env (TxStore (acct w a)) c)) (\<lambda>addrs.
       case addrs of
         [AddressPubKeyHash apkh] \<Rightarrow>
           bindE (orFail (ErrorString ''cannot get address info'')
             (liftE (\<lambda>w. Address_lookup (KeyStore (acct w a)) apkh))) (\<lambda>r.
           bindE (liftE (\<lambda>w. case asBtc (aget (KeyStore (acct w a)) r) of
               None \<Rightarrow> Inl (Panic ''interface conversion'')
             | Some b \<Rightarrow> Inr (compressed (a_flags b)))) (\<lambda>cmp.
           bindE (inputKey env a r) (\<lambda>privkey.
           bindE (liftE (\<lambda>w. TxOutOf (TxStore (acct w a)) c)) (\<lambda>out.
           bindE (orFail (ErrorString ''cannot create sigscript'')
             (askE (\<lambda>n. SignScript env n m i (PkScript out) privkey cmp))) (\<lambda>sigscript.
             retE (setSigScript i sigscript m))))))
       | _ \<Rightarrow> retE m)"

primrec signInputs :: "wenv \<Rightarrow> acref \<Rightarrow> Credit list \<Rightarrow> nat \<Rightarrow> MsgTx \<Rightarrow> MsgTx wact" where
  "signInputs env a [] i m = retE m"
| "signInputs env a (c # cs) i m = bindE (signInput env a i c m) (\<lambda>m'. signInputs env a cs (Suc i) m')"

section \<open>The loop that searches the fee\<close>

type_synonym feeRoundResult = "MsgTx \<times> Credit list \<times> btcutilAddress option \<times> Amount"

definition feeRound :: "wenv \<Rightarrow> acref \<Rightarrow> BlockStamp \<Rightarrow> Credit list \<Rightarrow> Amount \<Rightarrow> MsgTx \<Rightarrow> Amount \<Rightarrow>
    btcutilAddress option \<Rightarrow> feeRoundResult wact" where
  "feeRound env a bs eligible amt txNoInputs fee changeAddr =
     bindE (liftE (\<lambda>w. selectInputs (TxStore (acct w a)) eligible amt fee)) (\<lambda>(inputs, btcin).
     bindE (addChange env a bs (btcin - amt - fee) changeAddr (TxOuts txNoInputs)) (\<lambda>(changeAddr', outs).
     bindE (liftE (\<lambda>w. Inr (txNoInputs\<lparr>TxOuts := outs,
         TxIns := TxIns txNoInputs @ map (\<lambda>c. newTxIn env (OutPointOf (TxStore (acct w a)) c)) inputs\<rparr>))) (\<lambda>unsigned.
     bindE (signInputs env a inputs 0 unsigned) (\<lambda>msgtx.
     bindE (if DisallowFree env then retE False
            else liftE (\<lambda>w. allowFree env (TxStore (acct w a)) (bs_Height bs) inputs
              (tx_SerializeSize (e_tx env) msgtx))) (\<lambda>noFeeAllowed.
     bindE (liftE (\<lambda>w. Inr (FeeIncrement (acct w a)))) (\<lambda>incr.
       retE (msgtx, inputs, changeAddr', minimumFee env incr msgtx noFeeAllowed)))))))"

lemma signed_fee_grows: "fee <s (minFee :: Amount) \<Longrightarrow> sint fee < sint minFee \<and> sint fee < 9223372036854775808"
  using sint_lt [of minFee] by (simp add: word_sless_alt)

function feeLoop :: "(Amount \<Rightarrow> btcutilAddress option \<Rightarrow> feeRoundResult wact) \<Rightarrow> Amount \<Rightarrow> btcutilAddress option \<Rightarrow>
    (MsgTx \<times> Credit list \<times> btcutilAddress option) wact" where
  "feeLoop rnd fee changeAddr w = (case rnd fee changeAddr w of
     (Inl e, w') \<Rightarrow> (Inl e, w')
   | (Inr (msgtx, inputs, changeAddr', minFee), w') \<Rightarrow>
       if fee <s minFee then feeLoop rnd minFee changeAddr' w'
       else (Inr (msgtx, inputs, changeAddr'), w'))"
  by pat_completeness auto
termination
  by (relation "measure (\<lambda>(rnd, fee, changeAddr, w). nat (2 ^ 63 - sint fee))") (auto dest: signed_fee_grows)

section \<open>The transaction\<close>

record CreatedTx =
  ctx_tx :: Tx
  ctx_inputs :: "Credit list"
  ctx_changeAddr :: "btcutilAddress option"

definition validateInput :: "wenv \<Rightarrow> acref \<Rightarrow> MsgTx \<Rightarrow> bool \<Rightarrow> nat \<times> TxIn \<times> Credit \<Rightarrow> unit wact" where
  "validateInput env a m bip16 e = (case e of (i, txin, c) \<Rightarrow>
     bindE (liftE (\<lambda>w. TxOutOf (TxStore (acct w a)) c)) (\<lambda>out.
     bindE (orFail (ErrorString ''cannot create script engine'')
       (liftE (\<lambda>_. NewScript env (SignatureScript txin) (PkScript out) i m bip16))) (\<lambda>_.
       orFail (ErrorString ''cannot validate transaction'')
         (liftE (\<lambda>_. Execute env (SignatureScript txin) (PkScript out) i m bip16)))))"

definition newMsgTx :: "wenv \<Rightarrow> MsgTx" where
  "newMsgTx env = \<lparr>Version = TxVersion env, TxIns = [], TxOuts = [], LockTime = 0\<rparr>"

definition NewTx_of :: "wenv \<Rightarrow> MsgTx \<Rightarrow> Tx" where
  "NewTx_of env m = \<lparr>TxMsg = m, TxSha = tx_TxSha (e_tx env) m, TxIndex = TxIndexUnknown (e_btc env)\<rparr>"

definition txToPairs :: "wenv \<Rightarrow> acref \<Rightarrow> (string, Amount) gomap \<Rightarrow> i64 \<Rightarrow> CreatedTx wact" where
  "txToPairs env a pairs minconf w0 =
     (if IsLocked (KeyStore (acct w0 a)) then (Inl ErrLocked, w0)
      else
        bindE (liftE (\<lambda>_. pairsTotal 0 pairs)) (\<lambda>amt.
        bindE (liftE (\<lambda>_. mapE (payOutput env) pairs)) (\<lambda>outs.
        bindE (client_BlockStamp env) (\<lambda>bs.
        bindE (liftE (\<lambda>w. UnspentOutputs (TxStore (acct w a)))) (\<lambda>unspent.
        bindE (liftE (\<lambda>w. eligibleInputs env (acct w a) minconf (bs_Height bs) unspent)) (\<lambda>eligible.
        bindE (liftE (\<lambda>w. Inr (byAmountDesc (TxStore (acct w a)) eligible))) (\<lambda>sorted.
        bindE (feeLoop (feeRound env a bs sorted amt ((newMsgTx env)\<lparr>TxOuts := outs\<rparr>)) 0 None) (\<lambda>(msgtx, inputs, changeAddr).
        bindE (ask (Bip16Active env)) (\<lambda>bip16.
        bindE (forE (validateInput env a msgtx bip16) (zip [0..<length (TxIns msgtx)] (zip (TxIns msgtx) inputs))) (\<lambda>_.
        bindE (case BtcEncode env msgtx of Inl e \<Rightarrow> failE (Panic ''BtcEncode'') | Inr _ \<Rightarrow> retE ()) (\<lambda>_.
          retE \<lparr>ctx_tx = NewTx_of env msgtx, ctx_inputs = inputs, ctx_changeAddr = changeAddr\<rparr>)))))))))) w0)"

end
