(* ===== verification/Ks_FormatProps.thy ===== *)
theory Ks_FormatProps
  imports Ks_File
begin

text \<open>
  Every struct of the key store file is read back as it was written. The locale \<open>valued\<close> is the contract of a method
  pair whose reader returns a value; it gives a \<open>filler\<close>, the contract of the readers that work in place. The
  locales are interpreted for the flags, the version, the network, the key derivation parameters, the recent blocks
  and the two kinds of addresses.
\<close>

locale valued =
  fixes wr :: "'a \<Rightarrow> wr" and rd :: "'b rd" and enc :: "'a \<Rightarrow> byte list" and dec :: "'a \<Rightarrow> 'b"
    and valid :: "'a \<Rightarrow> bool"
  assumes value_writes: "valid a \<Longrightarrow> wr a = Write (enc a)"
    and get: "valid a \<Longrightarrow> gets rd (enc a) (dec a)"
begin

lemma field: "valid a \<Longrightarrow> fills (into rd put) (enc a) x (put (dec a) x)"
  by (intro fills_into get)

end

sublocale valued \<subseteq> as_filler: filler wr "into rd (\<lambda>b _. b)" enc "\<lambda>a _. dec a" valid
  using fills_into [OF get, of _ "\<lambda>b _. b"] by unfold_locales (simp_all add: value_writes)

section \<open>Small structs\<close>

definition wrote :: "wr \<Rightarrow> byte list" where
  "wrote m = fst (snd (m ([], None)))"

lemma wrote_Write [simp]: "wrote (Write bs) = bs"
  by (simp add: wrote_def Write_def)

lemma bit_flagBit: "bit (flagBit f i) j \<longleftrightarrow> f \<and> i = j \<and> j < 8"
  by (auto simp: flagBit_def bit_exp_iff)

lemma length_flagBytes [simp]: "length (flagBytes b) = 8" "flagBytes b ! 0 = b"
  by (simp_all add: flagBytes_def)

interpretation version: valued version_WriteTo version_ReadFrom
  "\<lambda>v. [major v, minor v, bugfix v, autoincrement v]" "\<lambda>v. v" "\<lambda>_. True"
proof
  fix v :: version
  show "gets version_ReadFrom [major v, minor v, bugfix v, autoincrement v] v"
    unfolding version_ReadFrom_def
    using gets_map [OF gets_ReadFull [of "[major v, minor v, bugfix v, autoincrement v]" 4],
        where g = "\<lambda>b. mkVersion (b ! 0) (b ! 1) (b ! 2) (b ! 3)"]
    by (cases v) (simp add: mkVersion_def)
qed (simp add: version_WriteTo_def)

interpretation wflags: valued walletFlags_WriteTo walletFlags_ReadFrom
  "\<lambda>f. flagBytes (flagBit (useEncryption f) 0 OR flagBit (watchingOnly f) 1)" "\<lambda>f. f" "\<lambda>_. True"
proof
  fix f :: walletFlags
  let ?b = "flagBit (useEncryption f) 0 OR flagBit (watchingOnly f) 1"
  show "gets walletFlags_ReadFrom (flagBytes ?b) f"
    unfolding walletFlags_ReadFrom_def
    using gets_map [OF gets_ReadFull [of "flagBytes ?b" 8],
        where g = "\<lambda>b. \<lparr>useEncryption = bit (b ! 0) 0, watchingOnly = bit (b ! 0) 1\<rparr>"]
    by (cases f) (simp add: bit_or_iff bit_flagBit)
qed (simp add: walletFlags_WriteTo_def)

interpretation sflags: valued scriptFlags_WriteTo scriptFlags_ReadFrom
  "\<lambda>sf. flagBytes (flagBit (hasScript sf) 1 OR flagBit (sf_change sf) 5 OR flagBit (sf_unsynced sf) 6 OR
     flagBit (sf_partialSync sf) 7)" "\<lambda>f. f" "\<lambda>_. True"
proof
  fix sf :: scriptFlags
  let ?b = "flagBit (hasScript sf) 1 OR flagBit (sf_change sf) 5 OR flagBit (sf_unsynced sf) 6 OR
     flagBit (sf_partialSync sf) 7"
  show "gets scriptFlags_ReadFrom (flagBytes ?b) sf"
    unfolding scriptFlags_ReadFrom_def
    using gets_map [OF gets_ReadFull [of "flagBytes ?b" 8],
        where g = "\<lambda>b. \<lparr>hasScript = bit (b ! 0) 1, sf_change = bit (b ! 0) 5,
          sf_unsynced = bit (b ! 0) 6, sf_partialSync = bit (b ! 0) 7\<rparr>"]
    by (cases sf) (simp add: bit_or_iff bit_flagBit)
qed (simp add: scriptFlags_WriteTo_def)

text \<open>A known network.\<close>

definition known_net :: "kslib \<Rightarrow> netParams \<Rightarrow> bool" where
  "known_net lib net \<longleftrightarrow> Net net \<in> {MainNet lib, TestNet3 lib, SimNet lib}"

interpretation network: valued netParams_WriteTo "netParams_ReadFrom lib" "\<lambda>net. le_bytes 4 (Net net)" "\<lambda>n. n"
  "known_net lib"
proof
  fix net :: netParams assume "known_net lib net"
  then show "gets (netParams_ReadFrom lib) (le_bytes 4 (Net net)) net"
    unfolding netParams_ReadFrom_def
    using gets_bindE [OF gets_words(1) [of "Net net"], of "\<lambda>n. if n = MainNet lib then retE \<lparr>Net = MainNet lib\<rparr>
       else if n = TestNet3 lib then retE \<lparr>Net = TestNet3 lib\<rparr>
       else if n = SimNet lib then retE \<lparr>Net = SimNet lib\<rparr>
       else failE (ErrorString ''unknown network'')" "[]" net]
    by (cases net) (auto simp: known_net_def gets_retE)
qed (simp add: netParams_WriteTo_def)

definition addrFlagByte :: "addrFlags \<Rightarrow> byte" where
  "addrFlagByte af = flagBit (hasPrivKey af) 0 OR flagBit (hasPubKey af) 1 OR flagBit (encrypted af) 2 OR
     flagBit (createPrivKeyNextUnlock af) 3 OR flagBit (compressed af) 4 OR flagBit (af_change af) 5 OR
     flagBit (af_unsynced af) 6 OR flagBit (af_partialSync af) 7"

lemma addrFlagsOf_byte: "addrFlagsOf (addrFlagByte af) = af"
  by (cases af) (simp add: addrFlagsOf_def addrFlagByte_def bit_or_iff bit_flagBit)

interpretation aflags: filler addrFlags_WriteTo addrFlags_ReadFrom "\<lambda>af. flagBytes (addrFlagByte af)" "\<lambda>af _. af"
  "\<lambda>af. hasPrivKey af \<longrightarrow> encrypted af"
proof
  fix af x :: addrFlags assume v: "hasPrivKey af \<longrightarrow> encrypted af"
  then show "addrFlags_WriteTo af = Write (flagBytes (addrFlagByte af))"
    by (cases "hasPrivKey af") (simp_all add: addrFlags_WriteTo_def addrFlagByte_def)
  have "fills (into (ReadFull 8) (\<lambda>b _. addrFlagsOf (b ! 0))) (flagBytes (addrFlagByte af)) x af"
    using fills_into [OF gets_ReadFull [of "flagBytes (addrFlagByte af)" 8], of "\<lambda>b _. addrFlagsOf (b ! 0)" x]
    by (simp add: addrFlagsOf_byte)
  from fills_bindE [OF this fills_pureStep, of _ af] v
  show "fills addrFlags_ReadFrom (flagBytes (addrFlagByte af)) x af"
    unfolding addrFlags_ReadFrom_def by simp
qed

interpretation script: valued p2SHScript_WriteTo p2SHScript_ReadFrom
  "\<lambda>b. le_bytes 4 (of_nat (length b) :: u32) @ b" "\<lambda>b. b" small
proof
  fix b :: bytes assume "small b"
  then show "gets p2SHScript_ReadFrom (le_bytes 4 (of_nat (length b) :: u32) @ b) b"
    unfolding p2SHScript_ReadFrom_def
    by (intro gets_bindE [OF gets_words(1)] gets_ReadFull) (simp add: small_count)
qed (simp add: p2SHScript_WriteTo_def writers)

definition kdfEnc :: "kslib \<Rightarrow> kdfParameters \<Rightarrow> byte list" where
  "kdfEnc lib p = (let chk = le_bytes 8 (kdf_mem p) @ le_bytes 4 (kdf_nIter p) @ kdf_salt p in
     chk @ le_bytes 4 (walletHash lib chk) @ replicate 208 0)"

interpretation kdf: valued "kdf_WriteTo lib" "kdf_ReadFrom lib" "kdfEnc lib" "\<lambda>p. p" "\<lambda>p. length (kdf_salt p) = 32"
proof
  fix p :: kdfParameters assume "length (kdf_salt p) = 32"
  then have "gets (bindE (ReadFull 44) (\<lambda>chk. bindE readU32 (\<lambda>c. bindE (ReadFull (256 - (44 + 4))) (\<lambda>_.
       bindE (liftE (\<lambda>_. verifyAndFix lib chk c)) (\<lambda>_.
         retE \<lparr>kdf_mem = le_word (take 8 chk), kdf_nIter = le_word (take 4 (drop 8 chk)), kdf_salt = drop 12 chk\<rparr>)))))
    (kdfEnc lib p) p"
    unfolding kdfEnc_def Let_def
    by (intro gets_bindE [OF gets_ReadFull] gets_bindE [OF gets_words(1)])
       (cases p, auto simp: gets_def bindE_def ReadFull_def liftE_def verifyAndFix_def retE_def short_def
         dest: prefix_length_less)
  then show "gets (kdf_ReadFrom lib) (kdfEnc lib p) p" by (simp add: kdf_ReadFrom_def)
qed (simp add: kdf_WriteTo_def Let_def kdfEnc_def step_writers)

section \<open>Recent blocks\<close>

lemma forE_const: "forE (\<lambda>_. m) ks = steps (replicate (length ks) m)"
  by (induction ks) (auto simp: fun_eq_iff split: prod.split sum.split)

lemma fills_replicate:
  assumes "\<And>h. gets rd (enc h) h"
  shows "fills (steps (replicate (length hs) (into rd put))) (concat (map enc hs)) x (fold put hs x)"
proof (induction hs arbitrary: x)
  case Nil
  show ?case by (simp add: fills_def)
next
  case (Cons h hs)
  have "fills (steps (into rd put # replicate (length hs) (into rd put))) (enc h @ concat (map enc hs)) x (fold put hs (put h x))"
    by (rule fills_Cons [OF fills_into Cons.IH]) (rule assms)
  then show ?case by (simp del: forE.simps)
qed

lemma fills_repeatN:
  assumes "\<And>h. gets rd (enc h) h" and "n x = length hs"
  shows "fills (repeatN n (into rd put)) (concat (map enc hs)) x (fold put hs x)"
  using fills_replicate [OF assms(1), where hs = hs and put = put and x = x] assms(2)
  by (simp add: fills_def repeatN_def forE_const)

text \<open>What can be written and read back: at most 20 hashes, and a height that is not negative.\<close>

definition recent_valid :: "recentBlocks \<Rightarrow> bool" where
  "recent_valid rb \<longleftrightarrow> length (rb_hashes rb) \<le> 20 \<and> 0 \<le> sint (rb_lastHeight rb)"

definition recentEnc :: "recentBlocks \<Rightarrow> byte list" where
  "recentEnc rb = le_bytes 4 (of_nat (length (rb_hashes rb)) :: u32) @ le_bytes 4 (rb_lastHeight rb) @
     concat (map (le_bytes 32) (rb_hashes rb))"

lemma length_recentEnc: "length (recentEnc rb) = 8 + 32 * length (rb_hashes rb)"
proof -
  have "length (concat (map (le_bytes 32) hs)) = 32 * length hs" for hs :: "256 word list" by (induction hs) simp_all
  then show ?thesis by (simp add: recentEnc_def)
qed

lemma fold_append_hash:
  "fold (\<lambda>h (rb, l). (rb\<lparr>rb_hashes := rb_hashes rb @ [h]\<rparr>, l)) hs (rb, l) = (rb\<lparr>rb_hashes := rb_hashes rb @ hs\<rparr>, l)"
  by (induction hs arbitrary: rb) simp_all

lemma not_small_count: "length (rb_hashes rb) \<le> 20 \<Longrightarrow> \<not> (20 :: u32) < of_nat (length (rb_hashes rb))"
  by (simp add: word_less_nat_alt unat_of_nat_small)

interpretation recent: filler recent_WriteTo recent_ReadFrom recentEnc "\<lambda>rb _. rb" recent_valid
proof
  fix rb x assume v: "recent_valid rb"
  then have n: "\<not> (20 :: u32) < of_nat (length (rb_hashes rb))" "unat (of_nat (length (rb_hashes rb)) :: u32) = length (rb_hashes rb)"
    and h: "\<not> rb_lastHeight rb <s 0"
    by (simp_all add: recent_valid_def not_small_count unat_of_nat_small word_sless_alt)
  have "steps (map (\<lambda>h. Write (le_bytes 32 h)) hs) = Write (concat (map (le_bytes 32) hs))" for hs :: "256 word list"
    by (induction hs) (simp_all add: step_writers)
  then show "recent_WriteTo rb = Write (recentEnc rb)"
    using n h by (simp add: recent_WriteTo_def recentEnc_def Let_def step_writers)
  let ?n = "of_nat (length (rb_hashes rb)) :: u32" and ?h = "rb_lastHeight rb"
  let ?put = "\<lambda>h (rb :: recentBlocks, l :: recentLocals). (rb\<lparr>rb_hashes := rb_hashes rb @ [h]\<rparr>, l)"
  let ?r = "\<lparr>rb_hashes = [], rb_lastHeight = ?h\<rparr>" and ?l = "\<lparr>nBlocks = ?n, height = ?h\<rparr>"
  have loop: "fills (repeatN (\<lambda>(rb, l). unat (nBlocks l)) (into readHash ?put)) (concat (map (le_bytes 32) (rb_hashes rb)))
      (?r, ?l) (rb, ?l)"
    using fills_repeatN [OF gets_words(3), of "\<lambda>(rb, l). unat (nBlocks l)" "(?r, ?l)" "rb_hashes rb" ?put] n
    by (cases rb) (simp add: fold_append_hash)
  show "fills recent_ReadFrom (recentEnc rb) x rb"
    unfolding recent_ReadFrom_def
  proof (rule fills_withLocals)
    have "fills (into readU32 (\<lambda>n (rb, l). (rb, l\<lparr>nBlocks := n\<rparr>))) (le_bytes 4 ?n) (x, \<lparr>nBlocks = 0, height = 0\<rparr>)
        (x, \<lparr>nBlocks = ?n, height = 0\<rparr>)"
      using fills_into [OF gets_words(1) [of ?n], of "\<lambda>n (rb, l). (rb, l\<lparr>nBlocks := n\<rparr>)" "(x, \<lparr>nBlocks = 0, height = 0\<rparr>)"] by simp
    moreover have "fills (into readU32 (\<lambda>h (rb, l). (rb, l\<lparr>height := h\<rparr>))) (le_bytes 4 ?h) (x, \<lparr>nBlocks = ?n, height = 0\<rparr>)
        (x, ?l)"
      using fills_into [OF gets_words(1) [of ?h], of "\<lambda>h (rb, l). (rb, l\<lparr>height := h\<rparr>)" "(x, \<lparr>nBlocks = ?n, height = 0\<rparr>)"] by simp
    ultimately show "fills (steps [into readU32 (\<lambda>n (rb, l). (rb, l\<lparr>nBlocks := n\<rparr>)),
        pureStep (\<lambda>(rb, l). if 20 < nBlocks l
          then Inl (ErrorString ''number of last seen blocks exceeds maximum of 20'') else Inr (rb, l)),
        into readU32 (\<lambda>h (rb, l). (rb, l\<lparr>height := h\<rparr>)),
        pureStep (\<lambda>(rb, l). if height l <s 0
          then Inl (ErrorString ''expected a block but specified height is negative'')
          else Inr (rb\<lparr>rb_lastHeight := height l, rb_hashes := []\<rparr>, l)),
        repeatN (\<lambda>(rb, l). unat (nBlocks l)) (into readHash ?put)]) (recentEnc rb) (x, \<lparr>nBlocks = 0, height = 0\<rparr>) (rb, ?l)"
      using fills_Cons [OF _ fills_Cons [OF fills_pureStep fills_Cons [OF _ fills_Cons [OF fills_pureStep
        fills_Cons [OF loop fills_Nil]]]]] n h
      by (fastforce simp: recentEnc_def)
  qed
qed

lemma recent_current: "recent_ReadFromVersion VersCurrent = recent_ReadFrom"
proof -
  have "\<not> version_LT VersCurrent Vers20LastBlocks" by code_simp
  then show ?thesis by (simp add: recent_ReadFromVersion_def)
qed

section \<open>The unused space\<close>

lemma fills_unused:
  assumes "fills m bs x y" and "length bs \<le> k"
  shows "fills (unusedSpace_ReadFromVersion k m) (bs @ replicate (k - length bs) 0) x y"
proof (rule fillsI)
  fix rest n
  show "unusedSpace_ReadFromVersion k m (((bs @ replicate (k - length bs) 0) @ rest, n), x) =
      (Inr (), (rest, n + length (bs @ replicate (k - length bs) 0)), y)"
    using assms(2) fillsD [OF assms(1), of "replicate (k - length bs) 0 @ rest" n]
    by (simp add: unusedSpace_ReadFromVersion_def bindE_def into_def ReadFull_def Let_def)
next
  fix p n assume "strict_prefix p (bs @ replicate (k - length bs) (0 :: byte))"
  then show "\<exists>e z. unusedSpace_ReadFromVersion k m ((p, n), x) = (Inl e, ([], n + length p), z) \<and> short e"
  proof (cases rule: strict_prefix_append_cases)
    case first
    then obtain e z where "m ((p, n), x) = (Inl e, (([], n + length p), z))" "short e" by (rule fillsE [OF assms(1)])
    then show ?thesis by (simp add: unusedSpace_ReadFromVersion_def bindE_def)
  next
    case (second q)
    then have "length q < k - length bs" by (auto dest: prefix_length_less)
    then show ?thesis using second assms(2) fillsD [OF assms(1), of q n]
      by (simp add: unusedSpace_ReadFromVersion_def bindE_def into_def ReadFull_def short_def Let_def)
  qed
qed

lemma writes_unused:
  assumes "length bs \<le> k"
  shows "unusedSpace_WriteTo k (Write bs) = Write (bs @ replicate (k - length bs) 0)"
proof
  fix w
  show "unusedSpace_WriteTo k (Write bs) w = Write (bs @ replicate (k - length bs) 0) w"
    using assms by (cases "snd w") (auto simp: unusedSpace_WriteTo_def bindE_def Write_def Let_def)
qed

end
