(* ===== verification/Ks_Wf.thy ===== *)
theory Ks_Wf
  imports Ks_Ops Go_Triple
begin

text \<open>
  The structure of a key store: the chain index is contiguous from the root to the last address, every chained
  address is found through the address map and is a key pair, and the last one carries the last index. The
  locale \<open>key_updates\<close> is what the operations on private keys need of a predicate: that it survives updates which leave the
  identity of an address alone; it extends \<open>environment\<close>, for the operations that only ask for random bytes and the time, and
  is extended by \<open>address_updates\<close> for those that change the passphrase or the sync status. They are interpreted for the
  well-formedness, for the frame and for the passphrase kept, so that each operation is analysed once.
\<close>

section \<open>Well-formedness\<close>

definition entries_ok :: "KStore \<Rightarrow> bool" where
  "entries_ok s \<longleftrightarrow> wf_map (addrMap s) \<and>
     (\<forall>e \<in> set (addrMap s). snd e < length (aheap s) \<and> fst e = ScriptAddress (wa_Address (aget s (snd e)))) \<and>
     keyGenerator < length (aheap s) \<and> asBtc (aget s keyGenerator) \<noteq> None \<and>
     (\<forall>r \<in> set (importedAddrs s). r < length (aheap s))"

text \<open>The address stands for a chained key pair of the store.\<close>

definition chained :: "KStore \<Rightarrow> Address \<Rightarrow> bool" where
  "chained s a \<longleftrightarrow> (\<exists>r b. map_of (addrMap s) (ScriptAddress a) = Some r \<and> asBtc (aget s r) = Some b)"

definition last_ok :: "KStore \<Rightarrow> bool" where
  "last_ok s \<longleftrightarrow> (\<exists>a r b. map_of (chainIdxMap s) (lastChainIdx s) = Some a \<and>
     map_of (addrMap s) (ScriptAddress a) = Some r \<and> asBtc (aget s r) = Some b \<and> a_chainIndex b = lastChainIdx s)"

definition chain_ok :: "KStore \<Rightarrow> bool" where
  "chain_ok s \<longleftrightarrow> wf_map (chainIdxMap s) \<and> - 1 \<le> sint (ks_highestUsed s) \<and>
     sint (ks_highestUsed s) \<le> sint (lastChainIdx s) \<and>
     (\<forall>i. map_of (chainIdxMap s) i \<noteq> None \<longleftrightarrow> - 1 \<le> sint i \<and> sint i \<le> sint (lastChainIdx s)) \<and>
     (\<forall>i a. map_of (chainIdxMap s) i = Some a \<longrightarrow> chained s a) \<and> last_ok s"

definition ks_wf :: "KStore \<Rightarrow> bool" where
  "ks_wf s \<longleftrightarrow> entries_ok s \<and> chain_ok s"

text \<open>What identifies an address.\<close>

fun same_addr :: "walletAddress \<Rightarrow> walletAddress \<Rightarrow> bool" where
  "same_addr (BtcAddr a) (BtcAddr b) \<longleftrightarrow> a_address a = a_address b \<and> a_chainIndex a = a_chainIndex b"
| "same_addr (ScriptAddr a) (ScriptAddr b) \<longleftrightarrow> sa_address a = sa_address b"
| "same_addr _ _ \<longleftrightarrow> False"

definition upd_at :: "aref \<Rightarrow> walletAddress \<Rightarrow> KStore \<Rightarrow> KStore" where
  "upd_at r a s = s\<lparr>aheap := (aheap s)[r := a]\<rparr>"

lemma same_addr_refl [simp]: "same_addr a a"
  by (cases a) simp_all

lemma same_addr_Address: "same_addr a b \<Longrightarrow> wa_Address b = wa_Address a"
  by (cases a; cases b) simp_all

lemma same_addr_asBtc:
  "same_addr a b \<Longrightarrow> asBtc a = Some x \<Longrightarrow> \<exists>y. asBtc b = Some y \<and> a_chainIndex y = a_chainIndex x"
  by (cases a; cases b) simp_all

lemma same_addr_setSync [simp]: "same_addr a (setSyncStatus ss a)"
  by (cases a; cases ss) (simp_all add: btc_setSyncStatus_def script_setSyncStatus_def)

lemma asBtc_iff: "asBtc a = Some b \<longleftrightarrow> a = BtcAddr b"
  by (cases a) auto

lemma upd_nth: "(xs[r := a]) ! r = (if r < length xs then a else xs ! r)"
  by (simp add: list_update_beyond)

section \<open>Operations that leave identities alone\<close>

locale environment =
  fixes P :: "KStore \<Rightarrow> bool"
  assumes event: "P s \<Longrightarrow> P (s\<lparr>ks_events := n\<rparr>)"
begin

lemma rand_keeps: "preserves P (randRead lib k)"
  by (rule preservesI) (simp add: randRead_def event)

lemma time_keeps: "preserves P (timeNow lib)"
  by (rule preservesI) (simp add: timeNow_def event)

lemma newWithoutPrivkey_keeps: "preserves P (newBtcAddressWithoutPrivkey lib pubkey iv bs)"
  unfolding newBtcAddressWithoutPrivkey_def by (intro keeps rand_keeps time_keeps)

lemma newBtcAddress_keeps: "preserves P (newBtcAddress lib privkey iv bs cmp)"
  unfolding newBtcAddress_def by (intro keeps newWithoutPrivkey_keeps)

lemma newRoot_keeps: "preserves P (newRootBtcAddress lib privkey iv cc bs)"
  unfolding newRootBtcAddress_def by (intro keeps newBtcAddress_keeps)

lemma newScript_keeps: "preserves P (newScriptAddress lib script bs)"
  unfolding newScriptAddress_def by (auto intro!: keeps time_keeps)

lemma verifyKeypairs_keeps: "preserves P (verifyKeypairs lib a)"
  by (rule preservesI) (auto simp: verifyKeypairs_def failE_def Let_def event split: sum.split)

end

locale key_updates = environment +
  assumes upd: "P s \<Longrightarrow> same_addr (aget s r) a \<Longrightarrow> P (upd_at r a s)"
    and missing: "P s \<Longrightarrow> P (s\<lparr>missingKeysStart := i\<rparr>)"
begin

lemma getBtc_triple:
  "triple P (getBtc r) (\<lambda>a s. P s \<and> aget s r = BtcAddr a) (\<lambda>_. P)"
  unfolding getBtc_def by (rule triple_liftE) (auto simp: asBtc_iff split: option.splits)

lemma setAddr_triple: "triple (\<lambda>s. P s \<and> same_addr (aget s r) a) (setAddr r a) (\<lambda>_. P) (\<lambda>_. P)"
  unfolding setAddr_def using upd by (intro triple_modifyE) (auto simp: upd_at_def)

lemma unlock_same: "unlock lib key a = Inr (p, a') \<Longrightarrow> same_addr (BtcAddr a) (BtcAddr a')"
  by (auto simp: unlock_def Let_def split: if_splits sum.splits)

lemma unlockAt_keeps: "preserves P (unlockAt lib key r)"
  unfolding preserves_triple unlockAt_def
proof (rule triple_bindE [OF getBtc_triple])
  fix a
  show "triple (\<lambda>s. P s \<and> aget s r = BtcAddr a) (bindE (liftE (\<lambda>_. unlock lib key a))
      (\<lambda>(p, a'). bindE (setAddr r (BtcAddr a')) (\<lambda>_. retE p))) (\<lambda>_. P) (\<lambda>_. P)"
  proof (rule triple_bindE [where R = "\<lambda>(p, a') s. P s \<and> same_addr (aget s r) (BtcAddr a')"])
    show "triple (\<lambda>s. P s \<and> aget s r = BtcAddr a) (liftE (\<lambda>_. unlock lib key a))
        (\<lambda>(p, a') s. P s \<and> same_addr (aget s r) (BtcAddr a')) (\<lambda>_. P)"
      by (rule triple_liftE) (auto dest: unlock_same)
  qed (auto intro!: triple_bindE [OF setAddr_triple] triple_retE split: prod.split)
qed

lemma getBtc_keeps: "preserves P (getBtc r)"
  unfolding getBtc_def by (rule preserves_liftE)

lemma modBtc_keeps:
  assumes "\<And>a. same_addr (BtcAddr a) (f a)"
  shows "preserves P (bindE (getBtc r) (\<lambda>a. setAddr r (f a)))"
  unfolding preserves_triple
  by (rule triple_bindE [OF getBtc_triple], rule triple_pre [OF setAddr_triple]) (simp add: assms)

lemma changeEncryptionKey_keeps: "preserves P (changeEncryptionKey lib oldkey newkey r)"
  unfolding changeEncryptionKey_def
  by (intro preserves_bindE [OF getBtc_keeps] preserves_if preserves_failE)
     (rule preserves_bindE [OF unlockAt_keeps], rule preserves_bindE [OF preserves_liftE],
      rule preserves_bindE [OF rand_keeps], rule modBtc_keeps, simp)

lemma encrypt_same: "encrypt lib key a = Inr a' \<Longrightarrow> same_addr (BtcAddr a) (BtcAddr a')"
  by (auto simp: encrypt_def split: if_splits sum.splits)

text \<open>The two writes of \<open>setMissingKey\<close>: the key, then the cleared flag on the encrypted address.\<close>

lemma setMissingKey_keeps: "preserves P (setMissingKey lib privkey r)"
  unfolding preserves_triple setMissingKey_def Let_def
proof (rule triple_bindE [OF getBtc_triple])
  fix a0 :: btcAddress
  let ?a = "a0\<lparr>a_privKeyCT := privkey\<rparr>"
  let ?fin = "\<lambda>b. setAddr r (BtcAddr (b\<lparr>a_flags := (a_flags b)\<lparr>createPrivKeyNextUnlock := False\<rparr>\<rparr>))"
  have fin: "same_addr (BtcAddr a0) (BtcAddr b) \<Longrightarrow>
      triple (\<lambda>s. P s \<and> same_addr (aget s r) (BtcAddr a0)) (?fin b) (\<lambda>_. P) (\<lambda>_. P)" for b
    by (rule triple_pre [OF setAddr_triple]) (auto elim: same_addr.elims)
  show "triple (\<lambda>s. P s \<and> aget s r = BtcAddr a0) (bindE (setAddr r (BtcAddr ?a)) (\<lambda>_. bindE (liftE Inr) (\<lambda>s.
      case encrypt lib (ks_secret s) ?a of
        Inl e \<Rightarrow> if e \<noteq> ErrAlreadyEncrypted \<or> \<not> version_LT (ks_vers s) VersUnsetNeedsPrivkeyFlag then failE e
                else ?fin ?a
      | Inr a' \<Rightarrow> ?fin a'))) (\<lambda>_. P) (\<lambda>_. P)"
  proof (rule triple_bindE [where R = "\<lambda>_ s. P s \<and> same_addr (aget s r) (BtcAddr a0)"])
    show "triple (\<lambda>s. P s \<and> aget s r = BtcAddr a0) (setAddr r (BtcAddr ?a))
        (\<lambda>_ s. P s \<and> same_addr (aget s r) (BtcAddr a0)) (\<lambda>_. P)"
      unfolding setAddr_def using upd [of _ r "BtcAddr ?a"]
      by (intro triple_modifyE) (auto simp: upd_at_def upd_nth)
    show "triple (\<lambda>s. P s \<and> same_addr (aget s r) (BtcAddr a0)) (bindE (liftE Inr) (\<lambda>s.
      case encrypt lib (ks_secret s) ?a of
        Inl e \<Rightarrow> if e \<noteq> ErrAlreadyEncrypted \<or> \<not> version_LT (ks_vers s) VersUnsetNeedsPrivkeyFlag then failE e
                else ?fin ?a
      | Inr a' \<Rightarrow> ?fin a')) (\<lambda>_. P) (\<lambda>_. P)"
      by (rule triple_bindE [where R = "\<lambda>_ s. P s \<and> same_addr (aget s r) (BtcAddr a0)"])
         (auto intro!: triple_liftE triple_failE fin fin [of ?a, simplified] dest!: encrypt_same split: sum.split)
  qed
qed

lemma missingLoop_keeps: "preserves P (missingLoop lib fuel i p prev)"
  by (induction fuel arbitrary: i p prev)
     (auto simp: chainedBtc_def intro!: keeps getBtc_keeps setMissingKey_keeps)

lemma createMissing_keeps: "preserves P (createMissingPrivateKeys lib)"
proof (rule preservesI)
  fix s assume s: "P s"
  have "preserves P (bindE (chainedBtc apkh) (\<lambda>prev. bindE (unlockAt lib (ks_secret s) prev) (\<lambda>p.
      bindE (missingLoop lib k i p prev) (\<lambda>_. modifyE (\<lambda>s. s\<lparr>missingKeysStart := 0\<rparr>)))))" for apkh k i
    by (auto simp: chainedBtc_def intro!: keeps unlockAt_keeps missingLoop_keeps missing)
  with s show "P (snd (createMissingPrivateKeys lib s))"
    by (auto simp: createMissingPrivateKeys_def Let_def preserves_def simp del: missingLoop.simps
        split: option.split)
qed

end

locale address_updates = key_updates +
  assumes secret: "P s \<Longrightarrow> P (s\<lparr>ks_passphrase := p, ks_secret := k\<rparr>)"
    and recent: "P s \<Longrightarrow> P (s\<lparr>ks_recent := rb\<rparr>)"
begin

lemma Unlock_keeps: "preserves P (Unlock lib passphrase)"
proof (rule preservesI)
  fix s assume s: "P s"
  have "preserves P (bindE (liftE (\<lambda>s. Key lib passphrase (ks_kdfParams s))) (\<lambda>key.
      bindE (unlockAt lib key keyGenerator) (\<lambda>_.
      bindE (modifyE (\<lambda>s. s\<lparr>ks_passphrase := passphrase, ks_secret := key\<rparr>)) (\<lambda>_. createMissingPrivateKeys lib))))"
    by (intro keeps unlockAt_keeps createMissing_keeps secret)
  with s show "P (snd (Unlock lib passphrase s))" by (simp add: Unlock_def preserves_def)
qed

lemma lockAddr_keeps: "P s \<Longrightarrow> P (lockAddr r s)"
  using upd [of s r] by (auto simp: lockAddr_def lock_def upd_at_def asBtc_iff split: option.split)

lemma lockAddrs_keeps: "P s \<Longrightarrow> P (lockAddrs s)"
proof -
  have "P t \<Longrightarrow> P (fold (\<lambda>e. lockAddr (snd e)) es t)" for es :: "(addressKey \<times> aref) list" and t
    by (induction es arbitrary: t) (simp_all add: lockAddr_keeps)
  then show "P s \<Longrightarrow> P (lockAddrs s)" by (simp add: lockAddrs_def)
qed

lemma Lock_keeps: "preserves P Lock"
  by (rule preservesI) (auto simp: Lock_def intro: lockAddrs_keeps secret)

lemma ChangePassphrase_keeps: "preserves P (ChangePassphrase lib new)"
proof (rule preservesI)
  fix s assume s: "P s"
  have "preserves P (bindE (liftE (\<lambda>s. Key lib new (ks_kdfParams s))) (\<lambda>newkey.
      bindE (forE (changeAddrKey lib old newkey) es) (\<lambda>_.
        modifyE (\<lambda>s. s\<lparr>ks_passphrase := new, ks_secret := newkey\<rparr>))))" for old es
    by (auto simp: changeAddrKey_def intro!: keeps changeEncryptionKey_keeps secret)
  with s show "P (snd (ChangePassphrase lib new s))" by (simp add: ChangePassphrase_def preserves_def)
qed

lemma SetSyncStatus_keeps: "preserves P (SetSyncStatus a ss)"
  unfolding SetSyncStatus_def using upd by (auto simp: upd_at_def intro!: keeps)

lemma SetSyncedWith_keeps: "P s \<Longrightarrow> P (SetSyncedWith bs s)"
  using upd [of "s\<lparr>ks_recent := rb\<rparr>" keyGenerator for rb] recent [of s]
  by (auto simp: SetSyncedWith_def Let_def upd_at_def split: option.split)

lemma PrivKey_keeps: "preserves P (PrivKey lib r)"
  unfolding PrivKey_def by (intro keeps getBtc_keeps unlockAt_keeps)

end

end
