(* ===== verification/Ks_Recent.thy ===== *)
theory Ks_Recent
  imports Ks_Ops
begin

text \<open>
  The recently seen blocks of the key store against an abstract view: a partial map \<open>seen\<close> from heights to
  block hashes, of which the ring of at most 20 hashes keeps the newest. Also the height a rescan starts at,
  against its specification as a minimum.
\<close>

section \<open>The abstract view\<close>

definition seen :: "recentBlocks \<Rightarrow> int \<rightharpoonup> 256 word" where
  "seen rb h =
     (let i = h - (sint (rb_lastHeight rb) - int (length (rb_hashes rb)) + 1) in
      if 0 \<le> i \<and> i < int (length (rb_hashes rb)) then Some (rb_hashes rb ! nat i) else None)"

text \<open>Connecting the block of height \<open>h\<close> keeps the 19 heights below it, any other block starts anew.\<close>

definition connect :: "bool \<Rightarrow> int \<Rightarrow> 256 word \<Rightarrow> (int \<rightharpoonup> 256 word) \<Rightarrow> (int \<rightharpoonup> 256 word)" where
  "connect next h hash m = (if next then (m |` {x. h - 20 < x})(h \<mapsto> hash) else [h \<mapsto> hash])"

text \<open>The block is below the last one and its hash is the one the ring has at its height.\<close>

definition known_below :: "BlockStamp \<Rightarrow> recentBlocks \<Rightarrow> bool" where
  "known_below bs rb \<longleftrightarrow> bs_Height bs <s rb_lastHeight rb \<and> seen rb (sint (bs_Height bs)) = Some (bs_Hash bs)"

lemma seen_single: "seen \<lparr>rb_hashes = [h], rb_lastHeight = k\<rparr> = [sint k \<mapsto> h]"
  by (rule ext) (auto simp: seen_def Let_def)

lemma seen_eta [simp]:
  "seen \<lparr>rb_hashes = rb_hashes rb, rb_lastHeight = rb_lastHeight rb\<rparr> = seen rb"
  by (rule ext) (simp add: seen_def)

lemma sint_diff_i32:
  fixes a b :: i32
  assumes "0 \<le> sint a" and "0 \<le> sint b"
  shows "sint (a - b) = sint a - sint b"
proof -
  have "sint (word_of_int (sint a - sint b) :: i32) = sint a - sint b"
    using assms sint_lt [of a] sint_lt [of b] by (intro sint_of_int_small) simp_all
  then show ?thesis by simp
qed

lemma next_height:
  fixes a b :: i32
  assumes "0 \<le> sint a" and "0 \<le> sint b"
  shows "b = a + 1 \<longleftrightarrow> sint b = sint a + 1"
proof -
  have "b = a + 1 \<longleftrightarrow> b - a = 1" by (simp add: algebra_simps)
  also have "\<dots> \<longleftrightarrow> sint (b - a) = 1" using sint_eq_iff [of "b - a" 1] by simp
  finally show ?thesis by (simp add: sint_diff_i32 [OF assms(2,1)] algebra_simps)
qed

lemma seen_push:
  assumes "length hs \<le> 20" and "sint h = sint k + 1"
  shows "seen \<lparr>rb_hashes = pushRecent x hs, rb_lastHeight = h\<rparr> =
    connect True (sint h) x (seen \<lparr>rb_hashes = hs, rb_lastHeight = k\<rparr>)"
proof
  fix y
  let ?i = "y - (sint k - int (length hs) + 1)"
  consider (gone) "length hs = 20" "?i = 0" | (last) "y = sint h" | (kept) "0 \<le> ?i" "length hs = 20 \<Longrightarrow> ?i \<noteq> 0" "y \<le> sint k"
    | (out) "?i < 0 \<or> sint h < y" using assms(2) by linarith
  then show "seen \<lparr>rb_hashes = pushRecent x hs, rb_lastHeight = h\<rparr> y =
      connect True (sint h) x (seen \<lparr>rb_hashes = hs, rb_lastHeight = k\<rparr>) y"
  proof cases
    case kept
    then show ?thesis
      using assms by (auto simp: seen_def connect_def Let_def pushRecent_def nth_append nth_tl restrict_map_def
          Suc_nat_eq_nat_zadd1 algebra_simps intro!: arg_cong [where f = "(!) hs"])
  qed (use assms in \<open>auto simp: seen_def connect_def Let_def pushRecent_def nth_append restrict_map_def\<close>)
qed

lemma known_below_iff:
  assumes "0 \<le> sint (rb_lastHeight rb)" and "0 \<le> sint (bs_Height bs)"
  defines "idx \<equiv> int (length (rb_hashes rb)) - 1 - sint (rb_lastHeight rb - bs_Height bs)"
  shows "known_below bs rb \<longleftrightarrow> bs_Height bs <s rb_lastHeight rb \<and> 0 \<le> idx \<and> idx < int (length (rb_hashes rb)) \<and>
    rb_hashes rb ! nat idx = bs_Hash bs"
proof -
  have "idx = sint (bs_Height bs) - (sint (rb_lastHeight rb) - int (length (rb_hashes rb)) + 1)"
    unfolding idx_def sint_diff_i32 [OF assms(1,2)] by simp
  then show ?thesis by (auto simp: known_below_def seen_def Let_def)
qed

text \<open>C27. Recording a newly seen block refines the abstract view: unless the block is a known one below the
  last, the heights it makes known are exactly those of \<open>connect\<close>, that is, the block itself and, if it directly
  follows the last one, the 19 before it. The ring never exceeds 20 hashes and its last height is that of the block, whatever
  the block. (For a known block below the last, see the finding below.) The ring has at most 20 hashes and no height is
  negative.\<close>

theorem SetSyncedWith_refines:
  assumes "length (rb_hashes (ks_recent s)) \<le> 20" and "0 \<le> sint (rb_lastHeight (ks_recent s))"
    and "0 \<le> sint (bs_Height bs)"
  shows "(\<not> known_below bs (ks_recent s) \<longrightarrow> seen (ks_recent (SetSyncedWith (Some bs) s)) =
      connect (sint (bs_Height bs) = sint (rb_lastHeight (ks_recent s)) + 1) (sint (bs_Height bs)) (bs_Hash bs)
        (seen (ks_recent s)))
    \<and> length (rb_hashes (ks_recent (SetSyncedWith (Some bs) s))) \<le> 20
    \<and> rb_lastHeight (ks_recent (SetSyncedWith (Some bs) s)) = bs_Height bs"
proof (cases "known_below bs (ks_recent s)")
  case True
  then show ?thesis
    using assms(1) known_below_iff [OF assms(2,3)]
    by (auto simp: SetSyncedWith_def recent_SetSyncedWith_def Let_def)
next
  case False
  let ?rb = "ks_recent s"
  let ?next = "sint (bs_Height bs) = sint (rb_lastHeight ?rb) + 1"
  have "bs_Height bs <s rb_lastHeight ?rb \<Longrightarrow> \<not> ?next" by (simp add: word_sless_alt)
  then have r: "ks_recent (SetSyncedWith (Some bs) s) =
      \<lparr>rb_hashes = pushRecent (bs_Hash bs) (if ?next then rb_hashes ?rb else []), rb_lastHeight = bs_Height bs\<rparr>"
    using False known_below_iff [OF assms(2,3)] next_height [OF assms(2,3)]
    by (auto simp: SetSyncedWith_def recent_SetSyncedWith_def Let_def)
  have "seen (ks_recent (SetSyncedWith (Some bs) s)) = connect ?next (sint (bs_Height bs)) (bs_Hash bs) (seen ?rb)"
  proof (cases ?next)
    case True
    then show ?thesis unfolding r using seen_push [OF assms(1) True] by simp
  next
    case False
    then show ?thesis unfolding r by (simp add: pushRecent_def seen_single connect_def)
  qed
  moreover have "length (pushRecent x hs) \<le> 20" if "length hs \<le> 20" for x and hs :: "256 word list"
    using that by (auto simp: pushRecent_def)
  ultimately show ?thesis using assms(1) by (simp add: r)
qed

section \<open>Concrete stores\<close>

text \<open>A store with one chained root address, for the witnesses.\<close>

definition root0 :: btcAddress where
  "root0 = \<lparr>a_address = \<lparr>ScriptAddress = replicate 20 9, AddrNet = \<lparr>Net = 1\<rparr>\<rparr>,
     a_flags = \<lparr>hasPrivKey = True, hasPubKey = True, encrypted = True, createPrivKeyNextUnlock = False,
       compressed = True, af_change = False, af_unsynced = False, af_partialSync = False\<rparr>,
     a_chaincode = replicate 31 0 @ [3], a_chainIndex = - 1, a_chainDepth = 0, a_initVector = replicate 16 7,
     a_privKey = replicate 32 8, a_pubKey = \<lparr>PubX = 5, PubY = 0\<rparr>, a_firstSeen = 1, a_lastSeen = 2, a_firstBlock = 3,
     a_partialSyncHeight = 0, a_privKeyCT = []\<rparr>"

definition ks0 :: KStore where
  "ks0 = installRoot root0 (newBase [65] [] \<lparr>Net = 1\<rparr> \<lparr>bs_Height = 10, bs_Hash = 100\<rparr>
     \<lparr>kdf_mem = 128, kdf_nIter = 1, kdf_salt = replicate 32 0\<rparr> [] 0 0)"

theorem SetSyncedWith_refines_witness:
  "seen (ks_recent (SetSyncedWith (Some \<lparr>bs_Height = 11, bs_Hash = 101\<rparr>) ks0)) 10 = Some 100
   \<and> seen (ks_recent (SetSyncedWith (Some \<lparr>bs_Height = 11, bs_Hash = 101\<rparr>) ks0)) 11 = Some 101"
proof -
  have r: "ks_recent ks0 = \<lparr>rb_hashes = [100], rb_lastHeight = 10\<rparr>" by (simp add: ks0_def installRoot_def newBase_def)
  have k: "\<not> known_below \<lparr>bs_Height = 11, bs_Hash = 101\<rparr> (ks_recent ks0)"
    by (simp add: known_below_def r word_sless_alt)
  from SetSyncedWith_refines [of ks0 "\<lparr>bs_Height = 11, bs_Hash = 101\<rparr>"] k show ?thesis
    by (simp add: r seen_single connect_def)
qed

text \<open>C30. A finding. Rolling back to a known block below the last one cuts the ring before that block instead of after it,
  while the last height becomes that of the block. So the hash of the block itself is dropped, and every height up to that
  of the block is afterwards reported with the hash that the height below it had; nothing is known above. This holds
  for every store with heights that are not negative and every known block below the last.\<close>

theorem SetSyncedWith_rollback_shifts:
  assumes "0 \<le> sint (rb_lastHeight (ks_recent s))" and "0 \<le> sint (bs_Height bs)" and "known_below bs (ks_recent s)"
  shows "seen (ks_recent (SetSyncedWith (Some bs) s)) =
    (\<lambda>h. if h \<le> sint (bs_Height bs) then seen (ks_recent s) (h - 1) else None)"
proof -
  let ?rb = "ks_recent s"
  let ?idx = "int (length (rb_hashes ?rb)) - 1 - sint (rb_lastHeight ?rb - bs_Height bs)"
  have k: "bs_Height bs <s rb_lastHeight ?rb" "0 \<le> ?idx" "?idx < int (length (rb_hashes ?rb))" "rb_hashes ?rb ! nat ?idx = bs_Hash bs"
    using assms(3) known_below_iff [OF assms(1,2)] by simp_all
  have r: "ks_recent (SetSyncedWith (Some bs) s) = \<lparr>rb_hashes = take (nat ?idx) (rb_hashes ?rb), rb_lastHeight = bs_Height bs\<rparr>"
    using k by (simp add: SetSyncedWith_def recent_SetSyncedWith_def Let_def)
  have "?idx = sint (bs_Height bs) - (sint (rb_lastHeight ?rb) - int (length (rb_hashes ?rb)) + 1)"
    unfolding sint_diff_i32 [OF assms(1,2)] by simp
  then show ?thesis using k(2,3) unfolding r by (intro ext) (auto simp: seen_def Let_def intro!: arg_cong [where f = "(!) (rb_hashes ?rb)"])
qed

text \<open>A ring with the blocks 10 to 12, rolled back to block 11.\<close>

definition ks12 :: KStore where
  "ks12 = SetSyncedWith (Some \<lparr>bs_Height = 12, bs_Hash = 102\<rparr>) (SetSyncedWith (Some \<lparr>bs_Height = 11, bs_Hash = 101\<rparr>) ks0)"

theorem SetSyncedWith_rollback_shifts_witness:
  "seen (ks_recent (SetSyncedWith (Some \<lparr>bs_Height = 11, bs_Hash = 101\<rparr>) ks12)) 11 = Some 100
   \<and> seen (ks_recent (SetSyncedWith (Some \<lparr>bs_Height = 11, bs_Hash = 101\<rparr>) ks12)) 10 = None
   \<and> iter_BlockStamp (ks_recent (SetSyncedWith (Some \<lparr>bs_Height = 11, bs_Hash = 101\<rparr>) ks12)) 0 =
       Inr \<lparr>bs_Height = 11, bs_Hash = 100\<rparr>"
proof -
  have r: "ks_recent ks12 = \<lparr>rb_hashes = [100, 101, 102], rb_lastHeight = 12\<rparr>" by code_simp
  have k: "known_below \<lparr>bs_Height = 11, bs_Hash = 101\<rparr> (ks_recent ks12)"
    by (simp add: known_below_def r word_sless_alt seen_def)
  have i: "iter_BlockStamp (ks_recent (SetSyncedWith (Some \<lparr>bs_Height = 11, bs_Hash = 101\<rparr>) ks12)) 0 =
      Inr \<lparr>bs_Height = 11, bs_Hash = 100\<rparr>" by code_simp
  from SetSyncedWith_rollback_shifts [OF _ _ k] i show ?thesis by (simp add: r seen_def)
qed

section \<open>The height to rescan from\<close>

definition pending :: "SyncStatus list \<Rightarrow> int set" where
  "pending ss = {sint h |h. Unsynced h \<in> set ss \<or> PartialSync h \<in> set ss}"

lemma pending_simps [simp]:
  "pending [] = {}" "pending (FullSync # ss) = pending ss"
  "pending (Unsynced h # ss) = insert (sint h) (pending ss)"
  "pending (PartialSync h # ss) = insert (sint h) (pending ss)"
  by (auto simp: pending_def)

lemma finite_pending [simp]: "finite (pending ss)"
proof (induction ss)
  case (Cons a ss)
  then show ?case by (cases a) simp_all
qed simp

lemma syncLoop_Min:
  "\<forall>h \<in> insert (sint height) (pending ss). 0 \<le> h \<Longrightarrow>
   sint (syncLoop ss height) = Min (insert (sint height) (pending ss))"
proof (induction ss height rule: syncLoop.induct)
  case (3 h ss height)
  then show ?case
    by (cases "pending ss = {}") (auto simp: word_sless_alt min_def Min_insert2 insert_commute intro!: Min_eqI [symmetric])
next
  case (4 h ss height)
  then show ?case
    by (cases "pending ss = {}") (auto simp: word_sless_alt min_def Min_insert2 insert_commute intro!: Min_eqI [symmetric])
qed simp_all

definition statuses :: "KStore \<Rightarrow> SyncStatus list" where
  "statuses s = map (\<lambda>e. wa_SyncStatus (aget s (snd e))) (addrMap s)"

text \<open>The height a rescan has to start from is the least of the heights of all addresses that are not in
  sync and the height the store is synced to (which a partially rescanned root address can only raise): no
  unsynced address is missed, and nothing is rescanned twice when all are in sync.\<close>

theorem SyncHeight_min:
  assumes "0 \<le> sint (rb_lastHeight (ks_recent s))" and "\<forall>h \<in> pending (statuses s). 0 \<le> h"
  shows "sint (SyncHeight s) = Min (insert
      (case wa_SyncStatus (aget s keyGenerator) of
         PartialSync h \<Rightarrow> max (sint h) (sint (rb_lastHeight (ks_recent s)))
       | _ \<Rightarrow> sint (rb_lastHeight (ks_recent s))) (pending (statuses s)))
    \<and> (\<forall>h \<in> pending (statuses s). sint (SyncHeight s) \<le> h)"
proof -
  define height where "height = (case wa_SyncStatus (aget s keyGenerator) of
      PartialSync h \<Rightarrow> if rb_lastHeight (ks_recent s) <s h then h else rb_lastHeight (ks_recent s)
    | _ \<Rightarrow> rb_lastHeight (ks_recent s))"
  have h: "sint height = (case wa_SyncStatus (aget s keyGenerator) of
         PartialSync h \<Rightarrow> max (sint h) (sint (rb_lastHeight (ks_recent s)))
       | _ \<Rightarrow> sint (rb_lastHeight (ks_recent s)))"
    by (auto simp: height_def word_sless_alt split: SyncStatus.split)
  have "0 \<le> sint height" using assms(1) by (auto simp: h split: SyncStatus.split)
  then have "sint (syncLoop (statuses s) height) = Min (insert (sint height) (pending (statuses s)))"
    using assms(2) by (intro syncLoop_Min) simp
  moreover have "SyncHeight s = syncLoop (statuses s) height"
    by (simp add: SyncHeight_def statuses_def height_def Let_def)
  ultimately show ?thesis by (simp add: h)
qed

definition ksU :: KStore where
  "ksU = ks0\<lparr>aheap := [setSyncStatus (PartialSync 4) (BtcAddr root0)]\<rparr>"

theorem SyncHeight_min_witness: "sint (SyncHeight ksU) = 4"
proof -
  have st: "statuses ksU = [PartialSync 4]" "wa_SyncStatus (aget ksU keyGenerator) = PartialSync 4"
    "rb_lastHeight (ks_recent ksU) = 10" by code_simp+
  from SyncHeight_min [of ksU] show ?thesis by (simp add: st)
qed

end
