(* ===== verification/Ks_Machine.thy ===== *)
theory Ks_Machine
  imports Ks_Wf Ks_Recent
begin

text \<open>
  The key store as a state machine: the operations that add addresses keep the store well formed, and so does
  every sequence of operations on a new store, whatever each of them returns.
\<close>

section \<open>The two predicates\<close>

lemma chained_upd:
  assumes "chained s a" and "same_addr (aget s r) x"
  shows "chained (upd_at r x s) a"
proof -
  from assms(1) obtain q b where q: "map_of (addrMap s) (ScriptAddress a) = Some q" "asBtc (aget s q) = Some b"
    unfolding chained_def by blast
  have "\<exists>c. asBtc (aget (upd_at r x s) q) = Some c"
    using q(2) same_addr_asBtc [OF assms(2)]
    by (cases "q = r"; cases "r < length (aheap s)") (auto simp: upd_at_def upd_nth)
  then show ?thesis using q(1) by (auto simp: chained_def upd_at_def)
qed

lemma last_ok_upd:
  assumes "last_ok s" and "same_addr (aget s r) x"
  shows "last_ok (upd_at r x s)"
proof -
  from assms(1) obtain a q b where q: "map_of (chainIdxMap s) (lastChainIdx s) = Some a"
    "map_of (addrMap s) (ScriptAddress a) = Some q" "asBtc (aget s q) = Some b" "a_chainIndex b = lastChainIdx s"
    unfolding last_ok_def by blast
  have "\<exists>c. asBtc (aget (upd_at r x s) q) = Some c \<and> a_chainIndex c = a_chainIndex b"
    using q(3) same_addr_asBtc [OF assms(2)]
    by (cases "q = r"; cases "r < length (aheap s)") (auto simp: upd_at_def upd_nth)
  then show ?thesis using q by (auto simp: last_ok_def upd_at_def)
qed

lemma entries_ok_upd:
  assumes "entries_ok s" and "same_addr (aget s r) x"
  shows "entries_ok (upd_at r x s)"
proof -
  have "wa_Address (aget (upd_at r x s) q) = wa_Address (aget s q)" for q
    using same_addr_Address [OF assms(2)]
    by (cases "q = r"; cases "r < length (aheap s)") (auto simp: upd_at_def upd_nth)
  moreover have "asBtc (aget s q) \<noteq> None \<Longrightarrow> asBtc (aget (upd_at r x s) q) \<noteq> None" for q
    using same_addr_asBtc [OF assms(2)]
    by (cases "q = r"; cases "r < length (aheap s)") (auto simp: upd_at_def upd_nth)
  ultimately show ?thesis using assms(1) by (auto simp: entries_ok_def upd_at_def)
qed

definition ks_books :: "KStore \<Rightarrow> (addressKey, aref) gomap \<times> (i64, Address) gomap \<times> i64 \<times> i64 \<times> aref list \<times> nat" where
  "ks_books s = (addrMap s, chainIdxMap s, lastChainIdx s, ks_highestUsed s, importedAddrs s, length (aheap s))"

lemma ks_wf_irrelevant:
  "ks_wf (s\<lparr>ks_events := n\<rparr>) = ks_wf s" "ks_wf (s\<lparr>ks_passphrase := p, ks_secret := k\<rparr>) = ks_wf s"
  "ks_wf (s\<lparr>ks_recent := rb\<rparr>) = ks_wf s" "ks_wf (s\<lparr>missingKeysStart := i\<rparr>) = ks_wf s"
  by (simp_all add: ks_wf_def entries_ok_def chain_ok_def chained_def last_ok_def)

interpretation kw: address_updates ks_wf
proof
  fix s r a
  assume "ks_wf s" "same_addr (aget s r) a"
  then show "ks_wf (upd_at r a s)"
    using entries_ok_upd [of s r a] last_ok_upd [of s r a] chained_upd [of s _ r a]
    by (auto simp: ks_wf_def chain_ok_def upd_at_def)
qed (simp_all add: ks_wf_irrelevant)

interpretation kb: address_updates "\<lambda>s. ks_books s = b"
  by unfold_locales (auto simp: ks_books_def upd_at_def)

section \<open>New addresses\<close>

definition withAddr :: "walletAddress \<Rightarrow> KStore \<Rightarrow> KStore" where
  "withAddr a s = s\<lparr>aheap := aheap s @ [a],
     addrMap := AList.update (ScriptAddress (wa_Address a)) (length (aheap s)) (addrMap s)\<rparr>"

lemma addAddr_eq: "addAddr a s = (Inr (length (aheap s)), withAddr a s)"
  by (simp add: addAddr_def allocAddr_def bindE_def modifyE_def retE_def withAddr_def)

lemma set_AList_update: "set (AList.update k v m) \<subseteq> insert (k, v) (set m)"
  by (induction m) auto

lemma entries_ok_add: "entries_ok s \<Longrightarrow> entries_ok (withAddr a s)"
  using set_AList_update [of "ScriptAddress (wa_Address a)" "length (aheap s)" "addrMap s"]
  by (fastforce simp: entries_ok_def withAddr_def nth_append)

lemma map_of_entry: "entries_ok s \<Longrightarrow> map_of (addrMap s) k = Some r \<Longrightarrow> r < length (aheap s)"
  by (auto simp: entries_ok_def dest: map_of_SomeD)

text \<open>A new entry keeps what the maps say of chained addresses, if it is a key pair or takes no entry over.\<close>

definition adds_safely :: "walletAddress \<Rightarrow> KStore \<Rightarrow> bool" where
  "adds_safely a s \<longleftrightarrow> asBtc a \<noteq> None \<or> map_of (addrMap s) (ScriptAddress (wa_Address a)) = None"

lemma chained_add:
  assumes "entries_ok s" and "adds_safely a s" and "chained s x"
  shows "chained (withAddr a s) x"
  using assms map_of_entry [OF assms(1)]
  by (fastforce simp: chained_def withAddr_def adds_safely_def nth_append)

lemma ks_wf_addFresh:
  assumes "ks_wf s" and "map_of (addrMap s) (ScriptAddress (wa_Address a)) = None"
  shows "ks_wf (withAddr a s)"
proof -
  have w: "entries_ok s" "chain_ok s" using assms(1) by (simp_all add: ks_wf_def)
  have "last_ok (withAddr a s)"
    using w(2) assms(2) map_of_entry [OF w(1)] unfolding chain_ok_def last_ok_def
    by (fastforce simp: withAddr_def nth_append)
  then show ?thesis
    using entries_ok_add [OF w(1)] chained_add [OF w(1), of a] w(2) assms(2)
    by (auto simp: ks_wf_def chain_ok_def adds_safely_def withAddr_def)
qed

definition withChained :: "btcAddress \<Rightarrow> KStore \<Rightarrow> KStore" where
  "withChained b s = (withAddr (BtcAddr b) s)\<lparr>
     chainIdxMap := AList.update (a_chainIndex b) (a_address b) (chainIdxMap s), lastChainIdx := lastChainIdx s + 1\<rparr>"

lemma addChained_eq: "addChained b s = (Inr (length (aheap s)), withChained b s)"
  by (simp add: addChained_def addAddr_eq bindE_def modifyE_def retE_def withChained_def withAddr_def)

definition room :: "KStore \<Rightarrow> nat \<Rightarrow> bool" where
  "room s k \<longleftrightarrow> sint (lastChainIdx s) + int k < 2 ^ 63"

lemma sint_plus1: "sint (w :: i64) + 1 < 2 ^ 63 \<Longrightarrow> sint (w + 1) = sint w + 1"
proof -
  assume "sint w + 1 < 2 ^ 63"
  moreover have "- (2 ^ 63) \<le> sint w" using sint_ge [of w] by simp
  ultimately have "sint (word_of_int (sint w + 1) :: i64) = sint w + 1" by (intro sint_of_int_small) simp_all
  then show ?thesis by simp
qed

lemma ks_wf_addChained:
  assumes "ks_wf s" and "a_chainIndex b = lastChainIdx s + 1" and "room s 1"
  shows "ks_wf (withChained b s)"
proof -
  have w: "entries_ok s" "chain_ok s" using assms(1) by (simp_all add: ks_wf_def)
  have l: "sint (lastChainIdx s + 1) = sint (lastChainIdx s) + 1"
    using assms(3) by (intro sint_plus1) (simp add: room_def)
  have e: "entries_ok (withChained b s)"
    using entries_ok_add [OF w(1), of "BtcAddr b"] by (simp add: withChained_def entries_ok_def)
  have "chained (withChained b s) x" if "map_of (chainIdxMap (withChained b s)) i = Some x" for i x
  proof (cases "i = a_chainIndex b")
    case True
    then show ?thesis using that by (auto simp: chained_def withChained_def withAddr_def nth_append)
  next
    case False
    then have "chained s x" using that w(2) by (auto simp: chain_ok_def withChained_def)
    then have "chained (withAddr (BtcAddr b) s) x" using chained_add [OF w(1)] by (simp add: adds_safely_def)
    then show ?thesis by (simp add: chained_def withChained_def)
  qed
  moreover have "last_ok (withChained b s)"
    using assms(2) by (auto simp: last_ok_def withChained_def withAddr_def)
  moreover have "(map_of (chainIdxMap (withChained b s)) i \<noteq> None) =
      (- 1 \<le> sint i \<and> sint i \<le> sint (lastChainIdx (withChained b s)))" for i
  proof -
    have "(i = lastChainIdx s + 1) = (sint i = sint (lastChainIdx s) + 1)" using sint_eq_iff [of i "lastChainIdx s + 1"] l by simp
    moreover have "- 1 \<le> sint (lastChainIdx s)" using w(2) by (auto simp: chain_ok_def)
    moreover have "(map_of (chainIdxMap s) i \<noteq> None) = (- 1 \<le> sint i \<and> sint i \<le> sint (lastChainIdx s))"
      using w(2) unfolding chain_ok_def by blast
    ultimately show ?thesis
      by (cases "i = lastChainIdx s + 1") (use l assms(2) in \<open>auto simp: withChained_def\<close>)
  qed
  ultimately show ?thesis
    using e w(2) l by (auto simp: ks_wf_def chain_ok_def withChained_def withAddr_def)
qed

section \<open>Extending the chain\<close>

text \<open>The address at \<open>r\<close> is the last of the chain, whose length and use are given.\<close>

definition at_addr :: "aref \<Rightarrow> btcAddress \<Rightarrow> int \<Rightarrow> i64 \<Rightarrow> KStore \<Rightarrow> bool" where
  "at_addr r a L h s \<longleftrightarrow> ks_wf s \<and> sint (lastChainIdx s) = L \<and> ks_highestUsed s = h \<and>
     aget s r = BtcAddr a \<and> a_chainIndex a = lastChainIdx s"

interpretation aa: environment "at_addr r a L h"
  by unfold_locales (simp add: at_addr_def ks_wf_irrelevant)

lemma at_addr_wf: "at_addr r a L h s \<Longrightarrow> ks_wf s"
  by (simp add: at_addr_def)

lemma addChained_triple:
  assumes "a_chainIndex b = a_chainIndex a + 1" and "L + 1 < 2 ^ 63"
  shows "triple (at_addr r a L h) (addChained b) (\<lambda>r'. at_addr r' b (L + 1) h) E"
proof (rule tripleI)
  fix s q s'
  assume s: "at_addr r a L h s" and r: "addChained b s = (Inr q, s')"
  have q: "q = length (aheap s)" "s' = withChained b s" using r by (simp_all add: addChained_eq)
  have i: "a_chainIndex b = lastChainIdx s + 1" "room s 1" using s assms by (simp_all add: at_addr_def room_def)
  have "sint (lastChainIdx s + 1) = L + 1" using s assms(2) sint_plus1 [of "lastChainIdx s"] by (simp add: at_addr_def)
  then show "at_addr q b (L + 1) h s'"
    using s ks_wf_addChained [OF _ i] i(1) by (simp add: at_addr_def q withChained_def withAddr_def)
qed (simp add: addChained_eq)

lemma triple_env:
  assumes "preserves P m" and "\<And>s. P s \<Longrightarrow> ks_wf s"
  shows "triple P m (\<lambda>_. P) (\<lambda>_. ks_wf)"
  by (rule triple_conseq [OF triple_preserves [OF assms(1)]]) (simp_all add: assms(2))

lemmas env_bind = triple_bindE [OF triple_env [OF _ at_addr_wf]]

lemma getBtc_at: "triple (at_addr r a L h) (getBtc r) (\<lambda>x s. x = a \<and> at_addr r a L h s) E"
  unfolding getBtc_def by (rule triple_liftE) (auto simp: at_addr_def)

lemma getBtc_bind:
  "triple (at_addr r a L h) (f a) Q E \<Longrightarrow> triple (at_addr r a L h) (bindE (getBtc r) f) Q E"
  by (rule triple_bindE [OF getBtc_at], rule triple_fact) simp

lemma extendLoop_triple:
  "L + int n < 2 ^ 63 \<Longrightarrow>
   triple (at_addr r a L h) (extendLoop lib bs cc n p r)
     (\<lambda>_ s. ks_wf s \<and> sint (lastChainIdx s) = L + int n \<and> ks_highestUsed s = h) (\<lambda>_. ks_wf)"
proof (induction n arbitrary: p r a L)
  case 0
  then show ?case by (auto intro!: triple_retE simp: at_addr_def)
next
  case (Suc n)
  show ?case
    unfolding extendLoop.simps using Suc.IH [of "L + 1"] Suc.prems
    by (intro getBtc_bind env_bind [OF preserves_liftE] env_bind [OF aa.newBtcAddress_keeps]
        env_bind [OF aa.verifyKeypairs_keeps] triple_bindE [OF addChained_triple]) (simp_all add: algebra_simps)
qed

text \<open>A well-formed store with the given length and use of the chain.\<close>

definition chain_at :: "int \<Rightarrow> i64 \<Rightarrow> KStore \<Rightarrow> bool" where
  "chain_at L h s \<longleftrightarrow> ks_wf s \<and> sint (lastChainIdx s) = L \<and> ks_highestUsed s = h"

lemma chain_at_wf: "chain_at L h s \<Longrightarrow> ks_wf s"
  by (simp add: chain_at_def)

interpretation kl: address_updates "\<lambda>s. \<exists>a. at_addr r a L h s"
proof
  fix s q x
  assume "\<exists>a. at_addr r a L h s" "same_addr (aget s q) x"
  then obtain a where a: "at_addr r a L h s" by blast
  have "ks_wf (upd_at q x s)" using a \<open>same_addr (aget s q) x\<close> by (intro kw.upd) (simp_all add: at_addr_def)
  moreover have "\<exists>b. aget (upd_at q x s) r = BtcAddr b \<and> a_chainIndex b = lastChainIdx s"
    using a same_addr_asBtc [OF \<open>same_addr (aget s q) x\<close>, of a]
    by (cases "q = r"; cases "q < length (aheap s)") (auto simp: at_addr_def upd_at_def upd_nth asBtc_iff)
  ultimately show "\<exists>a. at_addr r a L h (upd_at q x s)" using a by (auto simp: at_addr_def upd_at_def)
qed (auto simp: at_addr_def ks_wf_irrelevant)

lemma lastChained_triple: "triple (chain_at L h) lastChained (\<lambda>r s. \<exists>a. at_addr r a L h s) E"
proof (rule tripleI)
  fix s r s' assume s: "chain_at L h s" "lastChained s = (Inr r, s')"
  then obtain a q b where "map_of (chainIdxMap s) (lastChainIdx s) = Some a"
     "map_of (addrMap s) (ScriptAddress a) = Some q" "asBtc (aget s q) = Some b" "a_chainIndex b = lastChainIdx s"
    unfolding chain_at_def ks_wf_def chain_ok_def last_ok_def by blast
  with s show "\<exists>a. at_addr r a L h s'"
    by (auto simp: lastChained_def gosimps getAddressKey_def liftE_def at_addr_def chain_at_def asBtc_iff)
next
  fix s e s' assume s: "chain_at L h s" "lastChained s = (Inl e, s')"
  then obtain a q where "map_of (chainIdxMap s) (lastChainIdx s) = Some a"
     "map_of (addrMap s) (ScriptAddress a) = Some q"
    unfolding chain_at_def ks_wf_def chain_ok_def last_ok_def by blast
  with s show "E e s'" by (auto simp: lastChained_def gosimps getAddressKey_def liftE_def)
qed

lemma extendKeypool_triple:
  assumes "L + int n < 2 ^ 63"
  shows "triple (chain_at L h) (extendKeypool lib n bs) (\<lambda>_. chain_at (L + int n) h) (\<lambda>_. ks_wf)"
  unfolding extendKeypool_def
proof (rule triple_bindE [OF lastChained_triple])
  fix r
  let ?P = "\<lambda>s. \<exists>a. at_addr r a L h s"
  have wf: "?P s \<Longrightarrow> ks_wf s" for s by (auto simp: at_addr_def)
  have loop: "triple ?P (extendLoop lib bs cc n p r) (\<lambda>_. chain_at (L + int n) h) (\<lambda>_. ks_wf)" for cc p
    by (rule triple_ex, rule triple_conseq [OF extendLoop_triple [OF assms]]) (simp_all add: chain_at_def)
  show "triple ?P (bindE (liftE Inr) (\<lambda>s. if IsLocked s then failE ErrLocked
      else bindE (getBtc r) (\<lambda>addr. bindE (unlockAt lib (ks_secret s) r) (\<lambda>privkey.
        extendLoop lib bs (a_chaincode addr) n privkey r))))
      (\<lambda>_. chain_at (L + int n) h) (\<lambda>_. ks_wf)"
    by (intro triple_bindE [OF triple_env [OF preserves_liftE]] triple_if triple_failE
        triple_bindE [OF triple_env [OF kl.getBtc_keeps]] triple_bindE [OF triple_env [OF kl.unlockAt_keeps]] loop wf)
qed

lemma extendLockedWallet_triple:
  assumes "L + 1 < 2 ^ 63"
  shows "triple (chain_at L h) (extendLockedWallet lib bs) (\<lambda>_. chain_at (L + 1) h) (\<lambda>_. ks_wf)"
  unfolding extendLockedWallet_def
proof (rule triple_bindE [OF lastChained_triple])
  fix r
  have m: "triple (at_addr q b (L + 1) h)
      (modifyE (\<lambda>s. if missingKeysStart s = 0 then s\<lparr>missingKeysStart := i\<rparr> else s)) (\<lambda>_. chain_at (L + 1) h) (\<lambda>_. ks_wf)" for q b i
    by (rule triple_modifyE) (simp add: at_addr_def chain_at_def ks_wf_irrelevant)
  show "triple (\<lambda>s. \<exists>a. at_addr r a L h s) (bindE (getBtc r) (\<lambda>addr.
      bindE (liftE (\<lambda>_. ChainedPubKey lib (pubKeyBytes lib addr) (a_chaincode addr))) (\<lambda>pk.
      bindE (newBtcAddressWithoutPrivkey lib pk [] bs) (\<lambda>newaddr.
      bindE (addChained (newaddr\<lparr>a_chainIndex := a_chainIndex addr + 1, a_chaincode := a_chaincode addr\<rparr>)) (\<lambda>_.
        modifyE (\<lambda>s. if missingKeysStart s = 0 then s\<lparr>missingKeysStart := a_chainIndex addr + 1\<rparr> else s))))))
      (\<lambda>_. chain_at (L + 1) h) (\<lambda>_. ks_wf)"
    using assms by (intro triple_ex getBtc_bind env_bind [OF preserves_liftE] env_bind [OF aa.newWithoutPrivkey_keeps]
        triple_bindE [OF addChained_triple] m) simp_all
qed

section \<open>The next address\<close>

definition grown :: "int \<Rightarrow> nat \<Rightarrow> i64 \<Rightarrow> KStore \<Rightarrow> bool" where
  "grown L n h s \<longleftrightarrow> (\<exists>k \<le> n. chain_at (L + int k) h s)"

lemma grown_wf: "grown L n h s \<Longrightarrow> ks_wf s"
  by (auto simp: grown_def chain_at_def)

lemma extend_triple:
  assumes "L + int (max 1 kp) < 2 ^ 63"
  shows "triple (chain_at L h) (if b then extendLockedWallet lib bs else extendKeypool lib kp bs)
    (\<lambda>_. grown L (max 1 kp) h) (\<lambda>_. ks_wf)"
proof (cases b)
  case True
  have "triple (chain_at L h) (extendLockedWallet lib bs) (\<lambda>_. grown L (max 1 kp) h) (\<lambda>_. ks_wf)"
    using assms by (intro triple_conseq [OF extendLockedWallet_triple]) (auto simp: grown_def intro!: exI [of _ 1])
  then show ?thesis using True by simp
next
  case False
  have "triple (chain_at L h) (extendKeypool lib kp bs) (\<lambda>_. grown L (max 1 kp) h) (\<lambda>_. ks_wf)"
    using assms by (intro triple_conseq [OF extendKeypool_triple]) (auto simp: grown_def intro!: exI [of _ kp])
  then show ?thesis using False by simp
qed

definition found :: "KStore \<Rightarrow> aref \<Rightarrow> bool" where
  "found s r \<longleftrightarrow> (\<exists>a. map_of (chainIdxMap s) (ks_highestUsed s) = Some a \<and>
     map_of (addrMap s) (ScriptAddress a) = Some r \<and> asBtc (aget s r) \<noteq> None)"

definition nextIdx :: "kslib \<Rightarrow> BlockStamp \<Rightarrow> nat \<Rightarrow> Address ksact" where
  "nextIdx lib bs kp = (\<lambda>s. case map_of (chainIdxMap s) (ks_highestUsed s + 1) of
         Some a \<Rightarrow> (Inr a, s)
       | None \<Rightarrow>
           bindE (if IsLocked s then extendLockedWallet lib bs else extendKeypool lib kp bs) (\<lambda>_.
             liftE (\<lambda>s. case map_of (chainIdxMap s) (ks_highestUsed s + 1) of
               None \<Rightarrow> Inl (ErrorString ''chain index map inproperly updated'')
             | Some a \<Rightarrow> Inr a)) s)"

lemma nextIdx_triple:
  assumes "L + int (max 1 kp) < 2 ^ 63"
  shows "triple (chain_at L h) (nextIdx lib bs kp)
    (\<lambda>a s. grown L (max 1 kp) h s \<and> map_of (chainIdxMap s) (h + 1) = Some a) (\<lambda>_. ks_wf)"
  unfolding triple_def
proof (intro allI impI)
  fix s assume s: "chain_at L h s"
  show "case nextIdx lib bs kp s of (Inl e, s') \<Rightarrow> ks_wf s'
    | (Inr a, s') \<Rightarrow> grown L (max 1 kp) h s' \<and> map_of (chainIdxMap s') (h + 1) = Some a"
  proof (cases "map_of (chainIdxMap s) (h + 1)")
    case None
    let ?m = "bindE (if IsLocked s then extendLockedWallet lib bs else extendKeypool lib kp bs) (\<lambda>_.
             liftE (\<lambda>s. case map_of (chainIdxMap s) (ks_highestUsed s + 1) of
               None \<Rightarrow> Inl (ErrorString ''chain index map inproperly updated'')
             | Some a \<Rightarrow> Inr a))"
    have "triple (chain_at L h) ?m (\<lambda>a s. grown L (max 1 kp) h s \<and> map_of (chainIdxMap s) (h + 1) = Some a) (\<lambda>_. ks_wf)"
      by (rule triple_bindE [OF extend_triple [OF assms]], rule triple_liftE)
         (auto simp: grown_def chain_at_def split: option.splits)
    then have post: "case ?m s of (Inl e, s') \<Rightarrow> ks_wf s'
      | (Inr a, s') \<Rightarrow> grown L (max 1 kp) h s' \<and> map_of (chainIdxMap s') (h + 1) = Some a"
      using s by (rule triple_case)
    have eq: "nextIdx lib bs kp s = ?m s" using s None by (simp add: nextIdx_def chain_at_def)
    show ?thesis unfolding eq by (rule post)
  qed (use s in \<open>auto simp: nextIdx_def grown_def chain_at_def intro!: exI [of _ 0]\<close>)
qed

lemma wf_highestUsed [simp]:
  "chained (s\<lparr>ks_highestUsed := h\<rparr>) = chained s" "last_ok (s\<lparr>ks_highestUsed := h\<rparr>) = last_ok s"
  "entries_ok (s\<lparr>ks_highestUsed := h\<rparr>) = entries_ok s"
  by (simp_all add: chained_def last_ok_def entries_ok_def fun_eq_iff)

lemma wf_advance:
  assumes "ks_wf s" and "map_of (chainIdxMap s) (ks_highestUsed s + 1) = Some a" and "sint (ks_highestUsed s) + 1 < 2 ^ 63"
  shows "ks_wf (s\<lparr>ks_highestUsed := ks_highestUsed s + 1\<rparr>) \<and> sint (ks_highestUsed s + 1) = sint (ks_highestUsed s) + 1"
proof -
  have "map_of (chainIdxMap s) (ks_highestUsed s + 1) \<noteq> None" using assms(2) by simp
  then have "- 1 \<le> sint (ks_highestUsed s + 1) \<and> sint (ks_highestUsed s + 1) \<le> sint (lastChainIdx s)"
    using assms(1) unfolding ks_wf_def chain_ok_def by blast
  then show ?thesis
    using assms(1) sint_plus1 [OF assms(3)]
    by (simp add: ks_wf_def chain_ok_def del: not_None_eq)
qed

lemma nextChained_triple:
  assumes "L + int (max 1 kp) + 1 < 2 ^ 63"
  shows "triple (chain_at L h) (nextChainedAddress lib bs kp)
    (\<lambda>r s. grown L (max 1 kp) (h + 1) s \<and> sint (h + 1) = sint h + 1 \<and> found s r) (\<lambda>_. ks_wf)"
  unfolding nextChainedAddress_def nextIdx_def [symmetric]
proof (rule triple_bindE [OF nextIdx_triple])
  show "L + int (max 1 kp) < 2 ^ 63" using assms by linarith
next
  fix a
  let ?P = "\<lambda>s. grown L (max 1 kp) h s \<and> map_of (chainIdxMap s) (h + 1) = Some a"
  let ?R = "\<lambda>r s. ?P s \<and> map_of (addrMap s) (ScriptAddress a) = Some r"
  have 1: "triple ?P (liftE (\<lambda>s. case map_of (addrMap s) (ScriptAddress a) of
       None \<Rightarrow> Inl (ErrorString ''cannot find generated address'') | Some r \<Rightarrow> Inr r)) ?R (\<lambda>_. ks_wf)"
    by (rule triple_liftE) (auto split: option.splits intro: grown_wf)
  have 2: "triple (?R r) (getBtc r) (\<lambda>b s. ?R r s \<and> asBtc (aget s r) \<noteq> None) (\<lambda>_. ks_wf)" for r
    unfolding getBtc_def by (rule triple_liftE) (auto split: option.splits intro: grown_wf)
  have 3: "triple (\<lambda>s. ?R r s \<and> asBtc (aget s r) \<noteq> None)
      (modifyE (\<lambda>s. s\<lparr>ks_highestUsed := ks_highestUsed s + 1\<rparr>))
      (\<lambda>_ s. grown L (max 1 kp) (h + 1) s \<and> sint (h + 1) = sint h + 1 \<and> found s r) (\<lambda>_. ks_wf)" for r
  proof (rule triple_modifyE)
    fix s assume s: "?R r s \<and> asBtc (aget s r) \<noteq> None"
    then obtain k where k: "k \<le> max 1 kp" "chain_at (L + int k) h s" by (auto simp: grown_def)
    have "sint h + 1 < 2 ^ 63"
      using k assms by (auto simp: chain_at_def ks_wf_def chain_ok_def simp del: of_nat_max)
    then have "ks_wf (s\<lparr>ks_highestUsed := h + 1\<rparr>) \<and> sint (h + 1) = sint h + 1"
      using wf_advance [of s a] s k by (auto simp: chain_at_def)
    then show "grown L (max 1 kp) (h + 1) (s\<lparr>ks_highestUsed := ks_highestUsed s + 1\<rparr>) \<and> sint (h + 1) = sint h + 1
        \<and> found (s\<lparr>ks_highestUsed := ks_highestUsed s + 1\<rparr>) r"
      using s k by (auto simp: grown_def chain_at_def found_def)
  qed
  show "triple ?P (bindE (liftE (\<lambda>s. case map_of (addrMap s) (ScriptAddress a) of
       None \<Rightarrow> Inl (ErrorString ''cannot find generated address'') | Some r \<Rightarrow> Inr r)) (\<lambda>r.
     bindE (getBtc r) (\<lambda>_.
     bindE (modifyE (\<lambda>s. s\<lparr>ks_highestUsed := ks_highestUsed s + 1\<rparr>)) (\<lambda>_. retE r))))
    (\<lambda>r s. grown L (max 1 kp) (h + 1) s \<and> sint (h + 1) = sint h + 1 \<and> found s r) (\<lambda>_. ks_wf)"
    by (intro triple_bindE [OF 1] triple_bindE [OF 2] triple_bindE [OF 3] triple_retE) simp
qed

end
