(* ===== verification/Ks_Reach.thy ===== *)
theory Ks_Reach
  imports Ks_Machine
begin

text \<open>
  Imports, creation and the step relation of the key store, with the invariant of all reachable stores.
\<close>

section \<open>Imports\<close>

definition addr_laws :: "kslib \<Rightarrow> bool" where
  "addr_laws lib \<longleftrightarrow> (\<forall>h n a. (NewAddressPubKeyHash lib h n = Inr a \<longrightarrow> ScriptAddress a = h) \<and>
     (NewAddressScriptHashFromHash lib h n = Inr a \<longrightarrow> ScriptAddress a = h))"

definition wif_ok :: "kslib \<Rightarrow> WIF \<Rightarrow> bool" where
  "wif_ok lib w \<longleftrightarrow> wif_SerializePubKey w = pubkeyFromPrivkey lib (wif_PrivKey w) (wif_CompressPubKey w)"

text \<open>The hash is free in the address map of a well-formed store.\<close>

definition free_hash :: "bytes \<Rightarrow> KStore \<Rightarrow> bool" where
  "free_hash k s \<longleftrightarrow> ks_wf s \<and> map_of (addrMap s) k = None"

interpretation fh: environment "free_hash k"
  by unfold_locales (simp add: free_hash_def ks_wf_irrelevant)

lemma free_hash_wf: "free_hash k s \<Longrightarrow> ks_wf s"
  by (simp add: free_hash_def)

lemma wf_imported [simp]:
  "chained (s\<lparr>importedAddrs := rs\<rparr>) = chained s" "last_ok (s\<lparr>importedAddrs := rs\<rparr>) = last_ok s"
  by (simp_all add: chained_def last_ok_def fun_eq_iff)

lemma ks_wf_imported: "ks_wf s \<Longrightarrow> r < length (aheap s) \<Longrightarrow> ks_wf (s\<lparr>importedAddrs := importedAddrs s @ [r]\<rparr>)"
  by (auto simp: ks_wf_def entries_ok_def chain_ok_def simp del: not_None_eq)

lemma addImported_triple:
  assumes "ScriptAddress (wa_Address a) = k"
  shows "triple (free_hash k) (addImported a) (\<lambda>_. ks_wf) (\<lambda>_. ks_wf)"
proof (rule tripleI)
  fix s x s' assume s: "free_hash k s" "addImported a s = (Inr x, s')"
  have "ks_wf (withAddr a s)" using s(1) assms by (intro ks_wf_addFresh) (simp_all add: free_hash_def)
  then have "ks_wf ((withAddr a s)\<lparr>importedAddrs := importedAddrs (withAddr a s) @ [length (aheap s)]\<rparr>)"
    by (rule ks_wf_imported) (simp add: withAddr_def)
  then show "ks_wf s'" using s(2) by (simp add: addImported_def addAddr_eq bindE_def modifyE_def retE_def)
qed (simp add: addImported_def addAddr_eq bindE_def modifyE_def retE_def)

lemma newWithoutPrivkey_addr:
  assumes "addr_laws lib" and "newBtcAddressWithoutPrivkey lib pk iv bs s = (Inr a, s')"
  shows "ScriptAddress (a_address a) = Hash160 lib pk"
  using assms unfolding newBtcAddressWithoutPrivkey_def
  by (auto simp: run_Inr addr_laws_def split: if_splits elim!: bindE_InrE)

lemma newBtcAddress_addr:
  assumes "addr_laws lib" and "newBtcAddress lib p iv bs cmp s = (Inr a, s')"
  shows "ScriptAddress (a_address a) = Hash160 lib (pubkeyFromPrivkey lib p cmp)"
  using assms(2) newWithoutPrivkey_addr [OF assms(1)] unfolding newBtcAddress_def
  by (auto simp: run_Inr split: if_splits elim!: bindE_InrE)

lemma newScript_addr:
  assumes "addr_laws lib" and "newScriptAddress lib script bs s = (Inr a, s')"
  shows "ScriptAddress (sa_address a) = Hash160 lib script"
  using assms unfolding newScriptAddress_def
  by (auto simp: run_Inr addr_laws_def elim!: bindE_InrE)

text \<open>A triple whose result also satisfies what a successful run says of it.\<close>

lemma triple_result:
  assumes "triple P m (\<lambda>_. Q) E" and "\<And>s a s'. m s = (Inr a, s') \<Longrightarrow> A a"
  shows "triple P m (\<lambda>a s. A a \<and> Q s) E"
  using assms by (fastforce simp: triple_def split: prod.splits sum.splits)

lemma encrypt_addr: "encrypt lib key a = Inr a' \<Longrightarrow> a_address a' = a_address a \<and> a_chainIndex a' = a_chainIndex a"
  by (auto simp: encrypt_def split: if_splits sum.splits)

lemma ImportPrivateKey_wf:
  assumes "addr_laws lib" and "wif_ok lib wif"
  shows "preserves ks_wf (ImportPrivateKey lib wif bs)"
proof (rule preservesI)
  fix s assume s: "ks_wf s"
  let ?k = "Hash160 lib (wif_SerializePubKey wif)"
  let ?m = "bindE (newBtcAddress lib (wif_PrivKey wif) [] bs (wif_CompressPubKey wif)) (\<lambda>btcaddr.
        bindE (liftE (\<lambda>s. Inr (btcaddr\<lparr>a_chainIndex := importedKeyChainIdx,
            a_flags := (if behind bs s then (a_flags btcaddr)\<lparr>af_unsynced := True\<rparr> else a_flags btcaddr)\<rparr>)))
          (\<lambda>a.
        bindE (liftE (\<lambda>s. encrypt lib (ks_secret s) a)) (\<lambda>a'. addImported (BtcAddr a'))))"
  have "triple (free_hash ?k) ?m (\<lambda>_. ks_wf) (\<lambda>_. ks_wf)"
  proof (rule triple_bindE [OF triple_result [OF triple_env [OF fh.newBtcAddress_keeps]]])
    show "ScriptAddress (a_address a) = ?k"
      if "newBtcAddress lib (wif_PrivKey wif) [] bs (wif_CompressPubKey wif) t = (Inr a, t')" for a t t'
      using newBtcAddress_addr [OF assms(1) that] assms(2) by (simp add: wif_ok_def)
    show "triple (\<lambda>s. ScriptAddress (a_address b) = ?k \<and> free_hash ?k s)
       (bindE (liftE (\<lambda>s. Inr (b\<lparr>a_chainIndex := importedKeyChainIdx,
            a_flags := (if behind bs s then (a_flags b)\<lparr>af_unsynced := True\<rparr> else a_flags b)\<rparr>)))
          (\<lambda>a. bindE (liftE (\<lambda>s. encrypt lib (ks_secret s) a)) (\<lambda>a'. addImported (BtcAddr a'))))
       (\<lambda>_. ks_wf) (\<lambda>_. ks_wf)" for b
    proof (rule triple_fact, rule triple_bindE [where R = "\<lambda>a s. a_address a = a_address b \<and> free_hash ?k s"])
      assume b: "ScriptAddress (a_address b) = ?k"
      show "triple (\<lambda>s. a_address a = a_address b \<and> free_hash ?k s)
        (bindE (liftE (\<lambda>s. encrypt lib (ks_secret s) a)) (\<lambda>a'. addImported (BtcAddr a'))) (\<lambda>_. ks_wf) (\<lambda>_. ks_wf)" for a
        by (rule triple_fact, rule triple_bindE [where R = "\<lambda>a' s. a_address a' = a_address b \<and> free_hash ?k s"],
            rule triple_liftE)
           (auto dest: encrypt_addr free_hash_wf intro!: triple_fact addImported_triple simp: b)
    qed (auto intro!: triple_liftE)
  qed (rule free_hash_wf)
  then have "ks_wf (snd (?m s))" if "map_of (addrMap s) ?k = None"
    by (rule triple_snd) (simp add: free_hash_def s that)
  then show "ks_wf (snd (ImportPrivateKey lib wif bs s))" using s by (auto simp: ImportPrivateKey_def)
qed

lemma ImportScript_wf:
  assumes "addr_laws lib"
  shows "preserves ks_wf (ImportScript lib script bs)"
proof (rule preservesI)
  fix s assume s: "ks_wf s"
  let ?k = "Hash160 lib script"
  let ?m = "bindE (newScriptAddress lib script bs) (\<lambda>scriptaddr.
        bindE (liftE (\<lambda>s. Inr (scriptaddr\<lparr>
            sa_flags := (if behind bs s then (sa_flags scriptaddr)\<lparr>sf_unsynced := True\<rparr> else sa_flags scriptaddr)\<rparr>)))
          (\<lambda>a. addImported (ScriptAddr a)))"
  have "triple (free_hash ?k) ?m (\<lambda>_. ks_wf) (\<lambda>_. ks_wf)"
  proof (rule triple_bindE [OF triple_result [OF triple_env [OF fh.newScript_keeps]]])
    show "ScriptAddress (sa_address a) = ?k" if "newScriptAddress lib script bs t = (Inr a, t')" for a t t'
      using newScript_addr [OF assms that] .
    show "triple (\<lambda>s. ScriptAddress (sa_address b) = ?k \<and> free_hash ?k s)
       (bindE (liftE (\<lambda>s. Inr (b\<lparr>
            sa_flags := (if behind bs s then (sa_flags b)\<lparr>sf_unsynced := True\<rparr> else sa_flags b)\<rparr>)))
          (\<lambda>a. addImported (ScriptAddr a))) (\<lambda>_. ks_wf) (\<lambda>_. ks_wf)" for b
      by (rule triple_fact, rule triple_bindE [where R = "\<lambda>a s. sa_address a = sa_address b \<and> free_hash ?k s"])
         (auto intro!: triple_liftE triple_fact addImported_triple)
  qed (rule free_hash_wf)
  then have "ks_wf (snd (?m s))" if "map_of (addrMap s) ?k = None"
    by (rule triple_snd) (simp add: free_hash_def s that)
  then show "ks_wf (snd (ImportScript lib script bs s))" using s by (auto simp: ImportScript_def)
qed

section \<open>Requests for addresses\<close>

lemma NextChained_triple:
  assumes "L + int (max 1 kp) + 1 < 2 ^ 63"
  shows "triple (chain_at L h) (NextChainedAddress lib bs kp) (\<lambda>_. grown L (max 1 kp) (h + 1)) (\<lambda>_. ks_wf)"
  unfolding NextChainedAddress_def
  by (rule triple_bindE [OF nextChained_triple [OF assms]], rule triple_liftE) auto

interpretation gr: address_updates "grown L n h"
proof
  show "grown L n h (upd_at r a s)" if "grown L n h s" "same_addr (aget s r) a" for s r a
    using that kw.upd [of s r a] by (auto simp: grown_def chain_at_def upd_at_def)
qed (auto simp: grown_def chain_at_def ks_wf_irrelevant)

lemma ChangeAddress_triple:
  assumes "L + int (max 1 kp) + 1 < 2 ^ 63"
  shows "triple (chain_at L h) (ChangeAddress lib bs kp) (\<lambda>_. ks_wf) (\<lambda>_. ks_wf)"
  unfolding ChangeAddress_def
proof (rule triple_bindE [OF nextChained_triple [OF assms]])
  fix r
  have "triple ks_wf (bindE (getBtc r) (\<lambda>a. bindE (setAddr r (BtcAddr (a\<lparr>a_flags := (a_flags a)\<lparr>af_change := True\<rparr>\<rparr>))) (\<lambda>_.
       retE (a_address a)))) (\<lambda>_. ks_wf) (\<lambda>_. ks_wf)"
    by (rule triple_bindE [OF kw.getBtc_triple], rule triple_bindE, rule triple_pre [OF kw.setAddr_triple])
       (auto intro: triple_retE)
  then show "triple (\<lambda>s. grown L (max 1 kp) (h + 1) s \<and> sint (h + 1) = sint h + 1 \<and> found s r)
     (bindE (getBtc r) (\<lambda>a. bindE (setAddr r (BtcAddr (a\<lparr>a_flags := (a_flags a)\<lparr>af_change := True\<rparr>\<rparr>))) (\<lambda>_.
       retE (a_address a)))) (\<lambda>_. ks_wf) (\<lambda>_. ks_wf)"
    by (rule triple_pre) (auto intro: grown_wf)
qed

lemma grown_triple:
  "(\<And>k. k \<le> n \<Longrightarrow> triple (chain_at (L + int k) h) m Q E) \<Longrightarrow> triple (grown L n h) m Q E"
  by (force simp: triple_def grown_def)

lemma repNext_triple:
  "L + int (k * max 1 kp) + 1 < 2 ^ 63 \<Longrightarrow>
   triple (chain_at L h) (repE k (NextChainedAddress lib bs kp)) (\<lambda>_. ks_wf) (\<lambda>_. ks_wf)"
proof (induction k arbitrary: L h)
  case 0
  then show ?case by (auto intro!: triple_retE dest: chain_at_wf)
next
  case (Suc k)
  have "max 1 kp \<le> Suc k * max 1 kp" by simp
  then have "int (max 1 kp) \<le> int (Suc k * max 1 kp)" by (rule of_nat_mono)
  then have l: "L + int (max 1 kp) + 1 < 2 ^ 63" using Suc.prems by linarith
  have "triple (chain_at (L + int j) (h + 1)) (bindE (repE k (NextChainedAddress lib bs kp)) (\<lambda>xs. retE (x # xs)))
      (\<lambda>_. ks_wf) (\<lambda>_. ks_wf)" if "j \<le> max 1 kp" for j x
    using Suc.prems that
    by (intro triple_bindE [OF Suc.IH] triple_retE) (simp_all add: algebra_simps del: of_nat_max)
  then have "triple (grown L (max 1 kp) (h + 1)) (bindE (repE k (NextChainedAddress lib bs kp)) (\<lambda>xs. retE (x # xs)))
      (\<lambda>_. ks_wf) (\<lambda>_. ks_wf)" for x
    by (rule grown_triple)
  then show ?case unfolding repE.simps by (rule triple_bindE [OF NextChained_triple [OF l]])
qed

lemma ExtendActive_triple:
  assumes "L + int (unat n * max 1 kp) + 1 < 2 ^ 63"
  shows "triple (chain_at L h) (ExtendActiveAddresses lib n kp) (\<lambda>_. ks_wf) (\<lambda>_. ks_wf)"
  unfolding ExtendActiveAddresses_def
  by (intro triple_if triple_failE chain_at_wf triple_bindE [OF triple_env [OF preserves_liftE chain_at_wf]]
      repNext_triple [OF assms])

section \<open>New stores\<close>

definition fresh_base :: "KStore \<Rightarrow> bool" where
  "fresh_base s \<longleftrightarrow> addrMap s = [] \<and> chainIdxMap s = [] \<and> importedAddrs s = [] \<and>
     lastChainIdx s = rootKeyChainIdx \<and> ks_highestUsed s = rootKeyChainIdx"

interpretation fb: environment fresh_base
  by unfold_locales (simp add: fresh_base_def)

lemma installRoot_wf:
  assumes "fresh_base s" and "a_chainIndex root = rootKeyChainIdx"
  shows "chain_at (- 1) rootKeyChainIdx (installRoot root s)"
proof -
  have "(- 1 \<le> sint i \<and> sint i \<le> - 1) = (i = - 1)" for i :: i64 using sint_eq_iff [of i "- 1"] by auto
  then show ?thesis
    using assms by (auto simp: chain_at_def fresh_base_def installRoot_def ks_wf_def entries_ok_def chain_ok_def
        chained_def last_ok_def keyGenerator_def rootKeyChainIdx_def)
qed

lemma newRoot_index:
  "newRootBtcAddress lib p iv cc bs s = (Inr a, s') \<Longrightarrow> a_chainIndex a = rootKeyChainIdx"
  unfolding newRootBtcAddress_def by (auto simp: run_Inr split: if_splits elim!: bindE_InrE)

lemma NewStore_wf:
  assumes "NewStore lib name desc pass net createdAt kp events = Inr s" and "int kp < 2 ^ 62"
  shows "ks_wf s"
proof -
  obtain rk cc kdfp ak now e root root' t1 t2 t3 where
    r: "newRootBtcAddress lib rk [] cc createdAt (newBase name desc net createdAt kdfp ak now e) = (Inr root, t1)"
    and v: "verifyKeypairs lib root t1 = (Inr (), t2)" and c: "encrypt lib ak root = Inr root'"
    and x: "extendKeypool lib kp createdAt (installRoot root' t2) = (Inr (), t3)" and l: "Lock t3 = (Inr (), s)"
    using assms(1) unfolding NewStore_def
    by (auto simp: run_Inr split: if_splits prod.splits sum.splits elim!: bindE_InrE)
  have "fresh_base (newBase name desc net createdAt kdfp ak now e)" by (simp add: fresh_base_def newBase_def)
  then have "fresh_base t2" using preservesD [OF fb.newRoot_keeps r] preservesD [OF fb.verifyKeypairs_keeps v] by blast
  moreover have "a_chainIndex root' = rootKeyChainIdx" using newRoot_index [OF r] encrypt_addr [OF c] by simp
  ultimately have "chain_at (- 1) rootKeyChainIdx (installRoot root' t2)" by (rule installRoot_wf)
  moreover have "- 1 + int kp < 2 ^ 63" using assms(2) by simp
  ultimately have "ks_wf t3" using tripleD(1) [OF extendKeypool_triple _ x] chain_at_wf by blast
  then show ?thesis using preservesD [OF kw.Lock_keeps l] by blast
qed

section \<open>Steps\<close>

text \<open>One call of an exported operation, with whatever result. Requests for addresses carry the bound that the
  64-bit chain index does not overflow.\<close>

inductive ks_step :: "kslib \<Rightarrow> KStore \<Rightarrow> KStore \<Rightarrow> bool" for lib :: kslib where
  step_next: "room s (max 1 kp + 1) \<Longrightarrow> NextChainedAddress lib bs kp s = (res, s') \<Longrightarrow> ks_step lib s s'"
| step_change: "room s (max 1 kp + 1) \<Longrightarrow> ChangeAddress lib bs kp s = (res, s') \<Longrightarrow> ks_step lib s s'"
| step_extend: "room s (unat n * max 1 kp + 1) \<Longrightarrow> ExtendActiveAddresses lib n kp s = (ress, s') \<Longrightarrow> ks_step lib s s'"
| step_unlock: "Unlock lib passphrase s = (resu, s') \<Longrightarrow> ks_step lib s s'"
| step_lock: "Lock s = (resu, s') \<Longrightarrow> ks_step lib s s'"
| step_passphrase: "ChangePassphrase lib new s = (resu, s') \<Longrightarrow> ks_step lib s s'"
| step_importKey: "wif_ok lib wif \<Longrightarrow> ImportPrivateKey lib wif bs s = (res, s') \<Longrightarrow> ks_step lib s s'"
| step_importScript: "ImportScript lib script bs s = (res, s') \<Longrightarrow> ks_step lib s s'"
| step_syncStatus: "SetSyncStatus a ss s = (resu, s') \<Longrightarrow> ks_step lib s s'"
| step_syncedWith: "ks_step lib s (SetSyncedWith bso s)"
| step_privKey: "PrivKey lib r s = (resn, s') \<Longrightarrow> ks_step lib s s'"

inductive_cases ks_stepE: "ks_step lib s s'"

inductive ks_reachable :: "kslib \<Rightarrow> KStore \<Rightarrow> bool" for lib :: kslib where
  kreach_new: "NewStore lib name desc pass net createdAt kp events = Inr s \<Longrightarrow> int kp < 2 ^ 62 \<Longrightarrow> ks_reachable lib s"
| kreach_step: "ks_reachable lib s \<Longrightarrow> ks_step lib s s' \<Longrightarrow> ks_reachable lib s'"

lemma request_wf:
  assumes "triple (chain_at (sint (lastChainIdx s)) (ks_highestUsed s)) m Q (\<lambda>_. ks_wf)" and "\<And>a t. Q a t \<Longrightarrow> ks_wf t"
    and "ks_wf s" and "m s = (res, s')"
  shows "ks_wf s'"
  using triple_snd [OF triple_conseq [OF assms(1), where P' = "\<lambda>t. t = s" and Q' = "\<lambda>_. ks_wf"]] assms(2,3,4)
  by (auto simp: chain_at_def)

lemma ks_step_wf:
  assumes "addr_laws lib" and "ks_step lib s s'" and "ks_wf s"
  shows "ks_wf s'"
  using assms(2)
proof (cases rule: ks_step.cases)
  case (step_next kp bs res)
  then show ?thesis using request_wf [OF NextChained_triple] assms(3) grown_wf by (force simp: room_def)
next
  case (step_change kp bs res)
  then show ?thesis using request_wf [OF ChangeAddress_triple] assms(3) by (force simp: room_def)
next
  case (step_extend n kp ress)
  then show ?thesis using request_wf [OF ExtendActive_triple] assms(3) by (force simp: room_def)
next
  case (step_importKey wif bs res)
  then show ?thesis using preservesD [OF ImportPrivateKey_wf [OF assms(1)]] assms(3) by blast
next
  case (step_importScript script bs res)
  then show ?thesis using preservesD [OF ImportScript_wf [OF assms(1)]] assms(3) by blast
next
  case (step_unlock passphrase resu)
  then show ?thesis using preservesD [OF kw.Unlock_keeps] assms(3) by blast
next
  case (step_lock resu)
  then show ?thesis using preservesD [OF kw.Lock_keeps] assms(3) by blast
next
  case (step_passphrase new resu)
  then show ?thesis using preservesD [OF kw.ChangePassphrase_keeps] assms(3) by blast
next
  case (step_syncStatus a ss resu)
  then show ?thesis using preservesD [OF kw.SetSyncStatus_keeps] assms(3) by blast
next
  case (step_syncedWith bso)
  then show ?thesis using kw.SetSyncedWith_keeps assms(3) by simp
next
  case (step_privKey r resn)
  then show ?thesis using preservesD [OF kw.PrivKey_keeps] assms(3) by blast
qed

text \<open>C11. Every key store that calls of the exported operations other than \<open>ReadFrom\<close> make of a new one is well formed, whatever
  the calls return, as long as chain indices stay in range, imported keys come with their own public key and
  the library's address constructors obey their laws. Well formed means that the chain index is contiguous from the root to the last address, each chained address is found
  in the address map as a key pair (of the last one it is also shown that it carries the last index), no more addresses are in use than
  exist, and every entry of the map is filed under the hash of its own address.\<close>

theorem ks_reachable_wf:
  assumes "addr_laws lib" and "ks_reachable lib s"
  shows "ks_wf s"
  using assms(2) by (induction rule: ks_reachable.induct) (auto intro: NewStore_wf ks_step_wf [OF assms(1)])

section \<open>A store of the small library\<close>

definition kslib1 :: kslib where
  "kslib1 = kslib0\<lparr>Elapsed := \<lambda>i. 100000000\<rparr>"

lemma addr_laws1: "addr_laws kslib1"
  by (simp add: addr_laws_def kslib1_def kslib0_def)

lemma hash_ok1: "hash_ok kslib1"
  using hash_ok0 by (simp add: hash_ok_def kslib1_def)

lemma keyOneIter_2048: "\<exists>k. keyOneIter kslib1 p salt 2048 = Inr k \<and> length k = 32"
  using keyOneIter_blocks [OF hash_ok1, of 32 p salt] length_romix [OF hash_ok1, of 32 "p @ salt"] by simp

lemma env1 [simp]:
  "RandRead kslib1 i n = Inr (replicate n (of_nat i))" "Elapsed kslib1 i = 100000000"
  by (simp_all add: kslib1_def kslib0_def)

lemma kdf1:
  "\<exists>salt t. computeKdfParameters kslib1 250000000 33554432 s =
     (Inr \<lparr>kdf_mem = 2048, kdf_nIter = 2, kdf_salt = salt\<rparr>, t)"
proof -
  obtain f where f: "\<And>x. keyOneIter kslib1 testKey x 2048 = Inr (f x)" using keyOneIter_2048 by metis
  have m: "\<exists>t. kdfMemLoop kslib1 250000000 33554432 testKey salt (Suc (Suc k)) 0 1024 s = (Inr 2048, t)" for salt k s
    by (simp add: bindE_def liftE_def retE_def f)
  have it: "\<exists>t. kdfIterLoop kslib1 testKey salt 2048 (Suc (Suc k)) 0 1 s = (Inr 2, t)" for salt k s
    by (simp add: bindE_def liftE_def retE_def f upt_rec)
  have 64: "(64 :: nat) = Suc (Suc 62)" by simp
  obtain salt t0 where "randRead kslib1 32 s = (Inr salt, t0)" by (simp add: randRead_def)
  moreover obtain t1 where "kdfMemLoop kslib1 250000000 33554432 testKey salt 64 0 1024 t0 = (Inr 2048, t1)"
    using m [of salt 62 t0] unfolding 64 by blast
  moreover obtain t2 where "kdfIterLoop kslib1 testKey salt 2048 64 0 1 t1 = (Inr 2, t2)"
    using it [of salt 62 t1] unfolding 64 by blast
  ultimately show ?thesis
    by (auto simp: computeKdfParameters_def bindE_def retE_def)
qed

lemma newRoot1:
  "\<exists>root n. newRootBtcAddress kslib1 (replicate 32 0) [] (replicate 32 1) bs s = (Inr root, s\<lparr>ks_events := n\<rparr>) \<and>
     \<not> encrypted (a_flags root) \<and> a_privKeyCT root = replicate 32 0 \<and> a_pubKey root = \<lparr>PubX = 0, PubY = 0\<rparr>"
proof -
  have "pubkeyFromPrivkey kslib0 (replicate 32 0) True = 2 # replicate 32 0" by code_simp
  then have p: "pubkeyFromPrivkey kslib1 (replicate 32 0) True = 2 # replicate 32 0"
    by (simp add: pubkeyFromPrivkey_def kslib1_def)
  have "ParsePubKey kslib0 (2 # replicate 32 0) = Inr \<lparr>PubX = 0, PubY = 0\<rparr>" by code_simp
  then have q: "ParsePubKey kslib1 (2 # replicate 32 0) = Inr \<lparr>PubX = 0, PubY = 0\<rparr>" by (simp add: kslib1_def)
  have a: "NewAddressPubKeyHash kslib1 (Hash160 kslib1 x) n = Inr \<lparr>ScriptAddress = Hash160 kslib1 x, AddrNet = n\<rparr>" for x n
    by (simp add: kslib1_def kslib0_def length_cut)
  show ?thesis
    by (simp add: newRootBtcAddress_def newBtcAddress_def newBtcAddressWithoutPrivkey_def p q a bindE_def liftE_def
        retE_def randRead_def timeNow_def) blast
qed

lemma aes1: "length (AES kslib1 k x) = 16"
  by (simp add: kslib1_def kslib0_def length_cut)

lemma NewStore1: "\<exists>s. NewStore kslib1 [65] [] [1] \<lparr>Net = 1\<rparr> \<lparr>bs_Height = 10, bs_Hash = 100\<rparr> 0 0 = Inr s"
proof -
  let ?bs = "\<lparr>bs_Height = 10, bs_Hash = 100\<rparr>"
  let ?base = "newBase [] [] \<lparr>Net = 1\<rparr> ?bs zeroKdf [] 0 0"
  obtain t0 where t0: "randRead kslib1 32 ?base = (Inr (replicate 32 0), t0)" "ks_events t0 = 1"
    by (simp add: randRead_def newBase_def)
  obtain t1 where t1: "randRead kslib1 32 t0 = (Inr (replicate 32 1), t1)"
    using t0(2) by (simp add: randRead_def)
  obtain kdfp t2 where t2: "computeKdfParameters kslib1 250000000 33554432 t1 = (Inr kdfp, t2)" "kdf_mem kdfp = 2048"
    "kdf_nIter kdfp = 2" using kdf1 [of t1] by auto
  obtain k where k: "Key kslib1 [1] kdfp = Inr k" "length k = 32"
  proof -
    obtain k1 where k1: "keyOneIter kslib1 [1] (kdf_salt kdfp) 2048 = Inr k1" using keyOneIter_2048 by blast
    obtain k2 where k2: "keyOneIter kslib1 k1 (kdf_salt kdfp) 2048 = Inr k2" "length k2 = 32" using keyOneIter_2048 by blast
    have "unat (kdf_nIter kdfp) = Suc (Suc 0)" using t2(3) by simp
    then have "Key kslib1 [1] kdfp = Inr k2" using t2(2) k1 k2 by (simp add: Key_def)
    then show ?thesis using that k2(2) by blast
  qed
  obtain now t3 where t3: "timeNow kslib1 t2 = (Inr now, t3)" by (simp add: timeNow_def)
  let ?s = "newBase [65] [] \<lparr>Net = 1\<rparr> ?bs kdfp k now (ks_events t3)"
  obtain root n4 where t4: "newRootBtcAddress kslib1 (replicate 32 0) [] (replicate 32 1) ?bs ?s = (Inr root, ?s\<lparr>ks_events := n4\<rparr>)"
    "\<not> encrypted (a_flags root)" "a_privKeyCT root = replicate 32 0" "a_pubKey root = \<lparr>PubX = 0, PubY = 0\<rparr>"
    using newRoot1 [of ?bs ?s] by blast
  have z: "SetBytes (replicate 32 0) = 0" by code_simp
  obtain n5 where t5: "verifyKeypairs kslib1 root (?s\<lparr>ks_events := n4\<rparr>) = (Inr (), ?s\<lparr>ks_events := n5\<rparr>)"
    using t4 z by (simp add: verifyKeypairs_def kslib1_def kslib0_def)
  define root' where "root' = root\<lparr>a_privKey := cfbEncrypt (AES kslib1 k) (a_initVector root) (a_privKeyCT root),
    a_flags := (a_flags root)\<lparr>hasPrivKey := True, encrypted := True\<rparr>\<rparr>"
  have e: "encrypt kslib1 k root = Inr root'" using t4 k(2) by (simp add: encrypt_def NewCipher_def root'_def)
  define s6 where "s6 = installRoot root' (?s\<lparr>ks_events := n5\<rparr>)"
  have "unlock kslib1 k root' = Inr (replicate 32 0, root')"
    using t4 k(2) by (simp add: unlock_def NewCipher_def root'_def cfbDecrypt_cfbEncrypt aes1)
  then have u: "extendKeypool kslib1 0 ?bs s6 = (Inr (), s6)"
    using k(2) by (simp add: extendKeypool_def lastChained_def s6_def installRoot_def newBase_def gosimps getAddressKey_def
        IsLocked_def getBtc_def unlockAt_def setAddr_def liftE_def modifyE_def bindE_def retE_def keyGenerator_def)
  obtain s7 where l: "Lock s6 = (Inr (), s7)"
    using k(2) by (simp add: Lock_def s6_def installRoot_def newBase_def IsLocked_def)
  have "NewStore kslib1 [65] [] [1] \<lparr>Net = 1\<rparr> ?bs 0 0 = Inr s7"
    using t0(1) t1 t2(1) k(1) t3 t4(1) t5 e u l
    by (simp add: NewStore_def bindE_def liftE_def modifyE_def s6_def [symmetric] split: prod.split sum.split)
  then show ?thesis by blast
qed

theorem ks_reachable_wf_witness:
  "\<exists>s. NewStore kslib1 [65] [] [1] \<lparr>Net = 1\<rparr> \<lparr>bs_Height = 10, bs_Hash = 100\<rparr> 0 0 = Inr s \<and> ks_wf s"
  using NewStore1 ks_reachable_wf [OF addr_laws1 kreach_new [of kslib1]] by fastforce

end
