(* ===== verification/Ks_Props.thy ===== *)
theory Ks_Props
  imports Ks_Reach
begin

text \<open>
  What the operations of the key store promise: requests for addresses, locking, the loop that creates missing
  keys, and watching copies.
\<close>

section \<open>Requests for addresses\<close>

lemma entry_address:
  "ks_wf s \<Longrightarrow> map_of (addrMap s) k = Some r \<Longrightarrow> ScriptAddress (wa_Address (aget s r)) = k"
  by (force simp: ks_wf_def entries_ok_def dest: map_of_SomeD)

lemma pooled_address:
  assumes "ks_wf s" and "sint (ks_highestUsed s) < sint (lastChainIdx s)"
  obtains a r where "map_of (chainIdxMap s) (ks_highestUsed s + 1) = Some a"
    and "map_of (addrMap s) (ScriptAddress a) = Some r" and "asBtc (aget s r) \<noteq> None"
proof -
  have l: "sint (lastChainIdx s) < 2 ^ 63" using sint_lt [of "lastChainIdx s"] by simp
  have n: "sint (ks_highestUsed s + 1) = sint (ks_highestUsed s) + 1" using assms(2) l by (intro sint_plus1) simp
  have "- 1 \<le> sint (ks_highestUsed s)" using assms(1) by (simp add: ks_wf_def chain_ok_def)
  then have "map_of (chainIdxMap s) (ks_highestUsed s + 1) \<noteq> None"
    using assms n unfolding ks_wf_def chain_ok_def by (simp del: not_None_eq)
  then obtain a where a: "map_of (chainIdxMap s) (ks_highestUsed s + 1) = Some a" by blast
  then have "chained s a" using assms(1) unfolding ks_wf_def chain_ok_def by blast
  then show ?thesis using that a unfolding chained_def by blast
qed

text \<open>C28. A request for the next address, on a well-formed store. While the key pool has an unused address the
  request succeeds without any cryptography and only advances the count of used addresses. Whenever a request
  succeeds, pool or not, exactly one more address is in use, and the address returned is the one the chain index
  has at that position.\<close>

theorem NextChainedAddress_ok:
  assumes "ks_wf s" and "room s (max 1 kp + 1)"
  shows "(sint (ks_highestUsed s) < sint (lastChainIdx s) \<longrightarrow>
      (\<exists>a. NextChainedAddress lib bs kp s = (Inr a, s\<lparr>ks_highestUsed := ks_highestUsed s + 1\<rparr>)))
    \<and> (\<forall>a s'. NextChainedAddress lib bs kp s = (Inr a, s') \<longrightarrow>
        sint (ks_highestUsed s') = sint (ks_highestUsed s) + 1 \<and>
        (\<exists>x. map_of (chainIdxMap s') (ks_highestUsed s') = Some x \<and> ScriptAddress x = ScriptAddress a))"
proof (intro conjI impI allI)
  assume "sint (ks_highestUsed s) < sint (lastChainIdx s)"
  then obtain a r where "map_of (chainIdxMap s) (ks_highestUsed s + 1) = Some a"
    "map_of (addrMap s) (ScriptAddress a) = Some r" "asBtc (aget s r) \<noteq> None"
    using pooled_address [OF assms(1)] by blast
  then show "\<exists>a. NextChainedAddress lib bs kp s = (Inr a, s\<lparr>ks_highestUsed := ks_highestUsed s + 1\<rparr>)"
    by (auto simp: NextChainedAddress_def nextChainedAddress_def bindE_def liftE_def getBtc_def modifyE_def retE_def)
next
  fix a s' assume "NextChainedAddress lib bs kp s = (Inr a, s')"
  then obtain r where r: "nextChainedAddress lib bs kp s = (Inr r, s')" "a = wa_Address (aget s' r)"
    unfolding NextChainedAddress_def by (auto simp: run_Inr elim!: bindE_InrE)
  have "sint (lastChainIdx s) + int (max 1 kp) + 1 < 2 ^ 63" using assms(2) by (simp add: room_def del: of_nat_max)
  from tripleD(1) [OF nextChained_triple [OF this] _ r(1)] assms(1)
  have p: "grown (sint (lastChainIdx s)) (max 1 kp) (ks_highestUsed s + 1) s'"
    "sint (ks_highestUsed s + 1) = sint (ks_highestUsed s) + 1" "found s' r" by (simp_all add: chain_at_def)
  then have u: "ks_highestUsed s' = ks_highestUsed s + 1" and w: "ks_wf s'"
    by (auto simp: grown_def chain_at_def)
  show "sint (ks_highestUsed s') = sint (ks_highestUsed s) + 1" using p(2) u by simp
  show "\<exists>x. map_of (chainIdxMap s') (ks_highestUsed s') = Some x \<and> ScriptAddress x = ScriptAddress a"
    using p(3) r(2) entry_address [OF w] by (auto simp: found_def)
qed

text \<open>A store whose pool holds one address.\<close>

definition addr1 :: btcAddress where
  "addr1 = root0\<lparr>a_address := \<lparr>ScriptAddress = replicate 20 8, AddrNet = \<lparr>Net = 1\<rparr>\<rparr>, a_chainIndex := 0\<rparr>"

definition ks1 :: KStore where
  "ks1 = withChained addr1 ks0"

lemma ks1_wf: "ks_wf ks0" "ks_wf ks1"
proof -
  have "chain_at (- 1) rootKeyChainIdx ks0"
    unfolding ks0_def by (rule installRoot_wf) (simp_all add: fresh_base_def newBase_def root0_def rootKeyChainIdx_def)
  then show w: "ks_wf ks0" by (rule chain_at_wf)
  have l: "lastChainIdx ks0 = - 1" by (simp add: ks0_def installRoot_def newBase_def rootKeyChainIdx_def)
  show "ks_wf ks1" unfolding ks1_def
    by (rule ks_wf_addChained [OF w]) (simp_all add: l addr1_def room_def)
qed

theorem NextChainedAddress_ok_witness:
  "\<exists>a s'. NextChainedAddress kslib0 \<lparr>bs_Height = 11, bs_Hash = 0\<rparr> 5 ks1 = (Inr a, s') \<and> ks_highestUsed s' = 0"
proof -
  have u: "ks_highestUsed ks1 = - 1" "lastChainIdx ks1 = 0"
    by (simp_all add: ks1_def withChained_def withAddr_def ks0_def installRoot_def newBase_def rootKeyChainIdx_def)
  from NextChainedAddress_ok [OF ks1_wf(2), of 5 kslib0 "\<lparr>bs_Height = 11, bs_Hash = 0\<rparr>"] show ?thesis
    by (auto simp: u room_def)
qed

section \<open>Locking\<close>

lemma lockAddr_at:
  "aget (lockAddr r s) q = (if q = r \<and> r < length (aheap s) then
     (case aget s q of BtcAddr a \<Rightarrow> if encrypted (a_flags a) then BtcAddr (a\<lparr>a_privKeyCT := []\<rparr>) else BtcAddr a
      | ScriptAddr a \<Rightarrow> ScriptAddr a) else aget s q)"
  by (cases "r < length (aheap s)"; cases "aget s r")
    (auto simp: lockAddr_def lock_def nth_list_update list_update_beyond setAddr_def split: option.split walletAddress.split)

text \<open>An address without the clear text of its key.\<close>

fun cleared :: "walletAddress \<Rightarrow> bool" where
  "cleared (BtcAddr a) \<longleftrightarrow> encrypted (a_flags a) \<longrightarrow> a_privKeyCT a = []"
| "cleared (ScriptAddr a) \<longleftrightarrow> True"

fun withoutCT :: "walletAddress \<Rightarrow> walletAddress" where
  "withoutCT (BtcAddr a) = BtcAddr (a\<lparr>a_privKeyCT := []\<rparr>)"
| "withoutCT (ScriptAddr a) = ScriptAddr a"

lemma lockAddr_frame:
  "length (aheap (lockAddr r s)) = length (aheap s)" "addrMap (lockAddr r s) = addrMap s"
  "ks_secret (lockAddr r s) = ks_secret s" "ks_passphrase (lockAddr r s) = ks_passphrase s"
  by (auto simp: lockAddr_def lock_def split: option.split)

lemma lockAddr_effect:
  "r < length (aheap s) \<Longrightarrow> cleared (aget (lockAddr r s) r)"
  "cleared (aget s q) \<Longrightarrow> cleared (aget (lockAddr r s) q)"
  "withoutCT (aget (lockAddr r s) q) = withoutCT (aget s q)"
  by (auto simp: lockAddr_at split: walletAddress.split)

lemma lock_fold:
  assumes "\<forall>e \<in> set es. snd e < length (aheap s)"
  defines "t \<equiv> fold (\<lambda>e. lockAddr (snd e)) es s"
  shows "(\<forall>e \<in> set es. cleared (aget t (snd e))) \<and> (\<forall>q. cleared (aget s q) \<longrightarrow> cleared (aget t q))
    \<and> (\<forall>q. withoutCT (aget t q) = withoutCT (aget s q)) \<and> addrMap t = addrMap s
    \<and> ks_secret t = ks_secret s \<and> ks_passphrase t = ks_passphrase s"
  unfolding t_def using assms(1)
proof (induction es arbitrary: s)
  case (Cons e es)
  have "\<forall>x \<in> set es. snd x < length (aheap (lockAddr (snd e) s))"
    using Cons.prems by (simp add: lockAddr_frame)
  note ih = Cons.IH [OF this]
  have "cleared (aget (lockAddr (snd e) s) (snd e))" using Cons.prems by (simp add: lockAddr_effect)
  with ih show ?case by (simp add: lockAddr_frame lockAddr_effect)
qed simp

text \<open>C29. Locking a store that is not watching-only leaves no secret behind: the passphrase and the AES key are
  gone, the store counts as locked, and no encrypted address of the store keeps its private key in clear text.
  Nothing else of any address changes. Locking a locked store says so, and still clears the addresses.\<close>

theorem Lock_clears:
  assumes "ks_wf s" and "\<not> watchingOnly (ks_flags s)" and "Lock s = (res, s')"
  shows "res = (if IsLocked s then Inl ErrLocked else Inr ())
    \<and> IsLocked s'
    \<and> (\<not> IsLocked s \<longrightarrow> ks_secret s' = [] \<and> ks_passphrase s' = [])
    \<and> addrMap s' = addrMap s
    \<and> (\<forall>e \<in> set (addrMap s). cleared (aget s' (snd e)))
    \<and> (\<forall>r. withoutCT (aget s' r) = withoutCT (aget s r))"
proof -
  define t where "t = (if IsLocked s then s else s\<lparr>ks_passphrase := [], ks_secret := []\<rparr>)"
  have t: "s' = lockAddrs t" "res = (if IsLocked s then Inl ErrLocked else Inr ())"
    using assms(2,3) by (auto simp: Lock_def t_def)
  have f: "aheap t = aheap s" "addrMap t = addrMap s" by (simp_all add: t_def)
  have "\<forall>e \<in> set (addrMap t). snd e < length (aheap t)" using assms(1) by (auto simp: ks_wf_def entries_ok_def f)
  from lock_fold [OF this] show ?thesis
    unfolding t(1) lockAddrs_def by (auto simp: t(2) f IsLocked_def t_def)
qed

definition ksL :: KStore where
  "ksL = ks1\<lparr>ks_secret := replicate 32 1, ks_passphrase := [1],
     aheap := [BtcAddr (root0\<lparr>a_privKeyCT := replicate 32 5\<rparr>), BtcAddr addr1]\<rparr>"

lemma ksL_wf: "ks_wf ksL"
proof -
  have "aget ks1 0 = BtcAddr root0" "aheap ks1 = [BtcAddr root0, BtcAddr addr1]"
    by (simp_all add: ks1_def withChained_def withAddr_def ks0_def installRoot_def)
  then have e: "ksL = (upd_at 0 (BtcAddr (root0\<lparr>a_privKeyCT := replicate 32 5\<rparr>)) ks1)\<lparr>ks_passphrase := [1], ks_secret := replicate 32 1\<rparr>"
    by (simp add: ksL_def upd_at_def)
  have "ks_wf (upd_at 0 (BtcAddr (root0\<lparr>a_privKeyCT := replicate 32 5\<rparr>)) ks1)"
    by (rule kw.upd [OF ks1_wf(2)]) (simp add: \<open>aget ks1 0 = BtcAddr root0\<close>)
  then show ?thesis unfolding e ks_wf_irrelevant(2) .
qed

theorem Lock_clears_witness:
  "fst (Lock ksL) = Inr () \<and> IsLocked (snd (Lock ksL)) \<and> aget (snd (Lock ksL)) 0 = BtcAddr root0"
proof -
  have b: "\<not> watchingOnly (ks_flags ksL)" "\<not> IsLocked ksL" "aget (snd (Lock ksL)) 0 = BtcAddr root0"
    by code_simp+
  from Lock_clears [OF ksL_wf b(1), of "fst (Lock ksL)" "snd (Lock ksL)"] b show ?thesis by simp
qed

end
