(* ===== verification/Ks_Keys.thy ===== *)
theory Ks_Keys
  imports Ks_Props
begin

text \<open>
  Private keys over the life of a key store: the loop that creates the keys of addresses chained while the store
  was locked ends, a change of the passphrase keeps every private key, a passphrase opens the store exactly when it
  decrypts the root key, and a watching copy holds no private key.
\<close>

section \<open>The loop over missing keys\<close>

text \<open>No step of the loop fails with \<open>Diverges\<close>, and each keeps the chain index, so the loop meets the first index
  that is not there before its fuel is gone.\<close>

abbreviation ends :: "(KStore \<Rightarrow> bool) \<Rightarrow> 'a ksact \<Rightarrow> ('a \<Rightarrow> KStore \<Rightarrow> bool) \<Rightarrow> bool" where
  "ends P m Q \<equiv> triple P m Q (\<lambda>e _. e \<noteq> Diverges)"

lemma ends_keeps:
  assumes "preserves P m" and "\<And>s. fst (m s) \<noteq> Inl Diverges"
  shows "ends P m (\<lambda>_. P)"
  using assms by (intro tripleI) (auto dest: preservesD simp: prod_eq_iff)

lemma encrypt_no_Diverges: "encrypt lib key a \<noteq> Inl Diverges"
  by (simp add: encrypt_def NewCipher_def)

lemma ChainedPrivKey_no_Diverges: "ChainedPrivKey lib p pk cc \<noteq> Inl Diverges"
  by (simp add: ChainedPrivKey_def Let_def)

lemma setMissingKey_no_Diverges: "fst (setMissingKey lib p r s) \<noteq> Inl Diverges"
  by (simp add: setMissingKey_def bindE_def getBtc_def liftE_def Let_def setAddr_def modifyE_def failE_def nonPubkey_def
      split: option.split sum.split) (metis encrypt_no_Diverges)

lemma chainedBtc_no_Diverges: "fst (chainedBtc a s) \<noteq> Inl Diverges"
  by (simp add: chainedBtc_def liftE_def nonPubkey_def split: option.split)

lemma unlockAt_no_Diverges: "fst (unlockAt lib key r s) \<noteq> Inl Diverges"
  by (auto simp: unlockAt_def bindE_def getBtc_def liftE_def unlock_def NewCipher_def Let_def setAddr_def modifyE_def
      retE_def nonPubkey_def split: option.split sum.split prod.split)

lemma chainedBtc_keeps: "preserves P (chainedBtc a)"
  unfolding chainedBtc_def by (rule preserves_liftE)

lemma missingLoop_ends:
  assumes "\<forall>i. map_of m i \<noteq> None \<longleftrightarrow> - 1 \<le> sint i \<and> sint i \<le> L" and "L < 2 ^ 63 - 1"
    and "sint i \<le> L + 1" and "L - sint i + 1 < int n" and "fst (snd b) = m"
  shows "ends (\<lambda>s. ks_books s = b) (missingLoop lib n i p r) (\<lambda>_ _. True)"
  using assms(3,4)
proof (induction n arbitrary: i p r)
  case (Suc n)
  have next_step: "ends (\<lambda>s. ks_books s = b) (missingLoop lib n (i + 1) p' q) (\<lambda>_ _. True)" if "map_of m i \<noteq> None" for p' q
  proof -
    have l: "sint i \<le> L" using that assms(1) by blast
    then have "sint (i + 1) = sint i + 1" using assms(2) by (intro sint_plus1) simp
    with l Suc.prems show ?thesis by (intro Suc.IH) simp_all
  qed
  have found: "ends (\<lambda>s. ks_books s = b)
      (case map_of m i of None \<Rightarrow> retE () | Some apkh \<Rightarrow> bindE (chainedBtc apkh) (\<lambda>q.
         bindE (setMissingKey lib ik q) (\<lambda>_. missingLoop lib n (i + 1) ik q))) (\<lambda>_ _. True)" for ik
    by (auto simp: chainedBtc_no_Diverges setMissingKey_no_Diverges split: option.split
        intro!: triple_retE triple_bindE [OF ends_keeps] next_step kb.setMissingKey_keeps chainedBtc_keeps)
  have look: "ends (\<lambda>s. ks_books s = b) (liftE (\<lambda>s. Inr (map_of (chainIdxMap s) i)))
      (\<lambda>x s. x = map_of m i \<and> ks_books s = b)"
    using assms(5) by (intro triple_liftE) (auto simp: ks_books_def)
  show ?case unfolding missingLoop.simps getBtc_def
  proof (rule triple_bindE [where R = "\<lambda>_ s. ks_books s = b"])
    fix a
    show "ends (\<lambda>s. ks_books s = b) (bindE (liftE (\<lambda>_. ChainedPrivKey lib p (pubKeyBytes lib a) (a_chaincode a)))
       (\<lambda>ik. bindE (liftE (\<lambda>s. Inr (map_of (chainIdxMap s) i))) (\<lambda>found. case found of None \<Rightarrow> retE ()
          | Some apkh \<Rightarrow> bindE (chainedBtc apkh) (\<lambda>q. bindE (setMissingKey lib ik q) (\<lambda>_. missingLoop lib n (i + 1) ik q)))))
       (\<lambda>_ _. True)"
    proof (rule triple_bindE [where R = "\<lambda>_ s. ks_books s = b"])
      show "ends (\<lambda>s. ks_books s = b) (liftE (\<lambda>_. ChainedPrivKey lib p (pubKeyBytes lib a) (a_chaincode a)))
         (\<lambda>_ s. ks_books s = b)"
        by (rule triple_liftE) (auto dest: ChainedPrivKey_no_Diverges [THEN notE])
    qed (rule triple_bindE [OF look], rule triple_fact, simp add: found)
  qed (rule triple_liftE; auto simp: nonPubkey_def split: option.splits)
qed simp

text \<open>The chain index has an entry for every index of the chain.\<close>

lemma chain_length:
  fixes m :: "(i64, 'v) gomap"
  assumes "\<forall>i. map_of m i \<noteq> None \<longleftrightarrow> - 1 \<le> sint i \<and> sint i \<le> L" and "L < 2 ^ 63"
  shows "L + 2 \<le> int (length m)"
proof -
  let ?I = "{- 1 .. L}"
  have s: "sint (word_of_int j :: i64) = j" if "j \<in> ?I" for j using that assms(2) by (intro sint_of_int_small) simp_all
  then have "inj_on (word_of_int :: int \<Rightarrow> i64) ?I" by (metis inj_onI)
  then have "card ?I = card ((word_of_int :: int \<Rightarrow> i64) ` ?I)" by (simp add: card_image)
  also have "\<dots> \<le> card (fst ` set m)"
  proof (rule card_mono)
    show "(word_of_int :: int \<Rightarrow> i64) ` ?I \<subseteq> fst ` set m"
    proof (intro image_subsetI)
      fix j assume "j \<in> ?I"
      then have "map_of m (word_of_int j) \<noteq> None" using assms(1) s by simp
      then show "word_of_int j \<in> fst ` set m" by (simp add: map_of_eq_None_iff)
    qed
  qed simp
  also have "\<dots> \<le> length m" by (metis card_length length_map set_map)
  finally show ?thesis by simp
qed

text \<open>C31. On a well-formed store whose last chain index can still grow, the loop that creates the missing private
  keys ends, in success or in an error of its own: the chain index is finite and the loop stops at the first index
  that is not there.\<close>

theorem createMissingPrivateKeys_ends:
  assumes "ks_wf s" and "sint (lastChainIdx s) < 2 ^ 63 - 1"
  shows "fst (createMissingPrivateKeys lib s) \<noteq> Inl Diverges"
proof (cases "missingKeysStart s = 0 \<or> IsLocked s")
  case True
  then show ?thesis by (auto simp: createMissingPrivateKeys_def Let_def split: option.split)
next
  case False
  let ?L = "sint (lastChainIdx s)" and ?i = "missingKeysStart s" and ?m = "chainIdxMap s"
  have dom: "\<forall>i. map_of ?m i \<noteq> None \<longleftrightarrow> - 1 \<le> sint i \<and> sint i \<le> ?L"
    using assms(1) unfolding ks_wf_def chain_ok_def by blast
  show ?thesis
  proof (cases "map_of ?m (?i - 1)")
    case None
    with False show ?thesis by (simp add: createMissingPrivateKeys_def Let_def)
  next
    case (Some a)
    then have "- 1 \<le> sint (?i - 1)" "sint (?i - 1) \<le> ?L" using dom by (metis option.distinct(1))+
    moreover from this have "sint (?i - 1 + 1) = sint (?i - 1) + 1" using assms(2) by (intro sint_plus1) simp
    ultimately have i: "0 \<le> sint ?i" "sint ?i \<le> ?L + 1" by simp_all
    have loop: "ends (\<lambda>t. ks_books t = ks_books s) (missingLoop lib (Suc (length ?m)) ?i p r) (\<lambda>_ _. True)" for p r
      using chain_length [OF dom] assms(2) i
      by (intro missingLoop_ends [OF dom assms(2) i(2)]) (simp_all add: ks_books_def)
    have "ends (\<lambda>t. ks_books t = ks_books s) (bindE (chainedBtc a) (\<lambda>prev. bindE (unlockAt lib (ks_secret s) prev)
        (\<lambda>p. bindE (missingLoop lib (Suc (length ?m)) ?i p prev) (\<lambda>_. modifyE (\<lambda>s. s\<lparr>missingKeysStart := 0\<rparr>)))))
        (\<lambda>_ _. True)"
      by (intro triple_bindE [OF ends_keeps] triple_bindE [OF loop] triple_modifyE chainedBtc_keeps kb.unlockAt_keeps)
         (simp_all add: chainedBtc_no_Diverges unlockAt_no_Diverges)
    from triple_case [OF this, of s] False Some show ?thesis
      by (auto simp: createMissingPrivateKeys_def Let_def split: prod.splits sum.splits)
  qed
qed

theorem createMissingPrivateKeys_ends_witness:
  "fst (createMissingPrivateKeys kslib0 (ksL\<lparr>missingKeysStart := 1\<rparr>)) \<noteq> Inl Diverges"
proof (rule createMissingPrivateKeys_ends)
  show "ks_wf (ksL\<lparr>missingKeysStart := 1\<rparr>)" by (simp add: ks_wf_irrelevant ksL_wf)
  show "sint (lastChainIdx (ksL\<lparr>missingKeysStart := 1\<rparr>)) < 2 ^ 63 - 1"
    by (simp add: ksL_def ks1_def withChained_def withAddr_def ks0_def installRoot_def newBase_def rootKeyChainIdx_def)
qed

section \<open>The private key behind an address\<close>

text \<open>What the code relies on of AES and of the random source: blocks of 16 bytes, and random bytes in the number
  asked for.\<close>

definition aes_ok :: "kslib \<Rightarrow> bool" where
  "aes_ok lib \<longleftrightarrow> (\<forall>k x. length (AES lib k x) = 16)"

definition rand_ok :: "kslib \<Rightarrow> bool" where
  "rand_ok lib \<longleftrightarrow> (\<forall>n k. \<exists>b. RandRead lib n k = Inr b \<and> length b = k)"

text \<open>The address holds the private key \<open>p\<close> under the AES key: it is what the stored key decrypts to, it belongs to
  the public key, and a clear text that is kept is the same.\<close>

definition holds_key :: "kslib \<Rightarrow> bytes \<Rightarrow> btcAddress \<Rightarrow> bytes \<Rightarrow> bool" where
  "holds_key lib key a p \<longleftrightarrow> hasPrivKey (a_flags a) \<and> encrypted (a_flags a) \<and> length p = 32 \<and>
     cfbDecrypt (AES lib key) (a_initVector a) (a_privKey a) = p \<and>
     PubX (ScalarBaseMult lib p) = PubX (a_pubKey a) \<and> PubY (ScalarBaseMult lib p) = PubY (a_pubKey a) \<and>
     (length (a_privKeyCT a) = 32 \<longrightarrow> a_privKeyCT a = p)"

abbreviation aes_key :: "bytes \<Rightarrow> bool" where
  "aes_key key \<equiv> length key = 32"

lemma unlock_holds:
  "holds_key lib key a p \<Longrightarrow> aes_key key \<Longrightarrow> unlock lib key a = Inr (p, a\<lparr>a_privKeyCT := p\<rparr>)"
  by (auto simp: unlock_def holds_key_def NewCipher_def Let_def)

text \<open>Re-encryption of an address, as a function.\<close>

definition rekeyed :: "kslib \<Rightarrow> bytes \<Rightarrow> bytes \<Rightarrow> bytes \<Rightarrow> btcAddress \<Rightarrow> btcAddress" where
  "rekeyed lib newkey iv p a = a\<lparr>a_privKeyCT := p, a_initVector := iv, a_privKey := cfbEncrypt (AES lib newkey) iv p\<rparr>"

lemma rekeyed_holds:
  "aes_ok lib \<Longrightarrow> holds_key lib key a p \<Longrightarrow> holds_key lib newkey (rekeyed lib newkey iv p a) p"
  by (simp add: holds_key_def rekeyed_def aes_ok_def cfbDecrypt_cfbEncrypt)

lemma changeEncryptionKey_run:
  assumes "rand_ok lib" and "aes_key oldkey" and "aes_key newkey" and "r < length (aheap s)"
    and "aget s r = BtcAddr a" and "holds_key lib oldkey a p"
  shows "\<exists>iv. changeEncryptionKey lib oldkey newkey r s =
    (Inr (), s\<lparr>aheap := (aheap s)[r := BtcAddr (rekeyed lib newkey iv p a)], ks_events := Suc (ks_events s)\<rparr>)"
proof -
  obtain b where "RandRead lib (ks_events s) (length (a_initVector a)) = Inr b"
    using assms(1) by (auto simp: rand_ok_def)
  moreover have "hasPrivKey (a_flags a)" "encrypted (a_flags a)" using assms(6) by (simp_all add: holds_key_def)
  ultimately show ?thesis using assms
    by (intro exI [of _ b]) (simp add: changeEncryptionKey_def unlockAt_def getBtc_def bindE_def liftE_def randRead_def
        setAddr_def modifyE_def retE_def unlock_holds [OF assms(6,2)] NewCipher_def rekeyed_def)
qed

text \<open>The addresses of a list of entries hold their private keys, and entries do not share addresses.\<close>

definition keys_at :: "kslib \<Rightarrow> bytes \<Rightarrow> KStore \<Rightarrow> (addressKey \<times> aref) list \<Rightarrow> bool" where
  "keys_at lib key s es \<longleftrightarrow> (\<forall>e \<in> set es. snd e < length (aheap s) \<and>
     (\<forall>a. aget s (snd e) = BtcAddr a \<longrightarrow> (\<exists>p. holds_key lib key a p)))"

definition rekeyed_from :: "kslib \<Rightarrow> bytes \<Rightarrow> bytes \<Rightarrow> walletAddress \<Rightarrow> walletAddress \<Rightarrow> bool" where
  "rekeyed_from lib oldkey newkey x y \<longleftrightarrow> (case x of ScriptAddr a \<Rightarrow> y = x
     | BtcAddr a \<Rightarrow> \<exists>p iv. holds_key lib oldkey a p \<and> y = BtcAddr (rekeyed lib newkey iv p a))"

lemma changeAddrKey_run:
  assumes "rand_ok lib" and "aes_key oldkey" and "aes_key newkey" and "keys_at lib oldkey s [e]"
  shows "\<exists>y n. changeAddrKey lib oldkey newkey e s = (Inr (), s\<lparr>aheap := (aheap s)[snd e := y], ks_events := n\<rparr>)
    \<and> rekeyed_from lib oldkey newkey (aget s (snd e)) y"
proof (cases "aget s (snd e)")
  case (BtcAddr a)
  then obtain p where p: "holds_key lib oldkey a p" "snd e < length (aheap s)" using assms(4) by (auto simp: keys_at_def)
  from changeEncryptionKey_run [OF assms(1,2,3) p(2) BtcAddr p(1)] BtcAddr p(1) show ?thesis
    by (auto simp: changeAddrKey_def bindE_def liftE_def rekeyed_from_def)
next
  case (ScriptAddr a)
  have "(aheap s)[snd e := ScriptAddr a] = aheap s" using list_update_id [of "aheap s" "snd e"] ScriptAddr by simp
  then show ?thesis using ScriptAddr
    by (intro exI [of _ "ScriptAddr a"] exI [of _ "ks_events s"])
       (simp add: changeAddrKey_def bindE_def liftE_def retE_def rekeyed_from_def)
qed

lemma changeAddrKeys_run:
  assumes "rand_ok lib" and "aes_key oldkey" and "aes_key newkey"
    and "keys_at lib oldkey s es" and "distinct (map snd es)"
  shows "\<exists>h n. forE (changeAddrKey lib oldkey newkey) es s = (Inr (), s\<lparr>aheap := h, ks_events := n\<rparr>)
    \<and> length h = length (aheap s)
    \<and> (\<forall>e \<in> set es. rekeyed_from lib oldkey newkey (aget s (snd e)) (h ! snd e))
    \<and> (\<forall>r. r \<notin> snd ` set es \<longrightarrow> h ! r = aget s r)"
  using assms(4,5)
proof (induction es arbitrary: s)
  case Nil
  show ?case by (intro exI [of _ "aheap s"] exI [of _ "ks_events s"]) simp
next
  case (Cons e es)
  have "keys_at lib oldkey s [e]" using Cons.prems(1) by (simp add: keys_at_def)
  from changeAddrKey_run [OF assms(1,2,3) this] obtain y n where
    e: "changeAddrKey lib oldkey newkey e s = (Inr (), s\<lparr>aheap := (aheap s)[snd e := y], ks_events := n\<rparr>)"
    and y: "rekeyed_from lib oldkey newkey (aget s (snd e)) y" by blast
  let ?t = "s\<lparr>aheap := (aheap s)[snd e := y], ks_events := n\<rparr>"
  have o: "snd x \<noteq> snd e" if "x \<in> set es" for x using Cons.prems(2) that by (metis distinct.simps(2) image_eqI list.simps(9) set_map)
  have "keys_at lib oldkey ?t es" using Cons.prems(1) o
    by (simp add: keys_at_def nth_list_update) (metis (no_types))
  from Cons.IH [OF this] Cons.prems(2) obtain h k where
    h: "forE (changeAddrKey lib oldkey newkey) es ?t = (Inr (), ?t\<lparr>aheap := h, ks_events := k\<rparr>)"
    "length h = length (aheap ?t)" "\<forall>x \<in> set es. rekeyed_from lib oldkey newkey (aget ?t (snd x)) (h ! snd x)"
    "\<forall>r. r \<notin> snd ` set es \<longrightarrow> h ! r = aget ?t r" by auto
  have "snd e \<notin> snd ` set es" "snd e < length (aheap s)" using Cons.prems by (auto simp: keys_at_def)
  then have "h ! snd e = y" using h(4) by simp
  moreover have "rekeyed_from lib oldkey newkey (aget s (snd x)) (h ! snd x)" if "x \<in> set es" for x
    using bspec [OF h(3) that] o [OF that, symmetric] by simp
  moreover have "h ! r = aget s r" if "r \<notin> snd ` set (e # es)" for r using h(4) that by simp
  ultimately show ?case using e h(1,2) y by (intro exI [of _ h] exI [of _ k]) simp
qed

text \<open>Entries of a well-formed store do not share addresses.\<close>

lemma entries_distinct: "ks_wf s \<Longrightarrow> distinct (map snd (addrMap s))"
proof -
  assume "ks_wf s"
  then have d: "distinct (map fst (addrMap s))"
    and k: "\<forall>e \<in> set (addrMap s). fst e = ScriptAddress (wa_Address (aget s (snd e)))"
    by (auto simp: ks_wf_def entries_ok_def)
  have "map fst (addrMap s) = map (\<lambda>r. ScriptAddress (wa_Address (aget s r))) (map snd (addrMap s))" using k by simp
  with d show ?thesis by (metis distinct_map)
qed

text \<open>C16. Changing the passphrase of an unlocked store succeeds when every key of the store opens with the current
  AES key and the random source answers. Afterwards the store has the new passphrase and the key derived from it,
  and every address holds the private key it held before, now under the new key; nothing else of the store changes
  but the initialisation vectors, the encrypted keys and the cached clear texts.\<close>

theorem ChangePassphrase_keeps_keys:
  assumes "ks_wf s" and "\<not> watchingOnly (ks_flags s)" and "\<not> IsLocked s" and "aes_ok lib" and "rand_ok lib"
    and "Key lib new (ks_kdfParams s) = Inr newkey" and "length newkey = 32"
    and "keys_at lib (ks_secret s) s (addrMap s)"
  shows "\<exists>h n. ChangePassphrase lib new s =
      (Inr (), s\<lparr>aheap := h, ks_events := n, ks_passphrase := new, ks_secret := newkey\<rparr>)
    \<and> (\<forall>e \<in> set (addrMap s). \<forall>a. aget s (snd e) = BtcAddr a \<longrightarrow>
        (\<exists>a'. h ! snd e = BtcAddr a' \<and> (\<forall>p. holds_key lib (ks_secret s) a p \<longrightarrow> holds_key lib newkey a' p)
          \<and> a_address a' = a_address a \<and> a_pubKey a' = a_pubKey a \<and> a_chainIndex a' = a_chainIndex a))
    \<and> (\<forall>r. r \<notin> snd ` set (addrMap s) \<longrightarrow> h ! r = aget s r)"
proof -
  have k: "aes_key (ks_secret s)" using assms(3) by (simp add: IsLocked_def)
  from changeAddrKeys_run [OF assms(5) k assms(7,8) entries_distinct [OF assms(1)]] obtain h n where
    h: "forE (changeAddrKey lib (ks_secret s) newkey) (addrMap s) s = (Inr (), s\<lparr>aheap := h, ks_events := n\<rparr>)"
    "\<forall>e \<in> set (addrMap s). rekeyed_from lib (ks_secret s) newkey (aget s (snd e)) (h ! snd e)"
    "\<forall>r. r \<notin> snd ` set (addrMap s) \<longrightarrow> h ! r = aget s r" by blast
  have "\<exists>a'. h ! snd e = BtcAddr a' \<and> (\<forall>p. holds_key lib (ks_secret s) a p \<longrightarrow> holds_key lib newkey a' p)
      \<and> a_address a' = a_address a \<and> a_pubKey a' = a_pubKey a \<and> a_chainIndex a' = a_chainIndex a"
    if e: "e \<in> set (addrMap s)" "aget s (snd e) = BtcAddr a" for e a
  proof -
    from bspec [OF h(2) e(1)] e(2) obtain p iv where p: "holds_key lib (ks_secret s) a p" "h ! snd e = BtcAddr (rekeyed lib newkey iv p a)"
      by (auto simp: rekeyed_from_def)
    have "q = p" if "holds_key lib (ks_secret s) a q" for q using that p(1) by (simp add: holds_key_def)
    then have "\<forall>q. holds_key lib (ks_secret s) a q \<longrightarrow> holds_key lib newkey (rekeyed lib newkey iv p a) q"
      using rekeyed_holds [OF assms(4) p(1), of newkey iv] by blast
    then show ?thesis unfolding p(2) by (intro exI [of _ "rekeyed lib newkey iv p a"]) (simp add: rekeyed_def)
  qed
  with h assms(2,3,6) show ?thesis
    by (intro exI [of _ h] exI [of _ n]) (simp add: ChangePassphrase_def bindE_def liftE_def modifyE_def)
qed

text \<open>The check of a passphrase on the root address: a clear text that is still kept must be what the derived key decrypts; when
  none is kept, the public key of what is decrypted must be that of the address.\<close>

definition opens :: "kslib \<Rightarrow> bytes \<Rightarrow> btcAddress \<Rightarrow> bool" where
  "opens lib key a \<longleftrightarrow> (let p = cfbDecrypt (AES lib key) (a_initVector a) (a_privKey a) in
     if length (a_privKeyCT a) = 32 then a_privKeyCT a = p
     else PubX (ScalarBaseMult lib p) = PubX (a_pubKey a) \<and> PubY (ScalarBaseMult lib p) = PubY (a_pubKey a))"

definition openedWith :: "kslib \<Rightarrow> bytes \<Rightarrow> bytes \<Rightarrow> btcAddress \<Rightarrow> KStore \<Rightarrow> KStore" where
  "openedWith lib pass key root s = s\<lparr>aheap := (aheap s)[keyGenerator := BtcAddr (root\<lparr>a_privKeyCT :=
      cfbDecrypt (AES lib key) (a_initVector root) (a_privKey root)\<rparr>)], ks_passphrase := pass, ks_secret := key\<rparr>"

interpretation kp: key_updates "\<lambda>s. ks_passphrase s = pass \<and> ks_secret s = key" for pass key
  by unfold_locales (simp_all add: upd_at_def)

lemma Unlock_checks:
  assumes "\<not> watchingOnly (ks_flags s)" and "aget s keyGenerator = BtcAddr root" and "encrypted (a_flags root)"
    and "Key lib pass (ks_kdfParams s) = Inr key" and "length key = 32"
  shows "Unlock lib pass s = (if opens lib key root then createMissingPrivateKeys lib (openedWith lib pass key root s)
     else (Inl ErrWrongPassphrase, s))"
proof -
  have ct: "a_privKeyCT root = p \<Longrightarrow> root\<lparr>a_privKeyCT := p\<rparr> = root" for p by auto
  show ?thesis
    using assms by (cases "length (a_privKeyCT root) = 32")
      (auto simp: Unlock_def bindE_def liftE_def unlockAt_def getBtc_def unlock_def NewCipher_def Let_def
        setAddr_def modifyE_def retE_def opens_def openedWith_def ct)
qed

lemma opens_holds:
  assumes "hasPrivKey (a_flags a)" and "encrypted (a_flags a)"
    and "length (cfbDecrypt (AES lib key) (a_initVector a) (a_privKey a)) = 32"
    and "length (a_privKeyCT a) = 32 \<longrightarrow> PubX (ScalarBaseMult lib (a_privKeyCT a)) = PubX (a_pubKey a)
      \<and> PubY (ScalarBaseMult lib (a_privKeyCT a)) = PubY (a_pubKey a)"
  shows "opens lib key a \<longleftrightarrow> (\<exists>p. holds_key lib key a p)"
  using assms by (auto simp: opens_def holds_key_def Let_def)

text \<open>C17. Unlocking a store that is not watching-only, whose root address is encrypted, with a passphrase from which a key of
  32 bytes is derived. If the key does not pass the check of the root address, the result is \<open>ErrWrongPassphrase\<close> and the store is as
  before. If it does, passphrase and key are kept and the root's clear text is cached, then the missing private keys are
  created: without missing keys this is all and Unlock succeeds; with missing keys the result is that of creating
  them, and whatever it is, the store keeps passphrase and key. The check compares with a clear text of the root key that is still
  kept, or else with the root's public key. When the root has a private key that decrypts to 32 bytes, and a clear text that
  is still kept belongs to the root's public key, it passes exactly when the root holds its private key under the derived key.\<close>

theorem Unlock_passphrase:
  assumes "\<not> watchingOnly (ks_flags s)" and "aget s keyGenerator = BtcAddr root" and "encrypted (a_flags root)"
    and "Key lib pass (ks_kdfParams s) = Inr key" and "length key = 32"
  shows "(\<not> opens lib key root \<longrightarrow> Unlock lib pass s = (Inl ErrWrongPassphrase, s))
    \<and> (opens lib key root \<longrightarrow>
         Unlock lib pass s = createMissingPrivateKeys lib (openedWith lib pass key root s)
       \<and> (missingKeysStart s = 0 \<longrightarrow> Unlock lib pass s = (Inr (), openedWith lib pass key root s))
       \<and> ks_passphrase (snd (Unlock lib pass s)) = pass \<and> ks_secret (snd (Unlock lib pass s)) = key)
    \<and> (hasPrivKey (a_flags root) \<and> length (cfbDecrypt (AES lib key) (a_initVector root) (a_privKey root)) = 32
       \<and> (length (a_privKeyCT root) = 32 \<longrightarrow> PubX (ScalarBaseMult lib (a_privKeyCT root)) = PubX (a_pubKey root)
            \<and> PubY (ScalarBaseMult lib (a_privKeyCT root)) = PubY (a_pubKey root)) \<longrightarrow>
       (opens lib key root \<longleftrightarrow> (\<exists>p. holds_key lib key root p)))"
proof (intro conjI impI)
  let ?o = "openedWith lib pass key root s"
  note U = Unlock_checks [OF assms]
  have o: "ks_passphrase ?o = pass \<and> ks_secret ?o = key" by (simp add: openedWith_def)
  note K = preserves_at [OF kp.createMissing_keeps, OF o, of lib]
  show "ks_passphrase (snd (Unlock lib pass s)) = pass" "ks_secret (snd (Unlock lib pass s)) = key" if "opens lib key root"
    using K that by (simp_all add: U)
  show "Unlock lib pass s = (Inr (), ?o)" if "missingKeysStart s = 0" "opens lib key root"
    using that by (simp add: U createMissingPrivateKeys_def openedWith_def)
qed (use Unlock_checks [OF assms] opens_holds [OF _ assms(3)] in auto)

text \<open>A store whose root holds the private key 5 under the key of the passphrase \<open>[1]\<close>.\<close>

definition pass_key :: "bytes \<Rightarrow> bytes" where
  "pass_key pass = (case Key kslib0 pass (ks_kdfParams ks0) of Inl e \<Rightarrow> [] | Inr k \<Rightarrow> k)"

definition root5 :: btcAddress where
  "root5 = root0\<lparr>a_privKey := cfbEncrypt (AES kslib0 (pass_key [1])) (replicate 16 7) (replicate 31 0 @ [5])\<rparr>"

definition ks5 :: KStore where
  "ks5 = (upd_at 0 (BtcAddr root5) ks0)\<lparr>ks_passphrase := [1], ks_secret := pass_key [1]\<rparr>"

lemma aes_ok0: "aes_ok kslib0"
  by (simp add: aes_ok_def kslib0_def length_cut)

lemma rand_ok0: "rand_ok kslib0"
  by (simp add: rand_ok_def kslib0_def)

lemma pass_key_ok:
  "Key kslib0 [1] (ks_kdfParams ks0) = Inr (pass_key [1])" "length (pass_key [1]) = 32"
  "Key kslib0 [2] (ks_kdfParams ks0) = Inr (pass_key [2])" "length (pass_key [2]) = 32"
  by code_simp+

lemma ks5_wf: "ks_wf ks5"
proof -
  have "aget ks0 0 = BtcAddr root0" by (simp add: ks0_def installRoot_def)
  then have "ks_wf (upd_at 0 (BtcAddr root5) ks0)" by (intro kw.upd [OF ks1_wf(1)]) (simp add: root5_def)
  then show ?thesis unfolding ks5_def ks_wf_irrelevant(2) .
qed

lemma ks5_fields:
  "\<not> watchingOnly (ks_flags ks5)" "ks_kdfParams ks5 = ks_kdfParams ks0" "missingKeysStart ks5 = 0"
  "addrMap ks5 = [(replicate 20 9, 0)]" "aheap ks5 = [BtcAddr root5]" "ks_secret ks5 = pass_key [1]" "\<not> IsLocked ks5"
  by (simp_all add: ks5_def upd_at_def ks0_def installRoot_def newBase_def root0_def keyGenerator_def IsLocked_def pass_key_ok)

lemma root5_holds: "holds_key kslib0 (pass_key [1]) root5 (replicate 31 0 @ [5])"
  by code_simp

theorem ChangePassphrase_keeps_keys_witness:
  "\<exists>s' a'. ChangePassphrase kslib0 [2] ks5 = (Inr (), s') \<and> aget s' 0 = BtcAddr a' \<and>
     holds_key kslib0 (pass_key [2]) a' (replicate 31 0 @ [5])"
proof -
  have "keys_at kslib0 (ks_secret ks5) ks5 (addrMap ks5)"
    using root5_holds by (auto simp: keys_at_def ks5_fields)
  from ChangePassphrase_keeps_keys [OF ks5_wf ks5_fields(1,7) aes_ok0 rand_ok0 _ pass_key_ok(4) this, of "[2]"]
  show ?thesis using root5_holds by (auto simp: ks5_fields pass_key_ok)
qed

text \<open>The same store with another clear text of the root key.\<close>

definition root6 :: btcAddress where
  "root6 = root5\<lparr>a_privKeyCT := replicate 32 1\<rparr>"

definition ks6 :: KStore where
  "ks6 = ks5\<lparr>aheap := [BtcAddr root6]\<rparr>"

theorem Unlock_passphrase_witness:
  "fst (Unlock kslib0 [1] ks5) = Inr () \<and> fst (Unlock kslib0 [1] (snd (Unlock kslib0 [1] ks5))) = Inr ()
   \<and> Unlock kslib0 [2] ks6 = (Inl ErrWrongPassphrase, ks6)"
proof -
  have g: "aget ks5 keyGenerator = BtcAddr root5" by (simp add: ks5_fields keyGenerator_def)
  have r: "encrypted (a_flags root5)" "opens kslib0 (pass_key [1]) root5" by code_simp+
  let ?o = "openedWith kslib0 [1] (pass_key [1]) root5 ks5"
  let ?r = "root5\<lparr>a_privKeyCT := cfbDecrypt (AES kslib0 (pass_key [1])) (a_initVector root5) (a_privKey root5)\<rparr>"
  have o: "\<not> watchingOnly (ks_flags ?o)" "aget ?o keyGenerator = BtcAddr ?r" "ks_kdfParams ?o = ks_kdfParams ks0"
    "missingKeysStart ?o = 0" "encrypted (a_flags ?r)"
    using r(1) by (simp_all add: openedWith_def ks5_fields keyGenerator_def)
  have c: "opens kslib0 (pass_key [1]) ?r" "\<not> opens kslib0 (pass_key [2]) root6" "encrypted (a_flags root6)" by code_simp+
  have k: "\<not> watchingOnly (ks_flags ks6)" "aget ks6 keyGenerator = BtcAddr root6" "ks_kdfParams ks6 = ks_kdfParams ks0"
    by (simp_all add: ks6_def ks5_fields keyGenerator_def)
  note u = Unlock_passphrase [OF ks5_fields(1) g r(1), unfolded ks5_fields(2)]
  have "Unlock kslib0 [1] ks5 = (Inr (), ?o)" using u [OF pass_key_ok(1,2)] r(2) ks5_fields(3) by blast
  moreover have "fst (Unlock kslib0 [1] ?o) = Inr ()"
    using Unlock_passphrase [OF o(1,2,5), unfolded o(3), OF pass_key_ok(1,2)] c(1) o(4) by (metis fst_conv)
  moreover have "Unlock kslib0 [2] ks6 = (Inl ErrWrongPassphrase, ks6)"
    using Unlock_passphrase [OF k(1,2) c(3), unfolded k(3), OF pass_key_ok(3,4)] c(2) by blast
  ultimately show ?thesis by simp
qed

section \<open>Watching copies\<close>

text \<open>An address without any private key.\<close>

fun keyless :: "walletAddress \<Rightarrow> bool" where
  "keyless (BtcAddr a) \<longleftrightarrow> \<not> hasPrivKey (a_flags a) \<and> \<not> encrypted (a_flags a) \<and> a_privKey a = replicate 32 0 \<and> a_privKeyCT a = []"
| "keyless (ScriptAddr a) \<longleftrightarrow> True"

lemma watchingCopy_facts: "keyless (watchingCopy a)" "wa_Address (watchingCopy a) = wa_Address a"
  by (cases a; simp add: btc_watchingCopy_def script_watchingCopy_def)+

text \<open>The state of the copy after some entries: all addresses are keyless, and what an entry points to is the watching
  copy of what it points to in the original.\<close>

definition copied :: "KStore \<Rightarrow> (addressKey \<rightharpoonup> aref) \<Rightarrow> KStore \<Rightarrow> bool" where
  "copied s m ws \<longleftrightarrow> (\<forall>a \<in> set (aheap ws). keyless a) \<and> dom (map_of (addrMap ws)) = dom m \<and>
     (\<forall>k r. map_of (addrMap ws) k = Some r \<longrightarrow>
        r < length (aheap ws) \<and> (\<exists>q. m k = Some q \<and> aget ws r = watchingCopy (aget s q)))"

lemma copied_entry:
  assumes "copied s m ws"
  shows "copied s (m(fst e \<mapsto> snd e)) (copyEntry s e ws)"
proof -
  have h: "aheap (copyEntry s e ws) = aheap ws @ [watchingCopy (aget s (snd e))]"
    "addrMap (copyEntry s e ws) = AList.update (fst e) (length (aheap ws)) (addrMap ws)"
    by (simp_all add: copyEntry_def Let_def)
  show ?thesis using assms
    by (auto simp: copied_def h watchingCopy_facts update_conv' nth_append intro: less_SucI split: if_splits)
qed

lemma copied_fold: "copied s m ws \<Longrightarrow> copied s (m ++ map_of (rev es)) (fold (copyEntry s) es ws)"
proof (induction es arbitrary: m ws)
  case (Cons e es)
  have m: "m(fst e \<mapsto> snd e) ++ map_of (rev es) = m ++ map_of (rev (e # es))"
    by (rule ext) (auto simp: map_add_def split: option.splits)
  show ?case unfolding fold_simps m [symmetric] by (rule Cons.IH [OF copied_entry [OF Cons.prems]])
qed simp

lemma copied_imported:
  "copied s m ws \<Longrightarrow> copied s m (copyImported s r ws)"
  by (auto simp: copied_def copyImported_def watchingCopy_facts nth_append intro: less_SucI)

lemma copied_imports: "copied s m ws \<Longrightarrow> copied s m (fold (copyImported s) rs ws)"
  by (induction rs arbitrary: ws) (simp_all add: copied_imported)

text \<open>The copy keeps the fields of its base other than the addresses.\<close>

definition ws_fields :: "KStore \<Rightarrow> bool" where
  "ws_fields ws \<longleftrightarrow> watchingOnly (ks_flags ws) \<and> ks_secret ws = [] \<and> ks_passphrase ws = []"

lemma ws_fields_kept:
  "ws_fields ws \<Longrightarrow> ws_fields (fold (copyEntry s) es ws)" "ws_fields ws \<Longrightarrow> ws_fields (fold (copyImported s) rs ws)"
  by (induction es arbitrary: ws, simp_all add: ws_fields_def copyEntry_def Let_def)
     (induction rs arbitrary: ws, simp_all add: ws_fields_def copyImported_def)

text \<open>C32. The exported copy of a store is watching-only, locked, and knows no secret: no address that can be reached
  from it has a private key, in clear text or encrypted. It has exactly the addresses of the store, each filed under
  the same key.\<close>

theorem ExportWatchingWallet_keyless:
  assumes "ks_wf s" and "\<not> watchingOnly (ks_flags s)"
  shows "\<exists>ws. ExportWatchingWallet s = Inr ws
    \<and> watchingOnly (ks_flags ws) \<and> IsLocked ws \<and> ks_passphrase ws = []
    \<and> (\<forall>a \<in> set (aheap ws). keyless a)
    \<and> (\<forall>k. map_option (\<lambda>r. wa_Address (aget ws r)) (map_of (addrMap ws) k) =
          map_option (\<lambda>r. wa_Address (aget s r)) (map_of (addrMap s) k))"
proof -
  let ?ws = "fold (copyImported s) (importedAddrs s) (fold (copyEntry s) (addrMap s) (watchingBase s))"
  have "ws_fields (watchingBase s)" by (simp add: ws_fields_def watchingBase_def)
  then have f: "ws_fields ?ws" by (intro ws_fields_kept)
  have "copied s Map.empty (watchingBase s)" by (simp add: copied_def watchingBase_def watchingCopy_facts)
  then have "copied s (Map.empty ++ map_of (rev (addrMap s))) ?ws" by (intro copied_imports copied_fold)
  moreover have "map_of (rev (addrMap s)) = map_of (addrMap s)"
    using assms(1) by (subst map_of_inject_set) (simp_all add: ks_wf_def entries_ok_def flip: rev_map)
  ultimately have c: "copied s (map_of (addrMap s)) ?ws" by simp
  have "map_option (\<lambda>r. wa_Address (aget ?ws r)) (map_of (addrMap ?ws) k) =
    map_option (\<lambda>r. wa_Address (aget s r)) (map_of (addrMap s) k)" for k
  proof (cases "map_of (addrMap ?ws) k")
    case None
    then have "map_of (addrMap s) k = None" using c unfolding copied_def by (metis domIff)
    with None show ?thesis by simp
  next
    case (Some r)
    then obtain q where "map_of (addrMap s) k = Some q" "aget ?ws r = watchingCopy (aget s q)"
      using c unfolding copied_def by blast
    with Some show ?thesis by (simp add: watchingCopy_facts)
  qed
  with c f assms(2) show ?thesis
    by (intro exI [of _ ?ws]) (simp add: ExportWatchingWallet_def copied_def ws_fields_def IsLocked_def)
qed

theorem ExportWatchingWallet_keyless_witness:
  "\<exists>ws. ExportWatchingWallet ks5 = Inr ws \<and> (\<forall>a \<in> set (aheap ws). keyless a)"
  using ExportWatchingWallet_keyless [OF ks5_wf ks5_fields(1)] by blast

end
