(* ===== verification/Ks_AddrIO.thy ===== *)
theory Ks_AddrIO
  imports Ks_FormatProps Ks_Keys
begin

text \<open>
  Addresses of a key store file: a valid address that is written is read back with every field that the format
  keeps, its checksums are verified on the way, and a file with a changed checksum is refused.
\<close>

section \<open>Reading field by field\<close>

lemma into_step: "gets m b a \<Longrightarrow> fills (steps ms) bs (put a x) z \<Longrightarrow> fills (steps (into m put # ms)) (b @ bs) x z"
  by (rule fills_Cons [OF fills_into])

lemma check_step:
  assumes "isl (f x) = False" and "fills (steps ms) bs (projr (f x)) z"
  shows "fills (steps (pureStep f # ms)) bs x z"
proof -
  have "f x = Inr (projr (f x))" using assms(1) by (cases "f x") simp_all
  from fills_Cons [OF fills_pureStep [of f, OF this] assms(2)] show ?thesis by (simp del: forE.simps)
qed

lemma last_step: "x = z \<Longrightarrow> fills (steps []) [] x z"
  by (simp add: fills_Nil del: forE.simps)

lemma flags_step:
  assumes "hasPrivKey af \<longrightarrow> encrypted af" and "fills (steps ms) bs (put af x) z"
  shows "fills (steps (inside get put addrFlags_ReadFrom # ms)) (flagBytes (addrFlagByte af) @ bs) x z"
  using assms by (intro fills_Cons [OF aflags.as_field])

lemmas address_steps = into_step [OF gets_words(1)] into_step [OF gets_words(2)] into_step [OF gets_ReadFull]
  check_step last_step flags_step

section \<open>Public keys\<close>

text \<open>A serialized public key: its format byte and the length the format has.\<close>

definition pubkey_format :: "bytes \<Rightarrow> bool" where
  "pubkey_format k \<longleftrightarrow> (k \<noteq> [] \<and> hd k \<in> {2, 3} \<and> length k = 33) \<or> (k \<noteq> [] \<and> hd k \<in> {4, 5} \<and> length k = 65)"

lemma gets_byte: "gets (f b) bs a \<Longrightarrow> gets (bindE readByte f) (b # bs) a"
  using gets_bindE [OF gets_words(4) [of b], of f bs a] by simp

lemma gets_publicKey: "pubkey_format k \<Longrightarrow> gets publicKey_ReadFrom k k"
proof -
  assume v: "pubkey_format k"
  then obtain f t where k: "k = f # t" by (cases k) (auto simp: pubkey_format_def)
  have m: "(2 :: byte) AND NOT 1 = 2" "(3 :: byte) AND NOT 1 = 2" "(4 :: byte) AND NOT 1 = 4" "(5 :: byte) AND NOT 1 = 4"
    by code_simp+
  have "gets (let noodd = f AND NOT 1 in
       if noodd = 4 then bindE (ReadFull 64) (\<lambda>s. retE (f # s))
       else if noodd = 2 then bindE (ReadFull 32) (\<lambda>s. retE (f # s))
       else failE (ErrorString ''unrecognized pubkey format'')) t (f # t)"
    using v by (auto simp: pubkey_format_def k m intro!: gets_map gets_ReadFull)
  then show ?thesis unfolding publicKey_ReadFrom_def k by (rule gets_byte)
qed

section \<open>Key pair addresses\<close>

definition addr_valid :: "kslib \<Rightarrow> netParams \<Rightarrow> btcAddress \<Rightarrow> bool" where
  "addr_valid lib net a \<longleftrightarrow> (hasPrivKey (a_flags a) \<longrightarrow> encrypted (a_flags a)) \<and> hasPubKey (a_flags a) \<and>
     length (a_chaincode a) = 32 \<and> length (a_initVector a) = 16 \<and> length (a_privKey a) = 32 \<and>
     length (ScriptAddress (a_address a)) = 20 \<and>
     NewAddressPubKeyHash lib (ScriptAddress (a_address a)) net = Inr (a_address a) \<and>
     pubkey_format (pubKeyBytes lib a) \<and> ParsePubKey lib (pubKeyBytes lib a) = Inr (a_pubKey a)"

text \<open>The bytes of an address with any checksums, public key and hash in front of the checks.\<close>

definition addrBytes :: "btcAddress \<Rightarrow> addrLocals \<Rightarrow> byte list" where
  "addrBytes a l = concat
     [pubKeyHash l, le_bytes 4 (chkPubKeyHash l), replicate 4 0,
      flagBytes (addrFlagByte (a_flags a)), a_chaincode a, le_bytes 4 (chkChaincode l),
      le_bytes 8 (a_chainIndex a), le_bytes 8 (a_chainDepth a), a_initVector a, le_bytes 4 (chkInitVector l),
      a_privKey a, le_bytes 4 (chkPrivKey l), pubKeyIn l, le_bytes 4 (chkPubKey l),
      le_bytes 8 (a_firstSeen a), le_bytes 8 (a_lastSeen a), le_bytes 4 (a_firstBlock a), le_bytes 4 (a_partialSyncHeight a)]"

definition addrLocalsOf :: "kslib \<Rightarrow> btcAddress \<Rightarrow> addrLocals" where
  "addrLocalsOf lib a = \<lparr>chkPubKeyHash = walletHash lib (ScriptAddress (a_address a)),
     chkChaincode = walletHash lib (a_chaincode a), chkInitVector = walletHash lib (a_initVector a),
     chkPrivKey = walletHash lib (a_privKey a), chkPubKey = walletHash lib (pubKeyBytes lib a),
     pubKeyHash = ScriptAddress (a_address a), pubKeyIn = pubKeyBytes lib a\<rparr>"

definition addrEnc :: "kslib \<Rightarrow> btcAddress \<Rightarrow> byte list" where
  "addrEnc lib a = addrBytes a (addrLocalsOf lib a)"

text \<open>The sizes of the fields.\<close>

definition addr_sizes :: "btcAddress \<Rightarrow> addrLocals \<Rightarrow> bool" where
  "addr_sizes a l \<longleftrightarrow> (hasPrivKey (a_flags a) \<longrightarrow> encrypted (a_flags a)) \<and> length (a_chaincode a) = 32 \<and>
     length (a_initVector a) = 16 \<and> length (a_privKey a) = 32 \<and> length (pubKeyHash l) = 20 \<and> pubkey_format (pubKeyIn l)"

lemma fills_addrFields:
  assumes "addr_sizes a l"
  shows "fills (steps addrFields) (addrBytes a l) (x, l0)
    (a\<lparr>a_address := a_address x, a_pubKey := a_pubKey x, a_privKeyCT := a_privKeyCT x\<rparr>, l)"
proof -
  have v: "length (a_chaincode a) = 32" "length (a_initVector a) = 16" "length (a_privKey a) = 32"
    "length (pubKeyHash l) = 20" "hasPrivKey (a_flags a) \<longrightarrow> encrypted (a_flags a)"
    "gets publicKey_ReadFrom (pubKeyIn l) (pubKeyIn l)"
    using assms by (simp_all add: addr_sizes_def gets_publicKey)
  show ?thesis
    unfolding addrFields_def addrBytes_def concat.simps
    by (intro address_steps into_step [OF v(6)] v) simp_all
qed

lemma steps_append: "steps (ms @ ns) = bindE (steps ms) (\<lambda>_. steps ns)"
  by (induction ms) (auto simp: fun_eq_iff bindE_def split: prod.split sum.split)

lemma addr_valid_sizes: "addr_valid lib net a \<Longrightarrow> addr_sizes a (addrLocalsOf lib a)"
  by (simp add: addr_valid_def addr_sizes_def addrLocalsOf_def)

interpretation addr: filler "btcAddress_WriteTo lib" "btcAddress_ReadFrom lib net" "addrEnc lib"
  "\<lambda>a x. a\<lparr>a_privKeyCT := a_privKeyCT x\<rparr>" "addr_valid lib net"
proof
  fix a x :: btcAddress assume v: "addr_valid lib net a"
  then have "hasPrivKey (a_flags a) \<longrightarrow> encrypted (a_flags a)" by (simp add: addr_valid_def)
  then show "btcAddress_WriteTo lib a = Write (addrEnc lib a)"
    by (simp add: btcAddress_WriteTo_def Let_def addrEnc_def addrBytes_def addrLocalsOf_def step_writers aflags.writes
        del: forE.simps)
  let ?x = "a\<lparr>a_address := a_address x, a_pubKey := a_pubKey x, a_privKeyCT := a_privKeyCT x\<rparr>"
  have "fills (steps (addrChecks lib net)) [] (?x, addrLocalsOf lib a)
      (a\<lparr>a_privKeyCT := a_privKeyCT x\<rparr>, addrLocalsOf lib a)"
    unfolding addrChecks_def using v
    by (intro address_steps) (simp_all add: addr_valid_def verifyAll_def verifyAndFix_def addrLocalsOf_def)
  from fills_bindE [OF fills_addrFields [OF addr_valid_sizes [OF v]] this]
  show "fills (btcAddress_ReadFrom lib net) (addrEnc lib a) x (a\<lparr>a_privKeyCT := a_privKeyCT x\<rparr>)"
    unfolding btcAddress_ReadFrom_def steps_append addrEnc_def by (intro fills_withLocals) simp
qed

text \<open>An address that can be written is read back in full, apart from the clear text of its private key, which the
  file never has: the reader consumes exactly the bytes written and leaves the clear text of its receiver. A proper
  prefix of the bytes is refused with one of the two end-of-file errors.\<close>

theorem btcAddress_roundtrip:
  assumes "addr_valid lib net a" and "btcAddress_WriteTo lib a ([], None) = (res, (bs, cap))"
  shows "res = Inr ()
    \<and> btcAddress_ReadFrom lib net ((bs @ rest, n), x) =
        (Inr (), ((rest, n + length bs), a\<lparr>a_privKeyCT := a_privKeyCT x\<rparr>))
    \<and> (\<forall>p. strict_prefix p bs \<longrightarrow> (\<exists>e z. btcAddress_ReadFrom lib net ((p, n), x) = (Inl e, (([], n + length p), z))
          \<and> (e = EOF \<or> e = ErrUnexpectedEOF)))"
proof (intro conjI allI impI)
  show "res = Inr ()" "btcAddress_ReadFrom lib net ((bs @ rest, n), x) =
      (Inr (), ((rest, n + length bs), a\<lparr>a_privKeyCT := a_privKeyCT x\<rparr>))"
    using addr.round_trip [OF assms] by simp_all
  fix p assume "strict_prefix p bs"
  moreover have "bs = addrEnc lib a" using assms(2) by (simp add: addr.writes [OF assms(1)] Write_def)
  ultimately show "\<exists>e z. btcAddress_ReadFrom lib net ((p, n), x) = (Inl e, (([], n + length p), z)) \<and> (e = EOF \<or> e = ErrUnexpectedEOF)"
    using addr.truncated [OF assms(1)] unfolding short_def by blast
qed

theorem btcAddress_roundtrip_witness:
  "fst (btcAddress_WriteTo kslib0 root0 ([], None)) = Inr ()
    \<and> btcAddress_ReadFrom kslib0 \<lparr>Net = 1\<rparr> ((fst (snd (btcAddress_WriteTo kslib0 root0 ([], None))) @ [7], 0), zeroBtcAddress) =
      (Inr (), (([7], length (fst (snd (btcAddress_WriteTo kslib0 root0 ([], None))))), root0))"
proof -
  have v: "addr_valid kslib0 \<lparr>Net = 1\<rparr> root0" by code_simp
  obtain res bs cap where w: "btcAddress_WriteTo kslib0 root0 ([], None) = (res, (bs, cap))" by (metis prod_cases3)
  have "root0\<lparr>a_privKeyCT := a_privKeyCT zeroBtcAddress\<rparr> = root0" by (simp add: root0_def zeroBtcAddress_def)
  with btcAddress_roundtrip [OF v w, of "[7]" 0 zeroBtcAddress] show ?thesis by (simp add: w)
qed

text \<open>Corrupted files are found out. Whatever the five checksums in the file are: unless each is the checksum of
  its field, reading the address fails with \<open>ErrChecksumMismatch\<close>.\<close>

theorem btcAddress_corrupt:
  assumes "addr_sizes a l"
    and "\<not> (chkPubKeyHash l = walletHash lib (pubKeyHash l) \<and> chkChaincode l = walletHash lib (a_chaincode a) \<and>
      chkInitVector l = walletHash lib (a_initVector a) \<and> chkPrivKey l = walletHash lib (a_privKey a) \<and>
      chkPubKey l = walletHash lib (pubKeyIn l))"
  shows "fst (btcAddress_ReadFrom lib net ((addrBytes a l @ rest, n), x)) = Inl ErrChecksumMismatch"
proof -
  let ?x = "a\<lparr>a_address := a_address x, a_pubKey := a_pubKey x, a_privKeyCT := a_privKeyCT x\<rparr>"
  have "steps (addrFields @ addrChecks lib net) ((addrBytes a l @ rest, n), (x, zeroAddrLocals)) =
      steps (addrChecks lib net) ((rest, n + length (addrBytes a l)), (?x, l))"
    unfolding steps_append by (simp add: bindE_def fillsD [OF fills_addrFields [OF assms(1)]])
  moreover have "verifyAll lib [(pubKeyHash l, chkPubKeyHash l), (a_chaincode a, chkChaincode l),
      (a_initVector a, chkInitVector l), (a_privKey a, chkPrivKey l), (pubKeyIn l, chkPubKey l)] = Inl ErrChecksumMismatch"
    using assms(2) by (auto simp: verifyAll_def verifyAndFix_def)
  ultimately show ?thesis
    by (simp add: btcAddress_ReadFrom_def withLocals_def addrChecks_def pureStep_def)
qed

theorem btcAddress_corrupt_witness:
  "fst (btcAddress_ReadFrom kslib0 \<lparr>Net = 1\<rparr>
     ((addrBytes root0 ((addrLocalsOf kslib0 root0)\<lparr>chkPrivKey := 77\<rparr>) @ [], 0), zeroBtcAddress)) = Inl ErrChecksumMismatch"
proof (rule btcAddress_corrupt)
  show "addr_sizes root0 ((addrLocalsOf kslib0 root0)\<lparr>chkPrivKey := 77\<rparr>)" by code_simp
  have "chkPrivKey ((addrLocalsOf kslib0 root0)\<lparr>chkPrivKey := 77\<rparr>) \<noteq> walletHash kslib0 (a_privKey root0)" by code_simp
  then show "\<not> (chkPubKeyHash ((addrLocalsOf kslib0 root0)\<lparr>chkPrivKey := 77\<rparr>) =
      walletHash kslib0 (pubKeyHash ((addrLocalsOf kslib0 root0)\<lparr>chkPrivKey := 77\<rparr>)) \<and>
    chkChaincode ((addrLocalsOf kslib0 root0)\<lparr>chkPrivKey := 77\<rparr>) = walletHash kslib0 (a_chaincode root0) \<and>
    chkInitVector ((addrLocalsOf kslib0 root0)\<lparr>chkPrivKey := 77\<rparr>) = walletHash kslib0 (a_initVector root0) \<and>
    chkPrivKey ((addrLocalsOf kslib0 root0)\<lparr>chkPrivKey := 77\<rparr>) = walletHash kslib0 (a_privKey root0) \<and>
    chkPubKey ((addrLocalsOf kslib0 root0)\<lparr>chkPrivKey := 77\<rparr>) =
      walletHash kslib0 (pubKeyIn ((addrLocalsOf kslib0 root0)\<lparr>chkPrivKey := 77\<rparr>)))" by blast
qed

section \<open>Script addresses\<close>

definition script_valid :: "kslib \<Rightarrow> netParams \<Rightarrow> scriptAddress \<Rightarrow> bool" where
  "script_valid lib net a \<longleftrightarrow> hasScript (sa_flags a) \<and> small (sa_script a) \<and> length (ScriptAddress (sa_address a)) = 20 \<and>
     NewAddressScriptHashFromHash lib (ScriptAddress (sa_address a)) net = Inr (sa_address a) \<and>
     ExtractPkScriptAddrs lib (sa_script a) net = Inr (sa_class a, sa_addresses a, sa_reqSigs a)"

definition scriptEnc :: "kslib \<Rightarrow> scriptAddress \<Rightarrow> byte list" where
  "scriptEnc lib a = concat
     [ScriptAddress (sa_address a), le_bytes 4 (walletHash lib (ScriptAddress (sa_address a))), replicate 4 0,
      flagBytes (flagBit (hasScript (sa_flags a)) 1 OR flagBit (sf_change (sa_flags a)) 5 OR
        flagBit (sf_unsynced (sa_flags a)) 6 OR flagBit (sf_partialSync (sa_flags a)) 7),
      le_bytes 4 (of_nat (length (sa_script a)) :: u32) @ sa_script a, le_bytes 4 (walletHash lib (sa_script a)),
      le_bytes 8 (sa_firstSeen a), le_bytes 8 (sa_lastSeen a), le_bytes 4 (sa_firstBlock a), le_bytes 4 (sa_partialSyncHeight a)]"

interpretation saddr: filler "scriptAddress_WriteTo lib" "scriptAddress_ReadFrom lib net" "scriptEnc lib" "\<lambda>a _. a"
  "script_valid lib net"
proof
  fix a x :: scriptAddress assume v: "script_valid lib net a"
  then have s: "small (sa_script a)" by (simp add: script_valid_def)
  show "scriptAddress_WriteTo lib a = Write (scriptEnc lib a)"
    by (simp add: scriptAddress_WriteTo_def Let_def scriptEnc_def step_writers sflags.value_writes script.value_writes [OF s]
        del: forE.simps)
  let ?l = "\<lparr>chkScriptHash = walletHash lib (ScriptAddress (sa_address a)), chkScript = walletHash lib (sa_script a),
    scriptHash = ScriptAddress (sa_address a)\<rparr>"
  have "fills (steps (scriptFields @ scriptChecks lib net)) (scriptEnc lib a)
      (x, \<lparr>chkScriptHash = 0, chkScript = 0, scriptHash = replicate 20 0\<rparr>) (a, ?l)"
    unfolding scriptFields_def scriptChecks_def append.simps scriptEnc_def concat.simps using v
    by (intro address_steps into_step [OF sflags.get] into_step [OF script.get] TrueI s)
       (simp_all add: script_valid_def verifyAll_def verifyAndFix_def)
  then show "fills (scriptAddress_ReadFrom lib net) (scriptEnc lib a) x a"
    unfolding scriptAddress_ReadFrom_def by (rule fills_withLocals)
qed

end
