(* ===== verification/Ks_EntryIO.thy ===== *)
theory Ks_EntryIO
  imports Ks_AddrIO
begin

text \<open>
  The appended entries of a key store file. Entries are read until the input ends, so a file that is cut between two
  entries is a valid file of the entries before the cut.
\<close>

section \<open>One entry\<close>

fun entry_valid :: "kslib \<Rightarrow> netParams \<Rightarrow> ksEntry \<Rightarrow> bool" where
  "entry_valid lib net (AddrEntry h a) \<longleftrightarrow> length h = 20 \<and> addr_valid lib net a"
| "entry_valid lib net (ScriptEntry h a) \<longleftrightarrow> length h = 20 \<and> script_valid lib net a"
| "entry_valid lib net (AddrCommentEntry h c) \<longleftrightarrow> length h = 20 \<and> length c \<le> maxCommentLen"
| "entry_valid lib net (TxCommentEntry h c) \<longleftrightarrow> False"

fun entryHeader :: "ksEntry \<Rightarrow> byte" where
  "entryHeader (AddrEntry h a) = addrHeader"
| "entryHeader (ScriptEntry h a) = scriptHeader"
| "entryHeader (AddrCommentEntry h c) = addrCommentHeader"
| "entryHeader (TxCommentEntry h c) = txCommentHeader"

fun entryBody :: "kslib \<Rightarrow> ksEntry \<Rightarrow> byte list" where
  "entryBody lib (AddrEntry h a) = h @ addrEnc lib a"
| "entryBody lib (ScriptEntry h a) = h @ scriptEnc lib a"
| "entryBody lib (AddrCommentEntry h c) = h @ le_bytes 2 (of_nat (length c) :: u16) @ c"
| "entryBody lib (TxCommentEntry h c) = []"

definition entryEnc :: "kslib \<Rightarrow> ksEntry \<Rightarrow> byte list" where
  "entryEnc lib e = entryHeader e # entryBody lib e"

text \<open>What is read back: the clear text of a private key is not in the file.\<close>

fun clearCT :: "walletAddress \<Rightarrow> walletAddress" where
  "clearCT (BtcAddr a) = BtcAddr (a\<lparr>a_privKeyCT := []\<rparr>)"
| "clearCT (ScriptAddr a) = ScriptAddr a"

fun entryDec :: "ksEntry \<Rightarrow> ksEntry" where
  "entryDec (AddrEntry h a) = AddrEntry h (a\<lparr>a_privKeyCT := []\<rparr>)"
| "entryDec e = e"

lemma gets_u16 [fillers]: "gets readU16 (le_bytes 2 w) w"
  unfolding readU16_def by (rule gets_reads, rule reads_le) simp

lemma entry_writes: "entry_valid lib net e \<Longrightarrow> entry_WriteTo lib e = Write (entryEnc lib e)"
  by (cases e) (simp_all add: addrEntry_WriteTo_def scriptEntry_WriteTo_def addrCommentEntry_WriteTo_def entryEnc_def
      step_writers addr.writes [where net = net] saddr.writes [where net = net] del: forE.simps)

lemma comment_length: "length c \<le> maxCommentLen \<Longrightarrow> unat (of_nat (length c) :: u16) = length c"
  by (simp add: maxCommentLen_def unat_of_nat_small)

lemma headers_distinct [simp]:
  "scriptHeader \<noteq> addrHeader" "addrCommentHeader \<noteq> addrHeader" "addrCommentHeader \<noteq> scriptHeader"
  by (simp_all add: addrHeader_def scriptHeader_def addrCommentHeader_def)

lemma entry_gets:
  assumes "entry_valid lib net e"
  shows "gets (readEntry lib net (entryHeader e)) (entryBody lib e) [entryDec e]"
proof (cases e)
  case (AddrEntry h a)
  then have v: "length h = 20" "addr_valid lib net a" using assms by simp_all
  have "gets (fresh zeroBtcAddress (btcAddress_ReadFrom lib net)) (addrEnc lib a) (a\<lparr>a_privKeyCT := []\<rparr>)"
    using gets_fresh [OF addr.fill [OF v(2)], of zeroBtcAddress] by (simp add: zeroBtcAddress_def)
  then have "gets (addrEntry_ReadFrom lib net) (h @ addrEnc lib a) (AddrEntry h (a\<lparr>a_privKeyCT := []\<rparr>))"
    unfolding addrEntry_ReadFrom_def by (intro gets_bindE [OF gets_ReadFull] gets_map v(1))
  from gets_map [OF this, of "\<lambda>e. [e]"] show ?thesis by (simp add: AddrEntry readEntry_def)
next
  case (ScriptEntry h a)
  then have v: "length h = 20" "script_valid lib net a" using assms by simp_all
  have "gets (scriptEntry_ReadFrom lib net) (h @ scriptEnc lib a) (ScriptEntry h a)"
    unfolding scriptEntry_ReadFrom_def
    by (intro gets_bindE [OF gets_ReadFull] gets_map gets_fresh saddr.fill v)
  from gets_map [OF this, of "\<lambda>e. [e]"] show ?thesis by (simp add: ScriptEntry readEntry_def)
next
  case (AddrCommentEntry h c)
  then have v: "length h = 20" "unat (of_nat (length c) :: u16) = length c" using assms by (simp_all add: comment_length)
  have "gets addrCommentEntry_ReadFrom (h @ le_bytes 2 (of_nat (length c) :: u16) @ c) (AddrCommentEntry h c)"
    unfolding addrCommentEntry_ReadFrom_def
    by (intro gets_bindE [OF gets_ReadFull] gets_bindE [OF gets_u16] gets_map gets_ReadFull) (simp_all add: v)
  from gets_map [OF this, of "\<lambda>e. [e]"] show ?thesis by (simp add: AddrCommentEntry readEntry_def)
next
  case (TxCommentEntry h c)
  then show ?thesis using assms by simp
qed

section \<open>All entries\<close>

lemma length_entryEnc: "length (entryEnc lib e) = Suc (length (entryBody lib e))"
  by (simp add: entryEnc_def)

lemma entriesLoop_reads:
  assumes "\<forall>e \<in> set es. entry_valid lib net e" and "length es < k"
  shows "entriesLoop lib net k acc (concat (map (entryEnc lib) es), n) =
    (Inr (acc @ map entryDec es), ([], n + length (concat (map (entryEnc lib) es))))"
  using assms
proof (induction es arbitrary: k acc n)
  case Nil
  then obtain k' where "k = Suc k'" by (cases k) auto
  then show ?case by (simp add: readByte_def ReadFull_def bindE_def)
next
  case (Cons e es)
  then obtain k' where k: "k = Suc k'" "length es < k'" by (cases k) auto
  let ?rest = "concat (map (entryEnc lib) es)"
  have "readByte (entryEnc lib e @ ?rest, n) = (Inr (entryHeader e), (entryBody lib e @ ?rest, n + 1))"
    using getsD [OF gets_words(4)] by (simp add: entryEnc_def)
  moreover have "readEntry lib net (entryHeader e) (entryBody lib e @ ?rest, n + 1) =
      (Inr [entryDec e], (?rest, n + 1 + length (entryBody lib e)))"
    using Cons.prems by (intro getsD [OF entry_gets]) simp
  ultimately show ?case using Cons.IH [OF _ k(2)] Cons.prems
    by (simp add: k(1) bindE_def length_entryEnc add.assoc)
qed

lemma length_entries: "length es \<le> length (concat (map (entryEnc lib) es))"
  by (induction es) (simp_all add: entryEnc_def)

lemma varEntries_reads:
  assumes "\<forall>e \<in> set es. entry_valid lib net e"
  shows "varEntries_ReadFrom lib net (concat (map (entryEnc lib) es), n) =
    (Inr (map entryDec es), ([], n + length (concat (map (entryEnc lib) es))))"
  unfolding varEntries_ReadFrom_def using entriesLoop_reads [OF assms] length_entries [of es lib] by (simp del: entriesLoop.simps)

lemma varEntries_writes:
  assumes "\<forall>e \<in> set es. entry_valid lib net e"
  shows "varEntries_WriteTo lib (map Some es) = Write (concat (map (entryEnc lib) es))"
proof -
  have "varEntries_WriteTo lib (map Some es) = forE (entry_WriteTo lib) es"
    unfolding varEntries_WriteTo_def by (induction es) (auto simp: fun_eq_iff split: prod.split sum.split)
  also have "\<dots> = Write (concat (map (entryEnc lib) es))" using assms by (intro forE_Write) (blast intro: entry_writes)
  finally show ?thesis .
qed

section \<open>The header of a store\<close>

definition head_valid :: "kslib \<Rightarrow> KStore \<Rightarrow> bool" where
  "head_valid lib s \<longleftrightarrow> known_net lib (ks_net s) \<and> length (ks_name s) = 32 \<and> length (ks_desc s) = 256 \<and>
     length (kdf_salt (ks_kdfParams s)) = 32 \<and> addr_valid lib (ks_net s) (rootOf s) \<and> recent_valid (ks_recent s)"

definition headEnc :: "kslib \<Rightarrow> KStore \<Rightarrow> byte list" where
  "headEnc lib s = fileID @ [1, 36, 1, 0] @ le_bytes 4 (Net (ks_net s)) @
     flagBytes (flagBit (useEncryption (ks_flags s)) 0 OR flagBit (watchingOnly (ks_flags s)) 1) @ replicate 6 0 @
     le_bytes 8 (ks_createDate s) @ ks_name s @ ks_desc s @ le_bytes 8 (ks_highestUsed s) @ kdfEnc lib (ks_kdfParams s) @
     replicate 256 0 @ addrEnc lib (rootOf s) @
     recentEnc (ks_recent s) @ replicate (1024 - length (recentEnc (ks_recent s))) 0"

lemma recent_fits: "recent_valid rb \<Longrightarrow> length (recentEnc rb) \<le> 1024"
  by (simp add: length_recentEnc recent_valid_def)

lemma head_writes:
  assumes "head_valid lib s" and "writeEntries s = Inr (map Some es)" and "\<forall>e \<in> set es. entry_valid lib (ks_net s) e"
  shows "ks_WriteTo lib s = Write (headEnc lib s @ concat (map (entryEnc lib) es))"
proof -
  have v: "known_net lib (ks_net s)" "length (kdf_salt (ks_kdfParams s)) = 32" "addr_valid lib (ks_net s) (rootOf s)"
    "recent_valid (ks_recent s)" using assms(1) by (simp_all add: head_valid_def)
  have c: "major VersCurrent = 1" "minor VersCurrent = 36" "bugfix VersCurrent = 1" "autoincrement VersCurrent = 0"
    by code_simp+
  show ?thesis
    by (simp add: ks_WriteTo_def assms(2) version.value_writes network.value_writes [OF v(1)] wflags.value_writes
        kdf.value_writes [OF v(2)] addr.writes [OF v(3)] recent.writes [OF v(4)] writes_unused recent_fits v(4)
        varEntries_writes [OF assms(3)] step_writers headEnc_def c del: forE.simps)
qed

text \<open>Reading the header into a store.\<close>

lemma rootOf_update:
  "rootOf (s\<lparr>ks_vers := v\<rparr>) = rootOf s" "rootOf (s\<lparr>ks_net := n\<rparr>) = rootOf s" "rootOf (s\<lparr>ks_flags := f\<rparr>) = rootOf s"
  "rootOf (s\<lparr>ks_createDate := d\<rparr>) = rootOf s" "rootOf (s\<lparr>ks_name := b\<rparr>) = rootOf s" "rootOf (s\<lparr>ks_desc := b\<rparr>) = rootOf s"
  "rootOf (s\<lparr>ks_highestUsed := i\<rparr>) = rootOf s" "rootOf (s\<lparr>ks_kdfParams := k\<rparr>) = rootOf s"
  by (simp_all add: rootOf_def)

lemma root_step:
  assumes "addr_valid lib (ks_net (fst x)) a"
    and "fills (steps ms) bs ((\<lambda>(s, l). (setRoot (a\<lparr>a_privKeyCT := a_privKeyCT (rootOf (fst x))\<rparr>) s, l)) x) z"
  shows "fills (steps ((\<lambda>st. inside (\<lambda>(s, l). rootOf s) (\<lambda>a (s, l). (setRoot a s, l))
      (btcAddress_ReadFrom lib (ks_net (fst (snd st)))) st) # ms)) (addrEnc lib a @ bs) x z"
proof (rule fills_Cons [OF _ assms(2)])
  have "fills (inside (\<lambda>(s, l). rootOf s) (\<lambda>a (s, l). (setRoot a s, l)) (btcAddress_ReadFrom lib (ks_net (fst x))))
      (addrEnc lib a) x ((\<lambda>(s, l). (setRoot (a\<lparr>a_privKeyCT := a_privKeyCT (rootOf (fst x))\<rparr>) s, l)) x)"
    using addr.as_field [OF assms(1), of "\<lambda>(s, l). rootOf s" "\<lambda>a (s, l). (setRoot a s, l)" x]
    by (simp add: split_def)
  then show "fills (\<lambda>st. inside (\<lambda>(s, l). rootOf s) (\<lambda>a (s, l). (setRoot a s, l))
      (btcAddress_ReadFrom lib (ks_net (fst (snd st)))) st)
      (addrEnc lib a) x ((\<lambda>(s, l). (setRoot (a\<lparr>a_privKeyCT := a_privKeyCT (rootOf (fst x))\<rparr>) s, l)) x)"
    by (simp add: fills_def)
qed

lemma fills_eq: "fills m bs x y \<Longrightarrow> y = z \<Longrightarrow> fills m bs x z"
  by simp

lemma recent_step:
  fixes x :: "KStore \<times> storeLocals"
  assumes "recent_valid rb" and "ks_vers (fst x) = VersCurrent"
    and "fills (steps ms) bs ((\<lambda>(s, l). (s\<lparr>ks_recent := rb\<rparr>, l)) x) z"
  shows "fills (steps ((\<lambda>st. inside (\<lambda>(s, l). ks_recent s) (\<lambda>rb (s, l). (s\<lparr>ks_recent := rb\<rparr>, l))
      (unusedSpace_ReadFromVersion 1024 (recent_ReadFromVersion (ks_vers (fst (snd st))))) st) # ms))
    ((recentEnc rb @ replicate (1024 - length (recentEnc rb)) 0) @ bs) x z"
proof (rule fills_Cons [OF _ assms(3)])
  have "fills (inside (\<lambda>(s, l). ks_recent s) (\<lambda>rb (s, l). (s\<lparr>ks_recent := rb\<rparr>, l))
      (unusedSpace_ReadFromVersion 1024 recent_ReadFrom))
      (recentEnc rb @ replicate (1024 - length (recentEnc rb)) 0) x ((\<lambda>(s, l). (s\<lparr>ks_recent := rb\<rparr>, l)) x)"
    by (intro fills_inside [where y = rb and put = "\<lambda>rb (s, l). (s\<lparr>ks_recent := rb\<rparr>, l)", THEN fills_eq]
          fills_unused recent.fill recent_fits assms(1)) (simp add: split_def)
  then show "fills (\<lambda>st. inside (\<lambda>(s, l). ks_recent s) (\<lambda>rb (s, l). (s\<lparr>ks_recent := rb\<rparr>, l))
      (unusedSpace_ReadFromVersion 1024 (recent_ReadFromVersion (ks_vers (fst (snd st))))) st)
      (recentEnc rb @ replicate (1024 - length (recentEnc rb)) 0) x ((\<lambda>(s, l). (s\<lparr>ks_recent := rb\<rparr>, l)) x)"
    by (simp add: fills_def assms(2) recent_current)
qed

text \<open>The store after the header of \<open>s\<close> has been read into \<open>t\<close>.\<close>

definition headed :: "KStore \<Rightarrow> KStore \<Rightarrow> KStore" where
  "headed s t = (setRoot ((rootOf s)\<lparr>a_privKeyCT := a_privKeyCT (rootOf t)\<rparr>) t)\<lparr>ks_vers := VersCurrent, ks_net := ks_net s,
     ks_flags := ks_flags s, ks_createDate := ks_createDate s, ks_name := ks_name s, ks_desc := ks_desc s,
     ks_highestUsed := ks_highestUsed s, ks_kdfParams := ks_kdfParams s, ks_recent := ks_recent s\<rparr>"

lemma head_fills:
  assumes "head_valid lib s"
  shows "fills (steps (storeFields lib)) (headEnc lib s) (t, l) (headed s t, l\<lparr>fileIDIn := fileID\<rparr>)"
proof -
  have v: "known_net lib (ks_net s)" "length (ks_name s) = 32" "length (ks_desc s) = 256"
    "length (kdf_salt (ks_kdfParams s)) = 32" "addr_valid lib (ks_net s) (rootOf s)" "recent_valid (ks_recent s)"
    using assms by (simp_all add: head_valid_def)
  have c: "[1, 36, 1, 0] = [major VersCurrent, minor VersCurrent, bugfix VersCurrent, autoincrement VersCurrent]" by code_simp
  have e: "headEnc lib s = fileID @ [1, 36, 1, 0] @ le_bytes 4 (Net (ks_net s)) @
     flagBytes (flagBit (useEncryption (ks_flags s)) 0 OR flagBit (watchingOnly (ks_flags s)) 1) @ replicate 6 0 @
     le_bytes 8 (ks_createDate s) @ ks_name s @ ks_desc s @ le_bytes 8 (ks_highestUsed s) @ kdfEnc lib (ks_kdfParams s) @
     replicate 256 0 @ addrEnc lib (rootOf s) @
     (recentEnc (ks_recent s) @ replicate (1024 - length (recentEnc (ks_recent s))) 0) @ []"
    by (simp add: headEnc_def)
  show ?thesis
    unfolding storeFields_def e c
    by (intro address_steps into_step [OF version.get] into_step [OF network.get] into_step [OF wflags.get]
          into_step [OF kdf.get] root_step recent_step TrueI v)
       (simp_all add: v fileID_def headed_def setRoot_def rootOf_update)
qed

end
