(* ===== verification/Ks_StoreIO.thy ===== *)
theory Ks_StoreIO
  imports Ks_EntryIO
begin

text \<open>
  Key store files as a whole: what reading makes of a header and a list of entries, that the entries written for a
  store are those of its maps, and that a store is read back with all its addresses, its chain and its comments.
\<close>

section \<open>Filing the entries\<close>

primrec fileAll :: "kslib \<Rightarrow> ksEntry list \<Rightarrow> KStore \<Rightarrow> err + KStore" where
  "fileAll lib [] s = Inr s"
| "fileAll lib (e # es) s = (case fileEntry lib e s of Inl x \<Rightarrow> Inl x | Inr s' \<Rightarrow> fileAll lib es s')"

lemma fileAll_run:
  assumes "fileAll lib es s = Inr s'"
  shows "forE (\<lambda>e. pureStep (\<lambda>(s, l). map_sum id (\<lambda>s'. (s', l)) (fileEntry lib e s))) es (r, (s, l)) = (Inr (), (r, (s', l)))"
  using assms by (induction es arbitrary: s) (auto simp: pureStep_def split: sum.splits)

lemma ks_read:
  assumes "head_valid lib s" and "\<forall>e \<in> set es. entry_valid lib (ks_net s) e"
    and "fileAll lib (map entryDec es) (fileRoot (headed s (resetStore t))) = Inr s'"
  shows "ks_ReadFrom lib ((headEnc lib s @ concat (map (entryEnc lib) es), n), t) =
    (Inr (), (([], n + length (headEnc lib s @ concat (map (entryEnc lib) es))), s'))"
proof -
  let ?l = "\<lparr>fileIDIn = replicate 8 0, appended = []\<rparr> :: storeLocals"
  note h = fillsD [OF head_fills [OF assms(1)], of "concat (map (entryEnc lib) es)" n "resetStore t" ?l]
  have n: "ks_net (headed s (resetStore t)) = ks_net s" by (simp add: headed_def)
  show ?thesis
    unfolding ks_ReadFrom_def
    by (simp add: bindE_def pureStep_def withLocals_def steps_append h into_def n varEntries_reads [OF assms(2)]
        fileAll_run [OF assms(3)] add.assoc)
qed

text \<open>The addresses of a store by their keys, and what the entries hold.\<close>

definition addrs :: "KStore \<Rightarrow> addressKey \<rightharpoonup> walletAddress" where
  "addrs s k = map_option (aget s) (map_of (addrMap s) k)"

definition keyed :: "walletAddress \<Rightarrow> addressKey \<times> walletAddress" where
  "keyed w = (ScriptAddress (wa_Address w), w)"

fun entryAddr :: "ksEntry \<Rightarrow> walletAddress list" where
  "entryAddr (AddrEntry h a) = [BtcAddr a]"
| "entryAddr (ScriptEntry h a) = [ScriptAddr a]"
| "entryAddr e = []"

fun entryChain :: "ksEntry \<Rightarrow> (i64 \<times> Address) list" where
  "entryChain (AddrEntry h a) = (if a_chainIndex a = importedKeyChainIdx then [] else [(a_chainIndex a, a_address a)])"
| "entryChain e = []"

fun entryComment :: "ksEntry \<Rightarrow> (addressKey \<times> comment) list" where
  "entryComment (AddrCommentEntry h c) = [(h, c)]"
| "entryComment e = []"

abbreviation over :: "('k \<rightharpoonup> 'v) \<Rightarrow> ('k \<times> 'v) list \<Rightarrow> ('k \<rightharpoonup> 'v)" where
  "over m kvs \<equiv> m ++ map_of (rev kvs)"

definition ptrs_ok :: "KStore \<Rightarrow> bool" where
  "ptrs_ok s \<longleftrightarrow> (\<forall>k r. map_of (addrMap s) k = Some r \<longrightarrow> r < length (aheap s)) \<and> keyGenerator < length (aheap s)"

definition heads :: "KStore \<Rightarrow> _" where
  "heads s = (ks_vers s, ks_net s, ks_flags s, ks_createDate s, ks_name s, ks_desc s, ks_highestUsed s, ks_kdfParams s,
     ks_recent s, aget s keyGenerator, ks_secret s, ks_passphrase s)"

text \<open>What the code relies on of \<open>btcutil.NewAddressPubKeyHash\<close>: a hash of 20 bytes is the script address.\<close>

definition pkh_ok :: "kslib \<Rightarrow> bool" where
  "pkh_ok lib \<longleftrightarrow> (\<forall>h n. length h = 20 \<longrightarrow> (\<exists>a. NewAddressPubKeyHash lib h n = Inr a \<and> ScriptAddress a = h))"

definition maxIdx :: "(i64 \<times> Address) list \<Rightarrow> i64 \<Rightarrow> i64" where
  "maxIdx ias m = fold (\<lambda>ia m. if m <s fst ia then fst ia else m) ias m"

lemma fileAddr_addrs:
  assumes "ptrs_ok s"
  shows "addrs (fileAddr w s) = over (addrs s) [keyed w]" "ptrs_ok (fileAddr w s)" "heads (fileAddr w s) = heads s"
proof -
  show "ptrs_ok (fileAddr w s)" using assms by (auto simp: ptrs_ok_def fileAddr_def update_conv' intro: less_SucI)
  show "heads (fileAddr w s) = heads s" using assms by (simp add: heads_def fileAddr_def ptrs_ok_def nth_append)
  show "addrs (fileAddr w s) = over (addrs s) [keyed w]"
  proof
    fix k
    show "addrs (fileAddr w s) k = over (addrs s) [keyed w] k"
      using assms by (cases "map_of (addrMap s) k")
        (auto simp: addrs_def fileAddr_def update_conv' keyed_def ptrs_ok_def nth_append)
  qed
qed

lemma fileChain_frame:
  "addrs (fileChain r a s) = addrs s" "ptrs_ok (fileChain r a s) = ptrs_ok s" "heads (fileChain r a s) = heads s"
  "addrCommentMap (fileChain r a s) = addrCommentMap s"
  "map_of (chainIdxMap (fileChain r a s)) = over (map_of (chainIdxMap s)) (entryChain (AddrEntry h a))"
  "lastChainIdx (fileChain r a s) = maxIdx (entryChain (AddrEntry h a)) (lastChainIdx s)"
  by (auto simp: fileChain_def Let_def addrs_def ptrs_ok_def heads_def maxIdx_def update_conv' fun_eq_iff)

lemma fileAddr_frame:
  "chainIdxMap (fileAddr w s) = chainIdxMap s" "lastChainIdx (fileAddr w s) = lastChainIdx s"
  "addrCommentMap (fileAddr w s) = addrCommentMap s"
  by (simp_all add: fileAddr_def)

text \<open>One entry, then all of them.\<close>

definition files_to :: "KStore \<Rightarrow> ksEntry list \<Rightarrow> KStore \<Rightarrow> bool" where
  "files_to s es s' \<longleftrightarrow> ptrs_ok s' \<and> heads s' = heads s \<and>
     addrs s' = over (addrs s) (map keyed (concat (map entryAddr es))) \<and>
     map_of (chainIdxMap s') = over (map_of (chainIdxMap s)) (concat (map entryChain es)) \<and>
     lastChainIdx s' = maxIdx (concat (map entryChain es)) (lastChainIdx s) \<and>
     map_of (addrCommentMap s') = over (map_of (addrCommentMap s)) (concat (map entryComment es))"

lemma fileEntry_files:
  assumes "ptrs_ok s" and "pkh_ok lib" and "entry_valid lib net e"
  shows "\<exists>s'. fileEntry lib (entryDec e) s = Inr s' \<and> files_to s [entryDec e] s'"
proof (cases e)
  case (AddrEntry h a)
  show ?thesis using assms(1)
    by (simp add: AddrEntry files_to_def fileChain_frame(1-4) fileChain_frame(5,6) [where h = h] fileAddr_addrs fileAddr_frame del: entryChain.simps)
next
  case (ScriptEntry h a)
  show ?thesis using fileAddr_addrs [OF assms(1), of "ScriptAddr a"]
    by (simp add: ScriptEntry files_to_def Let_def fileAddr_frame maxIdx_def) (simp add: addrs_def ptrs_ok_def heads_def fun_eq_iff)
next
  case (AddrCommentEntry h c)
  then have "length h = 20" using assms(3) by simp
  then obtain x where x: "NewAddressPubKeyHash lib h (ks_net s) = Inr x" "ScriptAddress x = h" using assms(2) by (auto simp: pkh_ok_def)
  show ?thesis using assms(1)
    by (simp add: AddrCommentEntry x files_to_def maxIdx_def update_conv') (simp add: addrs_def ptrs_ok_def heads_def fun_eq_iff)
qed (use assms in simp)

lemma files_to_trans: "files_to s es t \<Longrightarrow> files_to t fs u \<Longrightarrow> files_to s (es @ fs) u"
  by (simp add: files_to_def maxIdx_def)

lemma fileAll_files:
  assumes "ptrs_ok s" and "pkh_ok lib" and "\<forall>e \<in> set es. entry_valid lib net e"
  shows "\<exists>s'. fileAll lib (map entryDec es) s = Inr s' \<and> files_to s (map entryDec es) s'"
  using assms(1,3)
proof (induction es arbitrary: s)
  case Nil
  then show ?case by (simp add: files_to_def maxIdx_def)
next
  case (Cons e es)
  then obtain t where t: "fileEntry lib (entryDec e) s = Inr t" "files_to s [entryDec e] t"
    using fileEntry_files [OF _ assms(2)] by (metis list.set_intros(1))
  then have "ptrs_ok t" by (simp add: files_to_def)
  with Cons obtain u where "fileAll lib (map entryDec es) t = Inr u" "files_to t (map entryDec es) u" by auto
  then show ?case using t files_to_trans [OF t(2)] by simp
qed

section \<open>Collecting the entries\<close>

fun entry_of :: "walletAddress \<Rightarrow> ksEntry" where
  "entry_of (BtcAddr a) = AddrEntry (copy20 (ScriptAddress (a_address a))) a"
| "entry_of (ScriptAddr a) = ScriptEntry (copy20 (ScriptAddress (sa_address a))) a"

fun slotted :: "walletAddress \<Rightarrow> bool" where
  "slotted (BtcAddr a) \<longleftrightarrow> a_chainIndex a \<noteq> importedKeyChainIdx \<and> 0 \<le>s a_chainIndex a"
| "slotted (ScriptAddr a) \<longleftrightarrow> False"

fun slot :: "walletAddress \<Rightarrow> nat" where
  "slot (BtcAddr a) = unat (a_chainIndex a)"
| "slot (ScriptAddr a) = 0"

definition fillSlot :: "walletAddress \<Rightarrow> ksEntry option list \<Rightarrow> ksEntry option list" where
  "fillSlot w sl = (if slotted w then sl[slot w := Some (entry_of w)] else sl)"

lemma collectAll_eq:
  assumes "\<forall>w \<in> set ws. slotted w \<longrightarrow> slot w < length sl"
  shows "collectAll ws (sl, imps) = Inr (fold fillSlot ws sl, imps @ map (\<lambda>w. Some (entry_of w)) (filter wa_Imported ws))"
  using assms
proof (induction ws arbitrary: sl imps)
  case (Cons w ws)
  have "collect w (sl, imps) = Inr (fillSlot w sl, imps @ (if wa_Imported w then [Some (entry_of w)] else []))"
    using Cons.prems by (cases w) (auto simp: collect_def fillSlot_def Let_def)
  moreover have "length (fillSlot w sl) = length sl" by (simp add: fillSlot_def)
  ultimately show ?case using Cons by simp
qed simp

lemma length_slots [simp]: "length (fold fillSlot ws sl) = length sl"
  by (induction ws arbitrary: sl) (simp_all add: fillSlot_def)

text \<open>When no two addresses share a slot, each is in its own.\<close>

lemma slot_filled:
  assumes "w \<in> set ws" and "slotted w" and "slot w < length sl"
    and "\<forall>v \<in> set ws. slotted v \<and> slot v = slot w \<longrightarrow> v = w"
  shows "fold fillSlot ws sl ! slot w = Some (entry_of w)"
  using assms(1,4)
proof (induction ws rule: rev_induct)
  case (snoc v ws)
  show ?case
  proof (cases "slotted v \<and> slot v = slot w")
    case True
    then have "v = w" using snoc.prems by simp
    then show ?thesis using assms(2,3) by (simp add: fillSlot_def [of w])
  next
    case False
    then have "w \<in> set ws" using snoc.prems(1) assms(2) by auto
    then show ?thesis using snoc False by (auto simp: fillSlot_def [of v])
  qed
qed simp

section \<open>Stores that can be written\<close>

definition chain_entry :: "KStore \<Rightarrow> i64 \<Rightarrow> Address \<Rightarrow> bool" where
  "chain_entry s i x \<longleftrightarrow> (\<exists>e \<in> set (addrMap s). \<exists>a. aget s (snd e) = BtcAddr a \<and> a_chainIndex a \<noteq> importedKeyChainIdx \<and>
     a_chainIndex a = i \<and> a_address a = x)"

text \<open>A store with a chain from the root at \<open>-1\<close> to \<open>lastChainIdx\<close> whose index agrees with the addresses, and whose
  addresses have the shape the format expects. Transaction comments are excluded, as the format loses them.\<close>

definition fmt_ok :: "kslib \<Rightarrow> KStore \<Rightarrow> bool" where
  "fmt_ok lib s \<longleftrightarrow> head_valid lib s \<and> entries_ok s \<and> txCommentMap s = [] \<and>
     (\<forall>e \<in> set (addrMap s). case aget s (snd e) of BtcAddr a \<Rightarrow> addr_valid lib (ks_net s) a
        | ScriptAddr a \<Rightarrow> script_valid lib (ks_net s) a) \<and>
     a_chainIndex (rootOf s) = - 1 \<and> (ScriptAddress (a_address (rootOf s)), keyGenerator) \<in> set (addrMap s) \<and>
     wf_map (chainIdxMap s) \<and> (\<forall>i. map_of (chainIdxMap s) i \<noteq> None \<longleftrightarrow> - 1 \<le> sint i \<and> sint i \<le> sint (lastChainIdx s)) \<and>
     (\<forall>i x. chain_entry s i x \<longleftrightarrow> map_of (chainIdxMap s) i = Some x) \<and>
     wf_map (addrCommentMap s) \<and> (\<forall>kc \<in> set (addrCommentMap s). length (fst kc) = 20 \<and> length (snd kc) \<le> maxCommentLen)"

abbreviation wallets :: "KStore \<Rightarrow> walletAddress list" where
  "wallets s \<equiv> map (\<lambda>e. aget s (snd e)) (addrMap s)"

lemma same_key:
  assumes "entries_ok s" and "v \<in> set (wallets s)" and "w \<in> set (wallets s)"
    and "ScriptAddress (wa_Address v) = ScriptAddress (wa_Address w)"
  shows "v = w"
proof -
  obtain e f where ef: "e \<in> set (addrMap s)" "f \<in> set (addrMap s)" "v = aget s (snd e)" "w = aget s (snd f)"
    using assms(2,3) by auto
  then have "fst e = fst f" using assms(1,4) by (auto simp: entries_ok_def)
  then have "e = f" using ef assms(1) unfolding entries_ok_def by (metis eq_key_imp_eq_value prod.collapse)
  then show ?thesis using ef by simp
qed

lemma chain_entryI:
  "BtcAddr a \<in> set (wallets s) \<Longrightarrow> a_chainIndex a \<noteq> importedKeyChainIdx \<Longrightarrow> chain_entry s (a_chainIndex a) (a_address a)"
  unfolding chain_entry_def by force

lemma chain_entryE:
  assumes "chain_entry s i x"
  obtains a where "BtcAddr a \<in> set (wallets s)" "a_chainIndex a \<noteq> importedKeyChainIdx" "a_chainIndex a = i" "a_address a = x"
  using assms unfolding chain_entry_def by force

lemma same_index:
  assumes "fmt_ok lib s" and "BtcAddr a \<in> set (wallets s)" and "BtcAddr b \<in> set (wallets s)"
    and "a_chainIndex a = a_chainIndex b" and "a_chainIndex a \<noteq> importedKeyChainIdx"
  shows "a = b"
proof -
  have c: "chain_entry s (a_chainIndex a) (a_address a)" "chain_entry s (a_chainIndex a) (a_address b)"
    using chain_entryI [OF assms(2)] chain_entryI [OF assms(3)] assms(4,5) by simp_all
  then have "a_address a = a_address b" using assms(1) unfolding fmt_ok_def by (metis option.inject)
  then have "BtcAddr a = BtcAddr b" using same_key [OF _ assms(2,3)] assms(1) by (simp add: fmt_ok_def)
  then show ?thesis by simp
qed

lemma unat_sint:
  fixes i :: i64
  assumes "0 \<le> sint i"
  shows "int (unat i) = sint i"
proof -
  have l: "sint i < 2 ^ 64" using sint_lt [of i] by simp
  have "uint (word_of_int (sint i) :: i64) = sint i mod 2 ^ LENGTH(64)" by (rule uint_word_of_int)
  also have "\<dots> = sint i" using assms l by simp
  finally show ?thesis by simp
qed

lemma chain_count:
  fixes m :: "(i64, 'v) gomap"
  assumes "wf_map m" and "\<forall>i. map_of m i \<noteq> None \<longleftrightarrow> - 1 \<le> sint i \<and> sint i \<le> L" and "- 1 \<le> L" and "L < 2 ^ 63"
  shows "int (length m - 1) = L + 1" "m \<noteq> []"
proof -
  have "set (map fst m) \<subseteq> (word_of_int :: int \<Rightarrow> i64) ` {- 1 .. L}"
  proof
    fix i assume "i \<in> set (map fst m)"
    then have "- 1 \<le> sint i \<and> sint i \<le> L" using assms(2) by (metis list.set_map map_of_eq_None_iff)
    then show "i \<in> (word_of_int :: int \<Rightarrow> i64) ` {- 1 .. L}" by (intro image_eqI [of _ _ "sint i"]) simp_all
  qed
  then have "card (set (map fst m)) \<le> card ((word_of_int :: int \<Rightarrow> i64) ` {- 1 .. L})" by (intro card_mono) simp_all
  also have "\<dots> \<le> card {- 1 .. L}" by (rule card_image_le) simp
  finally have "int (length m) \<le> L + 2" using assms(1,3) distinct_card [OF assms(1)] by simp
  moreover have "L + 2 \<le> int (length m)" by (rule chain_length [OF assms(2,4)])
  ultimately show "int (length m - 1) = L + 1" "m \<noteq> []" using assms(3) by auto
qed

lemma entry_of_inj: "entry_of v = entry_of w \<Longrightarrow> v = w"
  by (cases v; cases w) simp_all

lemma root_wallet: "fmt_ok lib s \<Longrightarrow> BtcAddr (rootOf s) \<in> set (wallets s)"
proof -
  assume f: "fmt_ok lib s"
  then have "asBtc (aget s keyGenerator) \<noteq> None" by (simp add: fmt_ok_def entries_ok_def)
  then have "aget s keyGenerator = BtcAddr (rootOf s)" by (cases "aget s keyGenerator") (simp_all add: rootOf_def)
  moreover have "(ScriptAddress (a_address (rootOf s)), keyGenerator) \<in> set (addrMap s)" using f by (simp add: fmt_ok_def)
  ultimately show ?thesis unfolding set_map by (intro image_eqI [where x = "(ScriptAddress (a_address (rootOf s)), keyGenerator)"]) simp_all
qed

text \<open>The chain index of a chained address lies in the chain.\<close>

lemma wallet_index:
  assumes "fmt_ok lib s" and "BtcAddr a \<in> set (wallets s)" and "a_chainIndex a \<noteq> importedKeyChainIdx"
  shows "- 1 \<le> sint (a_chainIndex a)" "sint (a_chainIndex a) \<le> sint (lastChainIdx s)"
proof -
  have "map_of (chainIdxMap s) (a_chainIndex a) = Some (a_address a)"
    using chain_entryI [OF assms(2,3)] assms(1) unfolding fmt_ok_def by blast
  then have "map_of (chainIdxMap s) (a_chainIndex a) \<noteq> None" by simp
  then show "- 1 \<le> sint (a_chainIndex a)" "sint (a_chainIndex a) \<le> sint (lastChainIdx s)"
    using assms(1) unfolding fmt_ok_def by blast+
qed

lemma root_or_filed:
  assumes "fmt_ok lib s" and "w \<in> set (wallets s)"
  shows "slotted w \<or> wa_Imported w \<longleftrightarrow> w \<noteq> BtcAddr (rootOf s)"
proof (cases w)
  case (BtcAddr a)
  have r: "a_chainIndex (rootOf s) = - 1" using assms(1) by (simp add: fmt_ok_def)
  have "a = rootOf s" if "a_chainIndex a = - 1"
    using same_index [OF assms(1) assms(2) [unfolded BtcAddr] root_wallet [OF assms(1)]] that r
    by (simp add: importedKeyChainIdx_def)
  moreover have "a_chainIndex a = - 1" if "a_chainIndex a \<noteq> importedKeyChainIdx" "\<not> 0 \<le>s a_chainIndex a"
    using wallet_index [OF assms(1) assms(2) [unfolded BtcAddr] that(1)] that(2)
    by (simp add: word_sle_eq flip: sint_eq_iff)
  moreover have "\<not> slotted (BtcAddr (rootOf s))" "\<not> wa_Imported (BtcAddr (rootOf s))"
    using r by (simp_all add: importedKeyChainIdx_def word_sle_eq)
  ultimately show ?thesis unfolding BtcAddr by (metis slotted.simps(1) wa_Imported.simps(1))
qed simp

lemma slots_full:
  assumes "fmt_ok lib s"
  defines "n \<equiv> length (chainIdxMap s) - 1"
  shows "\<forall>w \<in> set (wallets s). slotted w \<longrightarrow> slot w < n"
    and "\<exists>ws. fold fillSlot (wallets s) (replicate n None) = map Some (map entry_of ws) \<and>
      set ws = {w \<in> set (wallets s). slotted w}"
proof -
  let ?L = "sint (lastChainIdx s)" and ?sl = "fold fillSlot (wallets s) (replicate n None)"
  have dom: "\<forall>i. map_of (chainIdxMap s) i \<noteq> None \<longleftrightarrow> - 1 \<le> sint i \<and> sint i \<le> ?L"
    and ce: "\<And>i x. map_of (chainIdxMap s) i = Some x \<Longrightarrow> chain_entry s i x"
    using assms(1) unfolding fmt_ok_def by blast+
  have "- 1 \<le> ?L" using wallet_index [OF assms(1) root_wallet [OF assms(1)]] assms(1)
    by (simp add: fmt_ok_def importedKeyChainIdx_def)
  then have n: "int n = ?L + 1"
    using assms(1) dom sint_lt [of "lastChainIdx s"] unfolding n_def by (intro chain_count) (simp_all add: fmt_ok_def)
  show small: "\<forall>w \<in> set (wallets s). slotted w \<longrightarrow> slot w < n"
  proof (intro ballI impI)
    fix w assume w: "w \<in> set (wallets s)" "slotted w"
    from w(2) obtain a where a: "w = BtcAddr a" "a_chainIndex a \<noteq> importedKeyChainIdx" "0 \<le> sint (a_chainIndex a)"
      by (cases w) (auto simp: word_sle_eq)
    then have "int (unat (a_chainIndex a)) < int n"
      using wallet_index [OF assms(1) w(1) [unfolded a(1)] a(2)] unat_sint [OF a(3)] n by simp
    then show "slot w < n" unfolding a(1) slot.simps of_nat_less_iff .
  qed
  have uniq: "v = w" if "v \<in> set (wallets s)" "w \<in> set (wallets s)" "slotted v" "slotted w" "slot v = slot w" for v w
  proof -
    from that(3) obtain a where a: "v = BtcAddr a" "a_chainIndex a \<noteq> importedKeyChainIdx" by (cases v) auto
    from that(4) obtain b where b: "w = BtcAddr b" by (cases w) auto
    have "a_chainIndex a = a_chainIndex b" using that(5) by (simp add: a(1) b word_unat_eq_iff)
    from same_index [OF assms(1) that(1) [unfolded a(1)] that(2) [unfolded b] this a(2)] show ?thesis by (simp add: a(1) b)
  qed
  have filled: "?sl ! slot w = Some (entry_of w)" if "w \<in> set (wallets s)" "slotted w" for w
    using that small uniq by (intro slot_filled) auto
  have "\<exists>w. w \<in> set (wallets s) \<and> slotted w \<and> slot w = i" if "i < n" for i
  proof -
    have "sint (word_of_int (int i) :: i64) = int i"
      using that n sint_lt [of "lastChainIdx s"] by (intro sint_of_int_small) simp_all
    then have i: "sint (of_nat i :: i64) = int i" by simp
    then have "map_of (chainIdxMap s) (of_nat i) \<noteq> None" using dom that n by simp
    then obtain x where "map_of (chainIdxMap s) (of_nat i) = Some x" by blast
    then obtain a where a: "BtcAddr a \<in> set (wallets s)" "a_chainIndex a \<noteq> importedKeyChainIdx" "a_chainIndex a = of_nat i"
      using ce by (blast elim: chain_entryE)
    moreover have "int (unat (of_nat i :: i64)) = int i" using unat_sint [of "of_nat i"] unfolding i by simp
    then have "unat (a_chainIndex a) = i" unfolding a(3) of_nat_eq_iff .
    ultimately show ?thesis using i by (intro exI [of _ "BtcAddr a"]) (simp add: word_sle_eq)
  qed
  then obtain f where f: "\<And>i. i < n \<Longrightarrow> f i \<in> set (wallets s) \<and> slotted (f i) \<and> slot (f i) = i" by metis
  show "\<exists>ws. ?sl = map Some (map entry_of ws) \<and> set ws = {w \<in> set (wallets s). slotted w}"
  proof (intro exI conjI)
    show "?sl = map Some (map entry_of (map f [0..<n]))"
    proof (rule nth_equalityI)
      fix i assume "i < length ?sl"
      then have "i < n" by simp
      then show "?sl ! i = map Some (map entry_of (map f [0..<n])) ! i" using filled [of "f i"] f by simp
    qed simp
    show "set (map f [0..<n]) = {w \<in> set (wallets s). slotted w}"
    proof (intro equalityI subsetI)
      fix w assume w: "w \<in> {w \<in> set (wallets s). slotted w}"
      then have "slot w < n" using small by blast
      moreover from this have "f (slot w) = w" using f w by (intro uniq) simp_all
      ultimately show "w \<in> set (map f [0..<n])" by (metis atLeastLessThan_iff image_eqI le0 set_map set_upt)
    qed (use f in auto)
  qed
qed

lemma copy20_id: "length k = 20 \<Longrightarrow> copy20 k = k"
  by (simp add: copy20_def)

lemma writeEntries_ok:
  assumes "fmt_ok lib s"
  shows "\<exists>ws. writeEntries s = Inr (map Some (map entry_of ws @ map (\<lambda>(k, c). AddrCommentEntry k c) (addrCommentMap s)))
    \<and> set ws = set (wallets s) - {BtcAddr (rootOf s)}"
proof -
  let ?n = "length (chainIdxMap s) - 1"
  obtain ws where ws: "fold fillSlot (wallets s) (replicate ?n None) = map Some (map entry_of ws)"
    "set ws = {w \<in> set (wallets s). slotted w}" using slots_full(2) [OF assms] by blast
  have ne: "chainIdxMap s \<noteq> []"
  proof
    assume "chainIdxMap s = []"
    moreover have "map_of (chainIdxMap s) (- 1) = Some (a_address (rootOf s))"
      using chain_entryI [OF root_wallet [OF assms]] assms by (simp add: fmt_ok_def importedKeyChainIdx_def)
    ultimately show False by simp
  qed
  have "collectAll (wallets s) (replicate ?n None, []) =
      Inr (map Some (map entry_of ws), map (\<lambda>w. Some (entry_of w)) (filter wa_Imported (wallets s)))"
    using collectAll_eq [of "wallets s" "replicate ?n None" "[]"] slots_full(1) [OF assms] unfolding ws(1)
    by (simp only: length_replicate append_Nil)
  moreover have "map (\<lambda>(k, c). Some (AddrCommentEntry (copy20 k) c)) (addrCommentMap s) =
      map Some (map (\<lambda>(k, c). AddrCommentEntry k c) (addrCommentMap s))"
    using assms by (auto simp: fmt_ok_def copy20_id)
  ultimately have "writeEntries s = Inr (map Some (map entry_of (ws @ filter wa_Imported (wallets s)) @
      map (\<lambda>(k, c). AddrCommentEntry k c) (addrCommentMap s)))"
    using ne assms by (simp add: writeEntries_def fmt_ok_def comp_def)
  moreover have "set (ws @ filter wa_Imported (wallets s)) = set (wallets s) - {BtcAddr (rootOf s)}"
    using ws(2) root_or_filed [OF assms] root_wallet [OF assms] by auto
  ultimately show ?thesis by blast
qed

section \<open>Round trip\<close>

lemma map_of_functional:
  assumes "\<And>v v'. (k, v) \<in> set kvs \<Longrightarrow> (k, v') \<in> set kvs \<Longrightarrow> v = v'"
  shows "map_of (rev kvs) k = Some v \<longleftrightarrow> (k, v) \<in> set kvs"
proof
  assume "(k, v) \<in> set kvs"
  then obtain v' where "map_of (rev kvs) k = Some v'" using weak_map_of_SomeI [of k v "rev kvs"] by auto
  moreover from map_of_SomeD [OF this] \<open>(k, v) \<in> set kvs\<close> have "v' = v" by (intro assms) simp_all
  ultimately show "map_of (rev kvs) k = Some v" by simp
qed (auto dest: map_of_SomeD)

lemma over_functional:
  assumes "\<And>k v v'. (k, v) \<in> set kvs \<Longrightarrow> (k, v') \<in> set kvs \<Longrightarrow> v = v'"
    and "\<And>k v. f k = Some v \<longleftrightarrow> (k, v) \<in> set kvs \<or> (k \<notin> fst ` set kvs \<and> m k = Some v)"
  shows "over m kvs = f"
proof
  fix k
  show "over m kvs k = f k"
  proof (cases "k \<in> fst ` set kvs")
    case True
    then obtain v where v: "(k, v) \<in> set kvs" by auto
    then have "map_of (rev kvs) k = Some v" using assms(1) by (subst map_of_functional) blast+
    moreover have "f k = Some v" using assms(2) v by blast
    ultimately show ?thesis by simp
  next
    case False
    then have "map_of (rev kvs) k = None" by (simp add: map_of_eq_None_iff)
    moreover have "f k = m k" using assms(2) [of k] False by (metis fst_conv image_eqI not_None_eq)
    ultimately show ?thesis by (simp add: map_add_def)
  qed
qed

lemma clearCT_facts [simp]: "wa_Address (clearCT w) = wa_Address w"
  by (cases w) simp_all

lemma dec_entries:
  "concat (map entryAddr (map entryDec (map entry_of ws @ map (\<lambda>(k, c). AddrCommentEntry k c) cs))) = map clearCT ws"
  "set (concat (map entryChain (map entryDec (map entry_of ws @ map (\<lambda>(k, c). AddrCommentEntry k c) cs)))) =
     {(a_chainIndex a, a_address a) | a. BtcAddr a \<in> set ws \<and> a_chainIndex a \<noteq> importedKeyChainIdx}"
  "concat (map entryComment (map entryDec (map entry_of ws @ map (\<lambda>(k, c). AddrCommentEntry k c) cs))) = cs"
proof -
  have c: "concat (map entryAddr (map entryDec (map (\<lambda>(k, c). AddrCommentEntry k c) cs))) = []"
    "concat (map entryChain (map entryDec (map (\<lambda>(k, c). AddrCommentEntry k c) cs))) = []"
    "concat (map entryComment (map entryDec (map (\<lambda>(k, c). AddrCommentEntry k c) cs))) = cs"
    by (induction cs) auto
  have w: "entryAddr (entryDec (entry_of w)) = [clearCT w]" "entryComment (entryDec (entry_of w)) = []" for w
    by (cases w; simp)+
  then have "concat (map entryAddr (map entryDec (map entry_of ws))) = map clearCT ws"
    "concat (map entryComment (map entryDec (map entry_of ws))) = []" by (induction ws) simp_all
  with c show "concat (map entryAddr (map entryDec (map entry_of ws @ map (\<lambda>(k, c). AddrCommentEntry k c) cs))) = map clearCT ws"
    "concat (map entryComment (map entryDec (map entry_of ws @ map (\<lambda>(k, c). AddrCommentEntry k c) cs))) = cs"
    by (simp_all only: map_append concat_append append_Nil append_Nil2)
  have "set (entryChain (entryDec (entry_of w))) = {(a_chainIndex a, a_address a) | a. BtcAddr a = w \<and> a_chainIndex a \<noteq> importedKeyChainIdx}" for w
    by (cases w) auto
  then have "set (concat (map entryChain (map entryDec (map entry_of ws)))) =
     {(a_chainIndex a, a_address a) | a. BtcAddr a \<in> set ws \<and> a_chainIndex a \<noteq> importedKeyChainIdx}"
    by (simp add: image_image) blast
  with c(2) show "set (concat (map entryChain (map entryDec (map entry_of ws @ map (\<lambda>(k, c). AddrCommentEntry k c) cs)))) =
     {(a_chainIndex a, a_address a) | a. BtcAddr a \<in> set ws \<and> a_chainIndex a \<noteq> importedKeyChainIdx}"
    by (simp only: map_append concat_append append_Nil2)
qed

lemma addrs_wallets:
  assumes "entries_ok s"
  shows "addrs s k = Some w \<longleftrightarrow> w \<in> set (wallets s) \<and> ScriptAddress (wa_Address w) = k"
proof
  assume "addrs s k = Some w"
  then obtain r where r: "map_of (addrMap s) k = Some r" "w = aget s r" by (auto simp: addrs_def)
  then have "(k, r) \<in> set (addrMap s)" by (simp add: map_of_SomeD)
  with r assms show "w \<in> set (wallets s) \<and> ScriptAddress (wa_Address w) = k" by (force simp: entries_ok_def)
next
  assume w: "w \<in> set (wallets s) \<and> ScriptAddress (wa_Address w) = k"
  then obtain e where e: "e \<in> set (addrMap s)" "w = aget s (snd e)" by auto
  have "wf_map (addrMap s)" using assms by (simp add: entries_ok_def)
  then have "map_of (addrMap s) (fst e) = Some (snd e)" using e(1) by (intro map_of_is_SomeI) simp_all
  moreover have "fst e = k" using e w assms by (simp add: entries_ok_def)
  ultimately show "addrs s k = Some w" using e by (simp add: addrs_def)
qed

text \<open>The largest chain index read.\<close>

lemma maxIdx_facts:
  "sint m \<le> sint (maxIdx ias m)" "ia \<in> set ias \<Longrightarrow> sint (fst ia) \<le> sint (maxIdx ias m)"
  "maxIdx ias m = m \<or> maxIdx ias m \<in> fst ` set ias"
proof -
  have "sint m \<le> sint (maxIdx ias m) \<and> (\<forall>ia \<in> set ias. sint (fst ia) \<le> sint (maxIdx ias m)) \<and>
      (maxIdx ias m = m \<or> maxIdx ias m \<in> fst ` set ias)"
  proof (induction ias rule: rev_induct)
    case (snoc ia ias)
    have "maxIdx (ias @ [ia]) m = (if maxIdx ias m <s fst ia then fst ia else maxIdx ias m)" by (simp add: maxIdx_def)
    with snoc show ?case by (auto simp: word_sless_alt)
  qed (simp add: maxIdx_def)
  then show "sint m \<le> sint (maxIdx ias m)" "ia \<in> set ias \<Longrightarrow> sint (fst ia) \<le> sint (maxIdx ias m)"
    "maxIdx ias m = m \<or> maxIdx ias m \<in> fst ` set ias" by blast+
qed

text \<open>A store that nothing was read into: its root has no clear text and its last chain index is zero.\<close>

definition unread :: "KStore \<Rightarrow> bool" where
  "unread t \<longleftrightarrow> keyGenerator < length (aheap t) \<and> a_privKeyCT (rootOf t) = [] \<and> lastChainIdx t = 0"

lemma start_store:
  fixes s t :: KStore
  assumes "unread t"
  defines "u \<equiv> fileRoot (headed s (resetStore t))"
  shows "ptrs_ok u" "addrs u = [ScriptAddress (a_address (rootOf s)) \<mapsto> clearCT (BtcAddr (rootOf s))]"
    "map_of (chainIdxMap u) = [- 1 \<mapsto> a_address (rootOf s)]" "lastChainIdx u = 0" "map_of (addrCommentMap u) = Map.empty"
    "heads u = (VersCurrent, ks_net s, ks_flags s, ks_createDate s, ks_name s, ks_desc s, ks_highestUsed s, ks_kdfParams s,
       ks_recent s, clearCT (BtcAddr (rootOf s)), ks_secret t, ks_passphrase t)"
proof -
  have h: "aheap (headed s (resetStore t)) = (aheap t)[keyGenerator := clearCT (BtcAddr (rootOf s))]"
    "addrMap (headed s (resetStore t)) = []" "chainIdxMap (headed s (resetStore t)) = []"
    "lastChainIdx (headed s (resetStore t)) = 0" "addrCommentMap (headed s (resetStore t)) = []"
    using assms(1) by (simp_all add: headed_def setRoot_def resetStore_def unread_def rootOf_def)
  then have r: "rootOf (headed s (resetStore t)) = (rootOf s)\<lparr>a_privKeyCT := []\<rparr>"
    using assms(1) by (simp add: rootOf_def unread_def)
  show "ptrs_ok u" using assms(1) by (simp add: u_def ptrs_ok_def fileRoot_def h unread_def split: if_splits)
  show "addrs u = [ScriptAddress (a_address (rootOf s)) \<mapsto> clearCT (BtcAddr (rootOf s))]"
    using assms(1) by (auto simp: u_def addrs_def fileRoot_def h r unread_def fun_eq_iff)
  show "map_of (chainIdxMap u) = [- 1 \<mapsto> a_address (rootOf s)]"
    by (auto simp: u_def fileRoot_def h r rootKeyChainIdx_def fun_eq_iff)
  show "lastChainIdx u = 0" "map_of (addrCommentMap u) = Map.empty" by (simp_all add: u_def fileRoot_def h)
  show "heads u = (VersCurrent, ks_net s, ks_flags s, ks_createDate s, ks_name s, ks_desc s, ks_highestUsed s, ks_kdfParams s,
       ks_recent s, clearCT (BtcAddr (rootOf s)), ks_secret t, ks_passphrase t)"
    using assms(1) by (simp add: u_def heads_def fileRoot_def h unread_def)
      (simp add: headed_def setRoot_def resetStore_def)
qed

lemma ex_split: "z \<in> A \<Longrightarrow> (\<exists>x \<in> A. P x) \<longleftrightarrow> (\<exists>x \<in> A. x \<noteq> z \<and> P x) \<or> P z"
proof
  assume "\<exists>x \<in> A. P x"
  then obtain x where "x \<in> A" "P x" by blast
  then show "(\<exists>x \<in> A. x \<noteq> z \<and> P x) \<or> P z" by (cases "x = z") blast+
qed blast

lemma read_addrs:
  assumes "fmt_ok lib s" and "set ws = set (wallets s) - {BtcAddr (rootOf s)}"
  shows "over [ScriptAddress (a_address (rootOf s)) \<mapsto> clearCT (BtcAddr (rootOf s))] (map keyed (map clearCT ws)) =
    (\<lambda>k. map_option clearCT (addrs s k))"
proof (rule over_functional)
  have ok: "entries_ok s" using assms(1) by (simp add: fmt_ok_def)
  have kv: "(k, v) \<in> set (map keyed (map clearCT ws)) \<longleftrightarrow>
      (\<exists>w \<in> set (wallets s). w \<noteq> BtcAddr (rootOf s) \<and> k = ScriptAddress (wa_Address w) \<and> v = clearCT w)" for k v
    using assms(2) by (auto simp: keyed_def)
  show "v = v'" if "(k, v) \<in> set (map keyed (map clearCT ws))" "(k, v') \<in> set (map keyed (map clearCT ws))" for k v v'
  proof -
    from that(1) obtain w where w: "w \<in> set (wallets s)" "v = clearCT w" "k = ScriptAddress (wa_Address w)"
      unfolding kv by blast
    from that(2) obtain w' where w': "w' \<in> set (wallets s)" "v' = clearCT w'" "k = ScriptAddress (wa_Address w')"
      unfolding kv by blast
    have "w = w'" by (rule same_key [OF ok w(1) w'(1)]) (simp flip: w(3) w'(3))
    then show ?thesis by (simp add: w(2) w'(2))
  qed
  fix k v
  let ?R = "BtcAddr (rootOf s)"
  have R: "?R \<in> set (wallets s)" by (rule root_wallet [OF assms(1)])
  have "map_option clearCT (addrs s k) = Some v \<longleftrightarrow>
      (\<exists>w \<in> set (wallets s). k = ScriptAddress (wa_Address w) \<and> v = clearCT w)"
    unfolding map_option_eq_Some addrs_wallets [OF ok] by blast
  also have "\<dots> \<longleftrightarrow> (k, v) \<in> set (map keyed (map clearCT ws)) \<or> (k = ScriptAddress (wa_Address ?R) \<and> v = clearCT ?R)"
    unfolding kv by (rule ex_split [OF R])
  also have "\<dots> \<longleftrightarrow> (k, v) \<in> set (map keyed (map clearCT ws)) \<or> (k \<notin> fst ` set (map keyed (map clearCT ws)) \<and>
      [ScriptAddress (a_address (rootOf s)) \<mapsto> clearCT ?R] k = Some v)"
  proof -
    have "ScriptAddress (wa_Address ?R) \<notin> fst ` set (map keyed (map clearCT ws))"
    proof
      assume "ScriptAddress (wa_Address ?R) \<in> fst ` set (map keyed (map clearCT ws))"
      then obtain v where "(ScriptAddress (wa_Address ?R), v) \<in> set (map keyed (map clearCT ws))"
        by (metis imageE prod.collapse)
      then obtain w where "w \<in> set (wallets s)" "w \<noteq> ?R" "ScriptAddress (wa_Address ?R) = ScriptAddress (wa_Address w)"
        unfolding kv by blast
      then show False using same_key [OF ok R, of w] by simp
    qed
    then show ?thesis by auto
  qed
  finally show "map_option clearCT (addrs s k) = Some v \<longleftrightarrow> (k, v) \<in> set (map keyed (map clearCT ws)) \<or>
      (k \<notin> fst ` set (map keyed (map clearCT ws)) \<and> [ScriptAddress (a_address (rootOf s)) \<mapsto> clearCT ?R] k = Some v)" .
qed

lemma read_chain:
  assumes "fmt_ok lib s" and "set ws = set (wallets s) - {BtcAddr (rootOf s)}"
    and "set cvs = {(a_chainIndex a, a_address a) | a. BtcAddr a \<in> set ws \<and> a_chainIndex a \<noteq> importedKeyChainIdx}"
  shows "over [- 1 \<mapsto> a_address (rootOf s)] cvs = map_of (chainIdxMap s)"
proof (rule over_functional)
  have ce: "chain_entry s i x \<longleftrightarrow> map_of (chainIdxMap s) i = Some x" for i x using assms(1) by (simp add: fmt_ok_def)
  have r: "a_chainIndex (rootOf s) = - 1" using assms(1) by (simp add: fmt_ok_def)
  have R: "BtcAddr (rootOf s) \<in> set (wallets s)" by (rule root_wallet [OF assms(1)])
  have cv: "(i, x) \<in> set cvs \<longleftrightarrow> chain_entry s i x \<and> i \<noteq> - 1" for i x
  proof
    assume "(i, x) \<in> set cvs"
    then obtain a where a: "BtcAddr a \<in> set (wallets s)" "a \<noteq> rootOf s" "a_chainIndex a \<noteq> importedKeyChainIdx" "i = a_chainIndex a" "x = a_address a"
      using assms(2,3) by auto
    then have "i \<noteq> - 1" using same_index [OF assms(1) a(1) R] r by auto
    then show "chain_entry s i x \<and> i \<noteq> - 1" using chain_entryI [OF a(1,3)] a(4,5) by simp
  next
    assume i: "chain_entry s i x \<and> i \<noteq> - 1"
    then obtain a where a: "BtcAddr a \<in> set (wallets s)" "a_chainIndex a \<noteq> importedKeyChainIdx" "a_chainIndex a = i" "a_address a = x"
      by (blast elim: chain_entryE)
    then have "a \<noteq> rootOf s" using i r by auto
    then show "(i, x) \<in> set cvs" using a assms(2,3) by blast
  qed
  show "v = v'" if "(k, v) \<in> set cvs" "(k, v') \<in> set cvs" for k v v' using that unfolding cv ce by simp
  fix i x
  have "chain_entry s (- 1) (a_address (rootOf s))"
    using chain_entryI [OF R] r by (simp add: importedKeyChainIdx_def)
  then show "map_of (chainIdxMap s) i = Some x \<longleftrightarrow> (i, x) \<in> set cvs \<or> (i \<notin> fst ` set cvs \<and> [- 1 \<mapsto> a_address (rootOf s)] i = Some x)"
    using cv ce by (cases "i = - 1") (auto simp: image_iff)
qed

lemma read_last:
  assumes "fmt_ok lib s" and "set ws = set (wallets s) - {BtcAddr (rootOf s)}"
    and "set cvs = {(a_chainIndex a, a_address a) | a. BtcAddr a \<in> set ws \<and> a_chainIndex a \<noteq> importedKeyChainIdx}"
    and "0 \<le> sint (lastChainIdx s)"
  shows "maxIdx cvs 0 = lastChainIdx s"
proof -
  let ?L = "lastChainIdx s"
  have le: "sint (fst ia) \<le> sint ?L" if "ia \<in> set cvs" for ia
  proof -
    from that obtain a where "BtcAddr a \<in> set ws" "a_chainIndex a \<noteq> importedKeyChainIdx" "ia = (a_chainIndex a, a_address a)"
      unfolding assms(3) by blast
    then show ?thesis using wallet_index(2) [OF assms(1), of a] unfolding assms(2) by simp
  qed
  have "map_of (chainIdxMap s) ?L \<noteq> None" using assms(1,4) unfolding fmt_ok_def by (simp del: not_None_eq)
  then obtain x where "chain_entry s ?L x" using assms(1) unfolding fmt_ok_def by blast
  then obtain a where a: "BtcAddr a \<in> set (wallets s)" "a_chainIndex a \<noteq> importedKeyChainIdx" "a_chainIndex a = ?L" "a_address a = x"
    by (rule chain_entryE)
  have "a \<noteq> rootOf s"
  proof
    assume "a = rootOf s"
    then have "?L = - 1" using a(3) assms(1) by (simp add: fmt_ok_def)
    then show False using assms(4) by simp
  qed
  then have "BtcAddr a \<in> set ws" using a(1) unfolding assms(2) by simp
  then have "(?L, x) \<in> set cvs" unfolding assms(3) a(3,4) [symmetric] using a(2) by blast
  then have "sint ?L \<le> sint (maxIdx cvs 0)" using maxIdx_facts(2) [of "(?L, x)" cvs 0] by simp
  moreover have "sint (maxIdx cvs 0) \<le> sint ?L" using maxIdx_facts(3) [of cvs 0]
  proof
    assume "maxIdx cvs 0 \<in> fst ` set cvs"
    then obtain ia where "ia \<in> set cvs" "maxIdx cvs 0 = fst ia" by (rule imageE)
    then show ?thesis using le by simp
  qed (use assms(4) in simp)
  ultimately show ?thesis by (simp flip: sint_eq_iff)
qed

section \<open>The file of a store\<close>

lemma copy20_length: "length (copy20 h) = 20"
  by (simp add: copy20_def)

lemma entries_valid:
  assumes "fmt_ok lib s" and "set ws = set (wallets s) - {BtcAddr (rootOf s)}"
  shows "\<forall>e \<in> set (map entry_of ws @ map (\<lambda>(k, c). AddrCommentEntry k c) (addrCommentMap s)). entry_valid lib (ks_net s) e"
proof
  fix e assume "e \<in> set (map entry_of ws @ map (\<lambda>(k, c). AddrCommentEntry k c) (addrCommentMap s))"
  then consider (addr) w where "w \<in> set ws" "e = entry_of w" | (com) kc where "kc \<in> set (addrCommentMap s)" "e = AddrCommentEntry (fst kc) (snd kc)"
    by auto
  then show "entry_valid lib (ks_net s) e"
  proof cases
    case addr
    then obtain x where "x \<in> set (addrMap s)" "w = aget s (snd x)" using assms(2) by auto
    then have "case w of BtcAddr a \<Rightarrow> addr_valid lib (ks_net s) a | ScriptAddr a \<Rightarrow> script_valid lib (ks_net s) a"
      using assms(1) by (simp add: fmt_ok_def)
    then show ?thesis using addr by (cases w) (simp_all add: copy20_length)
  next
    case com
    then show ?thesis using assms(1) by (simp add: fmt_ok_def)
  qed
qed

lemma written_file:
  assumes "fmt_ok lib s"
  obtains ws where "set ws = set (wallets s) - {BtcAddr (rootOf s)}"
    and "ks_WriteTo lib s = Write (headEnc lib s @ concat (map (entryEnc lib)
      (map entry_of ws @ map (\<lambda>(k, c). AddrCommentEntry k c) (addrCommentMap s))))"
proof -
  obtain ws where ws: "writeEntries s = Inr (map Some (map entry_of ws @ map (\<lambda>(k, c). AddrCommentEntry k c) (addrCommentMap s)))"
    "set ws = set (wallets s) - {BtcAddr (rootOf s)}" using writeEntries_ok [OF assms] by blast
  have "head_valid lib s" using assms by (simp add: fmt_ok_def)
  from head_writes [OF this ws(1) entries_valid [OF assms ws(2)]] ws(2) that show ?thesis by blast
qed

text \<open>C5. Saving a key store and loading it again. The store has the shape the format expects (\<open>fmt_ok\<close>): a known network, name,
  description and salt of their full length, at most twenty recent blocks with a height that is not negative, every public-key
  address with a public key that parses, fields of their full length, a private key only if it is encrypted and the
  hash of its own address, every script address with its script, no transaction comments, address comments within their bounds, and a chain
  index that runs from the root at \<open>-1\<close> to the last chain index and agrees with the addresses. Stores outside this shape
  are not claimed to survive (scripts that are missing and transaction comments do not; see the findings).
  If such a store has at least one chained address besides the root, it is written without error, and reading the file
  into a store that has not been used yet consumes all of it and gives the store back: the header fields, the recent
  blocks and the root, every address under its key with all fields but the clear text of the private key, the chain
  index, the last chain index and the address comments.\<close>

theorem KeyStore_roundtrip:
  assumes "fmt_ok lib s" and "pkh_ok lib" and "unread t" and "0 \<le> sint (lastChainIdx s)"
    and "ks_WriteTo lib s ([], None) = (res, (bs, cap))"
  shows "res = Inr () \<and> (\<exists>s'. ks_ReadFrom lib ((bs, n), t) = (Inr (), (([], n + length bs), s'))
    \<and> ks_net s' = ks_net s \<and> ks_flags s' = ks_flags s \<and> ks_createDate s' = ks_createDate s \<and> ks_name s' = ks_name s
    \<and> ks_desc s' = ks_desc s \<and> ks_highestUsed s' = ks_highestUsed s \<and> ks_kdfParams s' = ks_kdfParams s
    \<and> ks_recent s' = ks_recent s \<and> ks_vers s' = VersCurrent
    \<and> aget s' keyGenerator = clearCT (BtcAddr (rootOf s))
    \<and> (\<forall>k. addrs s' k = map_option clearCT (addrs s k))
    \<and> map_of (chainIdxMap s') = map_of (chainIdxMap s) \<and> lastChainIdx s' = lastChainIdx s
    \<and> map_of (addrCommentMap s') = map_of (addrCommentMap s))"
proof -
  obtain ws where ws: "set ws = set (wallets s) - {BtcAddr (rootOf s)}"
    and w: "ks_WriteTo lib s = Write (headEnc lib s @ concat (map (entryEnc lib)
      (map entry_of ws @ map (\<lambda>(k, c). AddrCommentEntry k c) (addrCommentMap s))))"
    by (rule written_file [OF assms(1)])
  let ?es = "map entry_of ws @ map (\<lambda>(k, c). AddrCommentEntry k c) (addrCommentMap s)"
  let ?u = "fileRoot (headed s (resetStore t))"
  have v: "\<forall>e \<in> set ?es. entry_valid lib (ks_net s) e" by (rule entries_valid [OF assms(1) ws])
  have hv: "head_valid lib s" using assms(1) by (simp add: fmt_ok_def)
  note st = start_store [OF assms(3), of s]
  obtain s' where s': "fileAll lib (map entryDec ?es) ?u = Inr s'" and f: "files_to ?u (map entryDec ?es) s'"
    using fileAll_files [OF st(1) assms(2) v] by blast
  have bs: "res = Inr ()" "bs = headEnc lib s @ concat (map (entryEnc lib) ?es)"
    using assms(5) by (simp_all add: w Write_def)
  note dec = dec_entries [where ws = ws and cs = "addrCommentMap s"]
  have a: "addrs s' = (\<lambda>k. map_option clearCT (addrs s k))"
    using f unfolding files_to_def dec(1) st(2) read_addrs [OF assms(1) ws] by blast
  have c: "map_of (chainIdxMap s') = map_of (chainIdxMap s)"
    using f unfolding files_to_def st(3) read_chain [OF assms(1) ws dec(2)] by blast
  have l: "lastChainIdx s' = lastChainIdx s"
    using f unfolding files_to_def st(4) read_last [OF assms(1) ws dec(2) assms(4)] by blast
  have "map_of (rev (addrCommentMap s)) = map_of (addrCommentMap s)"
    using assms(1) by (subst map_of_inject_set) (simp_all add: fmt_ok_def flip: rev_map)
  then have m: "map_of (addrCommentMap s') = map_of (addrCommentMap s)"
    using f unfolding files_to_def dec(3) st(5) by simp
  have h: "heads s' = (VersCurrent, ks_net s, ks_flags s, ks_createDate s, ks_name s, ks_desc s, ks_highestUsed s,
      ks_kdfParams s, ks_recent s, clearCT (BtcAddr (rootOf s)), ks_secret t, ks_passphrase t)"
    using f st(6) unfolding files_to_def by simp
  show ?thesis
    using bs(1) ks_read [OF hv v s', of n] a c l m h [unfolded heads_def]
    by (intro conjI exI [of _ s']) (simp_all add: bs(2))
qed

text \<open>A new store, as \<open>new(Store)\<close> makes it.\<close>

definition zeroStore :: KStore where
  "zeroStore = \<lparr>ks_vers = mkVersion 0 0 0 0, ks_net = \<lparr>Net = 0\<rparr>, ks_flags = \<lparr>useEncryption = False, watchingOnly = False\<rparr>,
     ks_createDate = 0, ks_name = replicate 32 0, ks_desc = replicate 256 0, ks_highestUsed = 0, ks_kdfParams = zeroKdf,
     ks_recent = \<lparr>rb_hashes = [], rb_lastHeight = 0\<rparr>, addrMap = [], addrCommentMap = [], txCommentMap = [],
     ks_passphrase = [], ks_secret = [], chainIdxMap = [], importedAddrs = [], lastChainIdx = 0, missingKeysStart = 0,
     aheap = [BtcAddr zeroBtcAddress], ks_events = 0\<rparr>"

lemma unread_zero: "unread zeroStore"
  by (simp add: unread_def zeroStore_def zeroBtcAddress_def rootOf_def keyGenerator_def)

lemma pkh_ok0: "pkh_ok kslib0"
  by (simp add: pkh_ok_def kslib0_def)

lemma ks1_fields:
  "addrMap ks1 = [(replicate 20 9, 0), (replicate 20 8, 1)]" "aheap ks1 = [BtcAddr root0, BtcAddr addr1]"
  "chainIdxMap ks1 = [(- 1, a_address root0), (0, a_address addr1)]" "lastChainIdx ks1 = 0" "ks_net ks1 = \<lparr>Net = 1\<rparr>"
  "txCommentMap ks1 = []" "addrCommentMap ks1 = []"
  by (simp_all add: ks1_def withChained_def withAddr_def ks0_def installRoot_def newBase_def root0_def addr1_def
      keyGenerator_def rootKeyChainIdx_def)

lemma ks1_fmt: "fmt_ok kslib0 ks1"
proof -
  have h: "head_valid kslib0 ks1" "addr_valid kslib0 \<lparr>Net = 1\<rparr> root0" "addr_valid kslib0 \<lparr>Net = 1\<rparr> addr1" by code_simp+
  have c: "a_chainIndex root0 = - 1" "a_chainIndex addr1 = 0" "ScriptAddress (a_address root0) = replicate 20 9"
    by (simp_all add: root0_def addr1_def)
  have r: "rootOf ks1 = root0" by (simp add: rootOf_def ks1_fields keyGenerator_def)
  have e: "entries_ok ks1" using ks1_wf(2) by (simp add: ks_wf_def)
  have "sint i = - 1 \<or> sint i = 0 \<longleftrightarrow> - 1 \<le> sint i \<and> sint i \<le> 0" for i :: i64 by linarith
  moreover have "i = - 1 \<longleftrightarrow> sint i = - 1" "i = 0 \<longleftrightarrow> sint i = 0" for i :: i64 using sint_eq_iff [of i "- 1"] sint_eq_iff [of i 0] by simp_all
  ultimately have "map_of (chainIdxMap ks1) i \<noteq> None \<longleftrightarrow> - 1 \<le> sint i \<and> sint i \<le> sint (lastChainIdx ks1)" for i
    by (simp add: ks1_fields)
  moreover have "chain_entry ks1 i x \<longleftrightarrow> map_of (chainIdxMap ks1) i = Some x" for i x
    by (auto simp: chain_entry_def ks1_fields c importedKeyChainIdx_def)
  ultimately show ?thesis
    unfolding fmt_ok_def using h e by (simp add: ks1_fields r c keyGenerator_def)
qed

theorem KeyStore_roundtrip_witness:
  "\<exists>s'. ks_ReadFrom kslib0 ((fst (snd (ks_WriteTo kslib0 ks1 ([], None))), 0), zeroStore) =
     (Inr (), (([], length (fst (snd (ks_WriteTo kslib0 ks1 ([], None))))), s'))
   \<and> addrs s' (replicate 20 8) = Some (BtcAddr addr1) \<and> lastChainIdx s' = 0"
proof -
  obtain res bs cap where w: "ks_WriteTo kslib0 ks1 ([], None) = (res, (bs, cap))" by (metis prod_cases3)
  have "addrs ks1 (replicate 20 8) = Some (BtcAddr addr1)" "clearCT (BtcAddr addr1) = BtcAddr addr1"
    by (simp_all add: addrs_def ks1_fields addr1_def root0_def)
  with KeyStore_roundtrip [OF ks1_fmt pkh_ok0 unread_zero _ w, of 0] show ?thesis by (auto simp: w ks1_fields)
qed

text \<open>C33. A finding: entries are read until the file ends, and nothing in the file says how many there are. So the file of a
  store of the shape the format expects that
  was cut between two of its entries reads without error, whatever is missing; cut before the first entry it is a store
  that has forgotten every address but the root.\<close>

theorem KeyStore_truncated:
  assumes "fmt_ok lib s" and "pkh_ok lib" and "unread t"
  shows "\<exists>es. ks_WriteTo lib s ([], None) = (Inr (), (headEnc lib s @ concat (map (entryEnc lib) es), None))
    \<and> (\<forall>k. \<exists>s'. ks_ReadFrom lib ((headEnc lib s @ concat (map (entryEnc lib) (take k es)), 0), t) =
          (Inr (), (([], length (headEnc lib s @ concat (map (entryEnc lib) (take k es)))), s'))
        \<and> (k = 0 \<longrightarrow> addrs s' = [ScriptAddress (a_address (rootOf s)) \<mapsto> clearCT (BtcAddr (rootOf s))]))"
proof -
  obtain ws where ws: "set ws = set (wallets s) - {BtcAddr (rootOf s)}"
    and w: "ks_WriteTo lib s = Write (headEnc lib s @ concat (map (entryEnc lib)
      (map entry_of ws @ map (\<lambda>(k, c). AddrCommentEntry k c) (addrCommentMap s))))"
    by (rule written_file [OF assms(1)])
  define es where "es = map entry_of ws @ map (\<lambda>(k, c). AddrCommentEntry k c) (addrCommentMap s)"
  have v: "\<forall>e \<in> set (take k es). entry_valid lib (ks_net s) e" for k
    using entries_valid [OF assms(1) ws] unfolding es_def [symmetric] by (meson in_set_takeD)
  have hv: "head_valid lib s" using assms(1) by (simp add: fmt_ok_def)
  note st = start_store [OF assms(3), of s]
  have "\<exists>s'. ks_ReadFrom lib ((headEnc lib s @ concat (map (entryEnc lib) (take k es)), 0), t) =
          (Inr (), (([], length (headEnc lib s @ concat (map (entryEnc lib) (take k es)))), s'))
        \<and> (k = 0 \<longrightarrow> addrs s' = [ScriptAddress (a_address (rootOf s)) \<mapsto> clearCT (BtcAddr (rootOf s))])" for k
  proof -
    obtain s' where s': "fileAll lib (map entryDec (take k es)) (fileRoot (headed s (resetStore t))) = Inr s'"
      and f: "files_to (fileRoot (headed s (resetStore t))) (map entryDec (take k es)) s'"
      using fileAll_files [OF st(1) assms(2) v] by blast
    have "k = 0 \<longrightarrow> addrs s' = [ScriptAddress (a_address (rootOf s)) \<mapsto> clearCT (BtcAddr (rootOf s))]"
      using f st(2) by (simp add: files_to_def)
    with ks_read [OF hv v s', of 0] show ?thesis by (intro exI [of _ s']) simp
  qed
  then show ?thesis by (intro exI [of _ es]) (simp add: w es_def Write_def)
qed

theorem KeyStore_truncated_witness:
  "\<exists>es. ks_WriteTo kslib0 ks1 ([], None) = (Inr (), (headEnc kslib0 ks1 @ concat (map (entryEnc kslib0) es), None))
   \<and> fst (ks_ReadFrom kslib0 ((headEnc kslib0 ks1 @ concat (map (entryEnc kslib0) (take 0 es)), 0), zeroStore)) = Inr ()"
proof -
  from KeyStore_truncated [OF ks1_fmt pkh_ok0 unread_zero] obtain es where
    w: "ks_WriteTo kslib0 ks1 ([], None) = (Inr (), (headEnc kslib0 ks1 @ concat (map (entryEnc kslib0) es), None))"
    and k: "\<forall>k. \<exists>s'. ks_ReadFrom kslib0 ((headEnc kslib0 ks1 @ concat (map (entryEnc kslib0) (take k es)), 0), zeroStore) =
          (Inr (), (([], length (headEnc kslib0 ks1 @ concat (map (entryEnc kslib0) (take k es)))), s'))" by blast
  obtain s' where "ks_ReadFrom kslib0 ((headEnc kslib0 ks1 @ concat (map (entryEnc kslib0) (take 0 es)), 0), zeroStore) =
          (Inr (), (([], length (headEnc kslib0 ks1 @ concat (map (entryEnc kslib0) (take 0 es)))), s'))" using spec [OF k, of 0] by blast
  then show ?thesis using w by (intro exI [of _ es]) simp
qed

end
