(* ===== verification/Wt_Sample.thy ===== *)
theory Wt_Sample
  imports Wt_CreateTx Tx_StoreIO Ks_StoreIO Ks_Keys
begin

text \<open>
  A concrete wallet on which the properties are tried: one account, the default one, whose key store is unlocked and has
  a pooled address, and whose transaction store has transaction A in block 5 with its outputs of 10 and 20 credited.
  The libraries are the small ones of the two stores; every output belongs to the root address.
\<close>

definition os0 :: oslib where
  "os0 = \<lparr>OsErr = (\<lambda>_. None), OsRoom = (\<lambda>_. None), TempNames = (\<lambda>_. [''1'', ''2'']), Getwd = [''home'']\<rparr>"

definition ksP :: KStore where
  "ksP = ks1\<lparr>ks_passphrase := [1], ks_secret := pass_key [1], aheap := [BtcAddr root5, BtcAddr addr1]\<rparr>"

definition rootAddrs :: "bytes \<Rightarrow> netParams \<Rightarrow> btcutilAddress list" where
  "rootAddrs script net = [AddressPubKeyHash (a_address root5)]"

definition env0 :: wenv where
  "env0 = \<lparr>e_ks = kslib0, e_btc = ext0, e_tx = lib0, e_os = os0, activeNet = \<lparr>Net = 1\<rparr>, NetName = ''mainnet'',
     DataDir = [''data''], SatoshiPerBitcent = 1000000, SatoshiPerBitcoin = 100000000, MaxSatoshi = 2100000000000000,
     TxVersion = 1, MaxTxInSequenceNum = - 1, KeypoolSize = 3, DisallowFree = True,
     SigHashAll = 1, SigHashNone = 2, SigHashSingle = 3, SigHashAnyOneCanPay = 128, MultiSigTy = 4,
     ClassString = (\<lambda>c. ''class''), IsForNet = (\<lambda>a net. True), NewShaHashFromStr = (\<lambda>s. Inr (of_nat (length s))),
     NewAddressPubKey = (\<lambda>b net. Inr (AddressPubKey \<lparr>ScriptAddress = b, AddrNet = net\<rparr>)),
     NewAddressScriptHash = (\<lambda>b net. Inr (AddressScriptHash \<lparr>ScriptAddress = b, AddrNet = net\<rparr>)),
     MultiSigScript = (\<lambda>keys n. Inr []), DecodeWIF = (\<lambda>s. Inl (ErrorString ''malformed private key'')),
     WifIsForNet = (\<lambda>w net. True), SignCompact = (\<lambda>n key h cmp. Inr []),
     RecoverCompact = (\<lambda>sig h. Inl (ErrorString ''invalid compact signature size'')),
     EncodeAddress = (\<lambda>a. map (\<lambda>b. char_of (unat b)) (ScriptAddress (rawAddress a))),
     DecodeAddress = (\<lambda>s. Inr (AddressPubKeyHash \<lparr>ScriptAddress = stringBytes s, AddrNet = \<lparr>Net = 1\<rparr>\<rparr>)),
     PayToAddrScript = (\<lambda>a. Inr (ScriptAddress (rawAddress a))),
     PkScriptAddrs = rootAddrs,
     IsPubKeyHashTy = (\<lambda>script. True),
     SignScript = (\<lambda>n m i script key cmp. Inr [of_nat key]),
     NewScript = (\<lambda>sig script i m bip16. Inr ()), Execute = (\<lambda>sig script i m bip16. Inr ()),
     BtcEncode = (\<lambda>m. Inr []), EncodeWIF = (\<lambda>key net cmp. ''wif''),
     GetBestBlock = (\<lambda>n. Inr \<lparr>bs_Height = 10, bs_Hash = 100\<rparr>), GetBlock = (\<lambda>n h. Inr 10), GetBlockHash = (\<lambda>n h. Inr 100),
     GetRawTransaction = (\<lambda>n h. Inl (ErrorString ''no information'')), GetInfo = (\<lambda>n. Inr []), GetCurrentNet = (\<lambda>n. Inr 1),
     Reply = (\<lambda>n r. Inr 0), Rng = (\<lambda>n. n), Bip16Active = (\<lambda>n. True), Now = (\<lambda>n. zeroTime)\<rparr>"

definition storeP :: Store where
  "storeP = snd (AddCredit \<lparr>tr_key = mkKey 1 5, tr_rec = 0\<rparr> 1 False storeA1)"

definition acctP :: Account where
  "acctP = (newAccount [] ksP storeP)\<lparr>FeeIncrement := 1\<rparr>"

definition worldP :: World where
  "worldP = \<lparr>w_accts = [acctP], nameToAccount = [([], 0)], addressToAccount = [],
     w_client = Some \<lparr>bs_Height = 10, bs_Hash = 100\<rparr>, w_schedule = \<lparr>sched_wallets = [], sched_txs = []\<rparr>, w_timer = False,
     w_fs = \<lparr>fs_files = [], fs_dirs = [[], [''data''], [''data'', ''mainnet'']], fs_calls = 0\<rparr>,
     w_notices = [], w_requests = [], w_jobs = [], w_shared = [], w_unlocked = True, w_timeout = False, w_events = 0\<rparr>"

end
