(* ===== verification/Wt_Select.thy ===== *)
theory Wt_Select
  imports Wt_Sample
begin

text \<open>
  The choice of inputs of \<open>src/createtx.go\<close>. Amounts are read as integers: \<open>worth\<close> is the value of a credit and
  \<open>worths\<close> that of a list. The loop stops at the shortest prefix that reaches the target; on credits in descending
  order no other choice reaches it with fewer.
\<close>

definition worth :: "Store \<Rightarrow> Credit \<Rightarrow> int" where
  "worth s c = sint (amountOr0 s c)"

definition worths :: "Store \<Rightarrow> Credit list \<Rightarrow> int" where
  "worths s cs = (\<Sum>c\<leftarrow>cs. worth s c)"

text \<open>Credits that exist, with amounts that are not negative and do not overflow when they are added up.\<close>

definition sound_credits :: "Store \<Rightarrow> Credit list \<Rightarrow> bool" where
  "sound_credits s cs \<longleftrightarrow> (\<forall>c \<in> set cs. AmountOf s c = Inr (amountOr0 s c) \<and> 0 \<le> worth s c) \<and> worths s cs < 2 ^ 63"

lemma worths_simps [simp]: "worths s [] = 0" "worths s (c # cs) = worth s c + worths s cs"
  "worths s (cs @ ds) = worths s cs + worths s ds"
  by (simp_all add: worths_def)

lemma worths_nonneg: "(\<And>c. c \<in> set cs \<Longrightarrow> 0 \<le> worth s c) \<Longrightarrow> 0 \<le> worths s cs"
  unfolding worths_def by (rule sum_list_nonneg) auto

lemma worths_take: "(\<And>c. c \<in> set cs \<Longrightarrow> 0 \<le> worth s c) \<Longrightarrow> worths s (take k cs) \<le> worths s cs"
  using worths_nonneg [of "drop k cs" s] worths_simps(3) [of s "take k cs" "drop k cs"]
  by (force dest: in_set_dropD)

lemma worths_mset: "mset cs = mset ds \<Longrightarrow> worths s cs = worths s ds"
  unfolding worths_def by (metis mset_map sum_mset_sum_list)

lemma sound_perm: "mset cs = mset ds \<Longrightarrow> sound_credits s cs \<Longrightarrow> sound_credits s ds"
  unfolding sound_credits_def using worths_mset [of cs ds s] mset_eq_setD [of cs ds] by auto

lemma sint_add_small:
  fixes v w :: Amount
  assumes "- (2 ^ 63) \<le> sint v + sint w" and "sint v + sint w < 2 ^ 63"
  shows "sint (v + w) = sint v + sint w"
proof -
  have "sint (word_of_int (sint v + sint w) :: Amount) = sint v + sint w"
    using assms by (intro sint_of_int_small) simp_all
  then show ?thesis by simp
qed

lemma sint_diff_fits:
  fixes v w :: Amount
  assumes "- (2 ^ 63) \<le> sint v - sint w" and "sint v - sint w < 2 ^ 63"
  shows "sint (v - w) = sint v - sint w"
proof -
  have "sint (word_of_int (sint v - sint w) :: Amount) = sint v - sint w"
    using assms by (intro sint_of_int_small) simp_all
  then show ?thesis by simp
qed

section \<open>The loop\<close>

lemma selectLoop_spec:
  assumes "\<forall>c \<in> set es. AmountOf s c = Inr (amountOr0 s c) \<and> 0 \<le> worth s c"
    and "0 \<le> sint out" and "sint out + worths s es < 2 ^ 63"
  shows "\<exists>enough k out'. selectLoop s t sel out es = Inr (enough, sel @ take k es, out') \<and> k \<le> length es
    \<and> sint out' = sint out + worths s (take k es)
    \<and> (enough \<longrightarrow> 0 < k \<and> sint t \<le> sint out') \<and> (\<not> enough \<longrightarrow> k = length es)
    \<and> (\<forall>j. 0 < j \<longrightarrow> j < (if enough then k else Suc k) \<longrightarrow> sint out + worths s (take j es) < sint t)"
  using assms
proof (induction es arbitrary: sel out)
  case (Cons e es)
  let ?v = "amountOr0 s e"
  have v: "AmountOf s e = Inr ?v" "0 \<le> sint ?v" using Cons.prems(1) by (simp_all add: worth_def)
  have t: "0 \<le> worths s es" using Cons.prems(1) by (intro worths_nonneg) auto
  have o: "sint (out + ?v) = sint out + sint ?v"
    using Cons.prems(2,3) v(2) t by (intro sint_add_small) (simp_all add: worth_def)
  show ?case
  proof (cases "t \<le>s out + ?v")
    case True
    then have "selectLoop s t sel out (e # es) = Inr (True, sel @ take 1 (e # es), out + ?v)" using v(1) by simp
    moreover have "sint t \<le> sint (out + ?v)" using True by (simp add: word_sle_eq)
    ultimately show ?thesis using o by (intro exI [of _ True] exI [of _ 1] exI [of _ "out + ?v"]) (simp add: worth_def)
  next
    case False
    then have less: "sint (out + ?v) < sint t" by (simp add: word_sle_eq)
    have IH_prems: "\<forall>c \<in> set es. AmountOf s c = Inr (amountOr0 s c) \<and> 0 \<le> worth s c" "0 \<le> sint (out + ?v)"
      "sint (out + ?v) + worths s es < 2 ^ 63"
      using Cons.prems v(2) o by (simp_all add: worth_def)
    obtain enough k out' where IH: "selectLoop s t (sel @ [e]) (out + ?v) es = Inr (enough, (sel @ [e]) @ take k es, out')"
      "k \<le> length es" "sint out' = sint (out + ?v) + worths s (take k es)"
      "enough \<longrightarrow> 0 < k \<and> sint t \<le> sint out'" "\<not> enough \<longrightarrow> k = length es"
      "\<And>j. 0 < j \<Longrightarrow> j < (if enough then k else Suc k) \<Longrightarrow> sint (out + ?v) + worths s (take j es) < sint t"
      using Cons.IH [OF IH_prems, of "sel @ [e]"] by blast
    have "sint out + worths s (take j (e # es)) < sint t" if "0 < j" "j < (if enough then Suc k else Suc (Suc k))" for j
      using that less IH(6) [of "j - 1"] o by (cases j; cases "j - 1") (auto simp: worth_def split: if_splits)
    then show ?thesis using False v(1) IH o
      by (intro exI [of _ enough] exI [of _ "Suc k"] exI [of _ out']) (auto simp: worth_def)
  qed
qed (auto intro!: exI [of _ False])

section \<open>No choice of fewer inputs\<close>

lemma heaviest_first:
  fixes f :: "'a \<Rightarrow> int"
  assumes "sorted_wrt (\<lambda>a b. f b \<le> f a) es" and "M \<subseteq># mset es"
  shows "(\<Sum>c\<in>#M. f c) \<le> (\<Sum>c\<leftarrow>take (size M) es. f c)"
  using assms
proof (induction es arbitrary: M)
  case (Cons e es)
  show ?case
  proof (cases "M = {#}")
    case False
    then obtain y where y: "y \<in># M" "e \<in># M \<longrightarrow> y = e" by blast
    define N where "N = M - {#y#}"
    have M: "M = add_mset y N" using y(1) by (simp add: N_def)
    have "N \<subseteq># mset es"
    proof (cases "e \<in># M")
      case True
      then show ?thesis using Cons.prems(2) y(2) M by simp
    next
      case False
      have "Multiset.count M a \<le> Multiset.count (mset es) a" for a
        using mset_subset_eq_count [OF Cons.prems(2), of a] False by (cases "a = e") (simp_all add: not_in_iff)
      then have "M \<subseteq># mset es" by (rule mset_subset_eqI)
      then show ?thesis unfolding N_def using diff_subset_eq_self subset_mset.order_trans by blast
    qed
    then have "(\<Sum>c\<in>#N. f c) \<le> (\<Sum>c\<leftarrow>take (size N) es. f c)" using Cons.IH Cons.prems(1) by simp
    moreover have "f y \<le> f e" using Cons.prems y(1) mset_subset_eqD [OF Cons.prems(2) y(1)] by auto
    ultimately show ?thesis using M by simp
  qed simp
qed simp

lemma mset_byAmountDesc: "mset (byAmountDesc s es) = mset es"
  unfolding byAmountDesc_def by (simp add: mset_go_sort)

lemma byAmountDesc_sorted: "sorted_wrt (\<lambda>a b. worth s b \<le> worth s a) (byAmountDesc s es)"
proof -
  have "sorted_wrt (\<lambda>a b. \<not> amountOr0 s a <s amountOr0 s b) (byAmountDesc s es)"
    unfolding byAmountDesc_def by (rule sorted_go_sort) (auto simp: word_sless_alt)
  then show ?thesis by (rule sorted_wrt_mono_rel [rotated]) (auto simp: word_sless_alt worth_def)
qed

text \<open>C18. The inputs of a payment, chosen from the eligible credits in descending order of amount. They are chosen or
  not exactly when the credits suffice for amount and fee together. When they are, their amounts are added up without
  overflow and reach the target, no input can be left out at the end, and no other choice among the credits
  reaches the target with fewer inputs; otherwise the error reports the whole sum.\<close>

theorem selectInputs_minimal:
  assumes "sound_credits s es" and "0 < sint (amt + fee)"
  shows "if worths s es < sint (amt + fee)
    then \<exists>out. selectInputs s (byAmountDesc s es) amt fee = Inl (InsufficientFunds out amt fee) \<and> sint out = worths s es
    else \<exists>sel out. selectInputs s (byAmountDesc s es) amt fee = Inr (sel, out)
      \<and> prefix sel (byAmountDesc s es) \<and> sint out = worths s sel \<and> sint (amt + fee) \<le> worths s sel
      \<and> worths s (butlast sel) < sint (amt + fee)
      \<and> (\<forall>M. M \<subseteq># mset es \<and> sint (amt + fee) \<le> (\<Sum>c\<in>#M. worth s c) \<longrightarrow> length sel \<le> size M)"
proof -
  let ?es = "byAmountDesc s es" and ?t = "sint (amt + fee)"
  have m: "mset ?es = mset es" by (rule mset_byAmountDesc)
  have snd: "sound_credits s ?es" by (rule sound_perm [OF m [symmetric] assms(1)])
  then have pos: "\<And>c. c \<in> set ?es \<Longrightarrow> 0 \<le> worth s c" by (simp add: sound_credits_def)
  have "\<forall>c \<in> set ?es. AmountOf s c = Inr (amountOr0 s c) \<and> 0 \<le> worth s c" "0 \<le> sint (0 :: Amount)"
      "sint (0 :: Amount) + worths s ?es < 2 ^ 63" using snd by (simp_all add: sound_credits_def)
  note selectLoop_spec [OF this, of "amt + fee" "[]"]
  then obtain enough k out where L: "selectLoop s (amt + fee) [] 0 ?es = Inr (enough, take k ?es, out)" "k \<le> length ?es"
      "sint out = worths s (take k ?es)" "enough \<longrightarrow> 0 < k \<and> ?t \<le> sint out" "\<not> enough \<longrightarrow> k = length ?es"
      and least: "\<forall>j. 0 < j \<longrightarrow> j < (if enough then k else Suc k) \<longrightarrow> worths s (take j ?es) < ?t"
    unfolding append_Nil sint_0 add_0 by blast
  have tot: "worths s ?es = worths s es" by (rule worths_mset [OF m])
  have short: "worths s (take j ?es) < ?t" if "j < (if enough then k else Suc k)" for j
    using least that assms(2) by (cases "j = 0") auto
  show ?thesis
  proof (cases enough)
    case True
    have "?t \<le> worths s es" using L(3,4) True worths_take [of ?es s k] pos tot by simp
    moreover have "prefix (take k ?es) ?es" by (rule take_is_prefix)
    moreover have "worths s (butlast (take k ?es)) < ?t"
      using short [of "k - 1"] True L(2,4) by (simp add: butlast_take)
    moreover have "k \<le> size M" if "M \<subseteq># mset es" "?t \<le> (\<Sum>c\<in>#M. worth s c)" for M
    proof (rule ccontr)
      assume "\<not> k \<le> size M"
      then have "worths s (take (size M) ?es) < ?t" using short True by simp
      then show False using heaviest_first [OF byAmountDesc_sorted, of M s es] that m by (simp add: worths_def)
    qed
    ultimately show ?thesis using L True by (auto simp: selectInputs_def min_def)
  next
    case False
    then have "worths s es < ?t" using short [of k] L(5) tot by simp
    moreover have "sint out = worths s es" using L(3,5) False tot by simp
    ultimately show ?thesis using L(1) False by (auto simp: selectInputs_def word_sless_alt)
  qed
qed

text \<open>The two credits of the sample store.\<close>

definition creditA :: "u32 \<Rightarrow> Credit" where
  "creditA i = \<lparr>cr_TxRecord = \<lparr>tr_key = mkKey 1 5, tr_rec = 0\<rparr>, cr_OutputIndex = i\<rparr>"

lemma storeP_worth: "AmountOf storeP (creditA 0) = Inr 10" "AmountOf storeP (creditA 1) = Inr 20"
  by code_simp+

lemma storeP_sound: "sound_credits storeP [creditA 0, creditA 1]"
  by (simp add: sound_credits_def worth_def amountOr0_def storeP_worth)

theorem selectInputs_minimal_witness:
  "\<exists>out. selectInputs storeP (byAmountDesc storeP [creditA 0, creditA 1]) 15 1 = Inr ([creditA 1], out) \<and> sint out = 20"
proof -
  have w: "worths storeP [creditA 0, creditA 1] = 30" "worth storeP (creditA 1) = 20"
    by (simp_all add: worth_def amountOr0_def storeP_worth)
  have b: "byAmountDesc storeP [creditA 0, creditA 1] = [creditA 1, creditA 0]"
    by (simp add: byAmountDesc_def go_sort_def amountOr0_def storeP_worth word_sless_alt)
  have t: "sint (15 + 1 :: Amount) = 16" "\<not> worths storeP [creditA 0, creditA 1] < sint (15 + 1 :: Amount)" using w by simp_all
  have M: "{#creditA 1#} \<subseteq># mset [creditA 0, creditA 1] \<and> (16 :: int) \<le> (\<Sum>c\<in>#{#creditA 1#}. worth storeP c)"
    using w by simp
  have "0 < sint (15 + 1 :: Amount)" by (simp add: t(1))
  from selectInputs_minimal [OF storeP_sound this, unfolded if_not_P [OF t(2)]]
  obtain sel out where s: "selectInputs storeP (byAmountDesc storeP [creditA 0, creditA 1]) 15 1 = Inr (sel, out)"
    "prefix sel [creditA 1, creditA 0]" "sint out = worths storeP sel" "16 \<le> worths storeP sel"
    and least: "\<forall>M. M \<subseteq># mset [creditA 0, creditA 1] \<and> 16 \<le> (\<Sum>c\<in>#M. worth storeP c) \<longrightarrow> length sel \<le> size M"
    unfolding b t(1) by blast
  have "length sel \<le> 1" using least M by (metis size_single)
  then have "sel = [creditA 1]" using s(2,4) by (auto simp: prefix_Cons)
  with s(1,3) w show ?thesis by auto
qed

end
