(* ===== verification/Wt_Keeps.thy ===== *)
theory Wt_Keeps
  imports Wt_Account
begin

text \<open>
  Preservation of a predicate of the world by the combinators of the wallet's actions, in the collection \<open>keeps\<close>. The
  rules whose action is an abstraction over the state are for definitions that read the state first; they apply
  after unfolding with \<open>abs_def\<close>.
\<close>

lemma preserves_orFail [keeps]: "preserves P m \<Longrightarrow> preserves P (orFail e m)"
  by (rule preservesI) (auto simp: preserves_def orFail_def split: prod.split sum.split)

lemma preserves_logged [keeps]: "preserves P m \<Longrightarrow> preserves P (logged m)"
  by (rule preservesI) (auto simp: preserves_def logged_def split: prod.split sum.split)

lemma preserves_split [keeps]: "(\<And>x y. p = (x, y) \<Longrightarrow> preserves P (f x y)) \<Longrightarrow> preserves P (case p of (x, y) \<Rightarrow> f x y)"
  by (cases p) simp

lemma preserves_list [keeps]:
  "preserves P m \<Longrightarrow> (\<And>x xs. l = x # xs \<Longrightarrow> preserves P (f x xs)) \<Longrightarrow> preserves P (case l of [] \<Rightarrow> m | x # xs \<Rightarrow> f x xs)"
  by (cases l) auto

lemma preserves_mapA [keeps]: "(\<And>x. x \<in> set xs \<Longrightarrow> preserves P (f x)) \<Longrightarrow> preserves P (mapA f xs)"
  by (induction xs) (auto intro!: keeps)

lemma preserves_Let [keeps]: "preserves P (f x) \<Longrightarrow> preserves P (Let x f)"
  by simp

lemma preserves_pure [keeps]: "preserves P (\<lambda>w. (r w, w))"
  by (simp add: preserves_def)

lemma preserves_cases [keeps]:
  assumes "preserves P m" and "\<And>e. preserves P (f e)" and "\<And>a. preserves P (g a)"
  shows "preserves P (\<lambda>w. case m w of (Inl e, w') \<Rightarrow> f e w' | (Inr a, w') \<Rightarrow> g a w')"
proof (rule preservesI)
  fix w assume "P w"
  then have "P (snd (m w))" using assms(1) by (simp add: preserves_def)
  then show "P (snd (case m w of (Inl e, w') \<Rightarrow> f e w' | (Inr a, w') \<Rightarrow> g a w'))"
    using assms(2,3) by (auto simp: preserves_def split: prod.split sum.split)
qed

lemma preserves_if_at [keeps]:
  "preserves P m \<Longrightarrow> preserves P n \<Longrightarrow> preserves P (\<lambda>w. if b w then m w else n w)"
  by (simp add: preserves_def)

lemma preserves_sum_at [keeps]:
  "(\<And>e. preserves P (f e)) \<Longrightarrow> (\<And>a. preserves P (g a)) \<Longrightarrow>
   preserves P (\<lambda>w. case x w of Inl e \<Rightarrow> f e w | Inr a \<Rightarrow> g a w)"
  by (simp add: preserves_def split: sum.split)

lemma preserves_list_at [keeps]:
  "preserves P m \<Longrightarrow> (\<And>x xs. preserves P (f x xs)) \<Longrightarrow> preserves P (\<lambda>w. case l w of [] \<Rightarrow> m w | x # xs \<Rightarrow> f x xs w)"
  by (simp add: preserves_def split: list.split)

lemma preserves_bindE_state [keeps]:
  assumes "\<And>v. preserves P (m v)" and "\<And>v a. preserves P (f v a)"
  shows "preserves P (\<lambda>w. bindE (m w) (\<lambda>a. f w a) w)"
proof (rule preservesI)
  fix w assume "P w"
  then show "P (snd (bindE (m w) (\<lambda>a. f w a) w))"
    using preserves_bindE [of P "m w" "f w"] assms by (simp add: preserves_def)
qed

lemma preserves_forE_state [keeps]:
  assumes "\<And>v x. preserves P (f v x)"
  shows "preserves P (\<lambda>w. forE (\<lambda>x. f w x) (xs w) w)"
proof (rule preservesI)
  fix w assume "P w"
  then show "P (snd (forE (\<lambda>x. f w x) (xs w) w))"
    using preserves_forE [of "xs w" P "f w"] assms by (simp add: preserves_def)
qed

lemma preserves_logged_state [keeps]: "(\<And>v. preserves P (m v)) \<Longrightarrow> preserves P (\<lambda>w. logged (m w) w)"
  using preserves_logged [of P "m w" for w] by (simp add: preserves_def)

text \<open>Predicates of the accounts alone: everything but a change of an account preserves them.\<close>

definition accts_only :: "(World \<Rightarrow> bool) \<Rightarrow> bool" where
  "accts_only P \<longleftrightarrow> (\<forall>w w'. w_accts w = w_accts w' \<longrightarrow> P w = P w')"

locale of_accounts =
  fixes P :: "World \<Rightarrow> bool"
  assumes accts: "accts_only P"
begin

lemma same_accts: "P w \<Longrightarrow> w_accts w' = w_accts w \<Longrightarrow> P w'"
  using accts unfolding accts_only_def by metis

lemma onFs_keeps [keeps]: "preserves P (onFs m)"
  by (rule preservesI) (auto simp: onFs_def zoom_def split: prod.split elim!: same_accts)

lemma ask_keeps [keeps]: "preserves P (ask f)" "preserves P (askE g)"
  by (rule preservesI, auto simp: ask_def askE_def elim!: same_accts)+

lemma notify_keeps [keeps]: "preserves P (notify n)"
  unfolding notify_def by (rule preserves_modifyE) (auto elim: same_accts)

lemma notify_state_keeps [keeps]: "preserves P (\<lambda>w. notify (n w) w)"
  using notify_keeps by (simp add: preserves_def)

lemma send_keeps [keeps]: "preserves P (send env r)"
  unfolding send_def by (intro keeps) (auto elim: same_accts)

lemma accessClient_keeps [keeps]: "preserves P accessClient"
  unfolding accessClient_def by (intro keeps)

lemma deref_keeps [keeps]: "preserves P (deref x)"
  unfolding deref_def by (intro keeps)

lemma BlockStamp_keeps [keeps]: "preserves P (client_BlockStamp env)"
  unfolding client_BlockStamp_def by (intro keeps) (auto elim: same_accts)

lemma mark_keeps [keeps]: "preserves P (modifyE (MarkAddressForAccount env addr a))"
  by (rule preserves_modifyE) (auto simp: MarkAddressForAccount_def elim: same_accts)

lemma schedule_keeps [keeps]: "preserves P (ScheduleWalletWrite a)" "preserves P (ScheduleTxStoreWrite a)"
  unfolding ScheduleWalletWrite_def ScheduleTxStoreWrite_def
  by (rule preserves_modifyE, auto simp: updSched_def elim: same_accts)+

lemma flush_keeps [keeps]: "preserves P (flushTxs env a)" "preserves P (flushWallet env a)"
  unfolding flushTxs_def [abs_def] flushWallet_def [abs_def]
  by (intro keeps, auto simp: updSched_def elim: same_accts)+

lemma FlushAccount_keeps [keeps]: "preserves P (FlushAccount env a)"
  unfolding FlushAccount_def sched_flushAccount_def by (intro keeps)

lemma WriteBatch_keeps [keeps]: "preserves P (WriteBatch env as)"
  unfolding WriteBatch_def [abs_def] by (intro keeps) (auto elim: same_accts)

lemma Export_keeps [keeps]: "preserves P (ExportToDirectory env x dir)"
  unfolding ExportToDirectory_def ExportAccount_def by (intro keeps)

lemma job_keeps [keeps]: "preserves P (modifyE (\<lambda>w. if b then w\<lparr>w_jobs := js w\<rparr> else w))"
  by (rule preserves_modifyE) (auto elim: same_accts)

lemma balance_keeps [keeps]: "preserves P (CalculateBalance env a confs)"
  unfolding CalculateBalance_def by (intro keeps)

lemma publishAddress_keeps [keeps]: "preserves P (publishAddress env a addr)"
  unfolding publishAddress_def by (intro keeps)

end

end
