(* ===== verification/Wt_Pay.thy ===== *)
theory Wt_Pay
  imports Wt_Select Wt_Keeps
begin

text \<open>
  The creation of a payment, \<open>txToPairs\<close> of \<open>src/createtx.go\<close>: what it touches, what the transaction spends and pays,
  and that its inputs are its outputs and its fee. The loop that searches the fee has a rule of its own: what holds of
  the result of a round holds of the result of the loop, with a fee that is at least the minimum fee of the
  transaction built with it.
\<close>

section \<open>What is touched\<close>

definition only_keys :: "acref \<Rightarrow> World \<Rightarrow> World \<Rightarrow> bool" where
  "only_keys a w0 w \<longleftrightarrow> a < length (w_accts w0) \<and>
     (\<exists>k. w_accts w = (w_accts w0)[a := (acct w0 a)\<lparr>KeyStore := k\<rparr>]) \<and> nameToAccount w = nameToAccount w0 \<and>
     w_schedule w = w_schedule w0 \<and> w_fs w = w_fs w0 \<and> w_notices w = w_notices w0 \<and> w_requests w = w_requests w0 \<and>
     w_jobs w = w_jobs w0"

lemma only_keys_refl: "a < length (w_accts w) \<Longrightarrow> only_keys a w w"
  by (auto simp: only_keys_def intro!: exI [of _ "KeyStore (acct w a)"])

lemma only_keys_acct:
  "only_keys a w0 w \<Longrightarrow> TxStore (acct w a) = TxStore (acct w0 a) \<and> lockedOutpoints (acct w a) = lockedOutpoints (acct w0 a)
     \<and> FeeIncrement (acct w a) = FeeIncrement (acct w0 a)"
  by (auto simp: only_keys_def)

lemma onKeys_only [keeps]: "preserves (only_keys a w0) (onKeys a m)"
proof (rule preservesI)
  fix w assume w: "only_keys a w0 w"
  obtain r k where m: "m (KeyStore (acct w a)) = (r, k)" by force
  have "(acct w a)\<lparr>KeyStore := k\<rparr> = (acct w0 a)\<lparr>KeyStore := k\<rparr>" using w by (auto simp: only_keys_def)
  then show "only_keys a w0 (snd (onKeys a m w))"
    using w m by (auto simp: only_keys_def onKeys_def onAcct_def zoom_def putAcct_def)
qed

lemma ask_only [keeps]: "preserves (only_keys a w0) (ask f)" "preserves (only_keys a w0) (askE g)"
  by (rule preservesI, simp add: only_keys_def ask_def askE_def)+

lemma mark_only [keeps]: "preserves (only_keys a w0) (modifyE (MarkAddressForAccount env addr b))"
  by (rule preserves_modifyE) (simp add: only_keys_def MarkAddressForAccount_def)

lemma preserves_askBlock [keeps]: "preserves (only_keys a w0) (client_BlockStamp env)"
  unfolding client_BlockStamp_def accessClient_def
  by (intro keeps) (auto simp: only_keys_def)

lemma rngInt31n_only [keeps]: "preserves (only_keys a w0) (rngInt31n env n)"
  unfolding rngInt31n_def Let_def by (intro keeps)

lemma inputKey_only [keeps]: "preserves (only_keys a w0) (inputKey env a r)"
proof (rule preservesI)
  fix w assume "only_keys a w0 w"
  then have "only_keys a w0 (snd (onKeys a (PrivKey (e_ks env) r) w))" using onKeys_only by (rule preserves_at [rotated])
  then show "only_keys a w0 (snd (inputKey env a r w))" by (auto simp: inputKey_def split: prod.split sum.split)
qed

section \<open>Rules\<close>

text \<open>Successful results only.\<close>

abbreviation returns :: "('s \<Rightarrow> bool) \<Rightarrow> ('s, 'e, 'a) act \<Rightarrow> ('a \<Rightarrow> 's \<Rightarrow> bool) \<Rightarrow> bool" where
  "returns P m Q \<equiv> triple P m Q (\<lambda>_ _. True)"

lemma returns_keeps: "preserves P m \<Longrightarrow> returns P m (\<lambda>_. P)"
  by (auto simp: triple_def preserves_def split: prod.split sum.split)

lemma returns_also: "preserves P m \<Longrightarrow> returns P m Q \<Longrightarrow> returns P m (\<lambda>a s. P s \<and> Q a s)"
  using triple_conj [OF returns_keeps] by force

lemma feeLoop_returns:
  assumes round: "\<And>fee ch. R fee \<Longrightarrow> returns P (rnd fee ch) (\<lambda>(m, i, c, minFee) w. P w \<and> Q fee m i minFee \<and> R minFee)"
    and "R fee"
  shows "returns P (feeLoop rnd fee ch) (\<lambda>(m, i, c) w. P w \<and> (\<exists>fee minFee. R fee \<and> Q fee m i minFee \<and> \<not> fee <s minFee))"
  unfolding triple_def
proof (intro allI impI)
  fix w assume "P w"
  then show "case feeLoop rnd fee ch w of (Inl e, w') \<Rightarrow> True
    | (Inr x, w') \<Rightarrow> (case x of (m, i, c) \<Rightarrow> \<lambda>w. P w \<and> (\<exists>fee minFee. R fee \<and> Q fee m i minFee \<and> \<not> fee <s minFee)) w'"
    using assms
  proof (induction rnd fee ch w rule: feeLoop.induct)
    case (1 rnd fee ch w)
    show ?case
    proof (cases "rnd fee ch w")
      case (Pair r w')
      show ?thesis
      proof (cases r)
        case (Inl e)
        then show ?thesis using Pair by simp
      next
        case (Inr x)
        obtain m i c minFee where x: "x = (m, i, c, minFee)" by (cases x)
        have now: "P w'" "Q fee m i minFee" "R minFee"
          using tripleD(1) [OF "1.prems"(2) [OF "1.prems"(3), of ch] "1.prems"(1)] Pair Inr x by auto
        show ?thesis
        proof (cases "fee <s minFee")
          case True
          have "case feeLoop rnd minFee c w' of (Inl e, w') \<Rightarrow> True
              | (Inr x, w') \<Rightarrow> (case x of (m, i, c) \<Rightarrow> \<lambda>w. P w \<and> (\<exists>fee minFee. R fee \<and> Q fee m i minFee \<and> \<not> fee <s minFee)) w'"
            by (rule "1.IH" [OF Pair [symmetric] Inr x [symmetric] refl refl True]) (use now "1.prems" in auto)
          then show ?thesis using Pair Inr x True by simp
        next
          case False
          then show ?thesis using Pair Inr x now "1.prems"(3) by auto
        qed
      qed
    qed
  qed
qed

section \<open>A round\<close>

text \<open>The outputs of a transaction: the payments, and the change if there is any.\<close>

definition pays :: "TxOut list \<Rightarrow> Amount \<Rightarrow> TxOut list \<Rightarrow> bool" where
  "pays outs change outs' \<longleftrightarrow>
     (if change \<le>s 0 then outs' = outs else \<exists>script. mset outs' = add_mset \<lparr>Value = change, PkScript = script\<rparr> (mset outs))"

lemma mset_swapAt: "i < length xs \<Longrightarrow> j < length xs \<Longrightarrow> mset (swapAt i j xs) = mset xs"
  by (simp add: swapAt_def mset_swap)

lemma rngInt31n_below: "returns P (rngInt31n env n) (\<lambda>r _. r < n)"
proof (rule tripleI)
  fix s r s' assume r: "rngInt31n env n s = (Inr r, s')"
  let ?k = "sint (of_nat n :: i32)"
  have "0 < ?k" "r < nat ?k"
    using r by (auto simp: rngInt31n_def Let_def failE_def bindE_def ask_def retE_def split: if_splits)
  moreover have "?k \<le> int n"
  proof -
    have "- (2 ^ 31) \<le> uint (of_nat n :: i32)" by (rule order.trans [OF _ uint_ge_0]) simp
    then have "?k \<le> uint (of_nat n :: i32)" unfolding sint_uint by (simp add: signed_take_bit_int_less_eq_self_iff)
    also have "\<dots> \<le> int n" by (simp add: uint_nat unat_of_nat take_bit_nat_less_eq_self)
    finally show ?thesis .
  qed
  ultimately show "r < n" by linarith
qed simp

lemma addChange_returns:
  "returns (only_keys a w0) (addChange env a bs change ch outs) (\<lambda>(ch', outs') w. only_keys a w0 w \<and> pays outs change outs')"
proof (cases "change \<le>s 0")
  case True
  then show ?thesis by (auto simp: addChange_def pays_def intro: triple_retE)
next
  case False
  let ?P = "only_keys a w0"
  have addr: "preserves ?P (changeAddress env a bs ch)" unfolding changeAddress_def by (intro keeps)
  have "returns ?P (let outs' = outs @ [\<lparr>Value = change, PkScript = script\<rparr>] in
      bindE (rngInt31n env (length outs')) (\<lambda>r. retE (Some x, swapAt r (length outs' - 1) outs')))
      (\<lambda>(ch', outs') w. ?P w \<and> pays outs change outs')" for script x
    unfolding Let_def
    by (rule triple_bindE [OF returns_also [OF rngInt31n_only rngInt31n_below]], rule triple_retE)
       (use False in \<open>auto simp: pays_def mset_swapAt intro!: exI [of _ script]\<close>)
  then have "returns ?P (appendChange env change outs x) (\<lambda>(ch', outs') w. ?P w \<and> pays outs change outs')" for x
    unfolding appendChange_def by (cases "PayToAddrScript env x") (auto simp only: sum.case intro!: triple_failE)
  then show ?thesis unfolding addChange_def if_not_P [OF False] by (rule triple_bindE [OF returns_keeps [OF addr]])
qed

text \<open>Signing fills in the scripts of the inputs and nothing else.\<close>

definition sameButScripts :: "MsgTx \<Rightarrow> MsgTx \<Rightarrow> bool" where
  "sameButScripts m m' \<longleftrightarrow> TxOuts m' = TxOuts m \<and> map PreviousOutpoint (TxIns m') = map PreviousOutpoint (TxIns m)"

lemma sameButScripts_set: "sameButScripts m (setSigScript i script m)"
  by (cases "i < length (TxIns m)") (simp_all add: sameButScripts_def setSigScript_def map_update list_update_same_conv list_update_beyond)

lemma signInput_returns:
  "returns (only_keys a w0) (signInput env a i c m) (\<lambda>m' w. only_keys a w0 w \<and> sameButScripts m m')"
proof -
  have "preserves (only_keys a w0) (signInput env a i c m)"
    unfolding signInput_def by (auto intro!: keeps split: list.split btcutilAddress.split)
  moreover have "returns (only_keys a w0) (signInput env a i c m) (\<lambda>m' _. sameButScripts m m')"
  proof (rule tripleI)
    fix w m' w' assume "signInput env a i c m w = (Inr m', w')"
    then have "m' = m \<or> (\<exists>x. m' = setSigScript i x m)"
      unfolding signInput_def
      by (auto simp: run_Inr elim!: bindE_InrE split: list.splits btcutilAddress.splits) blast+
    then show "sameButScripts m m'" using sameButScripts_set by (auto simp: sameButScripts_def)
  qed simp
  ultimately show ?thesis by (rule returns_also)
qed

lemma signInputs_returns:
  "returns (only_keys a w0) (signInputs env a cs i m) (\<lambda>m' w. only_keys a w0 w \<and> sameButScripts m m')"
proof (induction cs arbitrary: i m)
  case Nil
  then show ?case by (auto simp: sameButScripts_def intro: triple_retE)
next
  case (Cons c cs)
  have "returns (\<lambda>w. only_keys a w0 w \<and> sameButScripts m x) (signInputs env a cs (Suc i) x)
      (\<lambda>m' w. only_keys a w0 w \<and> sameButScripts m m')" for x
    by (rule triple_pre [OF triple_fact [of "sameButScripts m x" "only_keys a w0"]], rule triple_conseq [OF Cons.IH])
       (auto simp: sameButScripts_def)
  then show ?case by (auto intro!: triple_bindE [OF signInput_returns])
qed

text \<open>Whether a transaction may go without a fee: never when the configuration disallows it, otherwise by the priority of
  its inputs.\<close>

definition freeAllowed :: "wenv \<Rightarrow> Account \<Rightarrow> i32 \<Rightarrow> Credit list \<Rightarrow> MsgTx \<Rightarrow> err + bool" where
  "freeAllowed env x h inputs m =
     (if DisallowFree env then Inr False else allowFree env (TxStore x) h inputs (tx_SerializeSize (e_tx env) m))"

text \<open>What a round makes of a fee: the transaction, its inputs and its minimum fee.\<close>

definition built :: "wenv \<Rightarrow> Account \<Rightarrow> i32 \<Rightarrow> Credit list \<Rightarrow> Amount \<Rightarrow> TxOut list \<Rightarrow> Amount \<Rightarrow> MsgTx \<Rightarrow> Credit list \<Rightarrow> Amount \<Rightarrow> bool" where
  "built env x h eligible amt outs fee m inputs minFee \<longleftrightarrow>
     (\<exists>btcin free. selectInputs (TxStore x) eligible amt fee = Inr (inputs, btcin)
       \<and> map PreviousOutpoint (TxIns m) = map (OutPointOf (TxStore x)) inputs
       \<and> pays outs (btcin - amt - fee) (TxOuts m) \<and> freeAllowed env x h inputs m = Inr free
       \<and> minFee = minimumFee env (FeeIncrement x) m free)"

lemma free_returns:
  "returns (only_keys a w0) (if DisallowFree env then retE False
      else liftE (\<lambda>w. allowFree env (TxStore (acct w a)) h inputs (tx_SerializeSize (e_tx env) m)))
    (\<lambda>free w. only_keys a w0 w \<and> freeAllowed env (acct w0 a) h inputs m = Inr free)"
proof (cases "DisallowFree env")
  case True
  then show ?thesis by (simp add: freeAllowed_def triple_retE)
next
  case False
  then show ?thesis unfolding if_not_P [OF False]
    by (intro triple_liftE) (auto simp: freeAllowed_def dest: only_keys_acct)
qed

lemma signed_returns:
  "returns (only_keys a w0) (bindE (signInputs env a inputs 0 u) (\<lambda>msgtx.
     bindE (if DisallowFree env then retE False
            else liftE (\<lambda>w. allowFree env (TxStore (acct w a)) h inputs (tx_SerializeSize (e_tx env) msgtx))) (\<lambda>free.
     bindE (liftE (\<lambda>w. Inr (FeeIncrement (acct w a)))) (\<lambda>incr.
       retE (msgtx, inputs, ch, minimumFee env incr msgtx free)))))
   (\<lambda>(m, i, c, minFee) w. only_keys a w0 w \<and> sameButScripts u m \<and> i = inputs
      \<and> (\<exists>free. freeAllowed env (acct w0 a) h inputs m = Inr free
           \<and> minFee = minimumFee env (FeeIncrement (acct w0 a)) m free))"
proof (rule triple_bindE [OF signInputs_returns])
  fix msgtx
  let ?P = "\<lambda>w. only_keys a w0 w \<and> sameButScripts u msgtx"
  show "returns ?P (bindE (if DisallowFree env then retE False
        else liftE (\<lambda>w. allowFree env (TxStore (acct w a)) h inputs (tx_SerializeSize (e_tx env) msgtx))) (\<lambda>free.
      bindE (liftE (\<lambda>w. Inr (FeeIncrement (acct w a)))) (\<lambda>incr. retE (msgtx, inputs, ch, minimumFee env incr msgtx free))))
      (\<lambda>(m, i, c, minFee) w. only_keys a w0 w \<and> sameButScripts u m \<and> i = inputs
         \<and> (\<exists>free. freeAllowed env (acct w0 a) h inputs m = Inr free
              \<and> minFee = minimumFee env (FeeIncrement (acct w0 a)) m free))"
    by (rule triple_pre [OF triple_fact [of "sameButScripts u msgtx" "only_keys a w0"]],
        rule triple_bindE [OF free_returns])
       (auto simp: triple_def bindE_def liftE_def retE_def dest: only_keys_acct)
qed

lemma feeRound_returns:
  assumes "TxIns t0 = []"
  shows "returns (only_keys a w0) (feeRound env a bs eligible amt t0 fee ch)
    (\<lambda>(m, i, c, minFee) w. only_keys a w0 w \<and> built env (acct w0 a) (bs_Height bs) eligible amt (TxOuts t0) fee m i minFee)"
  unfolding feeRound_def
proof (rule triple_bindE [where R = "\<lambda>(i, btcin) w. only_keys a w0 w
    \<and> selectInputs (TxStore (acct w0 a)) eligible amt fee = Inr (i, btcin)"], goal_cases)
  case 1
  show ?case by (rule triple_liftE) (auto dest: only_keys_acct)
next
  case (2 x)
  obtain inputs btcin where x: "x = (inputs, btcin)" by (cases x)
  let ?s = "TxStore (acct w0 a)" and ?change = "btcin - amt - fee"
  let ?u = "\<lambda>outs. t0\<lparr>TxOuts := outs, TxIns := TxIns t0 @ map (\<lambda>c. newTxIn env (OutPointOf ?s c)) inputs\<rparr>"
  have u: "map PreviousOutpoint (TxIns (?u outs)) = map (OutPointOf ?s) inputs" for outs
    using assms by (simp add: newTxIn_def)
  have "returns (\<lambda>w. only_keys a w0 w \<and> pays (TxOuts t0) ?change outs)
      (bindE (liftE (\<lambda>w. Inr (t0\<lparr>TxOuts := outs,
         TxIns := TxIns t0 @ map (\<lambda>c. newTxIn env (OutPointOf (TxStore (acct w a)) c)) inputs\<rparr>))) (\<lambda>unsigned.
       bindE (signInputs env a inputs 0 unsigned) (\<lambda>msgtx.
       bindE (if DisallowFree env then retE False
            else liftE (\<lambda>w. allowFree env (TxStore (acct w a)) (bs_Height bs) inputs (tx_SerializeSize (e_tx env) msgtx))) (\<lambda>free.
       bindE (liftE (\<lambda>w. Inr (FeeIncrement (acct w a)))) (\<lambda>incr.
         retE (msgtx, inputs, ch', minimumFee env incr msgtx free))))))
      (\<lambda>(m, i, c, minFee) w. only_keys a w0 w \<and> i = inputs \<and> map PreviousOutpoint (TxIns m) = map (OutPointOf ?s) inputs
         \<and> pays (TxOuts t0) ?change (TxOuts m) \<and> (\<exists>free. freeAllowed env (acct w0 a) (bs_Height bs) inputs m = Inr free
              \<and> minFee = minimumFee env (FeeIncrement (acct w0 a)) m free))" for outs ch'
  proof (rule triple_bindE [where R = "\<lambda>m w. only_keys a w0 w \<and> pays (TxOuts t0) ?change outs \<and> m = ?u outs"], goal_cases)
    case 1
    show ?case by (rule triple_liftE) (auto dest: only_keys_acct)
  next
    case (2 m)
    show ?case
      by (rule triple_pre [OF triple_fact [of "pays (TxOuts t0) ?change outs \<and> m = ?u outs" "only_keys a w0"]],
          rule triple_conseq [OF signed_returns]) (use u [of outs] in \<open>auto simp: sameButScripts_def\<close>)
  qed
  note T = this
  show ?case
    unfolding x prod.case
    by (rule triple_pre [OF triple_fact [of "selectInputs ?s eligible amt fee = Inr (inputs, btcin)" "only_keys a w0"]],
        rule triple_bindE [OF addChange_returns], simp only: split_paired_all prod.case, rule triple_conseq [OF T])
       (auto simp: built_def)
qed

section \<open>The books of a payment\<close>

lemma selectInputs_prefix:
  assumes "sound_credits s es" and "selectInputs s es amt fee = Inr (sel, out)"
  shows "prefix sel es \<and> sint out = worths s sel \<and> sint (amt + fee) \<le> sint out"
proof -
  have "\<forall>c \<in> set es. AmountOf s c = Inr (amountOr0 s c) \<and> 0 \<le> worth s c" "0 \<le> sint (0 :: Amount)"
      "sint (0 :: Amount) + worths s es < 2 ^ 63" using assms(1) by (simp_all add: sound_credits_def)
  from selectLoop_spec [OF this, of "amt + fee" "[]"]
  obtain enough k out' where "selectLoop s (amt + fee) [] 0 es = Inr (enough, take k es, out')"
      "sint out' = worths s (take k es)" "enough \<longrightarrow> sint (amt + fee) \<le> sint out'"
    unfolding append_Nil sint_0 add_0 by blast
  with assms(2) show ?thesis by (auto simp: selectInputs_def word_sless_alt take_is_prefix split: if_splits)
qed

lemma pairsTotal_sum:
  "pairsTotal acc ps = Inr amt \<Longrightarrow> 0 \<le> sint acc \<Longrightarrow> sint acc + (\<Sum>p\<leftarrow>ps. sint (snd p)) < 2 ^ 63 \<Longrightarrow>
   sint amt = sint acc + (\<Sum>p\<leftarrow>ps. sint (snd p)) \<and> (\<forall>p \<in> set ps. 0 < sint (snd p))"
proof (induction ps arbitrary: acc)
  case (Cons p ps)
  have v: "0 < sint (snd p)" "pairsTotal (acc + snd p) ps = Inr amt"
    using Cons.prems(1) by (auto simp: word_sle_eq split: if_splits)
  have pos: "pairsTotal b qs = Inr c \<Longrightarrow> \<forall>q \<in> set qs. 0 < sint (snd q)" for b qs c
    by (induction qs arbitrary: b) (auto simp: word_sle_eq split: if_splits)
  have "0 \<le> (\<Sum>p\<leftarrow>ps. sint (snd p))" using pos [OF v(2)] by (intro sum_list_nonneg) auto
  then have "sint (acc + snd p) = sint acc + sint (snd p)" using Cons.prems(2,3) v(1) by (intro sint_add_small) simp_all
  then show ?case using Cons.IH [OF v(2)] Cons.prems(2,3) v(1) by simp
qed simp

lemma payOutputs_values: "mapE (payOutput env) ps = Inr outs \<Longrightarrow> map Value outs = map snd ps"
proof (induction ps arbitrary: outs)
  case (Cons p ps)
  then obtain x xs where x: "payOutput env p = Inr x" "mapE (payOutput env) ps = Inr xs" "outs = x # xs"
    by (auto split: sum.splits)
  then have "Value x = snd p" by (auto simp: payOutput_def split: sum.splits)
  then show ?case using Cons.IH x by simp
qed simp

lemma eligibleInputs_filter:
  "eligibleInputs env x minconf h us = Inr es \<Longrightarrow> es = filter (\<lambda>c. isEligible env x minconf h c = Inr True) us"
proof (induction us arbitrary: es)
  case (Cons c us)
  then show ?case
    by (cases "isEligible env x minconf h c"; cases "eligibleInputs env x minconf h us")
       (auto simp: eligibleInputs_def split: sum.splits if_splits)
qed (simp add: eligibleInputs_def)

lemma minimumFee_range:
  assumes "0 \<le> sint incr" and "sint incr \<le> sint (MaxSatoshi env)"
  shows "0 \<le> sint (minimumFee env incr m free) \<and> sint (minimumFee env incr m free) \<le> sint (MaxSatoshi env)"
  using assms by (auto simp: minimumFee_def Let_def word_sless_alt)

lemma sound_filter: "sound_credits s us \<Longrightarrow> sound_credits s (filter p us)"
proof -
  assume us: "sound_credits s us"
  have "worths s (filter p us) \<le> worths s us"
    using us unfolding sound_credits_def by (induction us) (auto simp: sound_credits_def worths_def)
  then show ?thesis using us by (auto simp: sound_credits_def)
qed

text \<open>The sum of a payment: what the inputs are worth is what the outputs are worth and the fee.\<close>

lemma built_balanced:
  assumes "sound_credits (TxStore x) eligible" and "built env x h eligible amt outs fee m inputs minFee"
    and "sint amt = (\<Sum>o'\<leftarrow>outs. sint (Value o'))" and "0 \<le> sint amt" and "0 \<le> sint fee" and "sint amt + sint fee < 2 ^ 63"
  shows "worths (TxStore x) inputs = (\<Sum>o'\<leftarrow>TxOuts m. sint (Value o')) + sint fee"
proof -
  obtain btcin where b: "selectInputs (TxStore x) eligible amt fee = Inr (inputs, btcin)"
    and p: "pays outs (btcin - amt - fee) (TxOuts m)" using assms(2) by (auto simp: built_def)
  have s: "sint btcin = worths (TxStore x) inputs" "sint (amt + fee) \<le> sint btcin"
    using selectInputs_prefix [OF assms(1) b] by simp_all
  have t: "sint (amt + fee) = sint amt + sint fee" using assms(4-6) by (intro sint_add_small) simp_all
  have "sint (btcin - (amt + fee)) = sint btcin - sint (amt + fee)"
    using s(2) t assms(4,5) sint_lt [of btcin] by (intro sint_diff_fits) simp_all
  then have c: "sint (btcin - amt - fee) = sint btcin - sint amt - sint fee" "0 \<le> sint (btcin - amt - fee)"
    using s(2) t by (simp_all add: diff_diff_eq)
  have ms: "(\<Sum>o'\<leftarrow>xs. sint (Value o')) = (\<Sum>o'\<in>#mset xs. sint (Value o'))" for xs
    by (metis mset_map sum_mset_sum_list)
  have "(\<Sum>o'\<leftarrow>TxOuts m. sint (Value o')) = sint amt + sint (btcin - amt - fee)"
  proof (cases "btcin - amt - fee \<le>s 0")
    case True
    then show ?thesis using p c(2) assms(3) by (simp add: pays_def word_sle_eq)
  next
    case False
    then show ?thesis using p assms(3) by (auto simp: pays_def ms)
  qed
  then show ?thesis using c(1) s(1) by simp
qed

lemma pays_least: "pays outs change outs' \<Longrightarrow> (\<Sum>o'\<leftarrow>outs. sint (Value o')) \<le> (\<Sum>o'\<leftarrow>outs'. sint (Value o'))"
proof -
  have ms: "(\<Sum>o'\<leftarrow>xs. sint (Value o')) = (\<Sum>o'\<in>#mset xs. sint (Value o'))" for xs
    by (metis mset_map sum_mset_sum_list)
  assume "pays outs change outs'"
  then show ?thesis by (auto simp: pays_def ms word_sle_eq split: if_splits)
qed

lemma selected_worth: "sound_credits s es \<Longrightarrow> selectInputs s es amt fee = Inr (inputs, out) \<Longrightarrow> worths s inputs < 2 ^ 63"
  using selectInputs_prefix sint_lt [of out] by fastforce

lemma selected_among:
  assumes "sound_credits s (byAmountDesc s es)" and "selectInputs s (byAmountDesc s es) amt fee = Inr (inputs, out)"
    and "es = filter p us"
  shows "mset inputs \<subseteq># mset us \<and> (\<forall>c \<in> set inputs. p c)"
proof -
  have i: "mset inputs \<subseteq># mset es"
    using selectInputs_prefix [OF assms(1,2)] mset_byAmountDesc [of s es] by (metis mset_append mset_subset_eq_add_left prefix_def)
  then have "set inputs \<subseteq> set es" by (metis set_mset_mono set_mset_mset)
  moreover have "mset es \<subseteq># mset us" unfolding assms(3) by (simp add: multiset_filter_subset)
  then have "mset inputs \<subseteq># mset us" by (rule subset_mset.order_trans [OF i])
  ultimately show ?thesis using assms(3) by auto
qed

lemma payment_balanced:
  assumes "sound_credits (TxStore x) eligible" and "built env x h eligible amt outs fee m inputs minFee"
    and "pairsTotal 0 pairs = Inr amt" and "(\<Sum>o'\<leftarrow>outs. sint (Value o')) = (\<Sum>p\<leftarrow>pairs. sint (snd p))"
    and "0 \<le> sint fee" and "(\<Sum>p\<leftarrow>pairs. sint (snd p)) + sint fee < 2 ^ 63"
  shows "worths (TxStore x) inputs = (\<Sum>o'\<leftarrow>TxOuts m. sint (Value o')) + sint fee"
proof -
  have amt: "sint amt = (\<Sum>p\<leftarrow>pairs. sint (snd p))" "\<forall>p \<in> set pairs. 0 < sint (snd p)"
    using pairsTotal_sum [OF assms(3)] assms(5,6) by auto
  have "0 \<le> sint amt" unfolding amt(1) using amt(2) by (intro sum_list_nonneg) auto
  then show ?thesis using assms(4-6) amt(1) by (intro built_balanced [OF assms(1,2)]) simp_all
qed

section \<open>The whole operation\<close>

lemma feeLoop_keeps:
  assumes "\<And>fee ch. preserves P (rnd fee ch)"
  shows "preserves P (feeLoop rnd fee ch)"
proof (rule preservesI)
  fix w assume "P w"
  then show "P (snd (feeLoop rnd fee ch w))"
    using assms
  proof (induction rnd fee ch w rule: feeLoop.induct)
    case (1 rnd fee ch w)
    have "P (snd (rnd fee ch w))" using "1.prems" by (auto intro: preserves_at)
    then show ?case using "1.IH" "1.prems"(2) by (auto simp del: feeLoop.simps simp: feeLoop.simps [of rnd fee ch w] split: prod.split sum.split)
  qed
qed

lemma addChange_keeps: "preserves (only_keys a w0) (addChange env a bs change ch outs)"
  unfolding addChange_def changeAddress_def appendChange_def Let_def by (intro keeps)

lemma signInputs_keeps: "preserves (only_keys a w0) (signInputs env a cs i m)"
proof (induction cs arbitrary: i m)
  case (Cons c cs)
  have "preserves (only_keys a w0) (signInput env a i c m)"
    unfolding signInput_def by (auto intro!: keeps split: list.split btcutilAddress.split)
  then show ?case using Cons.IH by (simp add: preserves_bindE)
qed (simp add: preserves_retE)

lemma feeRound_keeps: "preserves (only_keys a w0) (feeRound env a bs eligible amt t0 fee ch)"
  unfolding feeRound_def by (intro keeps addChange_keeps signInputs_keeps)

lemma validateInput_keeps: "preserves (only_keys a w0) (validateInput env a m bip16 e)"
  unfolding validateInput_def by (intro keeps)

lemma txToPairs_keeps: "preserves (only_keys a w0) (txToPairs env a pairs minconf)"
proof (rule preservesI)
  fix w assume w: "only_keys a w0 w"
  note keeps' = keeps feeLoop_keeps feeRound_keeps validateInput_keeps
  show "only_keys a w0 (snd (txToPairs env a pairs minconf w))"
    unfolding txToPairs_def using w by (cases "IsLocked (KeyStore (acct w a))") (simp_all, intro preserves_at [where P = "only_keys a w0", OF _ w] keeps')
qed

text \<open>A run that returns, from a connected wallet.\<close>

lemma txToPairs_runE:
  assumes "txToPairs env a pairs minconf w = (Inr ct, w')" and "w_client w = Some bs" and "bs_Height bs \<noteq> - 1"
  obtains amt outs us es m inputs ch w1 where "pairsTotal 0 pairs = Inr amt" and "mapE (payOutput env) pairs = Inr outs"
    and "UnspentOutputs (TxStore (acct w a)) = Inr us"
    and "eligibleInputs env (acct w a) minconf (bs_Height bs) us = Inr es"
    and "feeLoop (feeRound env a bs (byAmountDesc (TxStore (acct w a)) es) amt ((newMsgTx env)\<lparr>TxOuts := outs\<rparr>)) 0 None w
      = (Inr (m, inputs, ch), w1)"
    and "ct = \<lparr>ctx_tx = NewTx_of env m, ctx_inputs = inputs, ctx_changeAddr = ch\<rparr>"
proof -
  have c: "client_BlockStamp env w = (Inr bs, w)"
    using assms(2,3) by (simp add: client_BlockStamp_def accessClient_def bindE_def liftE_def retE_def)
  show thesis
    using assms(1) c that unfolding txToPairs_def
    by (auto simp: run_Inr elim!: bindE_InrE split: if_splits)
qed

text \<open>C2. A payment that is created while the client is connected and its best block known, from an account whose unspent
  credits are sound (their amounts are not negative and their sum fits 64 bits) and whose fee increment is between zero and
  the maximum amount. The payment spends credits of the account that are unspent, mature, confirmed as asked for, not
  locked by the user and paid to a public key hash, each at most as often as it is listed, by inputs in the order of the
  credits. It pays exactly the requested outputs, and at most one more, the positive change. There is a fee, at least the
  minimum fee of the transaction (where a free transaction is possible only as configuration and priority allow)
  and at most the maximum amount, such that the inputs are worth the outputs and the fee as long as the requested amounts
  and the fee add up within 63 bits. The sum of the requested amounts is not checked for overflow: when it does not fit,
  a transaction is still created, and its outputs are worth more than its inputs.
  Only the keys of the account and the marks of the account manager change; nothing is sent or written yet.\<close>

theorem txToPairs_ok:
  assumes "txToPairs env a pairs minconf w = (Inr ct, w')" and "a < length (w_accts w)"
    and "w_client w = Some bs" and "bs_Height bs \<noteq> - 1"
    and "UnspentOutputs (TxStore (acct w a)) = Inr us" and "sound_credits (TxStore (acct w a)) us"
    and "0 \<le> sint (FeeIncrement (acct w a))" and "sint (FeeIncrement (acct w a)) \<le> sint (MaxSatoshi env)"
  shows "only_keys a w w'
    \<and> mset (ctx_inputs ct) \<subseteq># mset us
    \<and> (\<forall>c \<in> set (ctx_inputs ct). isEligible env (acct w a) minconf (bs_Height bs) c = Inr True)
    \<and> map PreviousOutpoint (TxIns (TxMsg (ctx_tx ct))) = map (OutPointOf (TxStore (acct w a))) (ctx_inputs ct)
    \<and> (\<exists>outs. mapE (payOutput env) pairs = Inr outs \<and> (mset (TxOuts (TxMsg (ctx_tx ct))) = mset outs
         \<or> (\<exists>ch. 0 < sint (Value ch) \<and> mset (TxOuts (TxMsg (ctx_tx ct))) = add_mset ch (mset outs))))
    \<and> (\<exists>fee free. freeAllowed env (acct w a) (bs_Height bs) (ctx_inputs ct) (TxMsg (ctx_tx ct)) = Inr free
         \<and> sint (minimumFee env (FeeIncrement (acct w a)) (TxMsg (ctx_tx ct)) free) \<le> fee \<and> fee \<le> sint (MaxSatoshi env)
         \<and> ((\<Sum>p\<leftarrow>pairs. sint (snd p)) + fee < 2 ^ 63 \<longrightarrow>
              worths (TxStore (acct w a)) (ctx_inputs ct) = (\<Sum>o'\<leftarrow>TxOuts (TxMsg (ctx_tx ct)). sint (Value o')) + fee))
    \<and> (2 ^ 63 \<le> (\<Sum>p\<leftarrow>pairs. sint (snd p)) \<longrightarrow>
         worths (TxStore (acct w a)) (ctx_inputs ct) < (\<Sum>o'\<leftarrow>TxOuts (TxMsg (ctx_tx ct)). sint (Value o')))"
proof -
  let ?x = "acct w a"
  let ?s = "TxStore ?x" and ?h = "bs_Height bs"
  obtain amt outs es m inputs ch w1 where p: "pairsTotal 0 pairs = Inr amt" and o: "mapE (payOutput env) pairs = Inr outs"
    and e: "eligibleInputs env ?x minconf ?h us = Inr es"
    and loop: "feeLoop (feeRound env a bs (byAmountDesc ?s es) amt ((newMsgTx env)\<lparr>TxOuts := outs\<rparr>)) 0 None w
      = (Inr (m, inputs, ch), w1)"
    and ct: "ct = \<lparr>ctx_tx = NewTx_of env m, ctx_inputs = inputs, ctx_changeAddr = ch\<rparr>"
    using txToPairs_runE [OF assms(1,3,4)] assms(5) by (metis sum.inject(2))
  define R where "R = (\<lambda>fee :: Amount. 0 \<le> sint fee \<and> sint fee \<le> sint (MaxSatoshi env))"
  have rnd: "returns (only_keys a w) (feeRound env a bs (byAmountDesc ?s es) amt ((newMsgTx env)\<lparr>TxOuts := outs\<rparr>) fee c)
      (\<lambda>(m, i, c, minFee) w'. only_keys a w w' \<and> built env ?x ?h (byAmountDesc ?s es) amt outs fee m i minFee \<and> R minFee)" for fee c
    by (rule triple_conseq [OF feeRound_returns])
       (use minimumFee_range [OF assms(7,8)] in \<open>auto simp: newMsgTx_def R_def built_def\<close>)
  have "R 0" using assms(7,8) by (simp add: R_def)
  from tripleD(1) [OF feeLoop_returns [where R = R, OF rnd this] only_keys_refl [OF assms(2)] loop]
  obtain fee minFee where f: "R fee" "built env ?x ?h (byAmountDesc ?s es) amt outs fee m inputs minFee" "\<not> fee <s minFee" by auto
  have es: "es = filter (\<lambda>c. isEligible env ?x minconf ?h c = Inr True) us" by (rule eligibleInputs_filter [OF e])
  have snd: "sound_credits ?s (byAmountDesc ?s es)"
    using sound_perm [OF mset_byAmountDesc [symmetric]] sound_filter [OF assms(6)] es by blast
  obtain btcin free where b: "selectInputs ?s (byAmountDesc ?s es) amt fee = Inr (inputs, btcin)"
    "map PreviousOutpoint (TxIns m) = map (OutPointOf ?s) inputs" "pays outs (btcin - amt - fee) (TxOuts m)"
    "freeAllowed env ?x ?h inputs m = Inr free" "minFee = minimumFee env (FeeIncrement ?x) m free" using f(2) by (auto simp: built_def)
  have ins: "mset inputs \<subseteq># mset us" "\<forall>c \<in> set inputs. isEligible env ?x minconf ?h c = Inr True"
    using selected_among [OF snd b(1) es] by simp_all
  have out: "mset (TxOuts m) = mset outs \<or> (\<exists>ch. 0 < sint (Value ch) \<and> mset (TxOuts m) = add_mset ch (mset outs))"
    using b(3) by (auto simp: pays_def word_sle_eq split: if_splits)
  have sum: "(\<Sum>o'\<leftarrow>outs. sint (Value o')) = (\<Sum>p\<leftarrow>pairs. sint (snd p))"
    using payOutputs_values [OF o] by (metis (no_types, lifting) map_map comp_apply map_eq_conv)
  have bal: "(\<Sum>p\<leftarrow>pairs. sint (snd p)) + sint fee < 2 ^ 63 \<longrightarrow> worths ?s inputs = (\<Sum>o'\<leftarrow>TxOuts m. sint (Value o')) + sint fee"
    using payment_balanced [OF snd f(2) p sum] f(1) by (simp add: R_def)
  have over: "2 ^ 63 \<le> (\<Sum>p\<leftarrow>pairs. sint (snd p)) \<longrightarrow> worths ?s inputs < (\<Sum>o'\<leftarrow>TxOuts m. sint (Value o'))"
    using selected_worth [OF snd b(1)] pays_least [OF b(3)] sum by simp
  have "only_keys a w w'" using preserves_at [OF txToPairs_keeps only_keys_refl [OF assms(2)]] assms(1) by (metis snd_conv)
  then show ?thesis using ins b(2,4,5) o out bal over f(1,3) ct
    by (auto simp: NewTx_of_def word_sless_alt not_less R_def intro!: exI [of _ "sint fee"])
qed

lemma acctP_unspent: "UnspentOutputs (TxStore (acct worldP 0)) = Inr [creditA 0, creditA 1]"
  by code_simp

lemma acctP_simps [simp]: "acct worldP 0 = acctP" "length (w_accts worldP) = 1" "TxStore acctP = storeP" "FeeIncrement acctP = 1"
  "w_client worldP = Some \<lparr>bs_Height = 10, bs_Hash = 100\<rparr>" "MaxSatoshi env0 = 2100000000000000"
  by (simp_all add: worldP_def acctP_def newAccount_def env0_def)

lemma txToPairs_samples:
  "\<not> isl (fst (txToPairs env0 0 [(''a'', 12)] 1 worldP))"
  "\<not> isl (fst (txToPairs env0 0 [(''a'', 9223372036854775807), (''b'', 9223372036854775807), (''c'', 14)] 1 worldP))"
  by code_simp+

lemma not_isl_run: "\<not> isl (fst r) \<Longrightarrow> \<exists>x s. r = (Inr x, s)"
  by (cases "fst r") (metis isl_def, metis prod.collapse)

theorem txToPairs_ok_witness:
  "(\<exists>ct w'. txToPairs env0 0 [(''a'', 12)] 1 worldP = (Inr ct, w') \<and> only_keys 0 worldP w'
    \<and> mset (ctx_inputs ct) \<subseteq># {#creditA 0, creditA 1#}
    \<and> (\<exists>fee \<le> 2100000000000000. worths storeP (ctx_inputs ct) = (\<Sum>o'\<leftarrow>TxOuts (TxMsg (ctx_tx ct)). sint (Value o')) + fee))
   \<and> (\<exists>ct w'. txToPairs env0 0 [(''a'', 9223372036854775807), (''b'', 9223372036854775807), (''c'', 14)] 1 worldP = (Inr ct, w')
    \<and> worths storeP (ctx_inputs ct) < (\<Sum>o'\<leftarrow>TxOuts (TxMsg (ctx_tx ct)). sint (Value o')))"
proof -
  have s: "sound_credits (TxStore (acct worldP 0)) [creditA 0, creditA 1]" using storeP_sound by simp
  obtain ct w' where r: "txToPairs env0 0 [(''a'', 12)] 1 worldP = (Inr ct, w')"
    using not_isl_run [OF txToPairs_samples(1)] by blast
  obtain ct2 w2 where r2: "txToPairs env0 0 [(''a'', 9223372036854775807), (''b'', 9223372036854775807), (''c'', 14)] 1 worldP
      = (Inr ct2, w2)" using not_isl_run [OF txToPairs_samples(2)] by blast
  from txToPairs_ok [OF r _ _ _ acctP_unspent s] txToPairs_ok [OF r2 _ _ _ acctP_unspent s] r r2
  show ?thesis by fastforce
qed

end
