(* ===== verification/Wt_Rescan.thy ===== *)
theory Wt_Rescan
  imports Wt_World
begin

text \<open>
  \<open>src/rescan.go\<close>: the rescan manager, which runs one rescan at a time and gathers the jobs that arrive meanwhile in a
  waiting batch.

  The manager is a state machine. Its goroutine \<open>jobHandler\<close> serves one case of its \<open>select\<close> loop and then sends, one
  after the other, what that case sends; a send waits for room in its channel. So the state has the pending sends of the
  handler (\<open>rm_out\<close>) beside the two batches and the contents of the channels, each of which holds one element. A channel
  that is only closed, a batch's \<open>complete\<close>, is a number, and \<open>rm_closed\<close> are those closed so far.

  The manager is used by a caller of \<open>SubmitJob\<close>, which sends a job and waits for the answer on \<open>jobCompleteChan\<close>, one
  call at a time: \<open>ru_submitted\<close> is the job of the call under way, and \<open>ru_given\<close> are the jobs submitted so far with the
  channels that \<open>SubmitJob\<close> received and returned for them.
\<close>

section \<open>Batches and jobs\<close>

record rescanBatch =
  bt_addrs :: "(acref, btcutilAddress list) gomap"
  bt_outpoints :: "(OutPoint, unit) gomap"
  bt_height :: i32
  bt_complete :: nat

definition newRescanBatch :: "nat \<Rightarrow> rescanBatch" where
  "newRescanBatch ch = \<lparr>bt_addrs = [], bt_outpoints = [], bt_height = - 1, bt_complete = ch\<rparr>"

definition batch_empty :: "rescanBatch \<Rightarrow> bool" where
  "batch_empty b \<longleftrightarrow> bt_addrs b = []"

definition batch_job :: "rescanBatch \<Rightarrow> RescanJob" where
  "batch_job b = \<lparr>job_Addresses = bt_addrs b, job_OutPoints = map fst (bt_outpoints b), job_StartHeight = bt_height b\<rparr>"

text \<open>\<open>m[k] = append(m[k], v...)\<close>\<close>

definition appendAt :: "'k \<times> 'v list \<Rightarrow> ('k, 'v list) gomap \<Rightarrow> ('k, 'v list) gomap" where
  "appendAt e m = AList.update (fst e) ((case map_of m (fst e) of None \<Rightarrow> [] | Some xs \<Rightarrow> xs) @ snd e) m"

definition batch_merge :: "RescanJob \<Rightarrow> rescanBatch \<Rightarrow> rescanBatch" where
  "batch_merge job b =
     b\<lparr>bt_addrs := fold appendAt (job_Addresses job) (bt_addrs b),
       bt_outpoints := fold (\<lambda>op. AList.update op ()) (job_OutPoints job) (bt_outpoints b),
       bt_height := (if bt_height b = - 1 \<or> job_StartHeight job <s bt_height b then job_StartHeight job else bt_height b)\<rparr>"

definition job_Merge :: "RescanJob \<Rightarrow> RescanJob \<Rightarrow> RescanJob" where
  "job_Merge j k =
     \<lparr>job_Addresses = fold appendAt (job_Addresses k) (job_Addresses j),
      job_OutPoints = job_OutPoints j @ job_OutPoints k,
      job_StartHeight = (if job_StartHeight k <s job_StartHeight j then job_StartHeight k else job_StartHeight j)\<rparr>"

section \<open>The manager\<close>

datatype RescanMsg =
    RescanStartedMsg RescanJob
  | RescanProgressMsg "(acref, btcutilAddress list) gomap" i32
  | RescanFinishedMsg "(acref, btcutilAddress list) gomap" "err option"

datatype rescanStatus = rescanProgress i32 | rescanFinished "err option"

datatype rescanOutput = OutJob RescanJob | OutComplete nat | OutMsg RescanMsg | OutClose nat

record RescanManager =
  rm_addJob :: "RescanJob list"
  rm_sendJob :: "RescanJob list"
  rm_status :: "rescanStatus list"
  rm_msgs :: "RescanMsg list"
  rm_jobComplete :: "nat list"
  rm_cur :: rescanBatch
  rm_next :: rescanBatch
  rm_out :: "rescanOutput list"
  rm_closed :: "nat list"
  rm_chans :: nat

definition NewRescanManager :: RescanManager where
  "NewRescanManager = \<lparr>rm_addJob = [], rm_sendJob = [], rm_status = [], rm_msgs = [], rm_jobComplete = [],
     rm_cur = newRescanBatch 0, rm_next = newRescanBatch 1, rm_out = [], rm_closed = [], rm_chans = 2\<rparr>"

text \<open>\<open>case job := <-m.addJob\<close>\<close>

definition handleJob :: "RescanJob \<Rightarrow> RescanManager \<Rightarrow> RescanManager" where
  "handleJob job m =
     (if batch_empty (rm_cur m) then
        m\<lparr>rm_cur := batch_merge job (rm_cur m),
          rm_out := [OutJob job, OutComplete (bt_complete (rm_cur m)), OutMsg (RescanStartedMsg job)]\<rparr>
      else
        m\<lparr>rm_next := batch_merge job (rm_next m),
          rm_out := [OutComplete (bt_complete (rm_next m))]\<rparr>)"

text \<open>\<open>case status := <-m.status\<close>\<close>

fun handleStatus :: "rescanStatus \<Rightarrow> RescanManager \<Rightarrow> RescanManager" where
  "handleStatus (rescanProgress h) m =
     m\<lparr>rm_out := [OutMsg (RescanProgressMsg (bt_addrs (rm_cur m)) h)]\<rparr>"
| "handleStatus (rescanFinished e) m =
     m\<lparr>rm_cur := rm_next m, rm_next := newRescanBatch (rm_chans m), rm_chans := Suc (rm_chans m),
       rm_out := [OutMsg (RescanFinishedMsg (bt_addrs (rm_cur m)) e), OutClose (bt_complete (rm_cur m))] @
         (if batch_empty (rm_next m) then []
          else [OutJob (batch_job (rm_next m)), OutMsg (RescanStartedMsg (batch_job (rm_next m)))])\<rparr>"

text \<open>One pending send of the handler; \<^term>\<open>None\<close> while its channel is full.\<close>

fun emit :: "rescanOutput \<Rightarrow> RescanManager \<Rightarrow> RescanManager option" where
  "emit (OutJob j) m = (if rm_sendJob m = [] then Some (m\<lparr>rm_sendJob := [j]\<rparr>) else None)"
| "emit (OutComplete ch) m = (if rm_jobComplete m = [] then Some (m\<lparr>rm_jobComplete := [ch]\<rparr>) else None)"
| "emit (OutMsg x) m = (if rm_msgs m = [] then Some (m\<lparr>rm_msgs := [x]\<rparr>) else None)"
| "emit (OutClose ch) m = Some (m\<lparr>rm_closed := ch # rm_closed m\<rparr>)"

text \<open>One step of the handler goroutine, if it is not blocked.\<close>

definition jobHandler :: "RescanManager \<Rightarrow> RescanManager list" where
  "jobHandler m = (case rm_out m of
     [] \<Rightarrow>
       (case rm_addJob m of [] \<Rightarrow> [] | j # js \<Rightarrow> [handleJob j (m\<lparr>rm_addJob := js\<rparr>)]) @
       (case rm_status m of [] \<Rightarrow> [] | x # xs \<Rightarrow> [handleStatus x (m\<lparr>rm_status := xs\<rparr>)])
   | x # xs \<Rightarrow> (case emit x m of None \<Rightarrow> [] | Some m' \<Rightarrow> [m'\<lparr>rm_out := xs\<rparr>]))"

text \<open>A job that names an address and a height.\<close>

definition job_ok :: "RescanJob \<Rightarrow> bool" where
  "job_ok j \<longleftrightarrow> job_Addresses j \<noteq> [] \<and> job_StartHeight j \<noteq> - 1"

text \<open>The steps of the manager and of the goroutines around it, but for the callers of \<open>SubmitJob\<close>.\<close>

inductive rm_step :: "RescanManager \<Rightarrow> RescanManager \<Rightarrow> bool" where
  rm_mark: "rm_status m = [] \<Longrightarrow> rm_step m (m\<lparr>rm_status := [x]\<rparr>)"
| rm_handler: "m' \<in> set (jobHandler m) \<Longrightarrow> rm_step m m'"
| rm_rpc: "rm_sendJob m = [j] \<Longrightarrow> rm_step m (m\<lparr>rm_sendJob := []\<rparr>)"
| rm_listen: "rm_msgs m = [x] \<Longrightarrow> rm_step m (m\<lparr>rm_msgs := []\<rparr>)"

text \<open>\<open>SubmitJob\<close>: its send and its receive.\<close>

record rescanUse =
  ru_rm :: RescanManager
  ru_submitted :: "RescanJob option"
  ru_given :: "(RescanJob \<times> nat) list"

definition submitSend :: "RescanJob \<Rightarrow> rescanUse \<Rightarrow> rescanUse" where
  "submitSend j u = u\<lparr>ru_submitted := Some j, ru_rm := (ru_rm u)\<lparr>rm_addJob := [j]\<rparr>\<rparr>"

definition submitReturn :: "RescanJob \<Rightarrow> nat \<Rightarrow> rescanUse \<Rightarrow> rescanUse" where
  "submitReturn j ch u = u\<lparr>ru_submitted := None, ru_given := ru_given u @ [(j, ch)],
     ru_rm := (ru_rm u)\<lparr>rm_jobComplete := []\<rparr>\<rparr>"

inductive ru_step :: "rescanUse \<Rightarrow> rescanUse \<Rightarrow> bool" where
  ru_manager: "rm_step (ru_rm u) m \<Longrightarrow> ru_step u (u\<lparr>ru_rm := m\<rparr>)"
| ru_send: "ru_submitted u = None \<Longrightarrow> rm_addJob (ru_rm u) = [] \<Longrightarrow> job_ok j \<Longrightarrow> ru_step u (submitSend j u)"
| ru_return: "ru_submitted u = Some j \<Longrightarrow> rm_jobComplete (ru_rm u) = [ch] \<Longrightarrow> ru_step u (submitReturn j ch u)"

inductive_cases ru_stepE: "ru_step u u'"

definition ru_start :: rescanUse where
  "ru_start = \<lparr>ru_rm = NewRescanManager, ru_submitted = None, ru_given = []\<rparr>"

inductive ru_reachable :: "rescanUse \<Rightarrow> bool" where
  ru_initial: "ru_reachable ru_start"
| ru_more: "ru_reachable u \<Longrightarrow> ru_step u u' \<Longrightarrow> ru_reachable u'"

section \<open>Every job is in a batch\<close>

definition covers :: "RescanJob \<Rightarrow> RescanJob \<Rightarrow> bool" where
  "covers k j \<longleftrightarrow> job_StartHeight k \<noteq> - 1 \<and> job_StartHeight k \<le>s job_StartHeight j
     \<and> (\<forall>a as. (a, as) \<in> set (job_Addresses j) \<longrightarrow> (\<exists>xs. map_of (job_Addresses k) a = Some xs \<and> set as \<subseteq> set xs))
     \<and> set (job_OutPoints j) \<subseteq> set (job_OutPoints k)"

definition pendingCloses :: "RescanManager \<Rightarrow> nat list" where
  "pendingCloses m = concat (map (\<lambda>x. case x of OutClose ch \<Rightarrow> [ch] | _ \<Rightarrow> []) (rm_out m))"

text \<open>The channels that are closed or about to be.\<close>

definition closing :: "RescanManager \<Rightarrow> nat list" where
  "closing m = pendingCloses m @ rm_closed m"

text \<open>The answers on their way to the caller of \<open>SubmitJob\<close>.\<close>

definition answersDue :: "RescanManager \<Rightarrow> nat list" where
  "answersDue m = rm_jobComplete m @ concat (map (\<lambda>x. case x of OutComplete ch \<Rightarrow> [ch] | _ \<Rightarrow> []) (rm_out m))"

text \<open>A channel is right for a job: its batch has the job, or it is closed or about to be.\<close>

definition rightFor :: "RescanManager \<Rightarrow> RescanJob \<Rightarrow> nat \<Rightarrow> bool" where
  "rightFor m j ch \<longleftrightarrow>
     ch = bt_complete (rm_cur m) \<and> covers (batch_job (rm_cur m)) j
   \<or> ch = bt_complete (rm_next m) \<and> covers (batch_job (rm_next m)) j \<or> ch \<in> set (closing m)"

definition rm_inv :: "RescanManager \<Rightarrow> bool" where
  "rm_inv m \<longleftrightarrow>
     distinct (bt_complete (rm_cur m) # bt_complete (rm_next m) # closing m)
   \<and> (\<forall>ch \<in> {bt_complete (rm_cur m), bt_complete (rm_next m)} \<union> set (closing m). ch < rm_chans m)
   \<and> (batch_empty (rm_cur m) \<longrightarrow> batch_empty (rm_next m))
   \<and> (\<forall>j \<in> set (rm_addJob m). job_ok j)"

text \<open>Where the job of a call is: not taken yet, or its answer is on its way.\<close>

definition call_inv :: "RescanManager \<Rightarrow> RescanJob option \<Rightarrow> bool" where
  "call_inv m call \<longleftrightarrow> (case call of
       None \<Rightarrow> rm_addJob m = [] \<and> answersDue m = []
     | Some j \<Rightarrow> rm_addJob m = [j] \<and> answersDue m = [] \<or>
         rm_addJob m = [] \<and> (\<exists>ch. answersDue m = [ch] \<and> rightFor m j ch))"

definition ru_inv :: "rescanUse \<Rightarrow> bool" where
  "ru_inv u \<longleftrightarrow> rm_inv (ru_rm u) \<and> call_inv (ru_rm u) (ru_submitted u)
     \<and> (\<forall>(j, ch) \<in> set (ru_given u). rightFor (ru_rm u) j ch)"

lemma appendAt_grows:
  "map_of m a = Some xs \<Longrightarrow> \<exists>ys. map_of (fold appendAt es m) a = Some ys \<and> set xs \<subseteq> set ys"
proof (induction es arbitrary: m xs)
  case (Cons e es)
  have "\<exists>ys. map_of (appendAt e m) a = Some ys \<and> set xs \<subseteq> set ys"
    using Cons.prems by (cases "fst e = a") (auto simp: appendAt_def map_of_update)
  then show ?case using Cons.IH by fastforce
qed simp

lemma appendAt_adds:
  "(a, as) \<in> set es \<Longrightarrow> \<exists>ys. map_of (fold appendAt es m) a = Some ys \<and> set as \<subseteq> set ys"
proof (induction es arbitrary: m)
  case (Cons e es)
  show ?case
  proof (cases "e = (a, as)")
    case True
    obtain xs where "map_of (appendAt e m) a = Some xs" "set as \<subseteq> set xs"
      using True by (simp add: appendAt_def map_of_update)
    then show ?thesis using appendAt_grows [of "appendAt e m" a xs es] by auto
  next
    case False
    then show ?thesis using Cons by simp
  qed
qed simp

lemma fold_update_keys: "set (map fst (fold (\<lambda>k. AList.update k v) ks m)) = set (map fst m) \<union> set ks"
  by (induction ks arbitrary: m) (auto simp: dom_update)

lemma covers_merge_new: "job_ok j \<Longrightarrow> covers (batch_job (batch_merge j b)) j"
  using appendAt_adds [of _ _ "job_Addresses j" "bt_addrs b"] fold_update_keys [of "()" "job_OutPoints j" "bt_outpoints b"]
  by (auto simp: covers_def batch_job_def batch_merge_def job_ok_def word_sle_eq word_sless_alt)

lemma covers_merge_old: "job_ok j \<Longrightarrow> covers (batch_job b) k \<Longrightarrow> covers (batch_job (batch_merge j b)) k"
  using appendAt_grows [of "bt_addrs b"] fold_update_keys [of "()" "job_OutPoints j" "bt_outpoints b"]
  unfolding covers_def batch_job_def batch_merge_def job_ok_def word_sle_eq word_sless_alt
  by (auto 0 3) (meson order_trans)+

lemma merge_not_empty: "job_ok j \<Longrightarrow> \<not> batch_empty (batch_merge j b)"
proof -
  assume "job_ok j"
  then obtain a as where "(a, as) \<in> set (job_Addresses j)" by (cases "job_Addresses j") (auto simp: job_ok_def)
  from appendAt_adds [OF this, of "bt_addrs b"] show ?thesis by (auto simp: batch_empty_def batch_merge_def)
qed

section \<open>The invariant\<close>

lemma merge_complete [simp]: "bt_complete (batch_merge j b) = bt_complete b"
  by (simp add: batch_merge_def)

lemma new_batch [simp]: "bt_complete (newRescanBatch ch) = ch" "batch_empty (newRescanBatch ch)"
  by (simp_all add: newRescanBatch_def batch_empty_def)

lemmas rm_inv_defs = rm_inv_def closing_def pendingCloses_def answersDue_def rightFor_def

text \<open>A step of the manager keeps its own invariant, keeps a channel right for a job, and either leaves the calls alone or
  takes the job of the call and owes a channel that is right for it.\<close>

definition serves :: "RescanManager \<Rightarrow> RescanManager \<Rightarrow> bool" where
  "serves m m' \<longleftrightarrow> rm_inv m' \<and> (\<forall>j ch. rightFor m j ch \<longrightarrow> rightFor m' j ch)
     \<and> (rm_addJob m' = rm_addJob m \<and> answersDue m' = answersDue m
      \<or> (\<exists>j js ch. rm_addJob m = j # js \<and> rm_addJob m' = js \<and> answersDue m' = answersDue m @ [ch] \<and> rightFor m' j ch))"

lemma serves_job:
  assumes "rm_inv m" and "rm_out m = []" and "rm_addJob m = j # js"
  shows "serves m (handleJob j (m\<lparr>rm_addJob := js\<rparr>))"
proof -
  have j: "job_ok j" "\<forall>k \<in> set js. job_ok k" using assms(1,3) by (auto simp: rm_inv_def)
  note I = assms(1) [unfolded rm_inv_def]
  show ?thesis
  proof (cases "batch_empty (rm_cur m)")
    case True
    then show ?thesis using I assms(2,3) j covers_merge_new [OF j(1), of "rm_cur m"] covers_merge_old [OF j(1), of "rm_cur m"]
      merge_not_empty [OF j(1), of "rm_cur m"]
      by (auto simp: serves_def handleJob_def rm_inv_defs)
  next
    case False
    then show ?thesis using I assms(2,3) j covers_merge_new [OF j(1), of "rm_next m"] covers_merge_old [OF j(1), of "rm_next m"]
      by (auto simp: serves_def handleJob_def rm_inv_defs)
  qed
qed

lemma serves_status:
  assumes "rm_inv m" and "rm_out m = []"
  shows "serves m (handleStatus x (m\<lparr>rm_status := xs\<rparr>))"
proof (cases x)
  case (rescanProgress h)
  then show ?thesis using assms by (simp add: serves_def rm_inv_defs)
next
  case (rescanFinished e)
  let ?m = "handleStatus (rescanFinished e) (m\<lparr>rm_status := xs\<rparr>)"
  have "closing ?m = bt_complete (rm_cur m) # closing m" "answersDue ?m = answersDue m"
    using assms(2) by (simp_all add: closing_def pendingCloses_def answersDue_def)
  then show ?thesis using assms unfolding rescanFinished by (auto simp: serves_def rm_inv_def rightFor_def less_Suc_eq)
qed

lemma emit_frame:
  assumes "rm_out m = x # xs" and "emit x m = Some m'"
  shows "mset (closing (m'\<lparr>rm_out := xs\<rparr>)) = mset (closing m)" "rm_cur m' = rm_cur m" "rm_next m' = rm_next m"
    "rm_chans m' = rm_chans m" "rm_addJob m' = rm_addJob m" "answersDue (m'\<lparr>rm_out := xs\<rparr>) = answersDue m"
  using assms by (cases x; auto simp: closing_def pendingCloses_def answersDue_def split: if_splits)+

lemma serves_emit:
  assumes "rm_inv m" and "rm_out m = x # xs" and "emit x m = Some m'"
  shows "serves m (m'\<lparr>rm_out := xs\<rparr>)"
proof -
  let ?n = "m'\<lparr>rm_out := xs\<rparr>"
  note F = emit_frame [OF assms(2,3)]
  have c: "set (closing ?n) = set (closing m)" "distinct (closing ?n) = distinct (closing m)"
    using F(1) mset_eq_setD mset_eq_imp_distinct_iff by blast+
  have "rm_inv ?n" using assms(1) unfolding rm_inv_def distinct.simps list.simps c using F(2-) by simp
  then show ?thesis using F(2-) c(1) by (simp add: serves_def rightFor_def)
qed

lemma serves_step: "rm_step m m' \<Longrightarrow> rm_inv m \<Longrightarrow> serves m m'"
proof (induction rule: rm_step.induct)
  case (rm_handler m' m)
  show ?case
  proof (cases "rm_out m")
    case Nil
    then have "(\<exists>j js. rm_addJob m = j # js \<and> m' = handleJob j (m\<lparr>rm_addJob := js\<rparr>))
        \<or> (\<exists>x xs. m' = handleStatus x (m\<lparr>rm_status := xs\<rparr>))"
      using rm_handler(1) by (cases "rm_addJob m"; cases "rm_status m") (auto simp: jobHandler_def simp del: handleStatus.simps)
    then show ?thesis using serves_job [OF rm_handler(2) Nil] serves_status [OF rm_handler(2) Nil] by blast
  next
    case (Cons x xs)
    then obtain k where "emit x m = Some k" "m' = k\<lparr>rm_out := xs\<rparr>"
      using rm_handler(1) by (cases "emit x m") (auto simp: jobHandler_def)
    then show ?thesis using serves_emit [OF rm_handler(2) Cons] by blast
  qed
qed (auto simp: serves_def rm_inv_defs)

lemma ru_inv_start: "ru_inv ru_start"
  by (simp add: ru_inv_def call_inv_def ru_start_def NewRescanManager_def rm_inv_defs)

lemma ru_inv_manager: "serves (ru_rm u) m \<Longrightarrow> ru_inv u \<Longrightarrow> ru_inv (u\<lparr>ru_rm := m\<rparr>)"
  by (auto simp: ru_inv_def call_inv_def serves_def split: option.splits)

lemma ru_inv_call:
  "job_ok j \<Longrightarrow> ru_submitted u = None \<Longrightarrow> ru_inv u \<Longrightarrow> ru_inv (submitSend j u)"
  "ru_submitted u = Some j \<Longrightarrow> rm_jobComplete (ru_rm u) = [ch] \<Longrightarrow> ru_inv u \<Longrightarrow> ru_inv (submitReturn j ch u)"
  by (auto simp: ru_inv_def call_inv_def submitSend_def submitReturn_def rm_inv_defs)

lemma ru_inv_step: "ru_step u u' \<Longrightarrow> ru_inv u \<Longrightarrow> ru_inv u'"
proof (induction rule: ru_step.induct)
  case (ru_manager u m)
  then have "rm_inv (ru_rm u)" by (simp add: ru_inv_def)
  then show ?case using ru_inv_manager serves_step ru_manager by blast
qed (simp_all add: ru_inv_call)

lemma ru_reachable_inv: "ru_reachable u \<Longrightarrow> ru_inv u"
  by (induction rule: ru_reachable.induct) (auto intro: ru_inv_start ru_inv_step)

text \<open>All pending sends done, by receivers that take everything.\<close>

definition drained :: "RescanManager \<Rightarrow> RescanManager" where
  "drained m = m\<lparr>rm_out := [], rm_closed := rev (pendingCloses m) @ rm_closed m\<rparr>"

text \<open>C6. Jobs of the rescan manager, in every state reached by calls of \<open>SubmitJob\<close> made one at a time, for jobs that name
  an address and a height. While a call waits, its job has not been taken yet, or exactly one answer is on its way, and
  it is a channel right for the job. A channel is right for a job when it belongs to the running or the waiting batch
  and that batch has the job, with all its addresses and outpoints and a height no later than its own, or when it is closed or
  about to be. Every channel that a call returned is right for the job of the call. No channel is closed twice,
  and no batch waits while none runs. A job that arrives while none runs is sent to be rescanned; when the
  running batch finishes, the waiting one is sent; and the channel of every job answered so far is closed after at most
  two batches have finished.\<close>

theorem rescan_jobs_complete:
  assumes "ru_reachable u" and "m = ru_rm u"
  shows "distinct (pendingCloses m @ rm_closed m)
    \<and> (batch_empty (rm_cur m) \<longrightarrow> batch_empty (rm_next m))
    \<and> (\<forall>j. ru_submitted u = Some j \<longrightarrow> rm_addJob m = [j] \<and> answersDue m = []
         \<or> rm_addJob m = [] \<and> (\<exists>ch. answersDue m = [ch] \<and> rightFor m j ch))
    \<and> (\<forall>(j, ch) \<in> set (ru_given u). rightFor m j ch)
    \<and> (rm_out m = [] \<longrightarrow>
         (batch_empty (rm_cur m) \<longrightarrow> OutJob k \<in> set (rm_out (handleJob k m)))
       \<and> (\<not> batch_empty (rm_next m) \<longrightarrow> OutJob (batch_job (rm_next m)) \<in> set (rm_out (handleStatus (rescanFinished e) m)))
       \<and> (\<forall>(j, ch) \<in> set (ru_given u).
            ch \<in> set (rm_closed (drained (handleStatus (rescanFinished e') (drained (handleStatus (rescanFinished e) m)))))))"
proof -
  have I: "rm_inv m" "call_inv m (ru_submitted u)" "\<forall>(j, ch) \<in> set (ru_given u). rightFor m j ch"
    using ru_reachable_inv [OF assms(1)] assms(2) by (simp_all add: ru_inv_def)
  have two: "ch \<in> set (rm_closed (drained (handleStatus (rescanFinished e') (drained (handleStatus (rescanFinished e) m)))))"
    if "rightFor m j ch" "rm_out m = []" for j ch
    using that by (auto simp: rightFor_def closing_def pendingCloses_def drained_def)
  show ?thesis
    using I(1,2) by (intro conjI I(3)) (use I(3) two in \<open>auto simp: rm_inv_def call_inv_def closing_def handleJob_def\<close>)
qed

text \<open>Two jobs of account 0, the second while the first runs.\<close>

definition job1 :: RescanJob where
  "job1 = \<lparr>job_Addresses = [(0, [AddressPubKeyHash \<lparr>ScriptAddress = [1], AddrNet = \<lparr>Net = 1\<rparr>\<rparr>])], job_OutPoints = [],
     job_StartHeight = 7\<rparr>"

definition job2 :: RescanJob where
  "job2 = job1\<lparr>job_StartHeight := 3\<rparr>"

text \<open>A run of the handler while its sends do not wait.\<close>

fun handlerRun :: "nat \<Rightarrow> RescanManager \<Rightarrow> RescanManager" where
  "handlerRun 0 m = m"
| "handlerRun (Suc n) m = (case jobHandler m of [] \<Rightarrow> m | m' # _ \<Rightarrow> handlerRun n m')"

definition ru_run :: "nat \<Rightarrow> rescanUse \<Rightarrow> rescanUse" where
  "ru_run n u = u\<lparr>ru_rm := handlerRun n (ru_rm u)\<rparr>"

lemma handlerRun_reach: "ru_reachable u \<Longrightarrow> ru_reachable (u\<lparr>ru_rm := handlerRun n (ru_rm u)\<rparr>)"
proof (induction n arbitrary: u)
  case (Suc n)
  show ?case
  proof (cases "jobHandler (ru_rm u)")
    case (Cons m ms)
    then have "ru_step u (u\<lparr>ru_rm := m\<rparr>)" by (intro ru_manager rm_handler) simp
    then have "ru_reachable (u\<lparr>ru_rm := m\<rparr>)" using Suc.prems by (rule ru_more [rotated])
    from Suc.IH [OF this] show ?thesis using Cons by simp
  qed (use Suc.prems in simp)
qed simp

definition ru_first :: rescanUse where
  "ru_first = submitReturn job1 0 (ru_run 4 (submitSend job1 ru_start))"

definition ru_both :: rescanUse where
  "ru_both = submitReturn job2 1 (ru_run 2 (submitSend job2 ru_first))"

lemma ru_both_reachable: "ru_reachable ru_both"
proof -
  have ok: "job_ok job1" "job_ok job2" by (simp_all add: job_ok_def job1_def job2_def)
  have "ru_reachable (submitSend job1 ru_start)"
    by (rule ru_more [OF ru_initial], rule ru_send [OF _ _ ok(1)]) (simp_all add: ru_start_def NewRescanManager_def)
  then have "ru_reachable (ru_run 4 (submitSend job1 ru_start))" unfolding ru_run_def by (rule handlerRun_reach)
  moreover have "ru_submitted (ru_run 4 (submitSend job1 ru_start)) = Some job1"
    "rm_jobComplete (ru_rm (ru_run 4 (submitSend job1 ru_start))) = [0]" by code_simp+
  ultimately have "ru_reachable ru_first" unfolding ru_first_def using ru_more ru_return by blast
  moreover have "ru_submitted ru_first = None" "rm_addJob (ru_rm ru_first) = []" by code_simp+
  ultimately have "ru_reachable (submitSend job2 ru_first)" using ru_more ru_send ok(2) by blast
  then have "ru_reachable (ru_run 2 (submitSend job2 ru_first))" unfolding ru_run_def by (rule handlerRun_reach)
  moreover have "ru_submitted (ru_run 2 (submitSend job2 ru_first)) = Some job2"
    "rm_jobComplete (ru_rm (ru_run 2 (submitSend job2 ru_first))) = [1]" by code_simp+
  ultimately show ?thesis unfolding ru_both_def using ru_more ru_return by blast
qed

theorem rescan_jobs_complete_witness:
  "(job2, 1) \<in> set (ru_given ru_both) \<and> covers (batch_job (rm_next (ru_rm ru_both))) job2
   \<and> 1 \<in> set (rm_closed (drained (handleStatus (rescanFinished None) (drained (handleStatus (rescanFinished None) (ru_rm ru_both))))))"
proof -
  have g: "ru_given ru_both = [(job1, 0), (job2, 1)]" by code_simp
  have a: "rm_out (ru_rm ru_both) = []" "bt_complete (rm_cur (ru_rm ru_both)) = 0" "closing (ru_rm ru_both) = []"
    by code_simp+
  from rescan_jobs_complete [OF ru_both_reachable refl, of undefined None None] show ?thesis
    unfolding g by (auto simp: a rightFor_def simp del: handleStatus.simps)
qed

end
