(* ===== verification/Wt_Deadlock.thy ===== *)
theory Wt_Deadlock
  imports Wt_Rescan
begin

text \<open>
  The rescan manager together with the two goroutines that share the account manager's semaphore with it: the
  listener \<open>rescanListener\<close> of \<open>src/acctmgr.go\<close>, which receives a message, grabs the semaphore to process it and
  releases it, and the request handler of \<open>src/rpcserver.go\<close>, which holds the semaphore for the whole request and,
  for an import with a rescan, submits a job and waits for the answer (\<open>SubmitJob\<close>). The channel between the manager and
  the listener holds one message.
\<close>

datatype listenerState = Waiting | Received RescanMsg | Processing RescanMsg

datatype requestState = Idle | Grabbed | Submitted

record rescanSystem =
  sy_rm :: RescanManager
  sy_sem :: bool
  sy_listener :: listenerState
  sy_request :: requestState

inductive sys_step :: "rescanSystem \<Rightarrow> rescanSystem \<Rightarrow> bool" where
  sys_mark: "rm_status (sy_rm s) = [] \<Longrightarrow> sys_step s (s\<lparr>sy_rm := (sy_rm s)\<lparr>rm_status := [x]\<rparr>\<rparr>)"
| sys_handler: "m \<in> set (jobHandler (sy_rm s)) \<Longrightarrow> sys_step s (s\<lparr>sy_rm := m\<rparr>)"
| sys_rpc: "rm_sendJob (sy_rm s) = [j] \<Longrightarrow> sys_step s (s\<lparr>sy_rm := (sy_rm s)\<lparr>rm_sendJob := []\<rparr>\<rparr>)"
| listener_receive: "sy_listener s = Waiting \<Longrightarrow> rm_msgs (sy_rm s) = [x] \<Longrightarrow>
    sys_step s (s\<lparr>sy_listener := Received x, sy_rm := (sy_rm s)\<lparr>rm_msgs := []\<rparr>\<rparr>)"
| listener_grab: "sy_listener s = Received x \<Longrightarrow> sy_sem s \<Longrightarrow>
    sys_step s (s\<lparr>sy_listener := Processing x, sy_sem := False\<rparr>)"
| listener_release: "sy_listener s = Processing x \<Longrightarrow> sys_step s (s\<lparr>sy_listener := Waiting, sy_sem := True\<rparr>)"
| request_grab: "sy_request s = Idle \<Longrightarrow> sy_sem s \<Longrightarrow> sys_step s (s\<lparr>sy_request := Grabbed, sy_sem := False\<rparr>)"
| request_submit: "sy_request s = Grabbed \<Longrightarrow> rm_addJob (sy_rm s) = [] \<Longrightarrow> job_ok j \<Longrightarrow>
    sys_step s (s\<lparr>sy_request := Submitted, sy_rm := (sy_rm s)\<lparr>rm_addJob := [j]\<rparr>\<rparr>)"
| request_answer: "sy_request s = Submitted \<Longrightarrow> rm_jobComplete (sy_rm s) = [ch] \<Longrightarrow>
    sys_step s (s\<lparr>sy_request := Idle, sy_sem := True, sy_rm := (sy_rm s)\<lparr>rm_jobComplete := []\<rparr>\<rparr>)"

inductive_cases sys_stepE: "sys_step s s'"

definition sys_start :: rescanSystem where
  "sys_start = \<lparr>sy_rm = NewRescanManager, sy_sem = True, sy_listener = Waiting, sy_request = Idle\<rparr>"

text \<open>The request waits for the manager, the manager for the listener, the listener for the semaphore of the request.\<close>

definition circular :: "rescanSystem \<Rightarrow> bool" where
  "circular s \<longleftrightarrow> sy_request s = Submitted \<and> rm_jobComplete (sy_rm s) = []
     \<and> (\<exists>y ys. rm_out (sy_rm s) = OutMsg y # ys) \<and> rm_msgs (sy_rm s) \<noteq> []
     \<and> (\<exists>x. sy_listener s = Received x) \<and> \<not> sy_sem s"

lemma circular_step: "sys_step s s' \<Longrightarrow> circular s \<Longrightarrow> circular s'"
  by (induction rule: sys_step.induct) (auto simp: circular_def jobHandler_def)

lemma circular_steps: "sys_step\<^sup>*\<^sup>* s s' \<Longrightarrow> circular s \<Longrightarrow> circular s'"
  by (induction rule: rtranclp_induct) (auto intro: circular_step)

text \<open>A run: an import starts a rescan, a second request grabs the semaphore, two reports of progress come in, and
  the request submits its job. The batch of the first job is \<open>batch1\<close>.\<close>

definition batch1 :: rescanBatch where
  "batch1 = batch_merge job1 (newRescanBatch 0)"

definition manager :: "rescanBatch \<Rightarrow> RescanJob list \<Rightarrow> RescanJob list \<Rightarrow> rescanStatus list \<Rightarrow> RescanMsg list \<Rightarrow> nat list \<Rightarrow>
    rescanOutput list \<Rightarrow> RescanManager" where
  "manager cur add sendJob status msgs jobComplete out =
     \<lparr>rm_addJob = add, rm_sendJob = sendJob, rm_status = status, rm_msgs = msgs, rm_jobComplete = jobComplete, rm_cur = cur,
      rm_next = newRescanBatch 1, rm_out = out, rm_closed = [], rm_chans = 2\<rparr>"

definition system :: "RescanManager \<Rightarrow> bool \<Rightarrow> listenerState \<Rightarrow> requestState \<Rightarrow> rescanSystem" where
  "system m sem l r = \<lparr>sy_rm = m, sy_sem = sem, sy_listener = l, sy_request = r\<rparr>"

lemma batch1_props: "\<not> batch_empty batch1" "job_ok job1" "job_ok job2"
proof -
  show ok: "job_ok job1" "job_ok job2" by (simp_all add: job_ok_def job1_def job2_def)
  show "\<not> batch_empty batch1" unfolding batch1_def by (rule merge_not_empty [OF ok(1)])
qed

lemmas path_defs = system_def manager_def jobHandler_def handleJob_def batch1_def [symmetric]

lemmas steps_cons = converse_rtranclp_into_rtranclp [of sys_step]

lemma path_to_rescan:
  "sys_step\<^sup>*\<^sup>* sys_start (system (manager batch1 [] [job1] [] [RescanStartedMsg job1] [] []) True Waiting Idle)"
proof -
  let ?b0 = "newRescanBatch 0" and ?S = "RescanStartedMsg job1"
  let ?out = "[OutComplete 0, OutMsg (RescanStartedMsg job1)]"
  have 1: "sys_step sys_start (system (manager ?b0 [] [] [] [] [] []) False Waiting Grabbed)"
    using request_grab [of sys_start] by (simp add: sys_start_def NewRescanManager_def path_defs)
  have 2: "sys_step (system (manager ?b0 [] [] [] [] [] []) False Waiting Grabbed)
      (system (manager ?b0 [job1] [] [] [] [] []) False Waiting Submitted)"
    using request_submit [of "system (manager ?b0 [] [] [] [] [] []) False Waiting Grabbed" job1] batch1_props
    by (simp add: system_def manager_def)
  have 3: "sys_step (system (manager ?b0 [job1] [] [] [] [] []) False Waiting Submitted)
      (system (manager batch1 [] [] [] [] [] (OutJob job1 # ?out)) False Waiting Submitted)"
    using sys_handler [of "manager batch1 [] [] [] [] [] (OutJob job1 # ?out)"
      "system (manager ?b0 [job1] [] [] [] [] []) False Waiting Submitted"] by (simp add: path_defs)
  have 4: "sys_step (system (manager batch1 [] [] [] [] [] (OutJob job1 # ?out)) False Waiting Submitted)
      (system (manager batch1 [] [job1] [] [] [] ?out) False Waiting Submitted)"
    using sys_handler [of "manager batch1 [] [job1] [] [] [] ?out"
      "system (manager batch1 [] [] [] [] [] (OutJob job1 # ?out)) False Waiting Submitted"] by (simp add: path_defs)
  have 5: "sys_step (system (manager batch1 [] [job1] [] [] [] ?out) False Waiting Submitted)
      (system (manager batch1 [] [job1] [] [] [0] (tl ?out)) False Waiting Submitted)"
    using sys_handler [of "manager batch1 [] [job1] [] [] [0] (tl ?out)"
      "system (manager batch1 [] [job1] [] [] [] ?out) False Waiting Submitted"] by (simp add: path_defs)
  have 6: "sys_step (system (manager batch1 [] [job1] [] [] [0] (tl ?out)) False Waiting Submitted)
      (system (manager batch1 [] [job1] [] [] [] (tl ?out)) True Waiting Idle)"
    using request_answer [of "system (manager batch1 [] [job1] [] [] [0] (tl ?out)) False Waiting Submitted" 0]
    by (simp add: system_def manager_def)
  have 7: "sys_step (system (manager batch1 [] [job1] [] [] [] (tl ?out)) True Waiting Idle)
      (system (manager batch1 [] [job1] [] [?S] [] []) True Waiting Idle)"
    using sys_handler [of "manager batch1 [] [job1] [] [?S] [] []"
      "system (manager batch1 [] [job1] [] [] [] (tl ?out)) True Waiting Idle"] by (simp add: path_defs)
  show ?thesis
    by (rule steps_cons [OF 1], rule steps_cons [OF 2], rule steps_cons [OF 3], rule steps_cons [OF 4], rule steps_cons [OF 5],
        rule steps_cons [OF 6], rule r_into_rtranclp [of sys_step, OF 7])
qed

lemma path_to_deadlock:
  "\<exists>s. sys_step\<^sup>*\<^sup>* (system (manager batch1 [] [job1] [] [RescanStartedMsg job1] [] []) True Waiting Idle) s \<and> circular s"
proof -
  let ?S = "RescanStartedMsg job1" and ?P = "RescanProgressMsg (bt_addrs batch1)"
  have 8: "sys_step (system (manager batch1 [] [job1] [] [?S] [] []) True Waiting Idle)
      (system (manager batch1 [] [job1] [] [] [] []) True (Received ?S) Idle)"
    using listener_receive [of "system (manager batch1 [] [job1] [] [?S] [] []) True Waiting Idle" ?S]
    by (simp add: system_def manager_def)
  have 9: "sys_step (system (manager batch1 [] [job1] [] [] [] []) True (Received ?S) Idle)
      (system (manager batch1 [] [job1] [] [] [] []) False (Received ?S) Grabbed)"
    using request_grab [of "system (manager batch1 [] [job1] [] [] [] []) True (Received ?S) Idle"]
    by (simp add: system_def)
  have mark: "sys_step (system (manager batch1 [] [job1] [] ms [] []) False (Received ?S) Grabbed)
      (system (manager batch1 [] [job1] [rescanProgress h] ms [] []) False (Received ?S) Grabbed)" for ms h
    using sys_mark [of "system (manager batch1 [] [job1] [] ms [] []) False (Received ?S) Grabbed" "rescanProgress h"]
    by (simp add: system_def manager_def)
  have serve: "sys_step (system (manager batch1 [] [job1] [rescanProgress h] ms [] []) False (Received ?S) Grabbed)
      (system (manager batch1 [] [job1] [] ms [] [OutMsg (?P h)]) False (Received ?S) Grabbed)" for ms h
    using sys_handler [of "manager batch1 [] [job1] [] ms [] [OutMsg (?P h)]"
      "system (manager batch1 [] [job1] [rescanProgress h] ms [] []) False (Received ?S) Grabbed"] by (simp add: path_defs)
  have emit: "sys_step (system (manager batch1 [] [job1] [] [] [] [OutMsg (?P 1)]) False (Received ?S) Grabbed)
      (system (manager batch1 [] [job1] [] [?P 1] [] []) False (Received ?S) Grabbed)"
    using sys_handler [of "manager batch1 [] [job1] [] [?P 1] [] []"
      "system (manager batch1 [] [job1] [] [] [] [OutMsg (?P 1)]) False (Received ?S) Grabbed"] by (simp add: path_defs)
  let ?goal = "system (manager batch1 [job2] [job1] [] [?P 1] [] [OutMsg (?P 2)]) False (Received ?S) Submitted"
  have last: "sys_step (system (manager batch1 [] [job1] [] [?P 1] [] [OutMsg (?P 2)]) False (Received ?S) Grabbed) ?goal"
    using request_submit [of "system (manager batch1 [] [job1] [] [?P 1] [] [OutMsg (?P 2)]) False (Received ?S) Grabbed" job2]
      batch1_props by (simp add: system_def manager_def)
  have "sys_step\<^sup>*\<^sup>* (system (manager batch1 [] [job1] [] [?S] [] []) True Waiting Idle) ?goal"
    by (rule steps_cons [OF 8], rule steps_cons [OF 9], rule steps_cons [OF mark], rule steps_cons [OF serve [of 1]],
        rule steps_cons [OF emit], rule steps_cons [OF mark], rule steps_cons [OF serve [of 2]], rule r_into_rtranclp [of sys_step, OF last])
  moreover have "circular ?goal" by (simp add: circular_def system_def manager_def)
  ultimately show ?thesis by blast
qed

text \<open>C34. A finding: an import with a rescan can hang the wallet. While a rescan runs, its reports fill the channel to the
  listener, which waits for the semaphore that the request holds; the manager, blocked on that channel, never takes the
  job of the request. There is a reachable state in which a request has submitted its job, and in every state that
  follows, whatever else happens, it has not been answered.\<close>

theorem SubmitJob_deadlock:
  "\<exists>s. sys_step\<^sup>*\<^sup>* sys_start s \<and> sy_request s = Submitted
     \<and> Collect (sys_step\<^sup>*\<^sup>* s) \<subseteq> {s'. sy_request s' = Submitted \<and> \<not> sy_sem s'}"
proof -
  obtain s where s: "sys_step\<^sup>*\<^sup>* sys_start s" "circular s"
    using path_to_deadlock path_to_rescan rtranclp_trans by metis
  then have "Collect (sys_step\<^sup>*\<^sup>* s) \<subseteq> {s'. sy_request s' = Submitted \<and> \<not> sy_sem s'}"
    using circular_steps unfolding circular_def by blast
  then show ?thesis using s by (auto simp: circular_def)
qed

end
