(* ===== verification/Wt_Manager.thy ===== *)
theory Wt_Manager
  imports Wt_CreateTx Wt_Rescan Ks_StoreIO
begin

text \<open>
  \<open>src/acctmgr.go\<close>: the account manager. Its goroutine \<open>accountHandler\<close> guards the maps of accounts, \<open>keystoreLocker\<close>
  the locked state of all key stores and \<open>rescanListener\<close> marks addresses as synced; each request to one of them is an
  action. Accounts are opened from their files and allocated at the end of \<open>w_accts\<close>.
\<close>

section \<open>The maps of accounts\<close>

definition addAccount :: "wenv \<Rightarrow> acref \<Rightarrow> unit wact" where
  "addAccount env a w =
     (if map_of (nameToAccount w) (acct_name (acct w a)) \<noteq> None then (Inr (), w)
      else
        bindE (modifyE (\<lambda>w. w\<lparr>nameToAccount := AList.update (acct_name (acct w a)) a (nameToAccount w)\<rparr>)) (\<lambda>_.
        bindE (liftE (\<lambda>w. ActivePaymentAddresses env (acct w a))) (\<lambda>addrs.
          modifyE (\<lambda>w. w\<lparr>addressToAccount := fold (\<lambda>addr. AList.update addr a) addrs (addressToAccount w)\<rparr>))) w)"

definition removeAccount :: "wenv \<Rightarrow> acref \<Rightarrow> unit wact" where
  "removeAccount env x w = (case map_of (nameToAccount w) (acct_name (acct w x)) of
     None \<Rightarrow> (Inr (), w)
   | Some a \<Rightarrow>
       bindE (modifyE (\<lambda>w. w\<lparr>nameToAccount := AList.delete (acct_name (acct w a)) (nameToAccount w)\<rparr>)) (\<lambda>_.
       bindE (liftE (\<lambda>w. ActivePaymentAddresses env (acct w a))) (\<lambda>addrs.
         modifyE (\<lambda>w. w\<lparr>addressToAccount := fold AList.delete addrs (addressToAccount w)\<rparr>))) w)"

definition allocAcct :: "Account \<Rightarrow> acref wact" where
  "allocAcct x w = (Inr (length (w_accts w)), w\<lparr>w_accts := w_accts w @ [x]\<rparr>)"

section \<open>Opening accounts\<close>

definition fileExists :: "oslib \<Rightarrow> path \<Rightarrow> bool fsact" where
  "fileExists os p s = (case os_Stat os p s of
     (Inl e, s') \<Rightarrow> (Inr (e \<noteq> ErrNotExist), s')
   | (Inr _, s') \<Rightarrow> (Inr True, s'))"

definition writeUnsyncedWallet :: "wenv \<Rightarrow> Account \<Rightarrow> path \<Rightarrow> Account fsact" where
  "writeUnsyncedWallet env x walletPath =
     (let os = e_os env; x' = x\<lparr>KeyStore := SetSyncedWith None (KeyStore x)\<rparr> in
      bindE (orFail (ErrorString ''cannot create temporary wallet'') (ioutil_TempFile os (butlast walletPath) ''wallet.bin'')) (\<lambda>tmp.
      bindE (orFail (ErrorString ''cannot write back unsynced wallet'') (writeFile os tmp (ks_WriteTo (e_ks env) (KeyStore x')))) (\<lambda>_.
      bindE (orFail (ErrorString ''cannot close temporary wallet file'') (syscall os)) (\<lambda>_.
      bindE (orFail (ErrorString ''cannot move temporary wallet file'') (os_Rename os tmp walletPath)) (\<lambda>_.
        retE x')))))"

definition errNoWallet :: err where
  "errNoWallet = walletOpenError ''wallet file does not exist''"

text \<open>The two files are read into a new account. A store that fails to read keeps what was read before the error, and
  that is what is written back.\<close>

definition openSavedAccount :: "wenv \<Rightarrow> string \<Rightarrow> Account fsact" where
  "openSavedAccount env name =
     (let os = e_os env; netdir = networkDir env;
          walletPath = accountFilename ''wallet.bin'' name netdir; txstorePath = accountFilename ''tx.bin'' name netdir in
      bindE (orFail (walletOpenError ''cannot create directory'') (checkCreateDir os netdir)) (\<lambda>_.
      bindE (\<lambda>s. case os_Open os walletPath s of
          (Inl e, s') \<Rightarrow> (Inl (if e = ErrNotExist then errNoWallet else walletOpenError ''cannot open wallet file''), s')
        | (Inr bs, s') \<Rightarrow> (Inr bs, s')) (\<lambda>wbytes.
      bindE (case ks_ReadFrom (e_ks env) ((wbytes, 0), zeroStore) of
          (Inl e, _) \<Rightarrow> failE (if isPanic e then e else walletOpenError ''Cannot read wallet'')
        | (Inr _, (_, keys)) \<Rightarrow> retE (newAccount name keys New)) (\<lambda>x.
      (\<lambda>s. case os_Open os txstorePath s of
          (Inl e, s') \<Rightarrow>
            bindE (writeUnsyncedWallet env x walletPath) (\<lambda>x'.
            bindE (fileExists os txstorePath) (\<lambda>there.
              if there then failE (ErrorString ''transaction store file exists but cannot be opened'')
              else
                bindE (orFail (ErrorString ''cannot create new txstore file'') (os_Create os txstorePath)) (\<lambda>_.
                bindE (logged (writeFile os txstorePath (Store_WriteTo (e_tx env) New))) (\<lambda>_. retE x')))) s'
        | (Inr tbytes, s') \<Rightarrow>
            (case Store_ReadFrom (e_tx env) (New, (tbytes, 0)) of
               (Inr _, (st, _)) \<Rightarrow> (Inr (x\<lparr>TxStore := st\<rparr>), s')
             | (Inl e, (st, _)) \<Rightarrow> if isPanic e then (Inl e, s') else
                 bindE (writeUnsyncedWallet env (x\<lparr>TxStore := st\<rparr>) walletPath) (\<lambda>x'.
                 bindE (syscall os) (\<lambda>_.
                 bindE (truncateFile os txstorePath) (\<lambda>_.
                 bindE (logged (writeFile os txstorePath (Store_WriteTo (e_tx env) st))) (\<lambda>_. retE x')))) s'))))))"

definition walletSuffix :: string where
  "walletSuffix = ''-wallet.bin''"

definition openInto :: "wenv \<Rightarrow> string \<Rightarrow> unit wact" where
  "openInto env name = bindE (onFs (openSavedAccount env name)) (\<lambda>x. bindE (allocAcct x) (addAccount env))"

definition moveTmpDir :: "wenv \<Rightarrow> unit fsact" where
  "moveTmpDir env =
     (let os = e_os env in
      bindE (fileExists os (networkDir env)) (\<lambda>there.
        if there then retE ()
        else bindE (fileExists os (tmpNetworkDir env)) (\<lambda>tmp.
          if tmp then os_Rename os (tmpNetworkDir env) (networkDir env) else retE ())))"

text \<open>An account that cannot be opened is skipped, the default one ends the search.\<close>

definition openAccounts :: "wenv \<Rightarrow> unit wact" where
  "openAccounts env =
     bindE (modifyE (\<lambda>w. w\<lparr>nameToAccount := [], addressToAccount := []\<rparr>)) (\<lambda>_.
     logged (
       bindE (onFs (moveTmpDir env)) (\<lambda>_.
       bindE (openInto env []) (\<lambda>_.
       bindE (onFs (os_Readdirnames (e_os env) (networkDir env))) (\<lambda>names.
         forE (\<lambda>name. logged (openInto env (take (length name - length walletSuffix) name)))
           (filter (suffix walletSuffix) names))))))"

definition OpenAccounts :: "wenv \<Rightarrow> unit wact" where
  "OpenAccounts env w =
     bindE (forE (\<lambda>e. logged (FlushAccount env (snd e))) (nameToAccount w)) (\<lambda>_. openAccounts env) w"

section \<open>Locking\<close>

definition UnlockWallets :: "wenv \<Rightarrow> bytes \<Rightarrow> nat \<Rightarrow> unit wact" where
  "UnlockWallets env passphrase timeout w =
     bindE (forE (\<lambda>a. acct_Unlock env a passphrase) (AllAccounts w)) (\<lambda>_.
       modifyE (\<lambda>w. w\<lparr>w_unlocked := True, w_timeout := timeout \<noteq> 0\<rparr>)) w"

definition LockWallets :: "unit wact" where
  "LockWallets w =
     bindE (modifyE (\<lambda>w. w\<lparr>w_timeout := False\<rparr>)) (\<lambda>_.
     bindE (forE (\<lambda>a. logged (acct_Lock a)) (AllAccounts w)) (\<lambda>_.
       modifyE (\<lambda>w. w\<lparr>w_unlocked := False\<rparr>))) w"

definition am_ChangePassphrase :: "wenv \<Rightarrow> bytes \<Rightarrow> bytes \<Rightarrow> unit wact" where
  "am_ChangePassphrase env old new =
     bindE (UnlockWallets env old 0) (\<lambda>_. \<lambda>w.
       let accts = AllAccounts w in
       bindE (forE (\<lambda>a. onKeys a (ChangePassphrase (e_ks env) new)) accts) (\<lambda>_.
       bindE LockWallets (\<lambda>_. WriteBatch env accts)) w)"

section \<open>Messages of the rescan manager\<close>

definition markSynced :: "wenv \<Rightarrow> SyncStatus \<Rightarrow> acref \<times> btcutilAddress list \<Rightarrow> unit wact" where
  "markSynced env ss e =
     bindE (forE (\<lambda>addr. logged (onKeys (fst e) (SetSyncStatus (rawAddress addr) ss))) (snd e)) (\<lambda>_.
     bindE (ScheduleWalletWrite (fst e)) (\<lambda>_. logged (FlushAccount env (fst e))))"

fun rescanListener :: "wenv \<Rightarrow> RescanMsg \<Rightarrow> unit wact" where
  "rescanListener env (RescanStartedMsg job) = retE ()"
| "rescanListener env (RescanProgressMsg m h) = forE (markSynced env (PartialSync h)) m"
| "rescanListener env (RescanFinishedMsg m (Some e)) = retE ()"
| "rescanListener env (RescanFinishedMsg m None) = forE (markSynced env FullSync) m"

section \<open>Operations on all accounts\<close>

definition RegisterNewAccount :: "wenv \<Rightarrow> acref \<Rightarrow> unit wact" where
  "RegisterNewAccount env a =
     bindE (addAccount env a) (\<lambda>_.
     bindE (ScheduleWalletWrite a) (\<lambda>_.
     bindE (ScheduleTxStoreWrite a) (\<lambda>_. \<lambda>w.
       case FlushAccount env a w of
         (Inl e, w') \<Rightarrow> bindE (removeAccount env a) (\<lambda>_. failE e) w'
       | (Inr _, w') \<Rightarrow> (Inr (), w'))))"

definition am_Rollback :: "wenv \<Rightarrow> i32 \<Rightarrow> unit wact" where
  "am_Rollback env h w =
     forE (\<lambda>a. bindE (sharedTxs a (Rollback (e_btc env) h)) (\<lambda>_. ScheduleTxStoreWrite a)) (AllAccounts w) w"

text \<open>Both balances of an account; the unconfirmed one is what the confirmed one leaves of the total.\<close>

definition notifyBalances :: "wenv \<Rightarrow> acref \<Rightarrow> unit wact" where
  "notifyBalances env a =
     bindE (CalculateBalance env a 1) (\<lambda>confd.
     bindE (CalculateBalance env a 0) (\<lambda>all.
     bindE (liftE (\<lambda>w. Inr (acct_name (acct w a)))) (\<lambda>name.
     bindE (notify (AccountBalance name confd True)) (\<lambda>_.
       notify (AccountBalance name (all - confd) False)))))"

definition BlockNotify :: "wenv \<Rightarrow> BlockStamp \<Rightarrow> unit wact" where
  "BlockNotify env bs w =
     forE (\<lambda>a. bindE (logged (notifyBalances env a)) (\<lambda>_. \<lambda>w.
       if Name (KeyStore (acct w a)) = [] then
         bindE (onKeys a (modifyE (SetSyncedWith (Some bs)))) (\<lambda>_. ScheduleWalletWrite a) w
       else (Inr (), w))) (AllAccounts w) w"

text \<open>The transaction is one object for all accounts: a record that is new in an account's store joins the group of
  this call.\<close>

definition insertShared :: "wenv \<Rightarrow> Tx \<Rightarrow> Block option \<Rightarrow> acref \<Rightarrow> (World \<times> (acref \<times> rref) list, err, unit) act" where
  "insertShared env tx block a st = (case st of (w, grp) \<Rightarrow>
     (let n = length (rheap (TxStore (acct w a))) in
      case bindE (ask (Now env)) (\<lambda>now. sharedTxs a (InsertTx (e_btc env) now tx block)) w of
        (Inl e, w1) \<Rightarrow> (Inl e, (w1, grp))
      | (Inr t, w1) \<Rightarrow>
          let grp' = (if n < length (rheap (TxStore (acct w1 a))) then grp @ [(a, n)] else grp) in
          (case bindE (onTxs a (AddDebits t [])) (\<lambda>_. ScheduleTxStoreWrite a) w1 of
             (Inl e, w2) \<Rightarrow> (Inl e, (w2, grp'))
           | (Inr _, w2) \<Rightarrow> (Inr (), (w2, grp')))))"

definition RecordSpendingTx :: "wenv \<Rightarrow> Tx \<Rightarrow> Block option \<Rightarrow> unit wact" where
  "RecordSpendingTx env tx block w =
     (case forE (insertShared env tx block) (AllAccounts w) (w, []) of
        (res, (w', grp)) \<Rightarrow> (res, if length grp < 2 then w' else w'\<lparr>w_shared := w_shared w' @ [grp]\<rparr>))"

definition am_CalculateBalance :: "wenv \<Rightarrow> string \<Rightarrow> i64 \<Rightarrow> Amount wact" where
  "am_CalculateBalance env account minconf =
     bindE (liftE (\<lambda>w. am_Account w account)) (\<lambda>a. CalculateBalance env a minconf)"

definition am_Track :: "wenv \<Rightarrow> unit wact" where
  "am_Track env w = forE (acct_Track env) (AllAccounts w) w"

definition am_ResendUnminedTxs :: "wenv \<Rightarrow> unit wact" where
  "am_ResendUnminedTxs env w = forE (acct_ResendUnminedTxs env) (AllAccounts w) w"

definition CreateEncryptedWallet :: "wenv \<Rightarrow> bytes \<Rightarrow> unit wact" where
  "CreateEncryptedWallet env passphrase w0 =
     (if AllAccounts w0 \<noteq> [] then (Inl ErrWalletExists, w0)
      else
        bindE (client_BlockStamp env) (\<lambda>bs.
        bindE (askE (NewStore (e_ks env) [] (stringBytes ''Default acccount'') passphrase (activeNet env) bs (KeypoolSize env))) (\<lambda>keys.
        bindE (allocAcct (newAccount [] keys New)) (\<lambda>a.
        bindE (RegisterNewAccount env a) (\<lambda>_. acct_Track env a)))) w0)"

definition DumpKeys :: "wenv \<Rightarrow> string list wact" where
  "DumpKeys env w = bindE (mapA (DumpPrivKeys env) (AllAccounts w)) (\<lambda>kss. retE (concat kss)) w"

definition am_DumpWIFPrivateKey :: "wenv \<Rightarrow> btcutilAddress \<Rightarrow> string wact" where
  "am_DumpWIFPrivateKey env addr =
     bindE (liftE (\<lambda>w. AccountByAddress env w addr)) (\<lambda>a. DumpWIFPrivateKey env a addr)"

text \<open>The pointer to an address is the account and the reference into its key store.\<close>

definition am_Address :: "wenv \<Rightarrow> World \<Rightarrow> btcutilAddress \<Rightarrow> err + (acref \<times> aref)" where
  "am_Address env w addr = (case AccountByAddress env w addr of
     Inl e \<Rightarrow> Inl e
   | Inr a \<Rightarrow> map_sum id (Pair a) (Address_lookup (KeyStore (acct w a)) (rawAddress addr)))"

definition ListAccounts :: "wenv \<Rightarrow> i64 \<Rightarrow> (string, Amount) gomap wact" where
  "ListAccounts env minconf w =
     bindE (mapA (\<lambda>a. bindE (CalculateBalance env a minconf) (\<lambda>bal.
       liftE (\<lambda>w. Inr (acct_name (acct w a), bal)))) (AllAccounts w)) (\<lambda>ps.
       retE (fold (\<lambda>(k, v). AList.update k v) ps [])) w"

definition am_ListSinceBlock :: "wenv \<Rightarrow> World \<Rightarrow> i32 \<Rightarrow> i32 \<Rightarrow> i64 \<Rightarrow> err + ListTransactionsResult list" where
  "am_ListSinceBlock env w since cur minconf =
     map_sum id concat (mapE (\<lambda>a. ListSinceBlock env w a since cur minconf) (AllAccounts w))"

text \<open>An \<open>accountTx\<close> is the account and the record in its store.\<close>

definition am_GetTransaction :: "World \<Rightarrow> ShaHash \<Rightarrow> (acref \<times> TxRecord) list" where
  "am_GetTransaction w sha = concat (map (\<lambda>a.
     map (Pair a)
       (filter (\<lambda>t. recSha (TxStore (acct w a)) (tr_rec t) = sha) (Records (TxStore (acct w a))))) (AllAccounts w))"

record ListUnspentResult =
  lur_TxId :: ShaHash
  lur_Vout :: u32
  lur_Address :: string
  lur_Account :: bytes
  lur_ScriptPubKey :: bytes
  lur_Amount :: Amount
  lur_Confirmations :: i64

definition listed :: "wenv \<Rightarrow> Account \<Rightarrow> i32 \<Rightarrow> i64 \<Rightarrow> i64 \<Rightarrow> string list \<Rightarrow> Credit \<Rightarrow> err + ListUnspentResult list" where
  "listed env x h minconf maxconf addresses c =
     (let s = TxStore x; confs = Confirmations (cr_TxRecord c) h in
      if sint confs < sint minconf \<or> sint maxconf < sint confs then Inr []
      else if IsCoinbase (cr_TxRecord c) \<and> \<not> Confirmed (cr_TxRecord c) (scast (CoinbaseMaturity (e_btc env))) h then Inr []
      else if LockedOutpoint x (OutPointOf s c) then Inr []
      else case TxOutOf s c of
        Inl e \<Rightarrow> Inl e
      | Inr out \<Rightarrow>
          let addrs = PkScriptAddrs env (PkScript out) (activeNet env) in
          if addresses \<noteq> [] \<and> (\<forall>a \<in> set addrs. EncodeAddress env a \<notin> set addresses) then Inr []
          else Inr [\<lparr>lur_TxId = recSha s (tr_rec (cr_TxRecord c)), lur_Vout = cr_OutputIndex c,
            lur_Address = (case addrs of [] \<Rightarrow> [] | a # _ \<Rightarrow> EncodeAddress env a), lur_Account = Name (KeyStore x),
            lur_ScriptPubKey = PkScript out, lur_Amount = Value out, lur_Confirmations = scast confs\<rparr>])"

definition ListUnspent :: "wenv \<Rightarrow> i64 \<Rightarrow> i64 \<Rightarrow> string list \<Rightarrow> ListUnspentResult list wact" where
  "ListUnspent env minconf maxconf addresses =
     bindE (client_BlockStamp env) (\<lambda>bs. liftE (\<lambda>w.
       map_sum id concat (mapE (\<lambda>a. case SortedUnspentOutputs (TxStore (acct w a)) of
           Inl e \<Rightarrow> Inl e
         | Inr us \<Rightarrow> map_sum id concat (mapE (listed env (acct w a) (bs_Height bs) minconf maxconf addresses) us))
         (AllAccounts w))))"

text \<open>The jobs of all accounts as one; the wait for its completion is the rescan manager's.\<close>

definition RescanActiveAddresses :: "wenv \<Rightarrow> BlockStamp option \<Rightarrow> unit wact" where
  "RescanActiveAddresses env markBestBlock w =
     (case mapE (RescanActiveJob w) (AllAccounts w) of
        Inl e \<Rightarrow> (Inl e, w)
      | Inr [] \<Rightarrow> (Inr (), w)
      | Inr (j # js) \<Rightarrow>
          bindE (case markBestBlock of
              None \<Rightarrow> retE ()
            | Some bs \<Rightarrow>
                (case filter (\<lambda>a. acct_name (acct w a) = []) (AllAccounts w) of
                   [] \<Rightarrow> failE nil_panic
                 | a # as \<Rightarrow> onKeys (last (a # as)) (modifyE (SetSyncedWith (Some bs))))) (\<lambda>_.
            modifyE (\<lambda>w. w\<lparr>w_jobs := w_jobs w @ [foldl job_Merge j js]\<rparr>)) w)"

end
