(* ===== verification/Wt_Client.thy ===== *)
theory Wt_Client
  imports Wt_Manager
begin

text \<open>
  \<open>src/rpcclient.go\<close>: the notifications of the chain server, the queue they wait in, and the handshake with a newly
  connected chain server. The client that a notification arrives at is the one of the world. What a notification
  reports to the rescan manager is the result of its handler. Marshalled notifications to wallet clients are notices.
\<close>

section \<open>Notifications\<close>

record BlockDetails =
  bd_Hash :: string
  bd_Height :: i32
  bd_Index :: i64
  bd_Time :: i64

datatype notification =
    blockConnected ShaHash i32
  | blockDisconnected ShaHash i32
  | recvTx Tx "BlockDetails option"
  | redeemingTx Tx "BlockDetails option"
  | rescanNotification rescanStatus

definition parseBlock :: "wenv \<Rightarrow> BlockDetails option \<Rightarrow> err + (Block option \<times> i64)" where
  "parseBlock env block = (case block of
     None \<Rightarrow> Inr (None, TxIndexUnknown (e_btc env))
   | Some b \<Rightarrow>
       (case NewShaHashFromStr env (bd_Hash b) of
          Inl e \<Rightarrow> Inl e
        | Inr blksha \<Rightarrow>
            Inr (Some \<lparr>block_Hash = blksha, block_Time = \<lparr>time_sec = bd_Time b, time_nsec = 0\<rparr>, block_Height = bd_Height b\<rparr>,
              bd_Index b)))"

text \<open>\<open>rpcServer.NotifyBalances\<close> of \<open>src/rpcserver.go\<close>, which stops at the first account whose balance fails.\<close>

definition NotifyBalances :: "wenv \<Rightarrow> unit wact" where
  "NotifyBalances env w = logged (forE (notifyBalances env) (AllAccounts w)) w"

definition handleBlockConnected :: "wenv \<Rightarrow> ShaHash \<Rightarrow> i32 \<Rightarrow> unit wact" where
  "handleBlockConnected env hash h =
     (let bs = \<lparr>bs_Height = h, bs_Hash = hash\<rparr> in
      bindE (modifyE (\<lambda>w. w\<lparr>w_client := Some bs\<rparr>)) (\<lambda>_.
      bindE (BlockNotify env bs) (\<lambda>_. notify (BlockConnected hash h))))"

definition handleBlockDisconnected :: "wenv \<Rightarrow> ShaHash \<Rightarrow> i32 \<Rightarrow> unit wact" where
  "handleBlockDisconnected env hash h =
     bindE (am_Rollback env h) (\<lambda>_. notify (BlockDisconnected hash h))"

text \<open>The inner loop of \<open>recvTx.handleNotification\<close>: the first address of the output that belongs to an account decides.
  The transaction is inserted once, into the store of the first account found, and \<open>txr\<close> stays the record of that store.\<close>

primrec recvAddrs :: "wenv \<Rightarrow> BlockStamp \<Rightarrow> Tx \<Rightarrow> Block option \<Rightarrow> nat \<Rightarrow> btcutilAddress list \<Rightarrow> (acref \<times> TxRecord) option \<Rightarrow>
    (acref \<times> TxRecord) option wact" where
  "recvAddrs env bs tx block i [] txr = retE txr"
| "recvAddrs env bs tx block i (addr # rest) txr = (\<lambda>w.
     case AccountByAddress env w addr of
       Inl e \<Rightarrow> recvAddrs env bs tx block i rest txr w
     | Inr a \<Rightarrow>
         bindE (case txr of
             Some x \<Rightarrow> retE x
           | None \<Rightarrow> bindE (ask (Now env)) (\<lambda>now.
               bindE (sharedTxs a (InsertTx (e_btc env) now tx block)) (\<lambda>t. retE (a, t)))) (\<lambda>(a0, t).
         bindE (liftE (\<lambda>w. HasCredit (TxStore (acct w a0)) t (of_nat i))) (\<lambda>has.
           if has then retE (Some (a0, t))
           else
             bindE (onTxs a0 (AddCredit t (of_nat i) False)) (\<lambda>cred.
             bindE (ScheduleTxStoreWrite a) (\<lambda>_.
             bindE (liftE (\<lambda>w. map_sum id (\<lambda>ltr. NewTx (Name (KeyStore (acct w a))) ltr)
               (credit_ToJSON env (TxStore (acct w a0)) (Name (KeyStore (acct w a))) (bs_Height bs)
                 (ks_net (KeyStore (acct w a))) cred))) (\<lambda>n.
             bindE (notify n) (\<lambda>_. retE (Some (a0, t)))))))) w)"

primrec recvOutputs :: "wenv \<Rightarrow> BlockStamp \<Rightarrow> Tx \<Rightarrow> Block option \<Rightarrow> nat \<Rightarrow> TxOut list \<Rightarrow> (acref \<times> TxRecord) option \<Rightarrow>
    unit wact" where
  "recvOutputs env bs tx block i [] txr = retE ()"
| "recvOutputs env bs tx block i (txout # outs) txr =
     bindE (recvAddrs env bs tx block i (PkScriptAddrs env (PkScript txout) (activeNet env)) txr) (\<lambda>txr'.
       recvOutputs env bs tx block (Suc i) outs txr')"

definition handleRecvTx :: "wenv \<Rightarrow> Tx \<Rightarrow> BlockDetails option \<Rightarrow> unit wact" where
  "handleRecvTx env tx details = (case parseBlock env details of
     Inl e \<Rightarrow> failE (InvalidNotificationError e)
   | Inr (block, txIdx) \<Rightarrow>
       bindE (orFail (ErrorString ''cannot get current block'') (client_BlockStamp env)) (\<lambda>bs.
       bindE (recvOutputs env bs (tx\<lparr>TxIndex := txIdx\<rparr>) block 0 (TxOuts (TxMsg tx)) None) (\<lambda>_.
         NotifyBalances env)))"

definition handleRedeemingTx :: "wenv \<Rightarrow> Tx \<Rightarrow> BlockDetails option \<Rightarrow> unit wact" where
  "handleRedeemingTx env tx details = (case parseBlock env details of
     Inl e \<Rightarrow> failE (InvalidNotificationError e)
   | Inr (block, txIdx) \<Rightarrow> RecordSpendingTx env (tx\<lparr>TxIndex := txIdx\<rparr>) block)"

fun handleNotification :: "wenv \<Rightarrow> notification \<Rightarrow> rescanStatus list wact" where
  "handleNotification env (blockConnected hash h) = bindE (handleBlockConnected env hash h) (\<lambda>_. retE [])"
| "handleNotification env (blockDisconnected hash h) = bindE (handleBlockDisconnected env hash h) (\<lambda>_. retE [])"
| "handleNotification env (recvTx tx block) = bindE (handleRecvTx env tx block) (\<lambda>_. retE [])"
| "handleNotification env (redeemingTx tx block) = bindE (handleRedeemingTx env tx block) (\<lambda>_. retE [])"
| "handleNotification env (rescanNotification x) = retE [x]"

text \<open>The loop over the queue; an error is logged and the next notification handled.\<close>

primrec handleNotifications :: "wenv \<Rightarrow> notification list \<Rightarrow> rescanStatus list wact" where
  "handleNotifications env [] = retE []"
| "handleNotifications env (n # ns) = (\<lambda>w. case handleNotification env n w of
     (Inl e, w') \<Rightarrow> if isPanic e then (Inl e, w') else handleNotifications env ns w'
   | (Inr xs, w') \<Rightarrow> bindE (handleNotifications env ns) (\<lambda>ys. retE (xs @ ys)) w')"

section \<open>The queue\<close>

text \<open>The variables of \<open>notificationQueue\<close>: whether its two channel variables are set, the next element to send and the
  waiting ones. A goroutine that has left its loop is \<open>qu_done\<close>.\<close>

record 'n queue =
  qu_q :: "'n list"
  qu_next :: "'n option"
  qu_enqueue :: bool
  qu_dequeue :: bool
  qu_done :: bool

definition newQueue :: "'n queue" where
  "newQueue = \<lparr>qu_q = [], qu_next = None, qu_enqueue = True, qu_dequeue = False, qu_done = False\<rparr>"

text \<open>\<open>case n, ok := <-enqueue\<close>; \<^term>\<open>None\<close> is the closed channel.\<close>

definition queue_receive :: "'n option \<Rightarrow> 'n queue \<Rightarrow> 'n queue" where
  "queue_receive msg s = (case msg of
     None \<Rightarrow> if qu_q s = [] then s\<lparr>qu_done := True\<rparr> else s\<lparr>qu_enqueue := False\<rparr>
   | Some n \<Rightarrow>
       let s' = (if qu_q s = [] then s\<lparr>qu_next := Some n, qu_dequeue := True\<rparr> else s) in
       s'\<lparr>qu_q := qu_q s @ [n]\<rparr>)"

text \<open>\<open>case dequeue <- next\<close>\<close>

definition queue_sent :: "'n queue \<Rightarrow> 'n queue" where
  "queue_sent s =
     (let q = tl (qu_q s) in
      if q \<noteq> [] then s\<lparr>qu_q := q, qu_next := Some (hd q)\<rparr>
      else if \<not> qu_enqueue s then s\<lparr>qu_q := q, qu_done := True\<rparr>
      else s\<lparr>qu_q := q, qu_dequeue := False\<rparr>)"

section \<open>The handshake\<close>

text \<open>The saved blocks from the newest to the oldest, until the chain server knows one; its position and block.\<close>

fun searchBlock :: "wenv \<Rightarrow> acref \<Rightarrow> nat \<Rightarrow> (nat \<times> BlockStamp) option wact" where
  "searchBlock env a i =
     bindE (liftE (\<lambda>w. iter_BlockStamp (ks_recent (KeyStore (acct w a))) (int i))) (\<lambda>bs. \<lambda>w.
       case askE (\<lambda>n. GetBlock env n (bs_Hash bs)) w of
         (Inr _, w') \<Rightarrow> (Inr (Some (i, bs)), w')
       | (Inl _, w') \<Rightarrow> (case i of 0 \<Rightarrow> (Inr None, w') | Suc j \<Rightarrow> searchBlock env a j w'))"

definition catchUp :: "wenv \<Rightarrow> BlockStamp option \<Rightarrow> unit wact" where
  "catchUp env mark =
     bindE (am_Track env) (\<lambda>_.
     bindE (RescanActiveAddresses env mark) (\<lambda>_.
     bindE (am_Track env) (\<lambda>_. am_ResendUnminedTxs env)))"

definition rollbackAfter :: "wenv \<Rightarrow> acref \<Rightarrow> nat \<Rightarrow> unit wact" where
  "rollbackAfter env a i w =
     (let rb = ks_recent (KeyStore (acct w a)) in
      case iter_Next rb (int i) of
        (False, _) \<Rightarrow> (Inr (), w)
      | (True, j) \<Rightarrow> bindE (liftE (\<lambda>_. iter_BlockStamp rb j)) (\<lambda>bs. am_Rollback env (bs_Height bs)) w)"

definition Handshake :: "wenv \<Rightarrow> unit wact" where
  "Handshake env =
     bindE (askE (GetCurrentNet env)) (\<lambda>net.
     if net \<noteq> Net (activeNet env) then failE ErrMismatchedNets
     else
       bindE (send env NotifyBlocks) (\<lambda>_.
       bindE (client_BlockStamp env) (\<lambda>bs.
       bindE (notify (NewBlockChainHeight bs)) (\<lambda>_.
       bindE (NotifyBalances env) (\<lambda>_. \<lambda>w.
         case am_Account w [] of
           Inl e \<Rightarrow> (Inr (), w)
         | Inr a \<Rightarrow>
             bindE (case NewIterator (ks_recent (KeyStore (acct w a))) of
                 None \<Rightarrow> retE None
               | Some i \<Rightarrow> searchBlock env a (nat i)) (\<lambda>found.
             case found of
               Some (i, matched) \<Rightarrow>
                 bindE (rollbackAfter env a i) (\<lambda>_.
                 bindE (onKeys a (modifyE (SetSyncedWith (Some matched)))) (\<lambda>_. catchUp env None))
             | None \<Rightarrow> catchUp env (Some bs)) w)))))"

end
