(* ===== verification/Wt_Rpc.thy ===== *)
theory Wt_Rpc
  imports Wt_Client
begin

text \<open>
  \<open>src/rpcserver.go\<close>: the handlers of requests to accounts. A handler gets the fields of its command as arguments; the
  type assertion of the command has been made by the caller, which knows the command. Errors of \<open>btcjson\<close> are
  \<open>RPCError\<close> with their names. Amounts and hashes are replied as values, the arguments of \<open>ToUnit\<close> and \<open>String\<close>.
\<close>

section \<open>Replies and errors\<close>

datatype reply =
    ReplyNil
  | ReplyBool bool
  | ReplyString string
  | ReplyName bytes
  | ReplyAmount Amount
  | ReplyHash ShaHash
  | ReplyStrings "string list"
  | ReplyFiles "(string, string) gomap"
  | ReplyAccounts "(string, Amount) gomap"
  | ReplyOutPoints "OutPoint list"
  | ReplyTxs "ListTransactionsResult list"
  | ReplyUnspent "ListUnspentResult list"
  | ReplySince "ListTransactionsResult list" ShaHash
  | ReplyMultiSig string string
  | ReplyInfo bytes Amount Amount

definition ErrNeedPositiveAmount :: err where
  "ErrNeedPositiveAmount = InvalidParameterError (ErrorString ''amount must be positive'')"

definition ErrNeedPositiveMinconf :: err where
  "ErrNeedPositiveMinconf = InvalidParameterError (ErrorString ''minconf must be positive'')"

definition ErrAddressNotInWallet :: err where
  "ErrAddressNotInWallet = InvalidAddressOrKeyError (ErrorString ''address not found in wallet'')"

text \<open>The code of an error in the reply, by the name of the error of \<open>btcjson\<close> that has it.\<close>

definition responseCode :: "err \<Rightarrow> string" where
  "responseCode e = (case e of
     RPCError code \<Rightarrow> code
   | DeserializationError _ \<Rightarrow> ''ErrDeserialization''
   | InvalidParameterError _ \<Rightarrow> ''ErrInvalidParameter''
   | ParseError _ \<Rightarrow> ''ErrParse''
   | InvalidAddressOrKeyError _ \<Rightarrow> ''ErrInvalidAddressOrKey''
   | _ \<Rightarrow> ''ErrWallet'')"

text \<open>Another error in place of some; panics stay.\<close>

definition mapErr :: "(err \<Rightarrow> err) \<Rightarrow> ('s, err, 'a) act \<Rightarrow> ('s, err, 'a) act" where
  "mapErr f m s = (case m s of
     (Inl e, s') \<Rightarrow> (Inl (if isPanic e then e else f e), s')
   | (Inr a, s') \<Rightarrow> (Inr a, s'))"

definition unlockNeeded :: "err \<Rightarrow> err" where
  "unlockNeeded e = (if e = ErrLocked then RPCError ''ErrWalletUnlockNeeded'' else e)"

text \<open>The account of a request.\<close>

definition requestAccount :: "string \<Rightarrow> acref wact" where
  "requestAccount name = mapErr (\<lambda>e. if e = ErrNotFound then RPCError ''ErrWalletInvalidAccountName'' else e)
     (liftE (\<lambda>w. am_Account w name))"

definition decodeAddr :: "wenv \<Rightarrow> err \<Rightarrow> string \<Rightarrow> btcutilAddress wact" where
  "decodeAddr env e s = orFail e (liftE (\<lambda>_. DecodeAddress env s))"

section \<open>Hexadecimal\<close>

definition hexDigit :: "nat \<Rightarrow> char" where
  "hexDigit n = (if n < 10 then char_of (48 + n) else char_of (87 + n))"

definition hexEncode :: "bytes \<Rightarrow> string" where
  "hexEncode bs = concat (map (\<lambda>b. [hexDigit (unat b div 16), hexDigit (unat b mod 16)]) bs)"

definition hexValue :: "char \<Rightarrow> nat option" where
  "hexValue c = (let n = of_char c :: nat in
     if 48 \<le> n \<and> n \<le> 57 then Some (n - 48)
     else if 97 \<le> n \<and> n \<le> 102 then Some (n - 87)
     else if 65 \<le> n \<and> n \<le> 70 then Some (n - 55)
     else None)"

fun hexDecode :: "string \<Rightarrow> err + bytes" where
  "hexDecode [] = Inr []"
| "hexDecode [c] = Inl (ErrorString ''odd length hex string'')"
| "hexDecode (a # b # cs) = (case (hexValue a, hexValue b) of
     (Some x, Some y) \<Rightarrow> map_sum id (Cons (of_nat (16 * x + y))) (hexDecode cs)
   | _ \<Rightarrow> Inl (ErrorString ''invalid byte''))"

definition decodeHexStr :: "string \<Rightarrow> err + bytes" where
  "decodeHexStr s = hexDecode (if odd (length s) then CHR ''0'' # s else s)"

section \<open>Addresses and keys\<close>

text \<open>\<open>btcAddress.ExportPubKey\<close>\<close>

definition ExportPubKey :: "wenv \<Rightarrow> btcAddress \<Rightarrow> string" where
  "ExportPubKey env a = hexEncode (pubKeyBytes (e_ks env) a)"

text \<open>The keys of a multi-signature script. \<^term>\<open>None\<close> is the early return of no script and no error for an address that
  is neither a key nor the hash of one.\<close>

fun multiSigKeys :: "wenv \<Rightarrow> World \<Rightarrow> string list \<Rightarrow> btcutilAddress list \<Rightarrow> err + btcutilAddress list option" where
  "multiSigKeys env w [] acc = Inr (Some acc)"
| "multiSigKeys env w (k # ks) acc = (case DecodeAddress env k of
     Inl e \<Rightarrow> Inl e
   | Inr (AddressPubKey p) \<Rightarrow> multiSigKeys env w ks (acc @ [AddressPubKey p])
   | Inr (AddressPubKeyHash h) \<Rightarrow>
       (case am_Address env w (AddressPubKeyHash h) of
          Inl e \<Rightarrow> Inl e
        | Inr (a, r) \<Rightarrow>
            (case asBtc (aget (KeyStore (acct w a)) r) of
               None \<Rightarrow> Inl (Panic ''interface conversion'')
             | Some b \<Rightarrow>
                 (case DecodeAddress env (ExportPubKey env b) of
                    Inl e \<Rightarrow> Inl e
                  | Inr (AddressPubKey p) \<Rightarrow> multiSigKeys env w ks (acc @ [AddressPubKey p])
                  | Inr _ \<Rightarrow> Inl (Panic ''interface conversion''))))
   | Inr (AddressScriptHash h) \<Rightarrow> Inr None)"

definition makeMultiSigScript :: "wenv \<Rightarrow> string list \<Rightarrow> i64 \<Rightarrow> bytes wact" where
  "makeMultiSigScript env keys nRequired = liftE (\<lambda>w. case multiSigKeys env w keys [] of
     Inl e \<Rightarrow> Inl e
   | Inr None \<Rightarrow> Inr []
   | Inr (Some ks) \<Rightarrow> MultiSigScript env ks nRequired)"

definition rpc_AddMultiSigAddress :: "wenv \<Rightarrow> string \<Rightarrow> string list \<Rightarrow> i64 \<Rightarrow> reply wact" where
  "rpc_AddMultiSigAddress env account keys nRequired =
     bindE (requestAccount account) (\<lambda>a.
     bindE (mapErr ParseError (makeMultiSigScript env keys nRequired)) (\<lambda>script.
     bindE (onKeys a (ImportScript (e_ks env) script \<lparr>bs_Height = 0, bs_Hash = 0\<rparr>)) (\<lambda>addr.
     bindE (ScheduleWalletWrite a) (\<lambda>_.
     bindE (orFail (ErrorString ''account write failed'') (FlushAccount env a)) (\<lambda>_.
     bindE (modifyE (MarkAddressForAccount env (AddressScriptHash addr) a)) (\<lambda>_.
       retE (ReplyString (EncodeAddress env (AddressScriptHash addr)))))))))"

definition rpc_CreateMultiSig :: "wenv \<Rightarrow> string list \<Rightarrow> i64 \<Rightarrow> reply wact" where
  "rpc_CreateMultiSig env keys nRequired =
     bindE (mapErr ParseError (makeMultiSigScript env keys nRequired)) (\<lambda>script.
     bindE (liftE (\<lambda>_. NewAddressScriptHash env script (activeNet env))) (\<lambda>addr.
       retE (ReplyMultiSig (EncodeAddress env addr) (hexEncode script))))"

definition rpc_DumpPrivKey :: "wenv \<Rightarrow> string \<Rightarrow> reply wact" where
  "rpc_DumpPrivKey env address =
     bindE (decodeAddr env (RPCError ''ErrInvalidAddressOrKey'') address) (\<lambda>addr.
     bindE (mapErr unlockNeeded (am_DumpWIFPrivateKey env addr)) (\<lambda>key. retE (ReplyString key)))"

definition rpc_DumpWallet :: "wenv \<Rightarrow> reply wact" where
  "rpc_DumpWallet env = bindE (mapErr unlockNeeded (DumpKeys env)) (\<lambda>keys. retE (ReplyStrings keys))"

definition rpc_ExportWatchingWallet :: "wenv \<Rightarrow> string \<Rightarrow> bool \<Rightarrow> reply wact" where
  "rpc_ExportWatchingWallet env account download =
     bindE (requestAccount account) (\<lambda>a.
     bindE (liftE (\<lambda>w. acct_ExportWatchingWallet (acct w a))) (\<lambda>wa.
       if download then liftE (\<lambda>_. map_sum id ReplyFiles (exportBase64 env wa))
       else bindE (ExportToDirectory env wa ''watchingwallet'') (\<lambda>_. retE ReplyNil)))"

definition rpc_GetAddressesByAccount :: "wenv \<Rightarrow> string \<Rightarrow> reply wact" where
  "rpc_GetAddressesByAccount env account =
     bindE (requestAccount account) (\<lambda>a.
       liftE (\<lambda>w. map_sum id ReplyStrings (SortedActivePaymentAddresses env (acct w a))))"

definition rpc_GetAccount :: "wenv \<Rightarrow> string \<Rightarrow> reply wact" where
  "rpc_GetAccount env address =
     bindE (decodeAddr env (RPCError ''ErrInvalidAddressOrKey'') address) (\<lambda>addr.
     if \<not> IsForNet env addr (activeNet env) then failE (RPCError ''ErrInvalidAddressOrKey'')
     else
       bindE (mapErr (\<lambda>e. if e = ErrNotFound then ErrAddressNotInWallet else e) (liftE (\<lambda>w. AccountByAddress env w addr))) (\<lambda>a.
         liftE (\<lambda>w. Inr (ReplyName (Name (KeyStore (acct w a)))))))"

definition rpc_GetAccountAddress :: "wenv \<Rightarrow> string \<Rightarrow> reply wact" where
  "rpc_GetAccountAddress env account =
     bindE (requestAccount account) (\<lambda>a.
     bindE (mapErr (\<lambda>e. if e = ErrLocked then RPCError ''ErrWalletKeypoolRanOut'' else e) (CurrentAddress env a)) (\<lambda>addr.
       retE (ReplyString (EncodeAddress env addr))))"

definition rpc_GetNewAddress :: "wenv \<Rightarrow> string \<Rightarrow> reply wact" where
  "rpc_GetNewAddress env account =
     bindE (requestAccount account) (\<lambda>a.
     bindE (NewAddress env a) (\<lambda>addr. retE (ReplyString (EncodeAddress env addr))))"

definition rpc_GetRawChangeAddress :: "wenv \<Rightarrow> string \<Rightarrow> reply wact" where
  "rpc_GetRawChangeAddress env account =
     bindE (requestAccount account) (\<lambda>a.
     bindE (NewChangeAddress env a) (\<lambda>addr. retE (ReplyString (EncodeAddress env addr))))"

definition rpc_RecoverAddresses :: "wenv \<Rightarrow> string \<Rightarrow> i64 \<Rightarrow> reply wact" where
  "rpc_RecoverAddresses env account n =
     bindE (requestAccount account) (\<lambda>a. bindE (RecoverAddresses env a n) (\<lambda>_. retE ReplyNil))"

definition rpc_ImportPrivKey :: "wenv \<Rightarrow> string \<Rightarrow> string \<Rightarrow> bool \<Rightarrow> reply wact" where
  "rpc_ImportPrivKey env label privKey rescan =
     bindE (requestAccount label) (\<lambda>a.
     bindE (orFail (RPCError ''ErrInvalidAddressOrKey'') (liftE (\<lambda>_. DecodeWIF env privKey))) (\<lambda>wif.
     if \<not> WifIsForNet env wif (activeNet env) then failE (RPCError ''ErrInvalidAddressOrKey'')
     else (\<lambda>w. case acct_ImportPrivateKey env a wif \<lparr>bs_Height = 0, bs_Hash = 0\<rparr> rescan w of
         (Inr _, w') \<Rightarrow> (Inr ReplyNil, w')
       | (Inl e, w') \<Rightarrow> if e = ErrDuplicate then (Inr ReplyNil, w') else (Inl (unlockNeeded e), w'))))"

section \<open>Balances\<close>

definition rpc_GetBalance :: "wenv \<Rightarrow> string \<Rightarrow> i64 \<Rightarrow> reply wact" where
  "rpc_GetBalance env account minConf =
     bindE (mapErr (\<lambda>e. if e = ErrNotFound then RPCError ''ErrWalletInvalidAccountName'' else e)
       (am_CalculateBalance env account minConf)) (\<lambda>bal. retE (ReplyAmount bal))"

definition rpc_GetAddressBalance :: "wenv \<Rightarrow> string \<Rightarrow> i64 \<Rightarrow> reply wact" where
  "rpc_GetAddressBalance env address minConf =
     bindE (decodeAddr env (RPCError ''ErrInvalidAddressOrKey'') address) (\<lambda>addr.
     bindE (orFail ErrAddressNotInWallet (liftE (\<lambda>w. AccountByAddress env w addr))) (\<lambda>a.
     bindE (CalculateAddressBalance env a addr minConf) (\<lambda>bal. retE (ReplyAmount bal))))"

definition rpc_GetUnconfirmedBalance :: "wenv \<Rightarrow> string \<Rightarrow> reply wact" where
  "rpc_GetUnconfirmedBalance env account =
     bindE (requestAccount account) (\<lambda>a.
     bindE (CalculateBalance env a 0) (\<lambda>unconfd.
     bindE (CalculateBalance env a 1) (\<lambda>confd. retE (ReplyAmount (unconfd - confd)))))"

definition rpc_GetReceivedByAccount :: "wenv \<Rightarrow> string \<Rightarrow> i64 \<Rightarrow> reply wact" where
  "rpc_GetReceivedByAccount env account minConf =
     bindE (requestAccount account) (\<lambda>a. bindE (TotalReceived env a minConf) (\<lambda>bal. retE (ReplyAmount bal)))"

definition rpc_ListAccounts :: "wenv \<Rightarrow> i64 \<Rightarrow> reply wact" where
  "rpc_ListAccounts env minConf = bindE (ListAccounts env minConf) (\<lambda>m. retE (ReplyAccounts m))"

text \<open>The balance of an account that fails is left out of the total; the increment is the default account's.\<close>

definition balanceOr0 :: "wenv \<Rightarrow> acref \<Rightarrow> Amount wact" where
  "balanceOr0 env a w = (case CalculateBalance env a 1 w of
     (Inl e, w') \<Rightarrow> (if isPanic e then Inl e else Inr 0, w')
   | (Inr bal, w') \<Rightarrow> (Inr bal, w'))"

definition rpc_GetInfo :: "wenv \<Rightarrow> reply wact" where
  "rpc_GetInfo env =
     bindE accessClient (\<lambda>_.
     bindE (askE (GetInfo env)) (\<lambda>info. \<lambda>w.
       bindE (mapA (balanceOr0 env) (AllAccounts w)) (\<lambda>bals. liftE (\<lambda>w.
         Inr (ReplyInfo info (sum_list bals)
           (fold (\<lambda>a incr. if acct_name (acct w a) = [] then FeeIncrement (acct w a) else incr) (AllAccounts w) 0)))) w))"

section \<open>Lists\<close>

definition rpc_ListLockUnspent :: "reply wact" where
  "rpc_ListLockUnspent =
     bindE (liftE (\<lambda>w. am_Account w [])) (\<lambda>a. liftE (\<lambda>w. Inr (ReplyOutPoints (LockedOutpoints (acct w a)))))"

definition rpc_ListSinceBlock :: "wenv \<Rightarrow> string \<Rightarrow> i64 \<Rightarrow> reply wact" where
  "rpc_ListSinceBlock env blockHash targetConfirmations =
     bindE accessClient (\<lambda>_.
     bindE (if blockHash = [] then retE (- 1)
       else bindE (mapErr DeserializationError (liftE (\<lambda>_. NewShaHashFromStr env blockHash))) (\<lambda>hash.
         bindE (askE (\<lambda>n. GetBlock env n hash)) (\<lambda>blockHeight. retE (ucast blockHeight)))) (\<lambda>since.
     bindE (client_BlockStamp env) (\<lambda>bs.
     bindE (liftE (\<lambda>w. am_ListSinceBlock env w since (bs_Height bs) targetConfirmations)) (\<lambda>infos.
     bindE (askE (\<lambda>n. GetBlockHash env n (scast (bs_Height bs) + 1 - targetConfirmations))) (\<lambda>lastBlock.
       retE (ReplySince infos lastBlock))))))"

definition rpc_ListTransactions :: "wenv \<Rightarrow> string \<Rightarrow> i64 \<Rightarrow> i64 \<Rightarrow> reply wact" where
  "rpc_ListTransactions env account from cnt =
     bindE (requestAccount account) (\<lambda>a. bindE (ListTransactions env a from cnt) (\<lambda>r. retE (ReplyTxs r)))"

definition pkHashOf :: "wenv \<Rightarrow> string \<Rightarrow> err + bytes" where
  "pkHashOf env s = (case DecodeAddress env s of
     Inr (AddressPubKeyHash h) \<Rightarrow>
       if IsForNet env (AddressPubKeyHash h) (activeNet env) then Inr (ScriptAddress h)
       else Inl (RPCError ''ErrInvalidAddressOrKey'')
   | _ \<Rightarrow> Inl (RPCError ''ErrInvalidAddressOrKey''))"

definition rpc_ListAddressTransactions :: "wenv \<Rightarrow> string \<Rightarrow> string list \<Rightarrow> reply wact" where
  "rpc_ListAddressTransactions env account addresses =
     bindE (requestAccount account) (\<lambda>a.
     bindE (liftE (\<lambda>_. mapE (pkHashOf env) addresses)) (\<lambda>pkHashes.
     bindE (ListAddressTransactions env a pkHashes) (\<lambda>r. retE (ReplyTxs r))))"

definition rpc_ListAllTransactions :: "wenv \<Rightarrow> string \<Rightarrow> reply wact" where
  "rpc_ListAllTransactions env account =
     bindE (requestAccount account) (\<lambda>a. bindE (ListAllTransactions env a) (\<lambda>r. retE (ReplyTxs r)))"

fun goodAddresses :: "wenv \<Rightarrow> string list \<Rightarrow> string list \<Rightarrow> err + string list" where
  "goodAddresses env [] acc = Inr acc"
| "goodAddresses env (s # ss) acc = (case DecodeAddress env s of
     Inl e \<Rightarrow> Inl (RPCError ''ErrInvalidAddressOrKey'')
   | Inr a \<Rightarrow>
       if EncodeAddress env a \<in> set acc then Inl (RPCError ''ErrInvalidParameter'')
       else goodAddresses env ss (acc @ [EncodeAddress env a]))"

definition rpc_ListUnspent :: "wenv \<Rightarrow> i64 \<Rightarrow> i64 \<Rightarrow> string list \<Rightarrow> reply wact" where
  "rpc_ListUnspent env minConf maxConf addresses =
     bindE (liftE (\<lambda>_. goodAddresses env addresses [])) (\<lambda>good.
     bindE (ListUnspent env minConf maxConf good) (\<lambda>r. retE (ReplyUnspent r)))"

section \<open>Locked outputs and fees\<close>

definition lockInput :: "wenv \<Rightarrow> acref \<Rightarrow> bool \<Rightarrow> string \<times> u32 \<Rightarrow> unit wact" where
  "lockInput env a unlockIt input =
     bindE (mapErr ParseError (liftE (\<lambda>_. NewShaHashFromStr env (fst input)))) (\<lambda>txSha.
       let op = \<lparr>OpHash = txSha, OpIndex = snd input\<rparr> in
       onAcct a (modifyE (if unlockIt then UnlockOutpoint op else LockOutpoint op)))"

definition rpc_LockUnspent :: "wenv \<Rightarrow> bool \<Rightarrow> (string \<times> u32) list \<Rightarrow> reply wact" where
  "rpc_LockUnspent env unlockThem transactions =
     bindE (liftE (\<lambda>w. am_Account w [])) (\<lambda>a.
     bindE (if unlockThem \<and> transactions = [] then onAcct a (modifyE ResetLockedOutpoints)
       else forE (lockInput env a unlockThem) transactions) (\<lambda>_.
       retE (ReplyBool True)))"

definition rpc_SetTxFee :: "i64 \<Rightarrow> reply wact" where
  "rpc_SetTxFee amount =
     (if amount <s 0 then failE ErrNeedPositiveAmount
      else
        bindE (orFail ErrNoAccounts (liftE (\<lambda>w. am_Account w []))) (\<lambda>a.
        bindE (onAcct a (modifyE (\<lambda>x. x\<lparr>FeeIncrement := amount\<rparr>))) (\<lambda>_. retE (ReplyBool True))))"

section \<open>Payments\<close>

definition notifyTxs :: "bytes \<Rightarrow> ListTransactionsResult list \<Rightarrow> unit wact" where
  "notifyTxs name ltr = forE (\<lambda>details. notify (NewTx name details)) ltr"

definition handleSendRawTxReply :: "wenv \<Rightarrow> acref \<Rightarrow> CreatedTx \<Rightarrow> unit wact" where
  "handleSendRawTxReply env a txInfo =
     bindE (ask (Now env)) (\<lambda>now.
     bindE (orFail (RPCError ''ErrInternal'') (onTxs a (InsertTx (e_btc env) now (ctx_tx txInfo) None))) (\<lambda>txr.
     bindE (orFail (RPCError ''ErrInternal'') (onTxs a (AddDebits txr (ctx_inputs txInfo)))) (\<lambda>debits.
     bindE (ScheduleTxStoreWrite a) (\<lambda>_.
     bindE accessClient (\<lambda>_.
     bindE (\<lambda>w. case client_BlockStamp env w of
         (Inl e, w') \<Rightarrow> (if isPanic e then Inl e else Inr (), w')
       | (Inr bs, w') \<Rightarrow>
           bindE (orFail (RPCError ''ErrInternal'') (liftE (\<lambda>w. debit_ToJSON env (TxStore (acct w a))
             (Name (KeyStore (acct w a))) (bs_Height bs) (ks_net (KeyStore (acct w a))) debits))) (\<lambda>ltr. \<lambda>w.
             notifyTxs (Name (KeyStore (acct w a))) ltr w) w') (\<lambda>_.
     bindE (FlushAccount env a) (\<lambda>_.
       notifyBalances env a)))))))"

definition sendError :: "err \<Rightarrow> err" where
  "sendError e = (if e = ErrNonPositiveAmount then ErrNeedPositiveAmount else unlockNeeded e)"

definition sendPairs :: "wenv \<Rightarrow> string \<Rightarrow> (string, Amount) gomap \<Rightarrow> i64 \<Rightarrow> reply wact" where
  "sendPairs env account amounts minconf =
     bindE accessClient (\<lambda>_.
     bindE (orFail (RPCError ''ErrWalletInvalidAccountName'') (liftE (\<lambda>w. am_Account w account))) (\<lambda>a.
     bindE (mapErr sendError (txToPairs env a amounts minconf)) (\<lambda>createdTx.
     bindE (case ctx_changeAddr createdTx of
         None \<Rightarrow> retE ()
       | Some addr \<Rightarrow>
           bindE (ScheduleWalletWrite a) (\<lambda>_.
           bindE (orFail (ErrorString ''Cannot write account'') (FlushAccount env a)) (\<lambda>_.
           bindE (send env (NotifyReceived [addr])) (\<lambda>_. retE ())))) (\<lambda>_.
     bindE (send env (SendRawTransaction (TxMsg (ctx_tx createdTx)))) (\<lambda>txSha.
     bindE (handleSendRawTxReply env a createdTx) (\<lambda>_.
       retE (ReplyHash txSha)))))))"

definition rpc_SendFrom :: "wenv \<Rightarrow> string \<Rightarrow> string \<Rightarrow> i64 \<Rightarrow> i64 \<Rightarrow> reply wact" where
  "rpc_SendFrom env fromAccount toAddress amount minConf =
     (if amount <s 0 then failE ErrNeedPositiveAmount
      else if minConf <s 0 then failE ErrNeedPositiveMinconf
      else sendPairs env fromAccount [(toAddress, amount)] minConf)"

definition rpc_SendMany :: "wenv \<Rightarrow> string \<Rightarrow> (string, i64) gomap \<Rightarrow> i64 \<Rightarrow> reply wact" where
  "rpc_SendMany env fromAccount amounts minConf =
     (if minConf <s 0 then failE ErrNeedPositiveMinconf else sendPairs env fromAccount amounts minConf)"

definition rpc_SendToAddress :: "wenv \<Rightarrow> string \<Rightarrow> i64 \<Rightarrow> reply wact" where
  "rpc_SendToAddress env address amount =
     (if amount <s 0 then failE ErrNeedPositiveAmount else sendPairs env [] [(address, amount)] 1)"

section \<open>Wallets\<close>

definition rpc_CreateEncryptedWallet :: "wenv \<Rightarrow> string \<Rightarrow> reply wact" where
  "rpc_CreateEncryptedWallet env passphrase =
     bindE (mapErr (\<lambda>e. if e = ErrWalletExists then RPCError ''ErrWalletInvalidAccountName'' else e)
       (CreateEncryptedWallet env (stringBytes passphrase))) (\<lambda>_. retE ReplyNil)"

definition rpc_WalletIsLocked :: "reply wact" where
  "rpc_WalletIsLocked = liftE (\<lambda>w. Inr (ReplyBool (\<not> w_unlocked w)))"

definition rpc_WalletLock :: "reply wact" where
  "rpc_WalletLock = bindE LockWallets (\<lambda>_. retE ReplyNil)"

text \<open>The time-out is \<open>time.Second * time.Duration(cmd.Timeout)\<close>, in nanoseconds.\<close>

definition rpc_WalletPassphrase :: "wenv \<Rightarrow> string \<Rightarrow> i64 \<Rightarrow> reply wact" where
  "rpc_WalletPassphrase env passphrase timeout =
     bindE (UnlockWallets env (stringBytes passphrase) (unat (1000000000 * timeout))) (\<lambda>_. retE ReplyNil)"

definition rpc_WalletPassphraseChange :: "wenv \<Rightarrow> string \<Rightarrow> string \<Rightarrow> reply wact" where
  "rpc_WalletPassphraseChange env old new =
     bindE (mapErr (\<lambda>e. if e = ErrWrongPassphrase then RPCError ''ErrWalletPassphraseIncorrect'' else e)
       (am_ChangePassphrase env (stringBytes old) (stringBytes new))) (\<lambda>_. retE ReplyNil)"

text \<open>The shutdown that \<open>Stop\<close> starts is outside of the wallet.\<close>

definition rpc_Stop :: "reply wact" where
  "rpc_Stop = retE (ReplyString ''btcwallet stopping.'')"

end
