(* ===== verification/Wt_RpcTx.thy ===== *)
theory Wt_RpcTx
  imports Wt_Rpc
begin

text \<open>
  \<open>src/rpcserver.go\<close>, continued: the handlers with results of their own, those that sign, and the choice of a handler.
  \<open>btcscript.SignTxOutput\<close> calls back into the wallet for keys and scripts; it is the parameter \<open>sto\<close> and gets the two
  closures as actions.
\<close>

record GetTransactionDetails =
  gd_Account :: string
  gd_Address :: string
  gd_Category :: string
  gd_Amount :: Amount
  gd_Fee :: Amount

record GetTransactionResult =
  gt_Amount :: Amount
  gt_Fee :: Amount
  gt_Confirmations :: i64
  gt_BlockHash :: "ShaHash option"
  gt_BlockIndex :: i64
  gt_BlockTime :: i64
  gt_TxID :: ShaHash
  gt_Time :: i64
  gt_Details :: "GetTransactionDetails list"
  gt_Hex :: string

record ListReceivedByAddressResult =
  lra_Account :: string
  lra_Address :: string
  lra_Amount :: Amount
  lra_Confirmations :: u64

record ValidateAddressResult =
  va_IsValid :: bool
  va_Address :: string
  va_IsMine :: bool
  va_Account :: string
  va_IsCompressed :: bool
  va_PubKey :: string
  va_IsScript :: bool
  va_Addresses :: "Address list"
  va_Hex :: string
  va_Script :: string
  va_SigsRequired :: i32

datatype result =
    Reply reply
  | ReplyTx GetTransactionResult
  | ReplyReceived "ListReceivedByAddressResult list"
  | ReplyValid ValidateAddressResult
  | ReplySigned string bool

section \<open>Transactions\<close>

definition txCredit :: "wenv \<Rightarrow> World \<Rightarrow> BlockStamp \<Rightarrow> acref \<Rightarrow> Amount \<times> string \<times> GetTransactionDetails list \<Rightarrow> Credit \<Rightarrow>
    err + (Amount \<times> string \<times> GetTransactionDetails list)" where
  "txCredit env w bs a acc c = (case acc of (received, target, details) \<Rightarrow>
     let s = TxStore (acct w a) in
     case Change s c of
       Inl e \<Rightarrow> Inl e
     | Inr True \<Rightarrow> Inr acc
     | Inr False \<Rightarrow>
         (case AmountOf s c of
            Inl e \<Rightarrow> Inl e
          | Inr v \<Rightarrow>
              (case creditAddrs env s c of
                 Inl e \<Rightarrow> Inl e
               | Inr as \<Rightarrow>
                   let addr = (case as of [x] \<Rightarrow> EncodeAddress env x | _ \<Rightarrow> []) in
                   Inr (received + v, if target = [] then addr else target, details @
                     [\<lparr>gd_Account = acct_name (acct w a), gd_Address = addr,
                       gd_Category = category_String (Category (e_btc env) c (bs_Height bs)), gd_Amount = v, gd_Fee = 0\<rparr>]))))"

text \<open>What \<open>GetTransaction\<close> gathers from the records: the amount received, the target, the details and the last record
  with debits.\<close>

definition txEntry :: "wenv \<Rightarrow> World \<Rightarrow> BlockStamp \<Rightarrow>
    (Amount \<times> string \<times> GetTransactionDetails list) \<times> (acref \<times> TxRecord) option \<Rightarrow> acref \<times> TxRecord \<Rightarrow>
    err + ((Amount \<times> string \<times> GetTransactionDetails list) \<times> (acref \<times> TxRecord) option)" where
  "txEntry env w bs acc e = (case e of (a, t) \<Rightarrow>
     let s = TxStore (acct w a) in
     map_sum id (\<lambda>gathered. (gathered, case DebitsOf s t of Inl _ \<Rightarrow> snd acc | Inr d \<Rightarrow> Some (a, d)))
       (foldE (txCredit env w bs a) (fst acc) (Credits s t)))"

definition debitDetails :: "World \<Rightarrow> string \<Rightarrow> acref \<times> TxRecord \<Rightarrow> err + (Amount \<times> GetTransactionDetails)" where
  "debitDetails w target e = (case e of (a, d) \<Rightarrow>
     let s = TxStore (acct w a) in
     case InputAmount s d of
       Inl x \<Rightarrow> Inl x
     | Inr input \<Rightarrow>
         map_sum id (\<lambda>fee. (input, \<lparr>gd_Account = acct_name (acct w a), gd_Address = target, gd_Category = ''send'',
           gd_Amount = - OutputAmount s True d, gd_Fee = fee\<rparr>)) (Fee s d))"

text \<open>The fields that are taken from the first record.\<close>

definition firstRecord :: "wenv \<Rightarrow> World \<Rightarrow> BlockStamp \<Rightarrow> acref \<times> TxRecord \<Rightarrow> Amount \<Rightarrow> Amount \<Rightarrow> GetTransactionDetails list \<Rightarrow>
    err + GetTransactionResult" where
  "firstRecord env w bs e amount fee details = (case e of (a, t) \<Rightarrow>
     let s = TxStore (acct w a); r = rget s (tr_rec t);
         res = \<lparr>gt_Amount = amount, gt_Fee = fee, gt_Confirmations = 0, gt_BlockHash = None, gt_BlockIndex = 0, gt_BlockTime = 0,
           gt_TxID = recSha s (tr_rec t), gt_Time = time_sec (rec_received r), gt_Details = details,
           gt_Hex = hexEncode (tx_Serialize (e_tx env) (TxMsg (rec_tx r)))\<rparr> in
     if BlockHeight (tr_key t) = - 1 then Inr res
     else case BlockOf s t of
       Inl x \<Rightarrow> Inl x
     | Inr None \<Rightarrow> Inl nil_panic
     | Inr (Some b) \<Rightarrow>
         Inr (res\<lparr>gt_BlockIndex := recIndex s (tr_rec t), gt_BlockHash := Some (block_Hash b),
           gt_BlockTime := time_sec (block_Time b), gt_Confirmations := scast (Confirmations t (bs_Height bs))\<rparr>))"

definition rpc_GetTransaction :: "wenv \<Rightarrow> string \<Rightarrow> result wact" where
  "rpc_GetTransaction env txid =
     bindE (orFail (RPCError ''ErrDecodeHexString'') (liftE (\<lambda>_. NewShaHashFromStr env txid))) (\<lambda>txSha. \<lambda>w.
       case am_GetTransaction w txSha of
         [] \<Rightarrow> (Inl (RPCError ''ErrNoTxInfo''), w)
       | e # es \<Rightarrow>
           bindE (client_BlockStamp env) (\<lambda>bs. liftE (\<lambda>w.
             case foldE (txEntry env w bs) ((0, [], []), None) (e # es) of
               Inl x \<Rightarrow> Inl x
             | Inr ((received, target, details), None) \<Rightarrow> map_sum id ReplyTx (firstRecord env w bs e received 0 details)
             | Inr ((received, target, details), Some d) \<Rightarrow>
                 (case debitDetails w target d of
                    Inl x \<Rightarrow> Inl x
                  | Inr (input, info) \<Rightarrow>
                      map_sum id ReplyTx (firstRecord env w bs e (received - input) (gd_Fee info) (info # details))))) w)"

section \<open>Received amounts\<close>

type_synonym addrData = "acref \<times> Amount \<times> i32"

definition receivedAt :: "acref \<Rightarrow> Amount \<Rightarrow> i32 \<Rightarrow> (string, addrData) gomap \<Rightarrow> string \<Rightarrow> err + (string, addrData) gomap" where
  "receivedAt a v confs m addr = (case map_of m addr of
     None \<Rightarrow> Inr (AList.update addr (a, v, confs) m)
   | Some (b, amount, _) \<Rightarrow>
       if b \<noteq> a then Inl (ErrorString ''Address in both accounts'')
       else Inr (AList.update addr (a, amount + v, confs) m))"

definition receivedBy :: "wenv \<Rightarrow> World \<Rightarrow> i64 \<Rightarrow> i32 \<Rightarrow> acref \<Rightarrow> (string, addrData) gomap \<Rightarrow> Credit \<Rightarrow>
    err + (string, addrData) gomap" where
  "receivedBy env w minConf h a m c =
     (let s = TxStore (acct w a) in
      if \<not> Confirmed (cr_TxRecord c) minConf h then Inr m
      else case creditAddrs env s c of
        Inl e \<Rightarrow> Inl e
      | Inr as \<Rightarrow>
          (case AmountOf s c of
             Inl e \<Rightarrow> Inl e
           | Inr v \<Rightarrow> foldE (receivedAt a v (Confirmations (cr_TxRecord c) h)) m (map (EncodeAddress env) as)))"

definition receivedIn :: "wenv \<Rightarrow> World \<Rightarrow> i64 \<Rightarrow> bool \<Rightarrow> i32 \<Rightarrow> (string, addrData) gomap \<Rightarrow> acref \<Rightarrow>
    err + (string, addrData) gomap" where
  "receivedIn env w minConf includeEmpty h m a =
     (case (if includeEmpty then SortedActivePaymentAddresses env (acct w a) else Inr []) of
        Inl e \<Rightarrow> Inl e
      | Inr as \<Rightarrow>
          foldE (receivedBy env w minConf h a) (fold (\<lambda>addr. AList.update addr (a, 0, 0)) as m)
            (allCredits (TxStore (acct w a))))"

definition rpc_ListReceivedByAddress :: "wenv \<Rightarrow> i64 \<Rightarrow> bool \<Rightarrow> result wact" where
  "rpc_ListReceivedByAddress env minConf includeEmpty =
     bindE (client_BlockStamp env) (\<lambda>bs. liftE (\<lambda>w.
       map_sum id (\<lambda>m. ReplyReceived (map (\<lambda>(addr, a, amount, confs).
           \<lparr>lra_Account = acct_name (acct w a), lra_Address = addr, lra_Amount = amount, lra_Confirmations = scast confs\<rparr>) m))
         (foldE (receivedIn env w minConf includeEmpty (bs_Height bs)) [] (AllAccounts w))))"

section \<open>Addresses\<close>

definition invalidResult :: ValidateAddressResult where
  "invalidResult = \<lparr>va_IsValid = False, va_Address = [], va_IsMine = False, va_Account = [], va_IsCompressed = False,
     va_PubKey = [], va_IsScript = False, va_Addresses = [], va_Hex = [], va_Script = [], va_SigsRequired = 0\<rparr>"

definition rpc_ValidateAddress :: "wenv \<Rightarrow> string \<Rightarrow> result wact" where
  "rpc_ValidateAddress env address = liftE (\<lambda>w. case DecodeAddress env address of
     Inl e \<Rightarrow> Inr (ReplyValid invalidResult)
   | Inr addr \<Rightarrow>
       let res = invalidResult\<lparr>va_Address := EncodeAddress env addr, va_IsValid := True\<rparr> in
       (case AccountByAddress env w addr of
          Inl e \<Rightarrow> Inr (ReplyValid res)
        | Inr a \<Rightarrow>
            (case Address_lookup (KeyStore (acct w a)) (rawAddress addr) of
               Inl e \<Rightarrow> Inl (Panic ''address not found'')
             | Inr r \<Rightarrow>
                 let mine = res\<lparr>va_IsMine := True, va_Account := acct_name (acct w a)\<rparr> in
                 Inr (ReplyValid (case aget (KeyStore (acct w a)) r of
                   BtcAddr b \<Rightarrow> mine\<lparr>va_IsCompressed := compressed (a_flags b), va_PubKey := ExportPubKey env b\<rparr>
                 | ScriptAddr sa \<Rightarrow> mine\<lparr>va_IsScript := True, va_Addresses := sa_addresses sa, va_Hex := hexEncode (sa_script sa),
                     va_Script := ClassString env (sa_class sa),
                     va_SigsRequired := (if sa_class sa = MultiSigTy env then ucast (sa_reqSigs sa) else 0)\<rparr>)))))"

section \<open>Messages\<close>

text \<open>\<open>base64.StdEncoding.DecodeString\<close>, which skips line ends.\<close>

definition base64Value :: "char \<Rightarrow> nat option" where
  "base64Value c = (let n = of_char c :: nat in
     if 65 \<le> n \<and> n \<le> 90 then Some (n - 65)
     else if 97 \<le> n \<and> n \<le> 122 then Some (n - 71)
     else if 48 \<le> n \<and> n \<le> 57 then Some (n + 4)
     else if n = 43 then Some 62
     else if n = 47 then Some 63
     else None)"

fun base64Quads :: "string \<Rightarrow> err + bytes" where
  "base64Quads [] = Inr []"
| "base64Quads (a # b # c # d # cs) =
     (case (base64Value a, base64Value b) of
        (Some x, Some y) \<Rightarrow>
          (if d = CHR ''='' \<and> cs = [] then
             if c = CHR ''='' then Inr [of_nat (4 * x + y div 16)]
             else case base64Value c of
               Some z \<Rightarrow> Inr [of_nat (4 * x + y div 16), of_nat (16 * (y mod 16) + z div 4)]
             | None \<Rightarrow> Inl (ErrorString ''illegal base64 data'')
           else case (base64Value c, base64Value d) of
             (Some z, Some u) \<Rightarrow>
               map_sum id (\<lambda>bs. of_nat (4 * x + y div 16) # of_nat (16 * (y mod 16) + z div 4) # of_nat (64 * (z mod 4) + u) # bs)
                 (base64Quads cs)
           | _ \<Rightarrow> Inl (ErrorString ''illegal base64 data''))
      | _ \<Rightarrow> Inl (ErrorString ''illegal base64 data''))"
| "base64Quads _ = Inl (ErrorString ''illegal base64 data'')"

definition base64Decode :: "string \<Rightarrow> err + bytes" where
  "base64Decode s = base64Quads (filter (\<lambda>c. of_char c \<noteq> (10 :: nat) \<and> of_char c \<noteq> (13 :: nat)) s)"

definition signedMessage :: "wenv \<Rightarrow> string \<Rightarrow> bytes" where
  "signedMessage env message =
     DoubleSha256 (e_ks env) (stringBytes ''Bitcoin Signed Message:'' @ [10] @ stringBytes message)"

text \<open>The key pair of an address that must be in the wallet.\<close>

definition messageKey :: "wenv \<Rightarrow> string \<Rightarrow> (nat \<times> btcAddress) wact" where
  "messageKey env address =
     bindE (mapErr ParseError (liftE (\<lambda>_. DecodeAddress env address))) (\<lambda>addr.
     bindE (orFail (RPCError ''ErrInvalidAddressOrKey'') (liftE (\<lambda>w. am_Address env w addr))) (\<lambda>(a, r).
     bindE (liftE (\<lambda>w. case asBtc (aget (KeyStore (acct w a)) r) of
         None \<Rightarrow> Inl (Panic ''interface conversion'')
       | Some b \<Rightarrow> Inr b)) (\<lambda>b.
     bindE (onKeys a (PrivKey (e_ks env) r)) (\<lambda>privkey. retE (privkey, b)))))"

definition rpc_SignMessage :: "wenv \<Rightarrow> string \<Rightarrow> string \<Rightarrow> reply wact" where
  "rpc_SignMessage env address message =
     bindE (messageKey env address) (\<lambda>(privkey, b).
     bindE (askE (\<lambda>n. SignCompact env n privkey (signedMessage env message) (compressed (a_flags b)))) (\<lambda>sigbytes.
       retE (ReplyString (base64 sigbytes))))"

definition rpc_VerifyMessage :: "wenv \<Rightarrow> string \<Rightarrow> string \<Rightarrow> string \<Rightarrow> reply wact" where
  "rpc_VerifyMessage env address signature message =
     bindE (messageKey env address) (\<lambda>(privkey, b).
     bindE (liftE (\<lambda>_. base64Decode signature)) (\<lambda>sig.
     bindE (liftE (\<lambda>_. RecoverCompact env sig (signedMessage env message))) (\<lambda>(pk, wasCompressed).
       retE (ReplyBool (pk = a_pubKey b \<and> compressed (a_flags b) = wasCompressed)))))"

end
