(* ===== verification/Wt_Sign.thy ===== *)
theory Wt_Sign
  imports Wt_RpcTx
begin

text \<open>
  \<open>src/rpcserver.go\<close>: \<open>SignRawTransaction\<close>. The outputs its inputs spend are given with the request or fetched from the
  chain server; the keys are those of the request or, if it has none, those of the wallet. The answers to
  \<open>GetRawTransactionAsync\<close> are asked for when they are received.
\<close>

record RawTxInput =
  rti_Txid :: string
  rti_Vout :: u32
  rti_ScriptPubKey :: string
  rti_RedeemScript :: string

type_synonym keyClosure = "btcutilAddress \<Rightarrow> (nat \<times> bool) wact"
type_synonym scriptClosure = "btcutilAddress \<Rightarrow> bytes wact"

text \<open>\<open>btcscript.SignTxOutput\<close>\<close>

type_synonym signer = "netParams \<Rightarrow> MsgTx \<Rightarrow> nat \<Rightarrow> bytes \<Rightarrow> byte \<Rightarrow> keyClosure \<Rightarrow> scriptClosure \<Rightarrow> bytes \<Rightarrow> bytes wact"

definition hashTypeOf :: "wenv \<Rightarrow> string \<Rightarrow> err + byte" where
  "hashTypeOf env sigFlags =
     (if sigFlags = [] \<or> sigFlags = ''ALL'' then Inr (SigHashAll env)
      else if sigFlags = ''NONE'' then Inr (SigHashNone env)
      else if sigFlags = ''SINGLE'' then Inr (SigHashSingle env)
      else if sigFlags = ''ALL|ANYONECANPAY'' then Inr (or (SigHashAll env) (SigHashAnyOneCanPay env))
      else if sigFlags = ''NONE|ANYONECANPAY'' then Inr (or (SigHashNone env) (SigHashAnyOneCanPay env))
      else if sigFlags = ''SINGLE|ANYONECANPAY'' then Inr (or (SigHashSingle env) (SigHashAnyOneCanPay env))
      else Inl (InvalidParameterError (ErrorString ''Invalid sighash parameter'')))"

text \<open>The inputs of the request: the scripts of the outputs they spend and, with keys given, the redeem scripts.\<close>

definition givenInput :: "wenv \<Rightarrow> bool \<Rightarrow> (OutPoint, bytes) gomap \<times> (string, bytes) gomap \<Rightarrow> RawTxInput \<Rightarrow>
    err + ((OutPoint, bytes) gomap \<times> (string, bytes) gomap)" where
  "givenInput env withKeys acc rti = (case acc of (inputs, scripts) \<Rightarrow>
     case NewShaHashFromStr env (rti_Txid rti) of
       Inl e \<Rightarrow> Inl (DeserializationError e)
     | Inr sha \<Rightarrow>
         (case decodeHexStr (rti_ScriptPubKey rti) of
            Inl e \<Rightarrow> Inl (DeserializationError e)
          | Inr script \<Rightarrow>
              map_sum id (Pair (AList.update \<lparr>OpHash = sha, OpIndex = rti_Vout rti\<rparr> script inputs))
                (if \<not> withKeys then Inr scripts
                 else case decodeHexStr (rti_RedeemScript rti) of
                   Inl e \<Rightarrow> Inl (DeserializationError e)
                 | Inr redeem \<Rightarrow>
                     (case NewAddressScriptHash env redeem (activeNet env) of
                        Inl e \<Rightarrow> Inl (DeserializationError e)
                      | Inr addr \<Rightarrow> Inr (AList.update (EncodeAddress env addr) redeem scripts)))))"

definition requestInput :: "(OutPoint, bytes) gomap \<Rightarrow> World \<Rightarrow> (ShaHash, u32 list) gomap \<Rightarrow> TxIn \<Rightarrow> err + (ShaHash, u32 list) gomap" where
  "requestInput inputs w requested txin =
     (let op = PreviousOutpoint txin in
      if map_of inputs op \<noteq> None then Inr requested
      else case map_of requested (OpHash op) of
        Some idxs \<Rightarrow> Inr (AList.update (OpHash op) (idxs @ [OpIndex op]) requested)
      | None \<Rightarrow>
          if w_client w = None then Inl (ErrorString ''chain server disconnected'')
          else Inr (AList.update (OpHash op) [OpIndex op] requested))"

definition givenKey :: "wenv \<Rightarrow> (string, WIF) gomap \<Rightarrow> string \<Rightarrow> err + (string, WIF) gomap" where
  "givenKey env keys key = (case DecodeWIF env key of
     Inl e \<Rightarrow> Inl (DeserializationError e)
   | Inr wif \<Rightarrow>
       if \<not> WifIsForNet env wif (activeNet env)
       then Inl (DeserializationError (ErrorString ''key network does not match''))
       else case NewAddressPubKey env (wif_SerializePubKey wif) (activeNet env) of
         Inl e \<Rightarrow> Inl (DeserializationError e)
       | Inr addr \<Rightarrow> Inr (AList.update (EncodeAddress env addr) wif keys))"

definition spentOutput :: "ShaHash \<Rightarrow> MsgTx \<Rightarrow> (OutPoint, bytes) gomap \<Rightarrow> u32 \<Rightarrow> err + (OutPoint, bytes) gomap" where
  "spentOutput txid tx inputs i =
     (if (of_nat (length (TxOuts tx)) :: u32) \<le> i then Inl (InvalidParameterError (ErrorString ''input is not in tx''))
      else Inr (AList.update \<lparr>OpHash = txid, OpIndex = i\<rparr> (PkScript (TxOuts tx ! unat i)) inputs))"

primrec collectInputs :: "wenv \<Rightarrow> (ShaHash \<times> u32 list) list \<Rightarrow> (OutPoint, bytes) gomap \<Rightarrow> (OutPoint, bytes) gomap wact" where
  "collectInputs env [] inputs = retE inputs"
| "collectInputs env (e # es) inputs =
     bindE (askE (\<lambda>n. GetRawTransaction env n (fst e))) (\<lambda>tx.
     bindE (liftE (\<lambda>_. foldE (spentOutput (fst e) tx) inputs (snd e))) (\<lambda>inputs'.
       collectInputs env es inputs'))"

section \<open>The closures\<close>

definition getKey :: "wenv \<Rightarrow> (string, WIF) gomap \<Rightarrow> keyClosure" where
  "getKey env keys addr =
     (if keys \<noteq> [] then liftE (\<lambda>_. case map_of keys (EncodeAddress env addr) of
        None \<Rightarrow> Inl (ErrorString ''no key for address'')
      | Some wif \<Rightarrow> Inr (SetBytes (wif_PrivKey wif), wif_CompressPubKey wif))
      else
        bindE (liftE (\<lambda>w. am_Address env w addr)) (\<lambda>(a, r).
        bindE (liftE (\<lambda>w. case asBtc (aget (KeyStore (acct w a)) r) of
            None \<Rightarrow> Inl (ErrorString ''address is not a pubkey address'')
          | Some b \<Rightarrow> Inr (compressed (a_flags b)))) (\<lambda>cmp.
        bindE (onKeys a (PrivKey (e_ks env) r)) (\<lambda>key. retE (key, cmp)))))"

definition getScript :: "wenv \<Rightarrow> (string, WIF) gomap \<Rightarrow> (string, bytes) gomap \<Rightarrow> scriptClosure" where
  "getScript env keys scripts addr =
     (if keys \<noteq> [] then liftE (\<lambda>_. case map_of scripts (EncodeAddress env addr) of
        None \<Rightarrow> Inl (ErrorString ''no script for address'')
      | Some script \<Rightarrow> Inr script)
      else liftE (\<lambda>w. case am_Address env w addr of
        Inl e \<Rightarrow> Inl e
      | Inr (a, r) \<Rightarrow>
          (case aget (KeyStore (acct w a)) r of
             BtcAddr b \<Rightarrow> Inl (ErrorString ''address is not a script address'')
           | ScriptAddr sa \<Rightarrow> Inr (sa_script sa))))"

section \<open>Signing\<close>

text \<open>One input. A failure to sign leaves the input as it is and the transaction incomplete.\<close>

definition checkInput :: "wenv \<Rightarrow> bytes \<Rightarrow> nat \<Rightarrow> MsgTx \<Rightarrow> bool" where
  "checkInput env input i m \<longleftrightarrow>
     NewScript env (SignatureScript (TxIns m ! i)) input i m True = Inr () \<and>
     Execute env (SignatureScript (TxIns m ! i)) input i m True = Inr ()"

definition signRawInput :: "wenv \<Rightarrow> signer \<Rightarrow> byte \<Rightarrow> (string, WIF) gomap \<Rightarrow> (string, bytes) gomap \<Rightarrow>
    (OutPoint, bytes) gomap \<Rightarrow> nat \<Rightarrow> MsgTx \<times> bool \<Rightarrow> (MsgTx \<times> bool) wact" where
  "signRawInput env sto hashType keys scripts inputs i acc w =
     (let m = fst acc; signed = snd acc; txin = TxIns m ! i in
      case map_of inputs (PreviousOutpoint txin) of
        None \<Rightarrow> (Inl (ErrorString ''not found''), w)
      | Some input \<Rightarrow>
          if and hashType (SigHashSingle env) \<noteq> SigHashSingle env \<or> i < length (TxOuts m) then
            (case sto (activeNet env) m i input hashType (getKey env keys) (getScript env keys scripts) (SignatureScript txin) w of
               (Inl e, w') \<Rightarrow> if isPanic e then (Inl e, w') else (Inr (m, False), w')
             | (Inr script, w') \<Rightarrow>
                 let m' = setSigScript i script m in (Inr (m', signed \<and> checkInput env input i m'), w'))
          else (Inr (m, signed \<and> checkInput env input i m), w))"

primrec signRawInputs :: "wenv \<Rightarrow> signer \<Rightarrow> byte \<Rightarrow> (string, WIF) gomap \<Rightarrow> (string, bytes) gomap \<Rightarrow>
    (OutPoint, bytes) gomap \<Rightarrow> nat list \<Rightarrow> MsgTx \<times> bool \<Rightarrow> (MsgTx \<times> bool) wact" where
  "signRawInputs env sto hashType keys scripts inputs [] acc = retE acc"
| "signRawInputs env sto hashType keys scripts inputs (i # is) acc =
     bindE (signRawInput env sto hashType keys scripts inputs i acc) (signRawInputs env sto hashType keys scripts inputs is)"

definition rpc_SignRawTransaction :: "wenv \<Rightarrow> signer \<Rightarrow> string \<Rightarrow> RawTxInput list \<Rightarrow> string list \<Rightarrow> string \<Rightarrow> result wact" where
  "rpc_SignRawTransaction env sto rawTx cmdInputs privKeys sigFlags =
     bindE (orFail (RPCError ''ErrDecodeHexString'') (liftE (\<lambda>_. decodeHexStr rawTx))) (\<lambda>serializedTx.
     bindE (orFail (DeserializationError (ErrorString ''TX decode failed''))
       (liftE (\<lambda>_. fst (tx_Deserialize (e_tx env) serializedTx)))) (\<lambda>msgTx.
     bindE (liftE (\<lambda>_. foldE (givenInput env (privKeys \<noteq> [])) ([], []) cmdInputs)) (\<lambda>(inputs, scripts).
     bindE (liftE (\<lambda>w. foldE (requestInput inputs w) [] (TxIns msgTx))) (\<lambda>requested.
     bindE (liftE (\<lambda>_. foldE (givenKey env) [] privKeys)) (\<lambda>keys.
     bindE (liftE (\<lambda>_. hashTypeOf env sigFlags)) (\<lambda>hashType.
     bindE (collectInputs env requested inputs) (\<lambda>allInputs.
     bindE (signRawInputs env sto hashType keys scripts allInputs [0..<length (TxIns msgTx)] (msgTx, True)) (\<lambda>(m, signed).
       retE (ReplySigned (hexEncode (tx_Serialize (e_tx env) m)) signed)))))))))"

end
