(* ===== verification/Wt_Server.thy ===== *)
theory Wt_Server
  imports Wt_Sign
begin

text \<open>
  \<open>src/rpcserver.go\<close>: the maps of handlers and the goroutine that runs one request at a time with exclusive access to
  the account manager. A command has the fields its handler reads.
\<close>

datatype cmd =
    AddMultisigAddressCmd string "string list" i64
  | CreateMultisigCmd "string list" i64
  | DumpPrivKeyCmd string
  | GetAccountCmd string
  | GetAccountAddressCmd string
  | GetAddressesByAccountCmd string
  | GetBalanceCmd string i64
  | GetInfoCmd
  | GetNewAddressCmd string
  | GetRawChangeAddressCmd string
  | GetReceivedByAccountCmd string i64
  | GetTransactionCmd string
  | ImportPrivKeyCmd string string bool
  | KeypoolRefillCmd
  | ListAccountsCmd i64
  | ListLockUnspentCmd
  | ListReceivedByAddressCmd i64 bool
  | ListSinceBlockCmd string i64
  | ListTransactionsCmd string i64 i64
  | ListUnspentCmd i64 i64 "string list"
  | LockUnspentCmd bool "(string \<times> u32) list"
  | SendFromCmd string string i64 i64
  | SendManyCmd string "(string, i64) gomap" i64
  | SendToAddressCmd string i64
  | SetTxFeeCmd i64
  | SignMessageCmd string string
  | SignRawTransactionCmd string "RawTxInput list" "string list" string
  | StopCmd
  | ValidateAddressCmd string
  | VerifyMessageCmd string string string
  | WalletLockCmd
  | WalletPassphraseCmd string i64
  | WalletPassphraseChangeCmd string string
  | CreateEncryptedWalletCmd string
  | ExportWatchingWalletCmd string bool
  | GetAddressBalanceCmd string i64
  | GetUnconfirmedBalanceCmd string
  | ListAddressTransactionsCmd string "string list"
  | ListAllTransactionsCmd string
  | RecoverAddressesCmd string i64
  | WalletIsLockedCmd
  | OtherCmd string

text \<open>The handlers that only websocket connections reach.\<close>

fun wsOnly :: "cmd \<Rightarrow> bool" where
  "wsOnly (ExportWatchingWalletCmd _ _) = True"
| "wsOnly (GetAddressBalanceCmd _ _) = True"
| "wsOnly (GetUnconfirmedBalanceCmd _) = True"
| "wsOnly (ListAddressTransactionsCmd _ _) = True"
| "wsOnly (ListAllTransactionsCmd _) = True"
| "wsOnly (RecoverAddressesCmd _ _) = True"
| "wsOnly WalletIsLockedCmd = True"
| "wsOnly _ = False"

definition Unimplemented :: "reply wact" where
  "Unimplemented = failE (RPCError ''ErrUnimplemented'')"

definition Unsupported :: "reply wact" where
  "Unsupported = failE (RPCError ''Request unsupported by btcwallet'')"

definition unimplementedMethods :: "string list" where
  "unimplementedMethods = [''backupwallet'', ''dumpwallet'', ''getreceivedbyaddress'', ''getwalletinfo'', ''importwallet'',
     ''listaddressgroupings'', ''listreceivedbyaccount'', ''move'', ''setaccount'']"

definition basic :: "reply wact \<Rightarrow> result wact" where
  "basic m = bindE m (\<lambda>r. retE (Reply r))"

fun handler :: "wenv \<Rightarrow> signer \<Rightarrow> cmd \<Rightarrow> result wact" where
  "handler env sto (AddMultisigAddressCmd account keys n) = basic (rpc_AddMultiSigAddress env account keys n)"
| "handler env sto (CreateMultisigCmd keys n) = basic (rpc_CreateMultiSig env keys n)"
| "handler env sto (DumpPrivKeyCmd address) = basic (rpc_DumpPrivKey env address)"
| "handler env sto (GetAccountCmd address) = basic (rpc_GetAccount env address)"
| "handler env sto (GetAccountAddressCmd account) = basic (rpc_GetAccountAddress env account)"
| "handler env sto (GetAddressesByAccountCmd account) = basic (rpc_GetAddressesByAccount env account)"
| "handler env sto (GetBalanceCmd account minConf) = basic (rpc_GetBalance env account minConf)"
| "handler env sto GetInfoCmd = basic (rpc_GetInfo env)"
| "handler env sto (GetNewAddressCmd account) = basic (rpc_GetNewAddress env account)"
| "handler env sto (GetRawChangeAddressCmd account) = basic (rpc_GetRawChangeAddress env account)"
| "handler env sto (GetReceivedByAccountCmd account minConf) = basic (rpc_GetReceivedByAccount env account minConf)"
| "handler env sto (GetTransactionCmd txid) = rpc_GetTransaction env txid"
| "handler env sto (ImportPrivKeyCmd label key rescan) = basic (rpc_ImportPrivKey env label key rescan)"
| "handler env sto KeypoolRefillCmd = retE (Reply ReplyNil)"
| "handler env sto (ListAccountsCmd minConf) = basic (rpc_ListAccounts env minConf)"
| "handler env sto ListLockUnspentCmd = basic rpc_ListLockUnspent"
| "handler env sto (ListReceivedByAddressCmd minConf empties) = rpc_ListReceivedByAddress env minConf empties"
| "handler env sto (ListSinceBlockCmd hash target) = basic (rpc_ListSinceBlock env hash target)"
| "handler env sto (ListTransactionsCmd account from cnt) = basic (rpc_ListTransactions env account from cnt)"
| "handler env sto (ListUnspentCmd minConf maxConf addresses) = basic (rpc_ListUnspent env minConf maxConf addresses)"
| "handler env sto (LockUnspentCmd unlockThem outs) = basic (rpc_LockUnspent env unlockThem outs)"
| "handler env sto (SendFromCmd account to amount minConf) = basic (rpc_SendFrom env account to amount minConf)"
| "handler env sto (SendManyCmd account amounts minConf) = basic (rpc_SendMany env account amounts minConf)"
| "handler env sto (SendToAddressCmd address amount) = basic (rpc_SendToAddress env address amount)"
| "handler env sto (SetTxFeeCmd amount) = basic (rpc_SetTxFee amount)"
| "handler env sto (SignMessageCmd address message) = basic (rpc_SignMessage env address message)"
| "handler env sto (SignRawTransactionCmd raw ins keys sigFlags) = rpc_SignRawTransaction env sto raw ins keys sigFlags"
| "handler env sto StopCmd = basic rpc_Stop"
| "handler env sto (ValidateAddressCmd address) = rpc_ValidateAddress env address"
| "handler env sto (VerifyMessageCmd address sig message) = basic (rpc_VerifyMessage env address sig message)"
| "handler env sto WalletLockCmd = basic rpc_WalletLock"
| "handler env sto (WalletPassphraseCmd pass timeout) = basic (rpc_WalletPassphrase env pass timeout)"
| "handler env sto (WalletPassphraseChangeCmd old new) = basic (rpc_WalletPassphraseChange env old new)"
| "handler env sto (CreateEncryptedWalletCmd pass) = basic (rpc_CreateEncryptedWallet env pass)"
| "handler env sto (ExportWatchingWalletCmd account download) = basic (rpc_ExportWatchingWallet env account download)"
| "handler env sto (GetAddressBalanceCmd address minConf) = basic (rpc_GetAddressBalance env address minConf)"
| "handler env sto (GetUnconfirmedBalanceCmd account) = basic (rpc_GetUnconfirmedBalance env account)"
| "handler env sto (ListAddressTransactionsCmd account addresses) = basic (rpc_ListAddressTransactions env account addresses)"
| "handler env sto (ListAllTransactionsCmd account) = basic (rpc_ListAllTransactions env account)"
| "handler env sto (RecoverAddressesCmd account n) = basic (rpc_RecoverAddresses env account n)"
| "handler env sto WalletIsLockedCmd = basic rpc_WalletIsLocked"
| "handler env sto (OtherCmd name) = basic (if name = ''encryptwallet'' then Unsupported else Unimplemented)"

text \<open>The lookup of a handler by method and connection.\<close>

definition handlerFunc :: "wenv \<Rightarrow> signer \<Rightarrow> cmd \<Rightarrow> bool \<Rightarrow> result wact option" where
  "handlerFunc env sto c ws = (case c of
     OtherCmd name \<Rightarrow> if name = ''encryptwallet'' \<or> name \<in> set unimplementedMethods then Some (handler env sto c) else None
   | _ \<Rightarrow> if wsOnly c \<and> \<not> ws then None else Some (handler env sto c))"

text \<open>One turn of \<open>RequestHandler\<close>: the reply to the client is a result or the code of an error; a panic ends the
  process.\<close>

definition serveRequest :: "wenv \<Rightarrow> signer \<Rightarrow> cmd \<Rightarrow> (string + result) wact" where
  "serveRequest env sto c w = (case handler env sto c w of
     (Inl e, w') \<Rightarrow> (if isPanic e then Inl e else Inr (Inl (responseCode e)), w')
   | (Inr r, w') \<Rightarrow> (Inr (Inr r), w'))"

end
