(* ===== verification/Wt_Inv.thy ===== *)
theory Wt_Inv
  imports Wt_Keeps Wt_Server Tx_Machine Ks_Reach
begin

text \<open>
  Invariants of the accounts under every request. A request uses the key stores and transaction stores through their
  operations; what holds of every account and is kept by those operations is kept by the request. The contract of the
  two stores is the locale \<open>account_invariant\<close>, with one invariant for every number of addresses there still is room for:
  light operations on keys keep the room, heavy ones use it up. A request makes at most one heavy operation.
\<close>

section \<open>Operations on keys\<close>

inductive key_light :: "kslib \<Rightarrow> KStore \<Rightarrow> KStore \<Rightarrow> bool" for lib :: kslib and s :: KStore where
  light_unlock: "Unlock lib passphrase s = (r, s') \<Longrightarrow> key_light lib s s'"
| light_lock: "Lock s = (r, s') \<Longrightarrow> key_light lib s s'"
| light_passphrase: "ChangePassphrase lib new s = (r, s') \<Longrightarrow> key_light lib s s'"
| light_none: "key_light lib s s"
| light_privKey: "PrivKey lib q s = (r', s') \<Longrightarrow> key_light lib s s'"

inductive key_heavy :: "kslib \<Rightarrow> nat \<Rightarrow> nat \<Rightarrow> KStore \<Rightarrow> KStore \<Rightarrow> bool" for lib :: kslib and kp c :: nat and s :: KStore where
  heavy_next: "max 1 kp + 1 \<le> c \<Longrightarrow> NextChainedAddress lib bs kp s = (r, s') \<Longrightarrow> key_heavy lib kp c s s'"
| heavy_change: "max 1 kp + 1 \<le> c \<Longrightarrow> ChangeAddress lib bs kp s = (r, s') \<Longrightarrow> key_heavy lib kp c s s'"
| heavy_extend: "unat n * max 1 kp + 1 \<le> c \<Longrightarrow> ExtendActiveAddresses lib n kp s = (r', s') \<Longrightarrow> key_heavy lib kp c s s'"
| heavy_importKey: "wif_ok lib wif \<Longrightarrow> ImportPrivateKey lib wif bs s = (r, s') \<Longrightarrow> key_heavy lib kp c s s'"
| heavy_importScript: "ImportScript lib script bs s = (r, s') \<Longrightarrow> key_heavy lib kp c s s'"

definition all_accounts :: "(Account \<Rightarrow> bool) \<Rightarrow> World \<Rightarrow> bool" where
  "all_accounts A w \<longleftrightarrow> (\<forall>x \<in> set (w_accts w). A x)"

lemma all_accounts_update: "all_accounts A w \<Longrightarrow> A x \<Longrightarrow> all_accounts A (putAcct a x w)"
  using set_update_subset_insert [of "w_accts w" a x] by (auto simp: all_accounts_def putAcct_def)

lemma all_accounts_le: "all_accounts A w \<Longrightarrow> (\<And>x. A x \<Longrightarrow> B x) \<Longrightarrow> all_accounts B w"
  by (auto simp: all_accounts_def)

text \<open>Actions on a part of one account.\<close>

lemma onAcct_triple:
  assumes "\<And>x r x'. A x \<Longrightarrow> m x = (r, x') \<Longrightarrow> B x'" and "\<And>x. A x \<Longrightarrow> B x"
  shows "triple (all_accounts A) (onAcct a m) (\<lambda>_. all_accounts B) (\<lambda>_. all_accounts B)"
proof -
  have "all_accounts B (snd (onAcct a m w))" if w: "all_accounts A w" for w
  proof (cases "a < length (w_accts w)")
    have wB: "all_accounts B w" using all_accounts_le [of A w B] w assms(2) by blast
    case True
    then have "A (acct w a)" using w by (simp add: all_accounts_def)
    then have "B (snd (m (acct w a)))" using assms(1) by (metis prod.collapse)
    then show ?thesis using all_accounts_update [OF wB]
      by (cases "m (acct w a)") (simp add: onAcct_def zoom_def)
  next
    case False
    then show ?thesis using all_accounts_le [of A w B] w assms(2)
      by (simp add: onAcct_def zoom_def putAcct_def list_update_beyond split: prod.split)
  qed
  then show ?thesis by (auto simp: triple_def split: prod.split sum.split) (metis snd_conv)+
qed

lemma onKeys_triple:
  assumes "\<And>x r k. A x \<Longrightarrow> m (KeyStore x) = (r, k) \<Longrightarrow> B (x\<lparr>KeyStore := k\<rparr>)" and "\<And>x. A x \<Longrightarrow> B x"
  shows "triple (all_accounts A) (onKeys a m) (\<lambda>_. all_accounts B) (\<lambda>_. all_accounts B)"
  unfolding onKeys_def by (rule onAcct_triple) (use assms in \<open>auto simp: zoom_def split: prod.splits\<close>)

lemma onTxs_triple:
  assumes "\<And>x r s. A x \<Longrightarrow> m (TxStore x) = (r, s) \<Longrightarrow> B (x\<lparr>TxStore := s\<rparr>)" and "\<And>x. A x \<Longrightarrow> B x"
  shows "triple (all_accounts A) (onTxs a m) (\<lambda>_. all_accounts B) (\<lambda>_. all_accounts B)"
  unfolding onTxs_def by (rule onAcct_triple) (use assms in \<open>auto simp: zoom_def split: prod.splits\<close>)

section \<open>The contract\<close>

locale account_invariant =
  fixes env :: wenv and A :: "nat \<Rightarrow> Account \<Rightarrow> bool"
  assumes less: "A c x \<Longrightarrow> d \<le> c \<Longrightarrow> A d x"
    and light: "A c x \<Longrightarrow> key_light (e_ks env) (KeyStore x) k \<Longrightarrow> A c (x\<lparr>KeyStore := k\<rparr>)"
    and heavy: "A c x \<Longrightarrow> key_heavy (e_ks env) (KeypoolSize env) c (KeyStore x) k \<Longrightarrow> A 0 (x\<lparr>KeyStore := k\<rparr>)"
    and unmined: "A c x \<Longrightarrow> InsertTx (e_btc env) now tx None (TxStore x) = (r, s) \<Longrightarrow> A c (x\<lparr>TxStore := s\<rparr>)"
    and spending: "A c x \<Longrightarrow> InsertTx (e_btc env) now tx None (TxStore x) = (Inr t, s) \<Longrightarrow> AddDebits t spent s = (r', s') \<Longrightarrow>
      A c (x\<lparr>TxStore := s'\<rparr>)"
    and outpoints: "A c x \<Longrightarrow> A c (x\<lparr>lockedOutpoints := l\<rparr>)"
    and fee: "A c x \<Longrightarrow> 0 \<le> sint f \<Longrightarrow> A c (x\<lparr>FeeIncrement := f\<rparr>)"
    and fresh: "NewStore (e_ks env) name desc pass net bs (KeypoolSize env) n = Inr k \<Longrightarrow> A 0 (newAccount account k New)"

sublocale account_invariant \<subseteq> of_accounts "all_accounts (A c)" for c
  by unfold_locales (simp add: accts_only_def all_accounts_def)

context account_invariant
begin

abbreviation W :: "nat \<Rightarrow> World \<Rightarrow> bool" where
  "W c \<equiv> all_accounts (A c)"

text \<open>Actions that may use up the room.\<close>

definition uses :: "nat \<Rightarrow> 'a wact \<Rightarrow> bool" where
  "uses c m \<longleftrightarrow> triple (W c) m (\<lambda>_. W 0) (\<lambda>_. W 0)"

lemma W_less: "W c w \<Longrightarrow> W 0 w"
  using less [of c _ 0] by (auto simp: all_accounts_def)

lemma uses_keep: "preserves (W c) m \<Longrightarrow> uses c m"
  unfolding uses_def preserves_triple by (erule triple_conseq) (auto intro: W_less)

lemma uses_before: "preserves (W c) m \<Longrightarrow> (\<And>a. uses c (f a)) \<Longrightarrow> uses c (bindE m f)"
  unfolding uses_def preserves_triple
  by (rule triple_bindE [where R = "\<lambda>_. W c"]) (auto elim!: triple_conseq intro: W_less)

lemma uses_after: "uses c m \<Longrightarrow> (\<And>a. preserves (W 0) (f a)) \<Longrightarrow> uses c (bindE m f)"
  unfolding uses_def preserves_triple by (rule triple_bindE)

lemma uses_if: "(b \<Longrightarrow> uses c m) \<Longrightarrow> (\<not> b \<Longrightarrow> uses c n) \<Longrightarrow> uses c (if b then m else n)"
  by simp

lemma uses_orFail: "uses c m \<Longrightarrow> uses c (orFail e m)"
  by (auto simp: uses_def triple_def orFail_def split: prod.splits sum.splits)

lemma uses_mapErr: "uses c m \<Longrightarrow> uses c (mapErr f m)"
  by (auto simp: uses_def triple_def mapErr_def split: prod.splits sum.splits)

lemma onKeys_light:
  "(\<And>s r k. m s = (r, k) \<Longrightarrow> key_light (e_ks env) s k) \<Longrightarrow> preserves (W c) (onKeys a m)"
  unfolding preserves_triple by (rule onKeys_triple) (auto intro: light)

lemma onKeys_heavy:
  "(\<And>s r k. m s = (r, k) \<Longrightarrow> key_heavy (e_ks env) (KeypoolSize env) c s k) \<Longrightarrow> uses c (onKeys a m)"
  unfolding uses_def by (rule onKeys_triple) (auto intro: heavy less)

lemma Unlock_keeps [keeps]: "preserves (W c) (onKeys a (Unlock (e_ks env) p))"
  by (rule onKeys_light) (rule light_unlock)

lemma Lock_keeps [keeps]: "preserves (W c) (onKeys a Lock)"
  by (rule onKeys_light) (rule light_lock)

lemma ChangePassphrase_keeps [keeps]: "preserves (W c) (onKeys a (ChangePassphrase (e_ks env) new))"
  by (rule onKeys_light) (rule light_passphrase)

lemma PrivKey_keeps [keeps]: "preserves (W c) (onKeys a (PrivKey (e_ks env) q))"
  by (rule onKeys_light) (rule light_privKey)

section \<open>Accounts\<close>

lemma acct_Lock_keeps [keeps]: "preserves (W c) (acct_Lock a)"
  unfolding acct_Lock_def [abs_def] by (intro keeps)

lemma acct_Unlock_keeps [keeps]: "preserves (W c) (acct_Unlock env a p)"
  unfolding acct_Unlock_def by (intro keeps)

lemma NewAddress_uses: "max 1 (KeypoolSize env) + 1 \<le> c \<Longrightarrow> uses c (NewAddress env a)"
  unfolding NewAddress_def
  by (intro uses_before uses_after onKeys_heavy keeps) (rule heavy_next)

lemma NewChangeAddress_uses: "max 1 (KeypoolSize env) + 1 \<le> c \<Longrightarrow> uses c (NewChangeAddress env a)"
  unfolding NewChangeAddress_def
  by (intro uses_before uses_after onKeys_heavy keeps) (rule heavy_change)

lemma CurrentAddress_uses: "max 1 (KeypoolSize env) + 1 \<le> c \<Longrightarrow> uses c (CurrentAddress env a)"
  unfolding CurrentAddress_def
  by (intro uses_before uses_if NewAddress_uses uses_keep [of _ "retE x" for x] keeps)

lemma RecoverAddresses_uses: "unat n * max 1 (KeypoolSize env) + 1 \<le> c \<Longrightarrow> uses c (RecoverAddresses env a n)"
  unfolding RecoverAddresses_def
  by (intro uses_before uses_after onKeys_heavy keeps) (rule heavy_extend)

lemma ImportPrivateKey_uses: "wif_ok (e_ks env) wif \<Longrightarrow> uses c (acct_ImportPrivateKey env a wif bs rescan)"
  unfolding acct_ImportPrivateKey_def
  by (intro uses_before uses_after onKeys_heavy keeps) (rule heavy_importKey)

lemma ExportPrivKey_light: "ExportPrivKey env q s = (r, k) \<Longrightarrow> key_light (e_ks env) s k"
  by (auto simp: ExportPrivKey_def bindE_def liftE_def split: prod.splits sum.splits intro: light_privKey)

lemma read_keeps [keeps]:
  "preserves (W c) (CalculateAddressBalance env a addr confs)" "preserves (W c) (TotalReceived env a confs)"
  "preserves (W c) (ListTransactions env a from cnt)" "preserves (W c) (ListAddressTransactions env a hs)"
  "preserves (W c) (ListAllTransactions env a)"
  unfolding CalculateAddressBalance_def TotalReceived_def ListTransactions_def ListAddressTransactions_def ListAllTransactions_def
  by (intro keeps)+

section \<open>Payments\<close>

text \<open>While no change address has been made there is room for one.\<close>

definition untilChange :: "nat \<Rightarrow> btcutilAddress option \<Rightarrow> World \<Rightarrow> bool" where
  "untilChange c ch = (case ch of None \<Rightarrow> W c | Some _ \<Rightarrow> W 0)"

lemma untilChange_W: "untilChange c ch w \<Longrightarrow> W 0 w"
  by (auto simp: untilChange_def intro: W_less split: option.splits)

lemma keep_untilChange:
  assumes "\<And>d. preserves (W d) m"
  shows "triple (untilChange c ch) m (\<lambda>_. untilChange c ch) (\<lambda>_. W 0)"
proof -
  have "triple (W d) m (\<lambda>_. W d) (\<lambda>_. W 0)" for d
    by (rule triple_conseq [OF triple_preserves [OF assms [of d]]]) (auto intro: W_less)
  then show ?thesis by (cases ch) (simp_all add: untilChange_def)
qed

lemma rngInt31n_keeps [keeps]: "preserves (W c) (rngInt31n env n)"
  unfolding rngInt31n_def Let_def by (intro keeps)

lemma inputKey_keeps [keeps]: "preserves (W c) (inputKey env a r)"
  unfolding inputKey_def [abs_def] by (intro keeps)

lemma signInputs_inv [keeps]: "preserves (W c) (signInputs env a cs i m)"
proof (induction cs arbitrary: i m)
  case (Cons x cs)
  have "preserves (W c) (signInput env a i x m)"
    unfolding signInput_def by (auto intro!: keeps split: list.split btcutilAddress.split)
  then show ?case using Cons.IH by (simp add: preserves_bindE)
qed (simp add: preserves_retE)

lemma changeAddress_triple:
  assumes "max 1 (KeypoolSize env) + 1 \<le> c"
  shows "triple (untilChange c ch) (changeAddress env a bs ch) (\<lambda>_. W 0) (\<lambda>_. W 0)"
proof (cases ch)
  case None
  have "uses c (changeAddress env a bs None)"
    unfolding changeAddress_def option.case by (intro uses_after uses_orFail onKeys_heavy keeps) (rule heavy_change [OF assms])
  then show ?thesis using None by (simp add: untilChange_def uses_def)
qed (auto simp: changeAddress_def untilChange_def intro: triple_retE)

lemma appendChange_triple: "triple (W 0) (appendChange env change outs addr) (\<lambda>(ch', _). untilChange c ch') (\<lambda>_. W 0)"
  unfolding appendChange_def Let_def
  by (cases "PayToAddrScript env addr")
     (auto intro!: triple_failE triple_bindE [OF triple_preserves [OF rngInt31n_keeps]] triple_retE simp: untilChange_def)

lemma addChange_triple:
  assumes "max 1 (KeypoolSize env) + 1 \<le> c"
  shows "triple (untilChange c ch) (addChange env a bs change ch outs) (\<lambda>(ch', _). untilChange c ch') (\<lambda>_. W 0)"
  unfolding addChange_def
  by (intro triple_if triple_bindE [OF changeAddress_triple [OF assms]] appendChange_triple) (simp add: triple_retE)

lemma feeRound_triple:
  assumes "max 1 (KeypoolSize env) + 1 \<le> c"
  shows "triple (untilChange c ch) (feeRound env a bs es amt m0 fee ch) (\<lambda>(_, _, ch', _). untilChange c ch') (\<lambda>_. W 0)"
  unfolding feeRound_def
proof (rule triple_bindE [OF keep_untilChange], rule keeps, unfold split_beta, rule triple_bindE [OF addChange_triple [OF assms]])
  fix sel :: "Credit list \<times> Amount" and change :: "btcutilAddress option \<times> TxOut list"
  show "triple (case change of (ch', _) \<Rightarrow> untilChange c ch') (bindE (liftE (\<lambda>w. Inr (m0\<lparr>TxOuts := snd change,
         TxIns := TxIns m0 @ map (\<lambda>c. newTxIn env (OutPointOf (TxStore (acct w a)) c)) (fst sel)\<rparr>))) (\<lambda>unsigned.
     bindE (signInputs env a (fst sel) 0 unsigned) (\<lambda>msgtx.
     bindE (if DisallowFree env then retE False
            else liftE (\<lambda>w. allowFree env (TxStore (acct w a)) (bs_Height bs) (fst sel)
              (tx_SerializeSize (e_tx env) msgtx))) (\<lambda>noFeeAllowed.
     bindE (liftE (\<lambda>w. Inr (FeeIncrement (acct w a)))) (\<lambda>incr.
       retE (msgtx, fst sel, fst change, minimumFee env incr msgtx noFeeAllowed))))))
     (\<lambda>x. untilChange c (fst (snd (snd x)))) (\<lambda>_. W 0)"
    by (cases change) (auto intro!: triple_bindE [OF keep_untilChange] keeps triple_retE)
qed

end

end
