(* ===== verification/Wt_Requests.thy ===== *)
theory Wt_Requests
  imports Wt_Inv
begin

text \<open>
  Every handler of \<open>src/rpcserver.go\<close> keeps an invariant of the accounts, by the rules of \<open>account_invariant\<close>; then the
  invariant of a well-formed wallet, an interpretation of that contract.
\<close>

lemma feeLoop_triple:
  assumes "\<And>fee ch. triple (R ch) (rnd fee ch) (\<lambda>(_, _, ch', _). R ch') (\<lambda>_. Q)"
  shows "triple (R ch) (feeLoop rnd fee ch) (\<lambda>(_, _, ch'). R ch') (\<lambda>_. Q)"
  unfolding triple_def
proof (intro allI impI)
  fix w assume "R ch w"
  then show "case feeLoop rnd fee ch w of (Inl e, w') \<Rightarrow> Q w' | (Inr x, w') \<Rightarrow> (case x of (_, _, ch') \<Rightarrow> R ch') w'"
    using assms
  proof (induction rnd fee ch w rule: feeLoop.induct)
    case (1 rnd fee ch w)
    note run = triple_case [OF "1.prems"(2) [of ch fee] "1.prems"(1)]
    show ?case
      using run "1.IH" "1.prems"(2)
      by (auto simp del: feeLoop.simps simp: feeLoop.simps [of rnd fee ch w] split: prod.splits sum.splits)
  qed
qed

lemma preserves_case_at:
  "preserves P m \<Longrightarrow> (\<And>a. preserves P (f a)) \<Longrightarrow> preserves P (\<lambda>w. case x w of None \<Rightarrow> m w | Some a \<Rightarrow> f a w)"
  by (simp add: preserves_def split: option.split)

text \<open>What is documented of two library functions: \<open>btcutil.DecodeWIF\<close> returns a key with its own public key, and
  \<open>btcscript.SignTxOutput\<close> acts on the wallet through its two closures only.\<close>

definition wif_laws :: "wenv \<Rightarrow> bool" where
  "wif_laws env \<longleftrightarrow> (\<forall>s wif. DecodeWIF env s = Inr wif \<longrightarrow> wif_ok (e_ks env) wif)"

definition signer_laws :: "signer \<Rightarrow> bool" where
  "signer_laws sto \<longleftrightarrow> (\<forall>P net m i input hashType gk gs sig.
     (\<forall>addr. preserves P (gk addr)) \<longrightarrow> (\<forall>addr. preserves P (gs addr)) \<longrightarrow> preserves P (sto net m i input hashType gk gs sig))"

text \<open>How many addresses a request may add to the key pool.\<close>

definition addressRoom :: "wenv \<Rightarrow> cmd \<Rightarrow> nat" where
  "addressRoom env c = (case c of
     GetNewAddressCmd _ \<Rightarrow> max 1 (KeypoolSize env) + 1
   | GetRawChangeAddressCmd _ \<Rightarrow> max 1 (KeypoolSize env) + 1
   | GetAccountAddressCmd _ \<Rightarrow> max 1 (KeypoolSize env) + 1
   | SendFromCmd _ _ _ _ \<Rightarrow> max 1 (KeypoolSize env) + 1
   | SendManyCmd _ _ _ \<Rightarrow> max 1 (KeypoolSize env) + 1
   | SendToAddressCmd _ _ \<Rightarrow> max 1 (KeypoolSize env) + 1
   | RecoverAddressesCmd _ n \<Rightarrow> unat n * max 1 (KeypoolSize env) + 1
   | _ \<Rightarrow> 0)"

context account_invariant
begin

lemma mapErr_keeps [keeps]: "preserves P m \<Longrightarrow> preserves P (mapErr f m)"
  by (rule preservesI) (auto simp: preserves_def mapErr_def split: prod.split sum.split)

lemma validateInput_inv [keeps]: "preserves (W c) (validateInput env a m bip16 e)"
  unfolding validateInput_def by (intro keeps)

lemma txToPairs_uses:
  assumes "max 1 (KeypoolSize env) + 1 \<le> c"
  shows "uses c (txToPairs env a pairs minconf)"
proof -
  have loop: "uses c (feeLoop (feeRound env a bs es amt m0) 0 None)" for bs es amt m0
    unfolding uses_def
    by (rule triple_conseq [OF feeLoop_triple [where R = "untilChange c" and ch = None, OF feeRound_triple [OF assms]]])
       (auto simp: untilChange_def intro: W_less split: option.splits)
  have "uses c (bindE (liftE (\<lambda>_. pairsTotal 0 pairs)) (\<lambda>amt.
        bindE (liftE (\<lambda>_. mapE (payOutput env) pairs)) (\<lambda>outs.
        bindE (client_BlockStamp env) (\<lambda>bs.
        bindE (liftE (\<lambda>w. UnspentOutputs (TxStore (acct w a)))) (\<lambda>unspent.
        bindE (liftE (\<lambda>w. eligibleInputs env (acct w a) minconf (bs_Height bs) unspent)) (\<lambda>eligible.
        bindE (liftE (\<lambda>w. Inr (byAmountDesc (TxStore (acct w a)) eligible))) (\<lambda>sorted.
        bindE (feeLoop (feeRound env a bs sorted amt ((newMsgTx env)\<lparr>TxOuts := outs\<rparr>)) 0 None) (\<lambda>(msgtx, inputs, changeAddr).
        bindE (ask (Bip16Active env)) (\<lambda>bip16.
        bindE (forE (validateInput env a msgtx bip16) (zip [0..<length (TxIns msgtx)] (zip (TxIns msgtx) inputs))) (\<lambda>_.
        bindE (case BtcEncode env msgtx of Inl e \<Rightarrow> failE (Panic ''BtcEncode'') | Inr _ \<Rightarrow> retE ()) (\<lambda>_.
          retE \<lparr>ctx_tx = NewTx_of env msgtx, ctx_inputs = inputs, ctx_changeAddr = changeAddr\<rparr>)))))))))))"
    by (intro uses_before uses_after [OF loop] keeps)
  then show ?thesis
    using W_less unfolding uses_def triple_def txToPairs_def by auto
qed

lemma orFail_Inr: "orFail e m w = (Inr x, w') \<longleftrightarrow> m w = (Inr x, w')"
  by (auto simp: orFail_def split: prod.splits sum.splits)

text \<open>A transaction of the wallet's own is inserted and its inputs are marked as spent, in one account.\<close>

lemma insertSent_keeps:
  assumes "\<And>t. preserves (W c) (g t)"
  shows "preserves (W c) (bindE (orFail e (onTxs a (InsertTx (e_btc env) now tx None))) (\<lambda>t.
    bindE (orFail e' (onTxs a (AddDebits t spent))) g))"
proof (rule preservesI)
  fix w assume w: "W c w"
  obtain r1 w1 where 1: "onTxs a (InsertTx (e_btc env) now tx None) w = (r1, w1)" by force
  have w1: "W c w1"
    using triple_snd [OF onTxs_triple [where A = "A c" and B = "A c" and m = "InsertTx (e_btc env) now tx None"] w] unmined 1
    by (metis snd_conv)
  have w2: "W c (snd (onTxs a (AddDebits t spent) w1))" if t: "r1 = Inr t" for t
  proof (cases "a < length (w_accts w)")
    case True
    obtain s where s: "InsertTx (e_btc env) now tx None (TxStore (acct w a)) = (Inr t, s)" "w1 = putAcct a ((acct w a)\<lparr>TxStore := s\<rparr>) w"
      using 1 t by (auto simp: onTxs_def onAcct_def zoom_def split: prod.splits)
    obtain r s' where s': "AddDebits t spent s = (r, s')" by force
    have "A c (acct w a)" using w True by (simp add: all_accounts_def)
    then have "A c ((acct w a)\<lparr>TxStore := s'\<rparr>)" using spending s(1) s' by blast
    then show ?thesis using True s s' all_accounts_update [OF w]
      by (simp add: onTxs_def onAcct_def zoom_def putAcct_def)
  next
    case False
    then have "length (w_accts w1) \<le> a" using 1 by (auto simp: onTxs_def onAcct_def zoom_def putAcct_def split: prod.splits)
    then show ?thesis using w1 by (simp add: onTxs_def onAcct_def zoom_def putAcct_def list_update_beyond split: prod.split)
  qed
  show "W c (snd (bindE (orFail e (onTxs a (InsertTx (e_btc env) now tx None))) (\<lambda>t.
    bindE (orFail e' (onTxs a (AddDebits t spent))) g) w))"
  proof (cases r1)
    case (Inr t)
    have "W c (snd (bindE (orFail e' (onTxs a (AddDebits t spent))) g w1))"
      using w2 [OF Inr] assms by (cases "onTxs a (AddDebits t spent) w1")
        (auto simp: bindE_def orFail_def preserves_def split: sum.split)
    then show ?thesis using 1 Inr by (simp add: bindE_def orFail_def)
  qed (use 1 w1 in \<open>simp add: bindE_def orFail_def\<close>)
qed

lemma notifyBalances_keeps [keeps]: "preserves (W c) (notifyBalances env a)"
  unfolding notifyBalances_def by (intro keeps)

lemma notifyTxs_keeps [keeps]: "preserves (W c) (\<lambda>w. notifyTxs (n w) ltr w)"
  unfolding notifyTxs_def by (intro keeps)

lemma sendReply_keeps [keeps]: "preserves (W c) (handleSendRawTxReply env a txInfo)"
  unfolding handleSendRawTxReply_def by (intro preserves_bindE [OF ask_keeps(1)] insertSent_keeps keeps)

lemma sendPairs_uses: "max 1 (KeypoolSize env) + 1 \<le> c \<Longrightarrow> uses c (sendPairs env account amounts minconf)"
  unfolding sendPairs_def by (intro uses_before uses_after [OF uses_mapErr] txToPairs_uses keeps)

section \<open>The account manager\<close>

lemma manager_keeps [keeps]:
  "preserves (W c) (addAccount env a)" "preserves (W c) (removeAccount env a)"
  unfolding addAccount_def [abs_def] removeAccount_def [abs_def]
  by (intro keeps preserves_case_at; auto elim: same_accts)+

lemma RegisterNewAccount_keeps [keeps]: "preserves (W c) (RegisterNewAccount env a)"
  unfolding RegisterNewAccount_def by (intro keeps)

lemma Track_keeps [keeps]: "preserves (W c) (acct_Track env a)"
  unfolding acct_Track_def [abs_def] ReqSpentUtxoNtfns_def by (intro keeps)

lemma allocAcct_triple: "A 0 x \<Longrightarrow> triple (W c) (allocAcct x) (\<lambda>_. W 0) (\<lambda>_. W 0)"
  using W_less by (auto simp: triple_def allocAcct_def all_accounts_def)

lemma CreateEncryptedWallet_uses: "uses c (CreateEncryptedWallet env p)"
proof -
  have "uses c (bindE (client_BlockStamp env) (\<lambda>bs.
      bindE (askE (NewStore (e_ks env) [] (stringBytes ''Default acccount'') p (activeNet env) bs (KeypoolSize env))) (\<lambda>keys.
      bindE (allocAcct (newAccount [] keys New)) (\<lambda>a. bindE (RegisterNewAccount env a) (\<lambda>_. acct_Track env a)))))"
  proof (rule uses_before, rule keeps, unfold uses_def, rule triple_bindE)
    fix bs
    let ?f = "NewStore (e_ks env) [] (stringBytes ''Default acccount'') p (activeNet env) bs (KeypoolSize env)"
    show "triple (W c) (askE ?f) (\<lambda>keys w. (\<exists>n. ?f n = Inr keys) \<and> W c w) (\<lambda>_. W 0)"
      using W_less by (auto simp: triple_def askE_def all_accounts_def split: sum.split)
    show "triple (\<lambda>w. (\<exists>n. ?f n = Inr keys) \<and> W c w) (bindE (allocAcct (newAccount [] keys New)) (\<lambda>a.
        bindE (RegisterNewAccount env a) (\<lambda>_. acct_Track env a))) (\<lambda>_. W 0) (\<lambda>_. W 0)" for keys
      by (rule triple_fact, rule triple_bindE [OF allocAcct_triple], blast intro: fresh)
         (intro triple_preserves keeps)
  qed
  then show ?thesis using W_less unfolding uses_def triple_def CreateEncryptedWallet_def by auto
qed

lemma UnlockWallets_keeps [keeps]: "preserves (W c) (UnlockWallets env p t)"
  unfolding UnlockWallets_def [abs_def] by (intro keeps) (auto elim: same_accts)

lemma LockWallets_keeps [keeps]: "preserves (W c) LockWallets"
  unfolding LockWallets_def [abs_def] by (intro keeps) (auto elim: same_accts)

lemma am_ChangePassphrase_keeps [keeps]: "preserves (W c) (am_ChangePassphrase env old new)"
  unfolding am_ChangePassphrase_def Let_def by (intro keeps)

lemma listing_keeps [keeps]:
  "preserves (W c) (am_CalculateBalance env account minconf)" "preserves (W c) (ListAccounts env minconf)"
  "preserves (W c) (ListUnspent env minconf maxconf addresses)"
  unfolding am_CalculateBalance_def ListAccounts_def [abs_def] ListUnspent_def by (intro keeps)+

lemma DumpWIF_keeps [keeps]: "preserves (W c) (am_DumpWIFPrivateKey env addr)"
proof -
  have "preserves (W c) (DumpWIFPrivateKey env a addr)" for a
    unfolding DumpWIFPrivateKey_def
    by (rule onKeys_light)
       (auto simp: bindE_def liftE_def split: sum.splits option.splits dest: ExportPrivKey_light intro: light_none)
  then show ?thesis unfolding am_DumpWIFPrivateKey_def by (intro keeps)
qed

section \<open>The handlers\<close>

lemma request_keeps [keeps]: "preserves (W c) (requestAccount name)" "preserves (W c) (decodeAddr env e str)"
  "preserves (W c) (makeMultiSigScript env keys n)"
  unfolding requestAccount_def decodeAddr_def makeMultiSigScript_def by (intro keeps)+

lemma plain_keeps:
  "preserves (W c) (rpc_CreateMultiSig env keys n)" "preserves (W c) (rpc_DumpPrivKey env address)"
  "preserves (W c) (rpc_GetAccount env address)" "preserves (W c) (rpc_GetAddressesByAccount env account)"
  "preserves (W c) (rpc_GetBalance env account minConf)" "preserves (W c) (rpc_GetReceivedByAccount env account minConf)"
  "preserves (W c) (rpc_GetTransaction env txid)" "preserves (W c) (rpc_ListAccounts env minConf)"
  "preserves (W c) rpc_ListLockUnspent" "preserves (W c) (rpc_ListReceivedByAddress env minConf empties)"
  "preserves (W c) (rpc_ListSinceBlock env hash target)" "preserves (W c) (rpc_ListTransactions env account from cnt)"
  "preserves (W c) (rpc_ListUnspent env minConf maxConf addresses)" "preserves (W c) (rpc_ValidateAddress env address)"
  "preserves (W c) rpc_WalletLock" "preserves (W c) (rpc_WalletPassphrase env p timeout)"
  "preserves (W c) (rpc_WalletPassphraseChange env old new)" "preserves (W c) (rpc_ExportWatchingWallet env account download)"
  "preserves (W c) (rpc_GetAddressBalance env address minConf)" "preserves (W c) (rpc_GetUnconfirmedBalance env account)"
  "preserves (W c) (rpc_ListAddressTransactions env account addresses)" "preserves (W c) (rpc_ListAllTransactions env account)"
  "preserves (W c) rpc_WalletIsLocked"
  unfolding rpc_CreateMultiSig_def rpc_DumpPrivKey_def rpc_GetAccount_def rpc_GetAddressesByAccount_def rpc_GetBalance_def
    rpc_GetReceivedByAccount_def rpc_GetTransaction_def rpc_ListAccounts_def rpc_ListLockUnspent_def
    rpc_ListReceivedByAddress_def rpc_ListSinceBlock_def rpc_ListTransactions_def rpc_ListUnspent_def rpc_ValidateAddress_def
    rpc_WalletLock_def rpc_WalletPassphrase_def rpc_WalletPassphraseChange_def rpc_ExportWatchingWallet_def
    rpc_GetAddressBalance_def rpc_GetUnconfirmedBalance_def rpc_ListAddressTransactions_def rpc_ListAllTransactions_def
    rpc_WalletIsLocked_def
  by (intro keeps)+

lemma GetInfo_keeps: "preserves (W c) (rpc_GetInfo env)"
proof -
  have "preserves (W c) (balanceOr0 env a)" for a unfolding balanceOr0_def [abs_def] by (intro keeps)
  then show ?thesis unfolding rpc_GetInfo_def by (intro keeps)
qed

lemma onAcct_modify: "(\<And>x. A c x \<Longrightarrow> A c (f x)) \<Longrightarrow> preserves (W c) (onAcct a (modifyE f))"
  unfolding preserves_triple by (rule onAcct_triple) (auto simp: modifyE_def)

lemma LockUnspent_keeps: "preserves (W c) (rpc_LockUnspent env unlockThem outs)"
proof -
  have "preserves (W c) (lockInput env a unlockThem input)" for a input
    unfolding lockInput_def Let_def LockOutpoint_def UnlockOutpoint_def
    by (intro keeps onAcct_modify) (auto intro: outpoints)
  then show ?thesis
    unfolding rpc_LockUnspent_def ResetLockedOutpoints_def by (intro keeps onAcct_modify outpoints)
qed

lemma SetTxFee_keeps: "preserves (W c) (rpc_SetTxFee amount)"
  unfolding rpc_SetTxFee_def
  by (intro keeps onAcct_modify fee) (simp_all add: word_sless_alt)

lemma messageKey_keeps [keeps]: "preserves (W c) (messageKey env address)"
  unfolding messageKey_def by (intro keeps)

lemma message_keeps: "preserves (W c) (rpc_SignMessage env address message)"
  "preserves (W c) (rpc_VerifyMessage env address sig message)"
  unfolding rpc_SignMessage_def rpc_VerifyMessage_def by (intro keeps)+

lemma SignRaw_keeps:
  assumes "signer_laws sto"
  shows "preserves (W c) (rpc_SignRawTransaction env sto raw ins keys sigFlags)"
proof -
  have k: "preserves (W c) (getKey env ks addr)" "preserves (W c) (getScript env ks ss addr)" for ks ss addr
    unfolding getKey_def getScript_def by (intro keeps)+
  have "preserves (W c) (signRawInput env sto h ks ss inputs i acc)" for h ks ss inputs i acc
    using assms k unfolding signRawInput_def [abs_def] Let_def
    by (intro keeps preserves_case_at) (auto simp: signer_laws_def)
  then have "preserves (W c) (signRawInputs env sto h ks ss inputs is acc)" for h ks ss inputs "is" acc
    by (induction "is" arbitrary: acc) (auto intro!: keeps)
  moreover have "preserves (W c) (collectInputs env req inputs)" for req inputs
    by (induction req arbitrary: inputs) (auto intro!: keeps)
  ultimately show ?thesis unfolding rpc_SignRawTransaction_def by (intro keeps)
qed

lemma AddMultiSig_uses: "uses c (rpc_AddMultiSigAddress env account keys n)"
  unfolding rpc_AddMultiSigAddress_def
  by (intro uses_before uses_after [OF onKeys_heavy] keeps) (rule heavy_importScript)

lemma uses_ignoring:
  "uses c m \<Longrightarrow> uses c (\<lambda>w. case m w of (Inr _, w') \<Rightarrow> (Inr r, w') | (Inl e, w') \<Rightarrow> if P e then (Inr r, w') else (Inl (f e), w'))"
  unfolding uses_def triple_def by (auto split: prod.splits sum.splits)

lemma ImportPrivKey_uses:
  assumes "wif_laws env"
  shows "uses c (rpc_ImportPrivKey env label key rescan)"
  unfolding rpc_ImportPrivKey_def
proof (rule uses_before [OF request_keeps(1)], unfold uses_def, rule triple_bindE)
  fix a wif
  show "triple (W c) (orFail (RPCError ''ErrInvalidAddressOrKey'') (liftE (\<lambda>_. DecodeWIF env key)))
      (\<lambda>wif w. DecodeWIF env key = Inr wif \<and> W c w) (\<lambda>_. W 0)"
    using W_less by (auto simp: triple_def orFail_def liftE_def split: sum.split)
  have imp: "uses c (acct_ImportPrivateKey env a wif bs rescan)" if "DecodeWIF env key = Inr wif" for bs
    using ImportPrivateKey_uses that assms by (auto simp: wif_laws_def)
  show "triple (\<lambda>w. DecodeWIF env key = Inr wif \<and> W c w)
      (if \<not> WifIsForNet env wif (activeNet env) then failE (RPCError ''ErrInvalidAddressOrKey'')
       else (\<lambda>w. case acct_ImportPrivateKey env a wif \<lparr>bs_Height = 0, bs_Hash = 0\<rparr> rescan w of
         (Inr _, w') \<Rightarrow> (Inr ReplyNil, w')
       | (Inl e, w') \<Rightarrow> if e = ErrDuplicate then (Inr ReplyNil, w') else (Inl (unlockNeeded e), w'))) (\<lambda>_. W 0) (\<lambda>_. W 0)"
    by (rule triple_fact, fold uses_def)
       (intro uses_if uses_keep [OF preserves_failE] uses_ignoring imp)
qed

lemma basic_uses: "uses c m \<Longrightarrow> uses c (basic m)"
  unfolding basic_def by (intro uses_after keeps)

lemma rpc_addresses_use:
  assumes "max 1 (KeypoolSize env) + 1 \<le> c"
  shows "uses c (rpc_GetNewAddress env account)" "uses c (rpc_GetRawChangeAddress env account)"
    "uses c (rpc_GetAccountAddress env account)" "uses c (rpc_SendFrom env account to amount minConf)"
    "uses c (rpc_SendMany env account amounts minConf)" "uses c (rpc_SendToAddress env to amount)"
  unfolding rpc_GetNewAddress_def rpc_GetRawChangeAddress_def rpc_GetAccountAddress_def rpc_SendFrom_def rpc_SendMany_def
    rpc_SendToAddress_def
  by (intro uses_if uses_keep [OF preserves_failE] sendPairs_uses [OF assms] uses_before [OF request_keeps(1)]
      uses_after [OF NewAddress_uses [OF assms]] uses_after [OF NewChangeAddress_uses [OF assms]]
      uses_after [OF uses_mapErr [OF CurrentAddress_uses [OF assms]]] keeps)+

lemma Recover_uses: "unat n * max 1 (KeypoolSize env) + 1 \<le> c \<Longrightarrow> uses c (rpc_RecoverAddresses env account n)"
  unfolding rpc_RecoverAddresses_def
  by (intro uses_before [OF request_keeps(1)] uses_after [OF RecoverAddresses_uses] keeps)

lemma rpc_Create_uses: "uses c (rpc_CreateEncryptedWallet env p)"
  unfolding rpc_CreateEncryptedWallet_def by (intro uses_after [OF uses_mapErr [OF CreateEncryptedWallet_uses]] keeps)

lemmas plain_uses = plain_keeps [THEN uses_keep] GetInfo_keeps [THEN uses_keep] LockUnspent_keeps [THEN uses_keep]
  SetTxFee_keeps [THEN uses_keep] message_keeps [THEN uses_keep] preserves_retE [THEN uses_keep] preserves_failE [THEN uses_keep]

lemma handler_uses:
  assumes "wif_laws env" and "signer_laws sto"
  shows "uses (addressRoom env c) (handler env sto c)"
  by (cases c; simp only: handler.simps addressRoom_def cmd.case Unsupported_def Unimplemented_def rpc_Stop_def if_True if_False;
      intro basic_uses rpc_addresses_use Recover_uses rpc_Create_uses AddMultiSig_uses ImportPrivKey_uses [OF assms(1)]
        SignRaw_keeps [OF assms(2), THEN uses_keep] plain_uses uses_if order_refl)

end

end
