(* ===== verification/Wt_Wallet.thy ===== *)
theory Wt_Wallet
  imports Wt_Requests Wt_Sample
begin

text \<open>
  The invariant of a wallet: every account has a well-formed key store with room for the addresses a request may add, a
  well-formed transaction store and a fee increment that is not negative. It interprets the contract of
  \<open>account_invariant\<close>, so every request keeps it.
\<close>

section \<open>Well-formed wallets\<close>

definition wallet_wf :: "nat \<Rightarrow> Account \<Rightarrow> bool" where
  "wallet_wf c x \<longleftrightarrow> ks_wf (KeyStore x) \<and> room (KeyStore x) c \<and> store_wf (TxStore x) \<and> 0 \<le> sint (FeeIncrement x)"

definition wallet_env :: "wenv \<Rightarrow> bool" where
  "wallet_env env \<longleftrightarrow> addr_laws (e_ks env) \<and> int (KeypoolSize env) < 2 ^ 62"

lemma room_0 [simp]: "room s 0"
  using sint_lt [of "lastChainIdx s"] by (simp add: room_def)

lemma room_less: "room s c \<Longrightarrow> d \<le> c \<Longrightarrow> room s d"
  by (simp add: room_def)

lemma books_room: "ks_books s = ks_books t \<Longrightarrow> room s c = room t c"
  by (simp add: ks_books_def room_def)

lemma key_light_books: "key_light lib s k \<Longrightarrow> ks_books k = ks_books s"
proof (induction rule: key_light.induct)
  case (light_unlock passphrase r s')
  then show ?case using preservesD [OF kb.Unlock_keeps] by blast
next
  case (light_lock r s')
  then show ?case using preservesD [OF kb.Lock_keeps] by blast
next
  case (light_passphrase new r s')
  then show ?case using preservesD [OF kb.ChangePassphrase_keeps] by blast
next
  case (light_privKey q r' s')
  then show ?case using preservesD [OF kb.PrivKey_keeps] by blast
qed simp

lemma key_light_wf:
  assumes "key_light lib s k" and "ks_wf s"
  shows "ks_wf k"
  using assms
proof (induction rule: key_light.induct)
  case (light_unlock passphrase r s')
  then show ?case using preservesD [OF kw.Unlock_keeps] by blast
next
  case (light_lock r s')
  then show ?case using preservesD [OF kw.Lock_keeps] by blast
next
  case (light_passphrase new r s')
  then show ?case using preservesD [OF kw.ChangePassphrase_keeps] by blast
next
  case (light_privKey q r' s')
  then show ?case using preservesD [OF kw.PrivKey_keeps] by blast
qed simp

lemma key_heavy_step: "key_heavy lib kp c s k \<Longrightarrow> room s c \<Longrightarrow> ks_step lib s k"
  by (induction rule: key_heavy.induct)
     (blast intro: ks_step.intros dest: room_less)+

lemma InsertTx_AddDebits_wf:
  assumes "store_wf s" and "InsertTx ext now tx None s = (Inr t, s')" and "AddDebits t spent s' = (r, s'')"
  shows "store_wf s''"
proof -
  have w: "store_wf s'" and t: "map_of (u_txs (unconfirmed s')) (TxSha tx) = Some (tr_rec t)"
    using InsertTx_unmined_wf [OF assms(1,2)] by simp_all
  have "tr_rec t < length (rheap s')" using w t by (auto simp: store_wf_def unc_ok_def uwf_def refs_ok_def)
  then show ?thesis using AddDebits_wf [OF w _ assms(3)] bookD(2) by blast
qed

interpretation ww: account_invariant env "\<lambda>c x. wallet_env env \<longrightarrow> wallet_wf c x" for env
proof
  fix c d :: nat and x k assume "wallet_env env \<longrightarrow> wallet_wf c x"
  then show "d \<le> c \<Longrightarrow> wallet_env env \<longrightarrow> wallet_wf d x"
    and "key_light (e_ks env) (KeyStore x) k \<Longrightarrow> wallet_env env \<longrightarrow> wallet_wf c (x\<lparr>KeyStore := k\<rparr>)"
    and "key_heavy (e_ks env) (KeypoolSize env) c (KeyStore x) k \<Longrightarrow> wallet_env env \<longrightarrow> wallet_wf 0 (x\<lparr>KeyStore := k\<rparr>)"
    by (auto simp: wallet_wf_def wallet_env_def room_less key_light_wf books_room [OF key_light_books]
        dest: key_heavy_step ks_step_wf)
next
  show "wallet_env env \<longrightarrow> wallet_wf 0 (newAccount account k New)"
    if "NewStore (e_ks env) name desc pass net bs (KeypoolSize env) n = Inr k" for name desc pass net bs n k account
    using NewStore_wf [OF that] store_wf_New
    by (simp add: wallet_wf_def wallet_env_def newAccount_def defaultFeeIncrement_def)
qed (auto simp: wallet_wf_def dest: InsertTx_unmined_wf InsertTx_AddDebits_wf)

text \<open>C1. Whatever request is served and whatever it returns, errors included, it leaves every account of the wallet
  well formed: its key store (the chain of addresses contiguous and every entry found), its transaction store and its
  fee increment. Each account needs room in the 64-bit chain index for the addresses this request may add.\<close>

theorem requests_keep_wallet:
  assumes "wallet_env env" and "wif_laws env" and "signer_laws sto"
    and "all_accounts (wallet_wf (addressRoom env c)) w"
  shows "all_accounts (wallet_wf 0) (snd (serveRequest env sto c w))"
proof -
  have "triple (all_accounts (wallet_wf (addressRoom env c))) (handler env sto c)
     (\<lambda>_. all_accounts (wallet_wf 0)) (\<lambda>_. all_accounts (wallet_wf 0))"
    using ww.handler_uses [of env sto c, OF assms(2,3)] assms(1) unfolding ww.uses_def by simp
  then have "all_accounts (wallet_wf 0) (snd (handler env sto c w))" using assms(4) by (rule triple_snd)
  then show ?thesis by (auto simp: serveRequest_def split: prod.splits sum.splits)
qed

definition signer0 :: signer where
  "signer0 net m i input hashType gk gs sig = retE []"

lemma worldP_wf: "all_accounts (wallet_wf 100) worldP"
proof -
  have "same_addr (aget ks1 0) (BtcAddr root5)" by code_simp
  then have "ks_wf (upd_at 0 (BtcAddr root5) ks1)" by (rule kw.upd [OF ks1_wf(2)])
  moreover have e: "ksP = (upd_at 0 (BtcAddr root5) ks1)\<lparr>ks_passphrase := [1], ks_secret := pass_key [1]\<rparr>" by code_simp
  ultimately have "ks_wf ksP" unfolding e ks_wf_irrelevant(2) by simp
  moreover have "room ksP 100" by code_simp
  moreover have "reachable ext0 storeP" unfolding storeP_def by (rule reach_credit) (rule reach_stores)
  ultimately show ?thesis by (simp add: all_accounts_def worldP_def acctP_def wallet_wf_def newAccount_def reachable_store_wf)
qed

theorem requests_keep_wallet_witness:
  "all_accounts (wallet_wf 0) (snd (serveRequest env0 signer0 (SendToAddressCmd ''a'' 12) worldP))"
proof (rule requests_keep_wallet)
  show "wallet_env env0" by (simp add: wallet_env_def env0_def addr_laws_def kslib0_def)
  show "wif_laws env0" by (simp add: wif_laws_def env0_def)
  show "signer_laws signer0" by (simp add: signer_laws_def signer0_def [abs_def] preserves_retE)
  have "addressRoom env0 (SendToAddressCmd ''a'' 12) \<le> 100" by (simp add: addressRoom_def env0_def)
  then show "all_accounts (wallet_wf (addressRoom env0 (SendToAddressCmd ''a'' 12))) worldP"
    using worldP_wf by (auto simp: all_accounts_def wallet_wf_def intro: room_less)
qed

end
