(* ===== verification/Wt_Queue.thy ===== *)
theory Wt_Queue
  imports Wt_Client
begin

text \<open>
  The goroutine \<open>notificationQueue\<close> of \<open>src/rpcclient.go\<close> as a state machine: its runs, with what it has received, what
  it has sent and whether the channel it reads has been shut. It delivers every notification once and in order, and
  ends after the last one.
\<close>

section \<open>Runs\<close>

text \<open>A receive needs the channel variable \<open>enqueue\<close>, a send needs \<open>dequeue\<close>: communication on a nil channel is never
  ready. What is sent is the variable \<open>next\<close>, which may hold nil.\<close>

inductive queue_run :: "'n queue \<Rightarrow> 'n list \<Rightarrow> 'n option list \<Rightarrow> bool \<Rightarrow> bool" where
  run_new: "queue_run newQueue [] [] False"
| run_receive: "queue_run s received sent False \<Longrightarrow> \<not> qu_done s \<Longrightarrow> qu_enqueue s \<Longrightarrow>
    queue_run (queue_receive (Some n) s) (received @ [n]) sent False"
| run_close: "queue_run s received sent shut \<Longrightarrow> \<not> qu_done s \<Longrightarrow> qu_enqueue s \<Longrightarrow>
    queue_run (queue_receive None s) received sent True"
| run_send: "queue_run s received sent shut \<Longrightarrow> \<not> qu_done s \<Longrightarrow> qu_dequeue s \<Longrightarrow>
    queue_run (queue_sent s) received (sent @ [qu_next s]) shut"

inductive_cases queue_runE: "queue_run s received sent shut"

text \<open>The variables between two turns of the loop.\<close>

definition queue_inv :: "'n queue \<Rightarrow> bool \<Rightarrow> bool" where
  "queue_inv s shut \<longleftrightarrow>
     (if qu_done s then shut \<and> qu_q s = []
      else (qu_q s \<noteq> [] \<longrightarrow> qu_next s = Some (hd (qu_q s))) \<and> qu_dequeue s = (qu_q s \<noteq> []) \<and> qu_enqueue s = (\<not> shut)
        \<and> (shut \<longrightarrow> qu_q s \<noteq> []))"

lemma queue_run_inv:
  "queue_run s received sent shut \<Longrightarrow> queue_inv s shut \<and> map Some received = sent @ map Some (qu_q s)"
proof (induction rule: queue_run.induct)
  case (run_send s received sent shut)
  then have "qu_q s \<noteq> []" "qu_next s = Some (hd (qu_q s))" by (auto simp: queue_inv_def)
  then have "map Some (qu_q s) = qu_next s # map Some (tl (qu_q s))" by (cases "qu_q s") auto
  then show ?case using run_send by (auto simp: queue_inv_def queue_sent_def Let_def)
qed (auto simp: newQueue_def queue_inv_def queue_receive_def Let_def)

lemma queue_drain:
  assumes "queue_run s received sent True" and "\<not> qu_done s"
  shows "qu_done ((queue_sent ^^ length (qu_q s)) s)
    \<and> queue_run ((queue_sent ^^ length (qu_q s)) s) received (map Some received) True"
  using assms
proof (induction "length (qu_q s)" arbitrary: s sent)
  case 0
  then show ?case using queue_run_inv [of s received sent True] by (simp add: queue_inv_def)
next
  case (Suc k)
  have i: "queue_inv s True" using queue_run_inv [OF Suc.prems(1)] by simp
  then have next_run: "queue_run (queue_sent s) received (sent @ [qu_next s]) True"
    using run_send [OF Suc.prems] Suc.prems(2) Suc.hyps(2) by (auto simp: queue_inv_def)
  have len: "length (qu_q (queue_sent s)) = k" using Suc.hyps(2) by (cases "qu_q s") (simp_all add: queue_sent_def Let_def)
  show ?case
  proof (cases "qu_done (queue_sent s)")
    case True
    then have "qu_q (queue_sent s) = []" using queue_run_inv [OF next_run] by (simp add: queue_inv_def)
    then show ?thesis using True len Suc.hyps(2) next_run queue_run_inv [OF next_run] by (simp flip: Suc.hyps(2))
  next
    case False
    then show ?thesis using Suc.hyps(1) [OF len [symmetric] next_run False] len
      by (simp add: funpow_Suc_right flip: Suc.hyps(2) del: funpow.simps)
  qed
qed

text \<open>C15. The notification queue sends what it receives in the same order, each element once and never nil; it offers an
  element exactly while one is waiting, reads on exactly until its channel is closed, and when it ends everything it
  received has been sent.\<close>

theorem notificationQueue_fifo:
  assumes "queue_run s received sent shut"
  shows "map Some received = sent @ map Some (qu_q s)
    \<and> (\<not> qu_done s \<longrightarrow> (qu_dequeue s \<longleftrightarrow> qu_q s \<noteq> []) \<and> (qu_enqueue s \<longleftrightarrow> \<not> shut))
    \<and> (qu_done s \<longrightarrow> shut \<and> sent = map Some received)"
  using queue_run_inv [OF assms] by (auto simp: queue_inv_def)

theorem notificationQueue_fifo_witness:
  "map Some [1, 2, 3 :: nat] = [Some 1, Some 2, Some 3] \<and> qu_done (queue_sent (queue_receive None (queue_receive (Some 3)
     (queue_sent (queue_sent (queue_receive (Some 2) (queue_receive (Some (1 :: nat)) newQueue)))))))"
proof -
  let ?s = "queue_receive (Some 2) (queue_receive (Some (1 :: nat)) newQueue)"
  have "queue_run ?s (([] @ [1]) @ [2]) [] False"
    by (intro run_receive run_new) (simp_all add: newQueue_def queue_receive_def)
  then have "queue_run (queue_sent (queue_sent ?s)) (([] @ [1]) @ [2]) (([] @ [qu_next ?s]) @ [qu_next (queue_sent ?s)]) False"
    by (intro run_send) (simp_all add: newQueue_def queue_receive_def queue_sent_def)
  then have "queue_run (queue_sent (queue_receive None (queue_receive (Some 3) (queue_sent (queue_sent ?s)))))
     ((([] @ [1]) @ [2]) @ [3]) ((([] @ [qu_next ?s]) @ [qu_next (queue_sent ?s)]) @
       [qu_next (queue_receive None (queue_receive (Some 3) (queue_sent (queue_sent ?s))))]) True"
    by (intro run_send run_close [where shut = False]; (rule run_receive)?) (simp_all add: newQueue_def queue_receive_def queue_sent_def)
  from notificationQueue_fifo [OF this] show ?thesis
    by (simp add: newQueue_def queue_receive_def queue_sent_def)
qed

text \<open>C21. When the channel of notifications is closed the queue does not lose the waiting ones and does not hang: one
  send for each of them, all of them possible, ends it with everything received delivered.\<close>

theorem notificationQueue_drains:
  assumes "queue_run s received sent True" and "\<not> qu_done s"
  shows "\<exists>s'. (queue_sent ^^ length (qu_q s)) s = s' \<and> queue_run s' received (map Some received) True \<and> qu_done s'"
  using queue_drain [OF assms] by blast

theorem notificationQueue_drains_witness:
  "qu_done ((queue_sent ^^ 2) (queue_receive None (queue_receive (Some 2) (queue_receive (Some (1 :: nat)) newQueue))))"
proof -
  let ?s = "queue_receive None (queue_receive (Some 2) (queue_receive (Some (1 :: nat)) newQueue))"
  have "queue_run ?s (([] @ [1]) @ [2]) [] True"
    by (intro run_close [where shut = False] run_receive run_new) (simp_all add: newQueue_def queue_receive_def)
  moreover have "\<not> qu_done ?s" "length (qu_q ?s) = 2" by (simp_all add: newQueue_def queue_receive_def)
  ultimately show ?thesis using notificationQueue_drains [of ?s] by metis
qed

end
