(* ===== verification/Wt_Atomic.thy ===== *)
theory Wt_Atomic
  imports Wt_Sample
begin

text \<open>
  Files of \<open>src/disksync.go\<close> are replaced as a whole: a file is written under a temporary name and renamed, so whichever
  call of the operating system fails, the account's file has its old contents or the complete new ones.
\<close>

section \<open>Steps of a write\<close>

text \<open>Nothing but the file at one path may differ.\<close>

definition same_but :: "path set \<Rightarrow> fs \<Rightarrow> fs \<Rightarrow> bool" where
  "same_but ps s s' \<longleftrightarrow> fs_dirs s' = fs_dirs s \<and> (\<forall>p. p \<notin> ps \<longrightarrow> map_of (fs_files s') p = map_of (fs_files s) p)"

lemma same_but_refl [simp]: "same_but ps s s"
  by (simp add: same_but_def)

lemma same_but_trans: "same_but ps s t \<Longrightarrow> same_but qs t u \<Longrightarrow> same_but (ps \<union> qs) s u"
  by (simp add: same_but_def)

lemma syscall_same: "syscall os s = (res, s') \<Longrightarrow> same_but {} s s'"
  by (auto simp: syscall_def same_but_def)

lemma TempFile_run:
  assumes "ioutil_TempFile os d name s = (res, s')"
  shows "case res of Inl e \<Rightarrow> same_but {} s s'
    | Inr tmp \<Rightarrow> same_but {tmp} s s' \<and> map_of (fs_files s') tmp = Some [] \<and> \<not> exists s tmp
        \<and> (\<exists>n \<in> set (TempNames os (fs_calls s)). tmp = d @ [name @ n])"
  using assms
  by (auto simp: ioutil_TempFile_def syscall_def bindE_def liftE_def failE_def modifyE_def retE_def same_but_def
      find_Some_iff exists_def split: if_splits option.splits)

lemma writeFile_run:
  assumes "writeFile os p w s = (res, s')" and "map_of (fs_files s) p = Some []"
  shows "same_but {p} s s'"
    and "res = Inr () \<Longrightarrow> \<exists>bs cap cap'. w ([], cap) = (Inr (), (bs, cap')) \<and> map_of (fs_files s') p = Some bs"
  using assms by (auto simp: writeFile_def same_but_def split: prod.splits) blast

lemma ignoring_syscall: "ignoring (syscall os) s = (res, s') \<Longrightarrow> res = Inr () \<and> same_but {} s s'"
  by (auto simp: ignoring_def syscall_def same_but_def)

lemma Rename_run:
  assumes "os_Rename os old new s = (res, s')" and "old \<notin> set (fs_dirs s)"
  shows "case res of Inl e \<Rightarrow> same_but {} s s'
    | Inr _ \<Rightarrow> same_but {old, new} s s' \<and> map_of (fs_files s') new = map_of (fs_files s) old"
  using assms
  by (auto simp: os_Rename_def syscall_def bindE_def liftE_def failE_def modifyE_def same_but_def delete_conv
      split: if_splits option.splits)

lemma writeVia_run:
  assumes run: "writeVia os dir target w s = (res, s')" and names: "\<forall>k. [] \<notin> set (TempNames os k)"
    and target: "butlast target = dir" "target \<noteq> []"
  shows "res = Inr () \<Longrightarrow> \<exists>bs cap cap'. w ([], cap) = (Inr (), (bs, cap')) \<and> map_of (fs_files s') target = Some bs"
    and "res \<noteq> Inr () \<Longrightarrow> map_of (fs_files s') target = map_of (fs_files s) target"
    and "same_but {p. p = target \<or> \<not> exists s p} s s'"
proof -
  have new: "d @ [last target @ n] \<noteq> target" if "n \<in> set (TempNames os k)" for d n k
    using that names target by (metis append_self_conv last_snoc)
  obtain r1 s1 where 1: "ioutil_TempFile os dir (last target) s = (r1, s1)" by force
  have "(res = Inr () \<longrightarrow> (\<exists>bs cap cap'. w ([], cap) = (Inr (), (bs, cap')) \<and> map_of (fs_files s') target = Some bs))
    \<and> (res \<noteq> Inr () \<longrightarrow> map_of (fs_files s') target = map_of (fs_files s) target)
    \<and> (same_but {p. p = target \<or> \<not> exists s p} s s')"
  proof (cases r1)
    case (Inl e)
    then have "res = Inl e" "s' = s1" using run 1 by (simp_all add: writeVia_def bindE_def)
    then show ?thesis using TempFile_run [OF 1] Inl by (auto simp: same_but_def)
  next
    case (Inr tmp)
    have t: "same_but {tmp} s s1" "map_of (fs_files s1) tmp = Some []" "\<not> exists s tmp" "tmp \<noteq> target"
      using TempFile_run [OF 1] Inr new by auto
    obtain r2 s2 where 2: "writeFile os tmp w s1 = (r2, s2)" by force
    have s2: "same_but {tmp} s s2" using same_but_trans [OF t(1) writeFile_run(1) [OF 2 t(2)]] by simp
    show ?thesis
    proof (cases r2)
      case (Inl e)
      then have "res = Inl e" "s' = s2" using run 1 2 Inr by (simp_all add: writeVia_def bindE_def)
      then show ?thesis using s2 t(3,4) by (auto simp: same_but_def)
    next
      case (Inr u)
      obtain bs cap cap' where bs: "w ([], cap) = (Inr (), (bs, cap'))" "map_of (fs_files s2) tmp = Some bs"
        using writeFile_run(2) [OF 2 t(2)] Inr by auto
      obtain r3 s3 where 3: "ignoring (syscall os) s2 = (r3, s3)" by force
      obtain r4 s4 where 4: "ignoring (syscall os) s3 = (r4, s4)" by force
      have s4: "same_but {} s2 s4" using same_but_trans ignoring_syscall [OF 3] ignoring_syscall [OF 4] by fastforce
      have 5: "os_Rename os tmp target s4 = (res, s')"
        using run 1 2 3 4 ignoring_syscall [OF 3] ignoring_syscall [OF 4] \<open>r1 = Inr tmp\<close> Inr
        by (simp add: writeVia_def bindE_def)
      have "tmp \<notin> set (fs_dirs s4)" using t(3) s2 s4 by (simp add: same_but_def exists_def)
      from Rename_run [OF 5 this] show ?thesis
        using s2 s4 t(3,4) bs by (auto simp: same_but_def split: sum.splits)
    qed
  qed
  then show "res = Inr () \<Longrightarrow> \<exists>bs cap cap'. w ([], cap) = (Inr (), (bs, cap')) \<and> map_of (fs_files s') target = Some bs"
    and "res \<noteq> Inr () \<Longrightarrow> map_of (fs_files s') target = map_of (fs_files s) target"
    and "same_but {p. p = target \<or> \<not> exists s p} s s'" by blast+
qed

lemma accountFilename_in: "butlast (accountFilename suff account dir) = dir \<and> accountFilename suff account dir \<noteq> []"
  by (simp add: accountFilename_def)

section \<open>The wallet file\<close>

text \<open>C7. Saving a key store replaces its file as a whole. If the save reports success the file has exactly the bytes
  that the store writes to an unbounded writer; if it reports an error, whichever call failed (the temporary file, a
  write on a full device, the rename), the file is what it was. Every other file that existed and all directories are
  as before either way.\<close>

theorem writeWallet_atomic:
  assumes "\<forall>k. [] \<notin> set (TempNames (e_os env) k)" and "fmt_ok (e_ks env) (KeyStore a)"
    and "writeWallet env a dir s = (res, s')"
  defines "target \<equiv> accountFilename ''wallet.bin'' (acct_name a) dir"
  shows "(res = Inr () \<longrightarrow> (\<exists>bs. map_of (fs_files s') target = Some bs
           \<and> ks_WriteTo (e_ks env) (KeyStore a) ([], None) = (Inr (), (bs, None))))
    \<and> (res \<noteq> Inr () \<longrightarrow> map_of (fs_files s') target = map_of (fs_files s) target)
    \<and> (\<forall>p. exists s p \<longrightarrow> p \<noteq> target \<longrightarrow> map_of (fs_files s') p = map_of (fs_files s) p)
    \<and> fs_dirs s' = fs_dirs s"
proof -
  have "butlast target = dir" "target \<noteq> []" by (simp_all add: target_def accountFilename_in)
  note run = writeVia_run [OF assms(3) [unfolded writeWallet_def, folded target_def] assms(1) this]
  obtain enc where enc: "ks_WriteTo (e_ks env) (KeyStore a) = Write enc" using written_file [OF assms(2)] by blast
  have "\<exists>bs. map_of (fs_files s') target = Some bs \<and> ks_WriteTo (e_ks env) (KeyStore a) ([], None) = (Inr (), (bs, None))"
    if "res = Inr ()"
    using run(1) [OF that] by (auto simp: enc Write_def split: option.splits if_splits)
  then show ?thesis using run(2,3) by (auto simp: same_but_def)
qed

definition acctQ :: Account where
  "acctQ = newAccount [] ks1 storeP"

lemma writeWallet_sample:
  "fmt_ok (e_ks env0) (KeyStore acctQ)" "fst (writeWallet env0 acctQ [''data'', ''mainnet''] (w_fs worldP)) = Inr ()"
proof -
  show fmt: "fmt_ok (e_ks env0) (KeyStore acctQ)" using ks1_fmt by (simp add: env0_def acctQ_def newAccount_def)
  then obtain enc where "ks_WriteTo (e_ks env0) (KeyStore acctQ) = Write enc" using written_file by blast
  then show "fst (writeWallet env0 acctQ [''data'', ''mainnet''] (w_fs worldP)) = Inr ()"
    by (simp add: writeWallet_def writeVia_def env0_def os0_def worldP_def acctQ_def newAccount_def accountFilename_def
        ioutil_TempFile_def writeFile_def Write_def ignoring_def syscall_def os_Rename_def exists_def
        bindE_def liftE_def modifyE_def retE_def)
qed

theorem writeWallet_atomic_witness:
  "\<exists>s'. writeWallet env0 acctQ [''data'', ''mainnet''] (w_fs worldP) = (Inr (), s')
    \<and> (\<exists>bs. map_of (fs_files s') [''data'', ''mainnet'', ''wallet.bin''] = Some bs
        \<and> ks_WriteTo kslib0 ks1 ([], None) = (Inr (), (bs, None)))"
proof -
  obtain s' where r: "writeWallet env0 acctQ [''data'', ''mainnet''] (w_fs worldP) = (Inr (), s')"
    using writeWallet_sample(2) by (metis prod.collapse)
  have "\<forall>k. [] \<notin> set (TempNames (e_os env0) k)" by (simp add: env0_def os0_def)
  from writeWallet_atomic [OF this writeWallet_sample(1) r] r show ?thesis
    by (simp add: acctQ_def newAccount_def accountFilename_def env0_def)
qed

end
