(* ===== verification/Wt_Findings.thy ===== *)
theory Wt_Findings
  imports Wt_Server Wt_Sample
begin

text \<open>
  Requests whose outcome is not what the code means to do.
\<close>

text \<open>C35. A finding: \<open>ValidateAddress\<close> expects an address that the account manager knows to be in that account's key
  store. The manager files addresses under their encoding, which for a public key is the encoding of its hash, and the
  key store under the script address, which for a public key is the key itself. So a \<open>validateaddress\<close> request with
  the public key of an address of the wallet ends the process.\<close>

theorem ValidateAddress_pubkey_panics:
  assumes "DecodeAddress env str = Inr (AddressPubKey p)"
    and "EncodeAddress env (AddressPubKey p) = EncodeAddress env (AddressPubKeyHash h)"
    and "map_of (addressToAccount w) (EncodeAddress env (AddressPubKeyHash h)) = Some a"
    and "\<forall>k \<in> fst ` set (addrMap (KeyStore (acct w a))). length k = 20" and "length (ScriptAddress p) = 33"
  shows "serveRequest env sto (ValidateAddressCmd str) w = (Inl (Panic ''address not found''), w)"
proof -
  have "map_of (addrMap (KeyStore (acct w a))) (ScriptAddress p) = None"
    using assms(4,5) by (auto simp: map_of_eq_None_iff)
  then show ?thesis
    using assms by (simp add: serveRequest_def rpc_ValidateAddress_def liftE_def AccountByAddress_def Address_lookup_def Let_def)
qed

definition encodeV :: "btcutilAddress \<Rightarrow> string" where
  "encodeV addr = (case addr of
     AddressPubKey p \<Rightarrow> EncodeAddress env0 (AddressPubKeyHash (a_address root5))
   | _ \<Rightarrow> EncodeAddress env0 addr)"

definition envV :: wenv where
  "envV = env0\<lparr>DecodeAddress := \<lambda>s. Inr (AddressPubKey \<lparr>ScriptAddress = replicate 33 2, AddrNet = \<lparr>Net = 1\<rparr>\<rparr>),
     EncodeAddress := encodeV\<rparr>"

definition worldV :: World where
  "worldV = worldP\<lparr>addressToAccount := [(EncodeAddress env0 (AddressPubKeyHash (a_address root5)), 0)]\<rparr>"

theorem ValidateAddress_pubkey_panics_witness:
  "serveRequest envV (\<lambda>_ _ _ _ _ _ _ _. retE []) (ValidateAddressCmd ''02'') worldV = (Inl (Panic ''address not found''), worldV)"
proof (rule ValidateAddress_pubkey_panics)
  show "DecodeAddress envV ''02'' = Inr (AddressPubKey \<lparr>ScriptAddress = replicate 33 2, AddrNet = \<lparr>Net = 1\<rparr>\<rparr>)"
    and "EncodeAddress envV (AddressPubKey \<lparr>ScriptAddress = replicate 33 2, AddrNet = \<lparr>Net = 1\<rparr>\<rparr>) =
      EncodeAddress envV (AddressPubKeyHash (a_address root5))"
    and "map_of (addressToAccount worldV) (EncodeAddress envV (AddressPubKeyHash (a_address root5))) = Some 0"
    by (simp_all add: envV_def worldV_def encodeV_def)
  show "\<forall>k \<in> fst ` set (addrMap (KeyStore (acct worldV 0))). length k = 20" by code_simp
qed simp

end
