(* ===== verification/Wt_Gateway.thy ===== *)
theory Wt_Gateway
  imports Wt_Server
begin

text \<open>
  \<open>src/rpcserver.go\<close>: authentication, websocket connections and HTTP requests, down to the bytes of a request. JSON is a
  parameter: whether a request parses, which method it names and which command it is. Each loop of a connection's
  goroutines is one turn here; the theory \<open>Wt_Sockets\<close> interleaves the turns.
\<close>

section \<open>Requests and credentials\<close>

datatype wsCmd =
    AuthenticateCmd string string
  | WalletCmd cmd

text \<open>\<open>btcjson.ParseMarshaledCmd\<close> returns a command, or an error and possibly the command it could not complete.\<close>

datatype parsed =
    ParsedCmd wsCmd
  | ParseFailed "wsCmd option"

fun parsedCmd :: "parsed \<Rightarrow> wsCmd option" where
  "parsedCmd (ParsedCmd k) = Some k"
| "parsedCmd (ParseFailed k) = k"

record jsonlib =
  Unmarshal :: "bytes \<Rightarrow> string option"
  ParseMarshaledCmd :: "bytes \<Rightarrow> parsed"
  Sum256 :: "bytes \<Rightarrow> bytes"

definition basicAuth :: "string \<Rightarrow> string \<Rightarrow> bytes" where
  "basicAuth user pass = stringBytes (''Basic '' @ base64 (stringBytes (user @ '':'' @ pass)))"

text \<open>The header lines named \<open>Authorization\<close>; only the first is looked at.\<close>

definition checkAuthHeader :: "jsonlib \<Rightarrow> bytes \<Rightarrow> bytes list \<Rightarrow> err + unit" where
  "checkAuthHeader lib authsha authhdr = (case authhdr of
     [] \<Rightarrow> Inl (ErrorString ''no auth'')
   | h # _ \<Rightarrow> if Sum256 lib h \<noteq> authsha then Inl (ErrorString ''bad auth'') else Inr ())"

text \<open>The keys of the two maps of handlers.\<close>

definition rpcHandlers :: "string list" where
  "rpcHandlers =
     [''addmultisigaddress'', ''createmultisig'', ''dumpprivkey'', ''getaccount'', ''getaccountaddress'',
      ''getaddressesbyaccount'', ''getbalance'', ''getinfo'', ''getnewaddress'', ''getrawchangeaddress'',
      ''getreceivedbyaccount'', ''gettransaction'', ''importprivkey'', ''keypoolrefill'', ''listaccounts'',
      ''listlockunspent'', ''listreceivedbyaddress'', ''listsinceblock'', ''listtransactions'', ''listunspent'',
      ''lockunspent'', ''sendfrom'', ''sendmany'', ''sendtoaddress'', ''settxfee'', ''signmessage'',
      ''signrawtransaction'', ''stop'', ''validateaddress'', ''verifymessage'', ''walletlock'', ''walletpassphrase'',
      ''walletpassphrasechange''] @ unimplementedMethods @ [''encryptwallet'', ''createencryptedwallet'']"

definition wsHandlers :: "string list" where
  "wsHandlers =
     [''exportwatchingwallet'', ''getaddressbalance'', ''getunconfirmedbalance'', ''listaddresstransactions'',
      ''listalltransactions'', ''recoveraddresses'', ''walletislocked'']"

definition handled :: "string \<Rightarrow> bool \<Rightarrow> bool" where
  "handled m ws \<longleftrightarrow> m \<in> set rpcHandlers \<or> ws \<and> m \<in> set wsHandlers"

text \<open>What a client is sent.\<close>

datatype wsMessage =
    MsgInvalid
  | MsgAuthenticated
  | MsgReply "string + result"
  | MsgPassed "err + bytes"
  | MsgNotice notice

text \<open>\<open>passthrough\<close>: the answer of the chain server to a request it is sent as it is.\<close>

definition passthrough :: "World \<Rightarrow> (err + bytes) \<Rightarrow> wsMessage" where
  "passthrough w answer = (case w_client w of
     None \<Rightarrow> MsgPassed (Inl (ErrorString ''chain server disconnected''))
   | Some _ \<Rightarrow> MsgPassed answer)"

section \<open>Websocket connections\<close>

text \<open>\<open>wc_unauthed\<close> is the buffer of \<open>unauthedRequests\<close> and \<open>wc_gatewayDone\<close> that it is closed; \<open>wc_respondDone\<close> that
  \<open>responses\<close> is closed, \<open>wc_quit\<close> that \<open>quit\<close> is. \<open>wc_sent\<close> is what went through \<open>responses\<close>.\<close>

record websocketClient =
  wc_authenticated :: bool
  wc_unauthed :: "bytes list"
  wc_gatewayDone :: bool
  wc_respondDone :: bool
  wc_quit :: bool
  wc_sent :: "wsMessage list"

definition maxConcurrentClientRequests :: nat where
  "maxConcurrentClientRequests = 20"

definition newWebsocketClient :: "bool \<Rightarrow> websocketClient" where
  "newWebsocketClient authed = \<lparr>wc_authenticated = authed, wc_unauthed = [], wc_gatewayDone = False,
     wc_respondDone = False, wc_quit = False, wc_sent = []\<rparr>"

datatype sendResult = Sent | Disconnected | SendPanic

text \<open>The outcomes of \<open>send\<close>. The receiver of \<open>responses\<close> runs until it closes \<open>quit\<close>. A send on a closed channel is
  ready and panics; when \<open>quit\<close> is closed too, \<open>select\<close> takes either case.\<close>

definition ws_send :: "wsMessage \<Rightarrow> websocketClient \<Rightarrow> (sendResult \<times> websocketClient) list" where
  "ws_send m c =
     (if wc_respondDone c then [(SendPanic, c)] else if wc_quit c then [] else [(Sent, c\<lparr>wc_sent := wc_sent c @ [m]\<rparr>)]) @
     (if wc_quit c then [(Disconnected, c)] else [])"

text \<open>One turn of \<open>WebsocketClientGateway\<close> on a request.\<close>

datatype gatewayAction = GatewayEnd | GatewayInvalid | GatewayQueue | GatewayPass

definition gatewayTurn :: "jsonlib \<Rightarrow> bytes \<Rightarrow> websocketClient \<Rightarrow> gatewayAction" where
  "gatewayTurn lib request c = (case Unmarshal lib request of
     None \<Rightarrow> if \<not> wc_authenticated c then GatewayEnd else GatewayInvalid
   | Some m \<Rightarrow> if handled m True \<or> m = ''authenticate'' then GatewayQueue else GatewayPass)"

text \<open>\<open>invalidAuth\<close>: whether the request is not allowed, and whether credentials were checked.\<close>

definition invalidAuth :: "jsonlib \<Rightarrow> bytes \<Rightarrow> wsCmd option \<Rightarrow> websocketClient \<Rightarrow> (bool \<times> bool) \<times> websocketClient" where
  "invalidAuth lib authsha request c = (case request of
     Some (AuthenticateCmd user pass) \<Rightarrow>
       if wc_authenticated c then ((True, False), c)
       else let ok = Sum256 lib (basicAuth user pass) = authsha in
         ((\<not> ok, True), c\<lparr>wc_authenticated := ok\<rparr>)
   | _ \<Rightarrow> ((\<not> wc_authenticated c, False), c))"

text \<open>One turn of \<open>WebsocketClientRespond\<close> up to the handler.\<close>

datatype respondAction = RespondEnd | RespondAuthenticated | RespondInvalid | RespondRun cmd

definition respondTurn :: "jsonlib \<Rightarrow> bytes \<Rightarrow> bytes \<Rightarrow> websocketClient \<Rightarrow> respondAction \<times> websocketClient" where
  "respondTurn lib authsha request c =
     (let p = ParseMarshaledCmd lib request;
          r = invalidAuth lib authsha (parsedCmd p) c in
      (if fst (fst r) then RespondEnd
       else if snd (fst r) then RespondAuthenticated
       else case p of ParsedCmd (WalletCmd k) \<Rightarrow> RespondRun k | _ \<Rightarrow> RespondInvalid, snd r))"

section \<open>HTTP requests\<close>

datatype postReply =
    Unauthorized
  | TooLarge
  | PostInvalid
  | PostPassed wsMessage
  | PostReply "string + result"

definition maxRequestSize :: nat where
  "maxRequestSize = 1024 * 1024 * 4"

text \<open>The handler of \<open>/\<close>: \<open>checkAuthHeader\<close> and \<open>PostClientRPC\<close>. A panic of a handler is an error of the action.\<close>

definition PostClientRPC :: "jsonlib \<Rightarrow> wenv \<Rightarrow> signer \<Rightarrow> bytes \<Rightarrow> (err + bytes) \<Rightarrow> postReply wact" where
  "PostClientRPC lib env sto rpcRequest answer =
     (if maxRequestSize < length rpcRequest then retE TooLarge
      else case Unmarshal lib rpcRequest of
        None \<Rightarrow> retE PostInvalid
      | Some m \<Rightarrow>
          if m = ''authenticate'' then retE PostInvalid
          else if \<not> handled m False then liftE (\<lambda>w. Inr (PostPassed (passthrough w answer)))
          else case ParseMarshaledCmd lib rpcRequest of
            ParsedCmd (WalletCmd k) \<Rightarrow> bindE (serveRequest env sto k) (\<lambda>r. retE (PostReply r))
          | _ \<Rightarrow> retE PostInvalid)"

definition servePost :: "jsonlib \<Rightarrow> wenv \<Rightarrow> signer \<Rightarrow> bytes \<Rightarrow> bytes list \<Rightarrow> bytes \<Rightarrow> (err + bytes) \<Rightarrow> postReply wact" where
  "servePost lib env sto authsha authhdr rpcRequest answer = (case checkAuthHeader lib authsha authhdr of
     Inl e \<Rightarrow> retE Unauthorized
   | Inr _ \<Rightarrow> PostClientRPC lib env sto rpcRequest answer)"

text \<open>The handler of \<open>/ws\<close> before the connection is upgraded: refused, or a client that is authenticated or not.\<close>

definition acceptWebsocket :: "jsonlib \<Rightarrow> bytes \<Rightarrow> bytes list \<Rightarrow> websocketClient option" where
  "acceptWebsocket lib authsha authhdr = (case checkAuthHeader lib authsha authhdr of
     Inr _ \<Rightarrow> Some (newWebsocketClient True)
   | Inl e \<Rightarrow> if e = ErrorString ''no auth'' then Some (newWebsocketClient False) else None)"

section \<open>Throttling\<close>

text \<open>The counter of \<open>throttled\<close>: a request enters, is refused or served, and leaves.\<close>

definition throttle_enter :: "i64 \<Rightarrow> i64 \<Rightarrow> bool \<times> i64" where
  "throttle_enter threshold active = (let current = active + 1 in (\<not> threshold \<le>s current - 1, current))"

definition throttle_leave :: "i64 \<Rightarrow> i64" where
  "throttle_leave active = active - 1"

end
