(* ===== verification/Wt_Sockets.thy ===== *)
theory Wt_Sockets
  imports Wt_Gateway
begin

text \<open>
  The websocket connections of \<open>src/rpcserver.go\<close> as a transition system. Every connection has a goroutine that reads and
  sorts requests (\<open>WebsocketClientGateway\<close>), one that answers them (\<open>WebsocketClientRespond\<close>) and one that sends
  (\<open>WebsocketClientSend\<close>); \<open>NotificationHandler\<close> sends notices to all of them, and HTTP requests come beside. A step is
  one turn of one of them; it lists the possible outcomes, each with the event that is seen of it.
\<close>

section \<open>The server\<close>

record rpcServer =
  srv_authsha :: bytes
  srv_conns :: "websocketClient list"
  srv_wsClients :: "nat list"
  srv_passing :: "(nat \<times> wsMessage) list"
  srv_world :: World
  srv_panic :: bool

datatype wsEvent =
    Connected nat "bytes list"
  | LoggedIn nat string string
  | Ran nat cmd
  | PassedOn nat bytes
  | Posted "bytes list" cmd
  | Broadcast notice
  | Silent

definition newServer :: "bytes \<Rightarrow> World \<Rightarrow> rpcServer" where
  "newServer authsha w = \<lparr>srv_authsha = authsha, srv_conns = [], srv_wsClients = [], srv_passing = [], srv_world = w,
     srv_panic = False\<rparr>"

definition putConn :: "nat \<Rightarrow> websocketClient \<Rightarrow> rpcServer \<Rightarrow> rpcServer" where
  "putConn i c s = s\<lparr>srv_conns := (srv_conns s)[i := c]\<rparr>"

text \<open>What follows a send: the connection goes on, or \<open>stop\<close> on a disconnected client.\<close>

definition afterSend :: "(websocketClient \<Rightarrow> websocketClient) \<Rightarrow> nat \<Rightarrow> wsEvent \<Rightarrow> wsMessage \<Rightarrow> websocketClient \<Rightarrow> rpcServer \<Rightarrow>
    (wsEvent \<times> rpcServer) list" where
  "afterSend stop i e m c s = map (\<lambda>(r, c').
     (e, case r of Sent \<Rightarrow> putConn i c' s | Disconnected \<Rightarrow> putConn i (stop c') s | SendPanic \<Rightarrow> s\<lparr>srv_panic := True\<rparr>))
     (ws_send m c)"

section \<open>Turns\<close>

text \<open>A new connection: \<open>/ws\<close>, \<open>WebsocketClientRPC\<close> and its \<open>NotifyConnectionStatus\<close>.\<close>

definition connectStep :: "jsonlib \<Rightarrow> bytes list \<Rightarrow> rpcServer \<Rightarrow> (wsEvent \<times> rpcServer) list" where
  "connectStep lib authhdr s = (case acceptWebsocket lib (srv_authsha s) authhdr of
     None \<Rightarrow> []
   | Some c \<Rightarrow>
       [(Connected (length (srv_conns s)) authhdr,
         s\<lparr>srv_conns := srv_conns s @ [c\<lparr>wc_sent := [MsgNotice (BtcdConnected (w_client (srv_world s) \<noteq> None))]\<rparr>],
           srv_wsClients := srv_wsClients s @ [length (srv_conns s)]\<rparr>)])"

definition gatewayStep :: "jsonlib \<Rightarrow> bytes \<Rightarrow> (err + bytes) \<Rightarrow> nat \<Rightarrow> rpcServer \<Rightarrow> (wsEvent \<times> rpcServer) list" where
  "gatewayStep lib request answer i s =
     (let c = srv_conns s ! i in
      if length (srv_conns s) \<le> i \<or> wc_gatewayDone c then []
      else case gatewayTurn lib request c of
        GatewayEnd \<Rightarrow> [(Silent, putConn i (c\<lparr>wc_gatewayDone := True\<rparr>) s)]
      | GatewayInvalid \<Rightarrow> afterSend (\<lambda>c. c\<lparr>wc_gatewayDone := True\<rparr>) i Silent MsgInvalid c s
      | GatewayQueue \<Rightarrow>
          if length (wc_unauthed c) < maxConcurrentClientRequests
          then [(Silent, putConn i (c\<lparr>wc_unauthed := wc_unauthed c @ [request]\<rparr>) s)] else []
      | GatewayPass \<Rightarrow>
          [(PassedOn i request, s\<lparr>srv_passing := srv_passing s @ [(i, passthrough (srv_world s) answer)]\<rparr>)])"

text \<open>The client has disconnected, or the server quits.\<close>

definition gatewayEnd :: "nat \<Rightarrow> rpcServer \<Rightarrow> (wsEvent \<times> rpcServer) list" where
  "gatewayEnd i s =
     (if length (srv_conns s) \<le> i then [] else [(Silent, putConn i ((srv_conns s ! i)\<lparr>wc_gatewayDone := True\<rparr>) s)])"

text \<open>A goroutine \<open>websocketPassthrough\<close> has its answer.\<close>

definition passStep :: "nat \<Rightarrow> rpcServer \<Rightarrow> (wsEvent \<times> rpcServer) list" where
  "passStep j s =
     (if length (srv_passing s) \<le> j \<or> length (srv_conns s) \<le> fst (srv_passing s ! j) then []
      else afterSend id (fst (srv_passing s ! j)) Silent (snd (srv_passing s ! j)) (srv_conns s ! fst (srv_passing s ! j))
        (s\<lparr>srv_passing := take j (srv_passing s) @ drop (Suc j) (srv_passing s)\<rparr>))"

definition credentials :: "jsonlib \<Rightarrow> bytes \<Rightarrow> string \<times> string" where
  "credentials lib request = (case parsedCmd (ParseMarshaledCmd lib request) of
     Some (AuthenticateCmd user pass) \<Rightarrow> (user, pass) | _ \<Rightarrow> ([], []))"

text \<open>One turn of \<open>WebsocketClientRespond\<close>. The code looks the handler up by the method of the raw request; here it is chosen by the
  parsed command, whose constructor is given by that method.\<close>

definition respondStep :: "jsonlib \<Rightarrow> wenv \<Rightarrow> signer \<Rightarrow> nat \<Rightarrow> rpcServer \<Rightarrow> (wsEvent \<times> rpcServer) list" where
  "respondStep lib env sto i s =
     (let c = srv_conns s ! i; stop = (\<lambda>c. c\<lparr>wc_respondDone := True\<rparr>) in
      if length (srv_conns s) \<le> i \<or> wc_respondDone c then []
      else case wc_unauthed c of
        [] \<Rightarrow> if wc_gatewayDone c then [(Silent, putConn i (stop c) s)] else []
      | request # rest \<Rightarrow>
          (case respondTurn lib (srv_authsha s) request (c\<lparr>wc_unauthed := rest\<rparr>) of (act, c') \<Rightarrow>
             case act of
               RespondEnd \<Rightarrow> [(Silent, putConn i (stop c') s)]
             | RespondAuthenticated \<Rightarrow>
                 afterSend stop i (LoggedIn i (fst (credentials lib request)) (snd (credentials lib request))) MsgAuthenticated c' s
             | RespondInvalid \<Rightarrow> afterSend stop i Silent MsgInvalid c' s
             | RespondRun k \<Rightarrow>
                 (case serveRequest env sto k (srv_world s) of
                    (Inl e, w) \<Rightarrow> [(Ran i k, s\<lparr>srv_world := w, srv_panic := True\<rparr>)]
                  | (Inr r, w) \<Rightarrow> afterSend stop i (Ran i k) (MsgReply r) c' (s\<lparr>srv_world := w\<rparr>))))"

text \<open>\<open>WebsocketClientSend\<close> ends: a write has failed, or \<open>responses\<close> is closed.\<close>

definition sendEnd :: "nat \<Rightarrow> rpcServer \<Rightarrow> (wsEvent \<times> rpcServer) list" where
  "sendEnd i s =
     (if length (srv_conns s) \<le> i then [] else [(Silent, putConn i ((srv_conns s ! i)\<lparr>wc_quit := True\<rparr>) s)])"

text \<open>The cases of \<open>NotificationHandler\<close>; the one that adds a client is part of its connection.\<close>

definition removeStep :: "nat \<Rightarrow> rpcServer \<Rightarrow> (wsEvent \<times> rpcServer) list" where
  "removeStep i s =
     (if length (srv_conns s) \<le> i \<or> \<not> wc_quit (srv_conns s ! i) then []
      else [(Silent, s\<lparr>srv_wsClients := removeAll i (srv_wsClients s)\<rparr>)])"

primrec broadcastTo :: "notice \<Rightarrow> nat list \<Rightarrow> rpcServer \<Rightarrow> rpcServer list" where
  "broadcastTo n [] s = [s]"
| "broadcastTo n (i # is) s = concat (map (\<lambda>(r, c). case r of
       Sent \<Rightarrow> broadcastTo n is (putConn i c s)
     | Disconnected \<Rightarrow> broadcastTo n is (s\<lparr>srv_wsClients := removeAll i (srv_wsClients s)\<rparr>)
     | SendPanic \<Rightarrow> [s\<lparr>srv_panic := True\<rparr>]) (ws_send (MsgNotice n) (srv_conns s ! i)))"

definition broadcastStep :: "notice \<Rightarrow> rpcServer \<Rightarrow> (wsEvent \<times> rpcServer) list" where
  "broadcastStep n s = map (Pair (Broadcast n)) (broadcastTo n (srv_wsClients s) s)"

text \<open>A request over HTTP.\<close>

definition postEvent :: "jsonlib \<Rightarrow> bytes list \<Rightarrow> bytes \<Rightarrow> wsEvent" where
  "postEvent lib authhdr request = (case parsedCmd (ParseMarshaledCmd lib request) of
     Some (WalletCmd k) \<Rightarrow> Posted authhdr k | _ \<Rightarrow> Silent)"

definition postStep :: "jsonlib \<Rightarrow> wenv \<Rightarrow> signer \<Rightarrow> bytes list \<Rightarrow> bytes \<Rightarrow> (err + bytes) \<Rightarrow> rpcServer \<Rightarrow> (wsEvent \<times> rpcServer) list" where
  "postStep lib env sto authhdr request answer s =
     (case servePost lib env sto (srv_authsha s) authhdr request answer (srv_world s) of
        (Inl e, w) \<Rightarrow> [(postEvent lib authhdr request, s\<lparr>srv_world := w, srv_panic := True\<rparr>)]
      | (Inr (PostReply r), w) \<Rightarrow> [(postEvent lib authhdr request, s\<lparr>srv_world := w\<rparr>)]
      | (Inr _, w) \<Rightarrow> [(Silent, s\<lparr>srv_world := w\<rparr>)])"

end
