(* ===== verification/Wt_SocketProps.thy ===== *)
theory Wt_SocketProps
  imports Wt_Sockets Wt_Sample
begin

text \<open>
  Who may use the wallet. Runs of the server are traces of events, newest first. Every command that is run for a
  websocket client comes after credentials of that client that match, and the state of the wallet is what the commands
  made of it; other requests are passed to the chain server for anybody.
\<close>

section \<open>Runs\<close>

inductive ws_step :: "jsonlib \<Rightarrow> wenv \<Rightarrow> signer \<Rightarrow> rpcServer \<Rightarrow> wsEvent \<times> rpcServer \<Rightarrow> bool"
  for lib :: jsonlib and env :: wenv and sto :: signer where
  step_connect: "x \<in> set (connectStep lib authhdr s) \<Longrightarrow> ws_step lib env sto s x"
| step_gateway: "x \<in> set (gatewayStep lib request answer i s) \<Longrightarrow> ws_step lib env sto s x"
| step_gatewayEnd: "x \<in> set (gatewayEnd i s) \<Longrightarrow> ws_step lib env sto s x"
| step_pass: "x \<in> set (passStep j s) \<Longrightarrow> ws_step lib env sto s x"
| step_respond: "x \<in> set (respondStep lib env sto i s) \<Longrightarrow> ws_step lib env sto s x"
| step_sendEnd: "x \<in> set (sendEnd i s) \<Longrightarrow> ws_step lib env sto s x"
| step_remove: "x \<in> set (removeStep i s) \<Longrightarrow> ws_step lib env sto s x"
| step_broadcast: "x \<in> set (broadcastStep n s) \<Longrightarrow> ws_step lib env sto s x"
| step_post: "x \<in> set (postStep lib env sto authhdr request answer s) \<Longrightarrow> ws_step lib env sto s x"

inductive ws_run :: "jsonlib \<Rightarrow> wenv \<Rightarrow> signer \<Rightarrow> rpcServer \<Rightarrow> wsEvent list \<Rightarrow> rpcServer \<Rightarrow> bool"
  for lib :: jsonlib and env :: wenv and sto :: signer and s0 :: rpcServer where
  wrun_start: "ws_run lib env sto s0 [] s0"
| wrun_step: "ws_run lib env sto s0 evs s \<Longrightarrow> \<not> srv_panic s \<Longrightarrow> ws_step lib env sto s (e, s') \<Longrightarrow> ws_run lib env sto s0 (e # evs) s'"

inductive_cases ws_stepE: "ws_step lib env sto s x"

section \<open>Credentials\<close>

definition goodHeader :: "jsonlib \<Rightarrow> bytes \<Rightarrow> bytes list \<Rightarrow> bool" where
  "goodHeader lib authsha authhdr \<longleftrightarrow> (case authhdr of [] \<Rightarrow> False | h # _ \<Rightarrow> Sum256 lib h = authsha)"

text \<open>The event shows the right credentials of connection \<open>i\<close>.\<close>

fun proves :: "jsonlib \<Rightarrow> bytes \<Rightarrow> nat \<Rightarrow> wsEvent \<Rightarrow> bool" where
  "proves lib authsha i (Connected j authhdr) = (j = i \<and> goodHeader lib authsha authhdr)"
| "proves lib authsha i (LoggedIn j user pass) = (j = i \<and> Sum256 lib (basicAuth user pass) = authsha)"
| "proves lib authsha i _ = False"

fun ranCmd :: "wsEvent \<Rightarrow> cmd list" where
  "ranCmd (Ran i k) = [k]"
| "ranCmd (Posted authhdr k) = [k]"
| "ranCmd _ = []"

definition afterCmds :: "wenv \<Rightarrow> signer \<Rightarrow> cmd list \<Rightarrow> World \<Rightarrow> World" where
  "afterCmds env sto ks w = fold (\<lambda>k w. snd (serveRequest env sto k w)) ks w"

text \<open>What a single step may do.\<close>

definition step_ok :: "jsonlib \<Rightarrow> wenv \<Rightarrow> signer \<Rightarrow> rpcServer \<Rightarrow> wsEvent \<times> rpcServer \<Rightarrow> bool" where
  "step_ok lib env sto s x \<longleftrightarrow> (case x of (e, s') \<Rightarrow>
     srv_authsha s' = srv_authsha s \<and>
     (\<forall>i < length (srv_conns s'). wc_authenticated (srv_conns s' ! i) \<longrightarrow>
        (i < length (srv_conns s) \<and> wc_authenticated (srv_conns s ! i)) \<or> proves lib (srv_authsha s) i e) \<and>
     (case e of
        Ran i k \<Rightarrow> i < length (srv_conns s) \<and> wc_authenticated (srv_conns s ! i)
      | Posted authhdr k \<Rightarrow> goodHeader lib (srv_authsha s) authhdr
      | _ \<Rightarrow> True) \<and>
     srv_world s' = afterCmds env sto (ranCmd e) (srv_world s))"

text \<open>Steps that touch one connection.\<close>

definition same_auth :: "rpcServer \<Rightarrow> rpcServer \<Rightarrow> bool" where
  "same_auth s s' \<longleftrightarrow> srv_authsha s' = srv_authsha s \<and> srv_world s' = srv_world s \<and>
     map wc_authenticated (srv_conns s') = map wc_authenticated (srv_conns s)"

lemma step_ok_same:
  assumes "same_auth s s'" and "ranCmd e = []"
  shows "step_ok lib env sto s (e, s')"
proof -
  have l: "length (srv_conns s') = length (srv_conns s)" using assms(1) map_eq_imp_length_eq by (auto simp: same_auth_def)
  have "wc_authenticated (srv_conns s' ! i) = wc_authenticated (srv_conns s ! i)" if "i < length (srv_conns s')" for i
    using that l assms(1) nth_map [of i "srv_conns s'" wc_authenticated] nth_map [of i "srv_conns s" wc_authenticated]
    by (simp add: same_auth_def)
  then show ?thesis using assms l by (cases e) (auto simp: step_ok_def same_auth_def afterCmds_def)
qed

lemma ws_send_auth: "(r, c') \<in> set (ws_send m c) \<Longrightarrow> wc_authenticated c' = wc_authenticated c"
  by (auto simp: ws_send_def split: if_splits)

text \<open>Replacing a connection, with the event that goes with it.\<close>

definition conn_ok :: "jsonlib \<Rightarrow> wenv \<Rightarrow> signer \<Rightarrow> nat \<Rightarrow> wsEvent \<Rightarrow> websocketClient \<Rightarrow> rpcServer \<Rightarrow> rpcServer \<Rightarrow> bool" where
  "conn_ok lib env sto i e c s t \<longleftrightarrow> i < length (srv_conns s) \<and>
     (wc_authenticated c \<longrightarrow> wc_authenticated (srv_conns s ! i) \<or> proves lib (srv_authsha s) i e) \<and>
     (case e of Ran j k \<Rightarrow> j = i \<and> wc_authenticated (srv_conns s ! i) | Posted authhdr k \<Rightarrow> False | _ \<Rightarrow> True) \<and>
     srv_conns t = srv_conns s \<and> srv_authsha t = srv_authsha s \<and> srv_world t = afterCmds env sto (ranCmd e) (srv_world s)"

lemma step_ok_put:
  assumes "conn_ok lib env sto i e c s t"
  shows "step_ok lib env sto s (e, putConn i c t)"
  using assms by (auto simp: conn_ok_def step_ok_def putConn_def nth_list_update split: wsEvent.splits)

lemma step_ok_panic:
  "conn_ok lib env sto i e c s t \<Longrightarrow> step_ok lib env sto s (e, t\<lparr>srv_panic := True\<rparr>)"
  by (auto simp: conn_ok_def step_ok_def split: wsEvent.splits)

lemma step_ok_send:
  assumes "conn_ok lib env sto i e c s t" and "\<And>c. wc_authenticated (stop c) = wc_authenticated c"
    and "x \<in> set (afterSend stop i e m c t)"
  shows "step_ok lib env sto s x"
proof -
  obtain r c' where r: "(r, c') \<in> set (ws_send m c)"
    "x = (e, case r of Sent \<Rightarrow> putConn i c' t | Disconnected \<Rightarrow> putConn i (stop c') t | SendPanic \<Rightarrow> t\<lparr>srv_panic := True\<rparr>)"
    using assms(3) by (auto simp: afterSend_def)
  have "conn_ok lib env sto i e c' s t" "conn_ok lib env sto i e (stop c') s t"
    using assms(1,2) ws_send_auth [OF r(1)] by (simp_all add: conn_ok_def)
  then show ?thesis using r(2) step_ok_put step_ok_panic by (cases r) auto
qed

section \<open>Steps\<close>

lemma connect_ok: "x \<in> set (connectStep lib authhdr s) \<Longrightarrow> step_ok lib env sto s x"
  by (cases authhdr)
     (auto simp: connectStep_def step_ok_def acceptWebsocket_def checkAuthHeader_def newWebsocketClient_def goodHeader_def
       nth_append afterCmds_def split: option.splits if_splits)

lemma silent_conn_ok:
  "i < length (srv_conns s) \<Longrightarrow> wc_authenticated c = wc_authenticated (srv_conns s ! i) \<Longrightarrow>
   srv_conns t = srv_conns s \<Longrightarrow> srv_authsha t = srv_authsha s \<Longrightarrow> srv_world t = srv_world s \<Longrightarrow>
   conn_ok lib env sto i Silent c s t"
  by (simp add: conn_ok_def afterCmds_def)

lemma gateway_ok: "x \<in> set (gatewayStep lib request answer i s) \<Longrightarrow> step_ok lib env sto s x"
  by (auto simp: gatewayStep_def Let_def same_auth_def split: if_splits gatewayAction.splits
      intro!: step_ok_put silent_conn_ok step_ok_same elim!: step_ok_send [rotated 2])

lemma quiet_ok:
  "x \<in> set (gatewayEnd i s) \<Longrightarrow> step_ok lib env sto s x" "x \<in> set (sendEnd i s) \<Longrightarrow> step_ok lib env sto s x"
  "x \<in> set (removeStep i s) \<Longrightarrow> step_ok lib env sto s x" "x \<in> set (passStep j s) \<Longrightarrow> step_ok lib env sto s x"
  by (auto simp: gatewayEnd_def sendEnd_def removeStep_def passStep_def same_auth_def split: if_splits
      intro!: step_ok_put silent_conn_ok step_ok_same elim!: step_ok_send [rotated 2])

lemma broadcastTo_auth: "s' \<in> set (broadcastTo n is s) \<Longrightarrow> same_auth s s'"
proof (induction "is" arbitrary: s)
  case (Cons i "is")
  have put: "same_auth s (putConn i c s)" if "(r, c) \<in> set (ws_send (MsgNotice n) (srv_conns s ! i))" for r c
    using ws_send_auth [OF that] list_update_id [of "map wc_authenticated (srv_conns s)" i]
    by (cases "i < length (srv_conns s)") (simp_all add: same_auth_def putConn_def map_update list_update_beyond)
  have trans: "same_auth s u" if "same_auth s t" "same_auth t u" for t u using that by (simp add: same_auth_def)
  obtain r c where "(r, c) \<in> set (ws_send (MsgNotice n) (srv_conns s ! i))"
    "s' \<in> set (case r of Sent \<Rightarrow> broadcastTo n is (putConn i c s)
      | Disconnected \<Rightarrow> broadcastTo n is (s\<lparr>srv_wsClients := removeAll i (srv_wsClients s)\<rparr>)
      | SendPanic \<Rightarrow> [s\<lparr>srv_panic := True\<rparr>])" using Cons.prems by auto
  note run = this
  show ?case
  proof (cases r)
    case Sent
    then have "same_auth (putConn i c s) s'" using run(2) Cons.IH by simp
    then show ?thesis using put [OF run(1)] trans by blast
  next
    case Disconnected
    then have "same_auth (s\<lparr>srv_wsClients := removeAll i (srv_wsClients s)\<rparr>) s'" using run(2) Cons.IH by simp
    then show ?thesis by (simp add: same_auth_def)
  qed (use run(2) in \<open>simp add: same_auth_def\<close>)
qed (simp add: same_auth_def)

lemma broadcast_ok: "x \<in> set (broadcastStep n s) \<Longrightarrow> step_ok lib env sto s x"
  by (auto simp: broadcastStep_def intro: step_ok_same broadcastTo_auth)

lemma respondTurn_auth:
  assumes "respondTurn lib authsha request c = (act, c')"
  shows "act \<noteq> RespondAuthenticated \<Longrightarrow> wc_authenticated c' \<Longrightarrow> wc_authenticated c"
    and "act = RespondAuthenticated \<Longrightarrow> Sum256 lib (basicAuth (fst (credentials lib request)) (snd (credentials lib request))) = authsha"
    and "act = RespondRun k \<Longrightarrow> wc_authenticated c"
  using assms
  by (auto simp: respondTurn_def Let_def invalidAuth_def credentials_def split: if_splits option.splits wsCmd.splits parsed.splits)

lemma respond_ok: "x \<in> set (respondStep lib env sto i s) \<Longrightarrow> step_ok lib env sto s x"
proof -
  assume x: "x \<in> set (respondStep lib env sto i s)"
  let ?c = "srv_conns s ! i" and ?stop = "\<lambda>c :: websocketClient. c\<lparr>wc_respondDone := True\<rparr>"
  have i: "i < length (srv_conns s)" "\<not> wc_respondDone ?c"
    using x by (auto simp: respondStep_def Let_def split: if_splits)
  show ?thesis
  proof (cases "wc_unauthed ?c")
    case Nil
    then show ?thesis using x i by (auto simp: respondStep_def Let_def split: if_splits intro!: step_ok_put silent_conn_ok)
  next
    case (Cons request rest)
    obtain act c' where t: "respondTurn lib (srv_authsha s) request (?c\<lparr>wc_unauthed := rest\<rparr>) = (act, c')" by force
    note a = respondTurn_auth [OF t, simplified]
    have q: "conn_ok lib env sto i Silent c' s s" "conn_ok lib env sto i Silent (?stop c') s s" if "act \<noteq> RespondAuthenticated"
      using a(1) [OF that] i by (simp_all add: conn_ok_def afterCmds_def)
    show ?thesis
    proof (cases act)
      case RespondEnd
      then show ?thesis using x i Cons t q by (auto simp: respondStep_def intro: step_ok_put)
    next
      case RespondAuthenticated
      let ?e = "LoggedIn i (fst (credentials lib request)) (snd (credentials lib request))"
      have "x \<in> set (afterSend ?stop i ?e MsgAuthenticated c' s)" using x i Cons t RespondAuthenticated by (simp add: respondStep_def Let_def)
      moreover have "conn_ok lib env sto i ?e c' s s" using a(2) [OF RespondAuthenticated] i by (simp add: conn_ok_def afterCmds_def)
      ultimately show ?thesis by (intro step_ok_send [where stop = ?stop and t = s]) simp_all
    next
      case RespondInvalid
      then have "x \<in> set (afterSend ?stop i Silent MsgInvalid c' s)" using x i Cons t by (simp add: respondStep_def Let_def)
      then show ?thesis using q RespondInvalid by (intro step_ok_send [where stop = ?stop and t = s]) simp_all
    next
      case (RespondRun k)
      obtain r w where r: "serveRequest env sto k (srv_world s) = (r, w)" by force
      let ?t = "s\<lparr>srv_world := w\<rparr>"
      have k: "conn_ok lib env sto i (Ran i k) c' s ?t" using a(3) [OF RespondRun] i r by (simp add: conn_ok_def afterCmds_def)
      show ?thesis
      proof (cases r)
        case (Inl e)
        then have "x = (Ran i k, ?t\<lparr>srv_panic := True\<rparr>)" using x i Cons t RespondRun r by (simp add: respondStep_def Let_def)
        then show ?thesis using step_ok_panic [OF k] by simp
      next
        case (Inr m)
        then have "x \<in> set (afterSend ?stop i (Ran i k) (MsgReply m) c' ?t)"
          using x i Cons t RespondRun r by (simp add: respondStep_def Let_def)
        then show ?thesis by (intro step_ok_send [OF k, where stop = ?stop]) simp_all
      qed
    qed
  qed
qed

lemma post_ok: "x \<in> set (postStep lib env sto authhdr request answer s) \<Longrightarrow> step_ok lib env sto s x"
proof -
  assume x: "x \<in> set (postStep lib env sto authhdr request answer s)"
  have quiet: "step_ok lib env sto s (Silent, s\<lparr>srv_world := w\<rparr>)" if "w = srv_world s" for w
    using that by (intro step_ok_same) (simp_all add: same_auth_def)
  show ?thesis
  proof (cases "goodHeader lib (srv_authsha s) authhdr")
    case True
    then have run: "servePost lib env sto (srv_authsha s) authhdr request answer = PostClientRPC lib env sto request answer"
      by (cases authhdr) (auto simp: servePost_def checkAuthHeader_def goodHeader_def)
    have posted: "step_ok lib env sto s (Posted authhdr k, s\<lparr>srv_world := snd (serveRequest env sto k (srv_world s))\<rparr>)"
      "step_ok lib env sto s (Posted authhdr k, s\<lparr>srv_world := snd (serveRequest env sto k (srv_world s)), srv_panic := True\<rparr>)"
      for k using True by (auto simp: step_ok_def afterCmds_def)
    show ?thesis using x quiet posted
      by (auto simp: postStep_def run PostClientRPC_def postEvent_def bindE_def retE_def liftE_def
          split: if_splits option.splits parsed.splits wsCmd.splits prod.splits sum.splits) (metis snd_conv)+
  next
    case False
    then have "servePost lib env sto (srv_authsha s) authhdr request answer = retE Unauthorized"
      by (cases authhdr) (auto simp: servePost_def checkAuthHeader_def goodHeader_def)
    then show ?thesis using x quiet by (simp add: postStep_def retE_def)
  qed
qed

lemma ws_step_ok: "ws_step lib env sto s x \<Longrightarrow> step_ok lib env sto s x"
  by (induction rule: ws_step.induct) (fact connect_ok gateway_ok quiet_ok respond_ok broadcast_ok post_ok)+

section \<open>Authentication\<close>

definition proven :: "jsonlib \<Rightarrow> bytes \<Rightarrow> nat \<Rightarrow> wsEvent list \<Rightarrow> bool" where
  "proven lib authsha i evs \<longleftrightarrow> (\<exists>e \<in> set evs. proves lib authsha i e)"

lemma ws_run_state:
  assumes "ws_run lib env sto (newServer authsha w) evs s"
  shows "srv_authsha s = authsha \<and>
    (\<forall>i < length (srv_conns s). wc_authenticated (srv_conns s ! i) \<longrightarrow> proven lib authsha i evs) \<and>
    srv_world s = afterCmds env sto (concat (map ranCmd (rev evs))) w"
  using assms
proof (induction rule: ws_run.induct)
  case (wrun_step evs s e s')
  note ok = ws_step_ok [OF wrun_step.hyps(3), unfolded step_ok_def prod.case]
  show ?case
  proof (intro conjI allI impI)
    show "srv_authsha s' = authsha" using ok wrun_step.IH by simp
    show "srv_world s' = afterCmds env sto (concat (map ranCmd (rev (e # evs)))) w"
      using ok wrun_step.IH by (simp add: afterCmds_def)
    show "proven lib authsha i (e # evs)" if "i < length (srv_conns s')" "wc_authenticated (srv_conns s' ! i)" for i
    proof -
      have "(i < length (srv_conns s) \<and> wc_authenticated (srv_conns s ! i)) \<or> proves lib authsha i e"
        using ok that wrun_step.IH by blast
      then show ?thesis using wrun_step.IH by (auto simp: proven_def)
    qed
  qed
qed (simp add: newServer_def afterCmds_def)

lemmas ws_run_auth = ws_run_state [THEN conjunct1] ws_run_state [THEN conjunct2, THEN conjunct1, rule_format]
  ws_run_state [THEN conjunct2, THEN conjunct2]

text \<open>C8. A command is run only for who has shown the configured credentials. In every interleaving of connections,
  requests, notices and HTTP requests: before a command is run for a websocket client, that client has connected with a
  matching header or logged in with a matching name and password; a command over HTTP came with a matching header; and
  the wallet is what these commands, in the order they were run, made of it, so nothing else a client sends changes it.\<close>

theorem websocket_authenticated:
  assumes "ws_run lib env sto (newServer authsha w) evs s"
  shows "(\<forall>later i k earlier. evs = later @ Ran i k # earlier \<longrightarrow> proven lib authsha i earlier)
    \<and> (\<forall>authhdr k. Posted authhdr k \<in> set evs \<longrightarrow> goodHeader lib authsha authhdr)
    \<and> srv_world s = afterCmds env sto (concat (map ranCmd (rev evs))) w"
proof (intro conjI allI impI)
  show "srv_world s = afterCmds env sto (concat (map ranCmd (rev evs))) w" by (rule ws_run_auth(3) [OF assms])
  show "goodHeader lib authsha authhdr" if "Posted authhdr k \<in> set evs" for authhdr k
    using assms that
  proof (induction rule: ws_run.induct)
    case (wrun_step evs s e s')
    then show ?case using ws_step_ok [OF wrun_step.hyps(3)] ws_run_auth(1) [OF wrun_step.hyps(1)] by (auto simp: step_ok_def)
  qed simp
  show "proven lib authsha i earlier" if "evs = later @ Ran i k # earlier" for later i k earlier
    using assms that
  proof (induction arbitrary: later rule: ws_run.induct)
    case (wrun_step evs s e s')
    show ?case
    proof (cases later)
      case Nil
      then have "e = Ran i k" "evs = earlier" using wrun_step.prems by simp_all
      then show ?thesis
        using ws_step_ok [OF wrun_step.hyps(3)] ws_run_auth(2) [OF wrun_step.hyps(1)] by (simp add: step_ok_def)
    next
      case (Cons x xs)
      then show ?thesis using wrun_step.IH wrun_step.prems by simp
    qed
  qed simp
qed

section \<open>A run\<close>

lemma connected_run:
  "ws_run lib env sto (newServer authsha w) [Connected 0 []]
     ((newServer authsha w)\<lparr>srv_conns := [(newWebsocketClient False)\<lparr>wc_sent := [MsgNotice (BtcdConnected (w_client w \<noteq> None))]\<rparr>],
        srv_wsClients := [0]\<rparr>)"
  by (rule wrun_step [OF wrun_start])
     (auto intro!: step_connect [where authhdr = "[]"]
       simp: newServer_def connectStep_def acceptWebsocket_def checkAuthHeader_def)

text \<open>Request 0 logs in as user \<open>u\<close>, request 1 asks for a refill of the key pool, request 2 is for the chain server.\<close>

definition json0 :: jsonlib where
  "json0 = \<lparr>Unmarshal = (\<lambda>r. if r = [0] then Some ''authenticate'' else if r = [1] then Some ''keypoolrefill''
       else if r = [2] then Some ''getblockcount'' else None),
     ParseMarshaledCmd = (\<lambda>r. if r = [0] then ParsedCmd (AuthenticateCmd ''u'' ''p'')
       else if r = [1] then ParsedCmd (WalletCmd KeypoolRefillCmd) else ParseFailed None),
     Sum256 = id\<rparr>"

definition signer1 :: signer where
  "signer1 net m i input hashType gk gs sig = retE []"

lemma handled_examples: "handled ''keypoolrefill'' True" "\<not> handled ''getblockcount'' True"
  by code_simp+

lemma login_run:
  "\<exists>s. ws_run json0 env sto (newServer (basicAuth ''u'' ''p'') w)
     [Ran 0 KeypoolRefillCmd, LoggedIn 0 ''u'' ''p'', Silent, Silent, Connected 0 []] s"
proof -
  let ?c = "(newWebsocketClient False)\<lparr>wc_sent := [MsgNotice (BtcdConnected (w_client w \<noteq> None))]\<rparr>"
  let ?new = "newServer (basicAuth ''u'' ''p'') w"
  let ?s = "\<lambda>c. ?new\<lparr>srv_conns := [c], srv_wsClients := [0]\<rparr>"
  let ?d = "?c\<lparr>wc_unauthed := [[1]], wc_authenticated := True, wc_sent := wc_sent ?c @ [MsgAuthenticated]\<rparr>"
  note start = newServer_def newWebsocketClient_def putConn_def json0_def
  have "ws_run json0 env sto ?new [Silent, Connected 0 []] (?s (?c\<lparr>wc_unauthed := [[0]]\<rparr>))"
    by (rule wrun_step [OF connected_run])
       (auto intro!: step_gateway [where request = "[0]" and answer = "Inr []" and i = 0]
         simp: start gatewayStep_def gatewayTurn_def maxConcurrentClientRequests_def)
  then have "ws_run json0 env sto ?new [Silent, Silent, Connected 0 []] (?s (?c\<lparr>wc_unauthed := [[0], [1]]\<rparr>))"
    by (rule wrun_step)
       (auto intro!: step_gateway [where request = "[1]" and answer = "Inr []" and i = 0]
         simp: start gatewayStep_def gatewayTurn_def maxConcurrentClientRequests_def handled_examples)
  then have "ws_run json0 env sto ?new [LoggedIn 0 ''u'' ''p'', Silent, Silent, Connected 0 []] (?s ?d)"
    by (rule wrun_step)
       (auto intro!: step_respond [where i = 0]
         simp: start respondStep_def respondTurn_def invalidAuth_def credentials_def afterSend_def ws_send_def)
  then have "ws_run json0 env sto ?new [Ran 0 KeypoolRefillCmd, LoggedIn 0 ''u'' ''p'', Silent, Silent, Connected 0 []]
      (?s (?d\<lparr>wc_unauthed := [], wc_sent := wc_sent ?d @ [MsgReply (Inr (Reply ReplyNil))]\<rparr>))"
    by (rule wrun_step)
       (auto intro!: step_respond [where i = 0] simp: start respondStep_def respondTurn_def invalidAuth_def afterSend_def
         ws_send_def serveRequest_def retE_def)
  then show ?thesis by blast
qed

theorem websocket_authenticated_witness:
  "\<exists>s :: rpcServer. srv_world s = snd (serveRequest env0 signer1 KeypoolRefillCmd worldP)
    \<and> proven json0 (basicAuth ''u'' ''p'') 0 [LoggedIn 0 ''u'' ''p'', Silent, Silent, Connected 0 []]"
proof -
  obtain s where "ws_run json0 env0 signer1 (newServer (basicAuth ''u'' ''p'') worldP)
     [Ran 0 KeypoolRefillCmd, LoggedIn 0 ''u'' ''p'', Silent, Silent, Connected 0 []] s" using login_run by blast
  note ok = websocket_authenticated [OF this]
  have "proven json0 (basicAuth ''u'' ''p'') 0 [LoggedIn 0 ''u'' ''p'', Silent, Silent, Connected 0 []]"
    using ok [THEN conjunct1, rule_format, of "[]"] by simp
  moreover have "srv_world s = snd (serveRequest env0 signer1 KeypoolRefillCmd worldP)"
    using ok [THEN conjunct2, THEN conjunct2] by (simp add: afterCmds_def)
  ultimately show ?thesis by blast
qed

section \<open>Findings\<close>

text \<open>C39. A finding: the gateway looks at the authentication of a client only when a request does not parse, and a
  connection is registered for notices as soon as it is made. So a client that has shown no credentials has its
  requests for the chain server passed on over the wallet's own connection, and is sent every notice, balances and
  transactions included.\<close>

theorem unauthenticated_client_served:
  assumes "Unmarshal lib request = Some m" and "\<not> handled m True" and "m \<noteq> ''authenticate''"
  shows "(\<exists>s. ws_run lib env sto (newServer authsha w) [PassedOn 0 request, Connected 0 []] s
      \<and> srv_passing s = [(0, passthrough w answer)] \<and> \<not> wc_authenticated (srv_conns s ! 0))
    \<and> (\<exists>s. ws_run lib env sto (newServer authsha w) [Broadcast n, Connected 0 []] s
      \<and> MsgNotice n \<in> set (wc_sent (srv_conns s ! 0)) \<and> \<not> wc_authenticated (srv_conns s ! 0))"
proof (intro conjI exI)
  let ?c = "(newWebsocketClient False)\<lparr>wc_sent := [MsgNotice (BtcdConnected (w_client w \<noteq> None))]\<rparr>"
  let ?s = "(newServer authsha w)\<lparr>srv_conns := [?c], srv_wsClients := [0]\<rparr>"
  let ?p = "?s\<lparr>srv_passing := [(0, passthrough w answer)]\<rparr>"
  let ?b = "?s\<lparr>srv_conns := [?c\<lparr>wc_sent := wc_sent ?c @ [MsgNotice n]\<rparr>]\<rparr>"
  show "ws_run lib env sto (newServer authsha w) [PassedOn 0 request, Connected 0 []] ?p"
    by (rule wrun_step [OF connected_run])
       (auto intro!: step_gateway [where request = request and answer = answer and i = 0] simp: newServer_def
         gatewayStep_def gatewayTurn_def newWebsocketClient_def assms)
  show "ws_run lib env sto (newServer authsha w) [Broadcast n, Connected 0 []] ?b"
    by (rule wrun_step [OF connected_run])
       (auto intro!: step_broadcast [where n = n] simp: newServer_def newWebsocketClient_def broadcastStep_def ws_send_def putConn_def)
qed (simp_all add: newServer_def newWebsocketClient_def)

theorem unauthenticated_client_served_witness:
  "\<exists>s. ws_run json0 env0 signer1 (newServer [] worldP) [PassedOn 0 [2], Connected 0 []] s \<and> \<not> wc_authenticated (srv_conns s ! 0)"
proof -
  have "Unmarshal json0 [2] = Some ''getblockcount''" "\<not> handled ''getblockcount'' True" "''getblockcount'' \<noteq> ''authenticate''"
    by (simp_all add: json0_def handled_examples)
  from unauthenticated_client_served [OF this] show ?thesis by blast
qed

text \<open>The window: the responses of a client are closed, it is still registered for notices, and its \<open>quit\<close> is not closed yet.\<close>

definition goingAway :: "nat \<Rightarrow> rpcServer \<Rightarrow> bool" where
  "goingAway i s \<longleftrightarrow> i \<in> set (srv_wsClients s) \<and> wc_respondDone (srv_conns s ! i) \<and> \<not> wc_quit (srv_conns s ! i)"

lemma ws_send_some: "ws_send m c \<noteq> []"
  by (simp add: ws_send_def)

lemma broadcast_some: "broadcastTo n is s \<noteq> []"
proof (induction "is" arbitrary: s)
  case (Cons i "is")
  obtain r c xs where "ws_send (MsgNotice n) (srv_conns s ! i) = (r, c) # xs" using ws_send_some by (metis list.exhaust prod.exhaust)
  then show ?case using Cons.IH by (cases r) simp_all
qed simp

lemma broadcast_panics:
  assumes "i \<in> set is" and "wc_respondDone (srv_conns s ! i)" and "\<not> wc_quit (srv_conns s ! i)" and "s' \<in> set (broadcastTo n is s)"
  shows "srv_panic s'"
  using assms
proof (induction "is" arbitrary: s)
  case (Cons j "is")
  show ?case
  proof (cases "j = i")
    case True
    then show ?thesis using Cons.prems by (simp add: ws_send_def)
  next
    case False
    obtain r c where r: "(r, c) \<in> set (ws_send (MsgNotice n) (srv_conns s ! j))"
      "s' \<in> set (case r of Sent \<Rightarrow> broadcastTo n is (putConn j c s)
        | Disconnected \<Rightarrow> broadcastTo n is (s\<lparr>srv_wsClients := removeAll j (srv_wsClients s)\<rparr>) | SendPanic \<Rightarrow> [s\<lparr>srv_panic := True\<rparr>])"
      using Cons.prems(4) by auto
    show ?thesis
    proof (cases r)
      case Sent
      then show ?thesis using r(2) False Cons.prems(1-3) Cons.IH [of "putConn j c s"] by (simp add: putConn_def)
    next
      case Disconnected
      then show ?thesis using r(2) False Cons.prems(1-3) Cons.IH [of "s\<lparr>srv_wsClients := removeAll j (srv_wsClients s)\<rparr>"] by simp
    next
      case SendPanic
      then show ?thesis using r(2) by simp
    qed
  qed
qed simp

text \<open>C40. A finding: when a client goes, \<open>WebsocketClientRespond\<close> closes the channel of its responses, but the client stays
  registered for notices until \<open>WebsocketClientSend\<close> has closed \<open>quit\<close> and had it removed. There is a run, of a client that connects
  and disconnects without any credentials, into the time between the two. And in whatever state a
  client is in this time, a notice that is sent then, and every answer of the chain server to a request of the client that
  is delivered then, panics in each of its outcomes. (A run in which the client is removed first does not panic.)\<close>

theorem disconnect_panics:
  "(\<exists>s. ws_run lib env sto (newServer authsha w) [Silent, Silent, Connected 0 []] s \<and> goingAway 0 s \<and> \<not> srv_panic s)
   \<and> (\<forall>s i. goingAway i s \<longrightarrow>
        broadcastStep n s \<noteq> [] \<and> (\<forall>x \<in> set (broadcastStep n s). srv_panic (snd x))
      \<and> (\<forall>j. j < length (srv_passing s) \<longrightarrow> fst (srv_passing s ! j) = i \<longrightarrow> i < length (srv_conns s) \<longrightarrow>
           passStep j s \<noteq> [] \<and> (\<forall>x \<in> set (passStep j s). srv_panic (snd x))))"
proof (intro conjI allI impI ballI)
  let ?c = "(newWebsocketClient False)\<lparr>wc_sent := [MsgNotice (BtcdConnected (w_client w \<noteq> None))]\<rparr>"
  let ?s = "\<lambda>c. (newServer authsha w)\<lparr>srv_conns := [c], srv_wsClients := [0]\<rparr>"
  have "ws_run lib env sto (newServer authsha w) [Silent, Connected 0 []] (?s (?c\<lparr>wc_gatewayDone := True\<rparr>))"
    by (rule wrun_step [OF connected_run])
       (auto intro!: step_gatewayEnd [where i = 0] simp: newServer_def gatewayEnd_def putConn_def)
  then have "ws_run lib env sto (newServer authsha w) [Silent, Silent, Connected 0 []]
      (?s (?c\<lparr>wc_gatewayDone := True, wc_respondDone := True\<rparr>))"
    by (rule wrun_step)
       (auto intro!: step_respond [where i = 0] simp: newServer_def newWebsocketClient_def respondStep_def putConn_def)
  then show "\<exists>s. ws_run lib env sto (newServer authsha w) [Silent, Silent, Connected 0 []] s \<and> goingAway 0 s \<and> \<not> srv_panic s"
    by (intro exI [of _ "?s (?c\<lparr>wc_gatewayDone := True, wc_respondDone := True\<rparr>)"])
       (simp add: goingAway_def newServer_def newWebsocketClient_def)
next
  fix s i assume c: "goingAway i s"
  show "broadcastStep n s \<noteq> []" by (simp add: broadcastStep_def broadcast_some)
  show "srv_panic (snd x)" if "x \<in> set (broadcastStep n s)" for x
    using that broadcast_panics [of i "srv_wsClients s" s] c by (auto simp: broadcastStep_def goingAway_def)
  fix j assume "j < length (srv_passing s)" "fst (srv_passing s ! j) = i" "i < length (srv_conns s)"
  then show "passStep j s \<noteq> []" "\<And>x. x \<in> set (passStep j s) \<Longrightarrow> srv_panic (snd x)"
    using c by (auto simp: passStep_def afterSend_def ws_send_def goingAway_def)
qed

theorem disconnect_panics_witness:
  "\<exists>s. ws_run json0 env0 signer1 (newServer [] worldP) [Broadcast (BtcdConnected True), Silent, Silent, Connected 0 []] s \<and> srv_panic s"
proof -
  note d = disconnect_panics [of json0 env0 signer1 "[]" worldP "BtcdConnected True"]
  obtain s where s: "ws_run json0 env0 signer1 (newServer [] worldP) [Silent, Silent, Connected 0 []] s" "goingAway 0 s" "\<not> srv_panic s"
    using d by blast
  obtain x where x: "x \<in> set (broadcastStep (BtcdConnected True) s)" "srv_panic (snd x)"
    using d s(2) by (metis list.set_intros(1) neq_Nil_conv)
  then have "fst x = Broadcast (BtcdConnected True)" by (auto simp: broadcastStep_def)
  then have "ws_step json0 env0 signer1 s (Broadcast (BtcdConnected True), snd x)" using step_broadcast [OF x(1)] by (metis prod.collapse)
  then show ?thesis using wrun_step [OF s(1,3)] x(2) by blast
qed

section \<open>Throttling\<close>

text \<open>The counter, the requests being served and those being refused. There are never \<open>2^63\<close> of them at once.\<close>

inductive throttle_run :: "i64 \<Rightarrow> i64 \<Rightarrow> nat \<Rightarrow> nat \<Rightarrow> bool" for threshold :: i64 where
  throttle_start: "throttle_run threshold 0 0 0"
| throttle_serve: "throttle_run threshold a r q \<Longrightarrow> int (r + q) + 1 < 2 ^ 63 \<Longrightarrow> throttle_enter threshold a = (True, a') \<Longrightarrow>
    throttle_run threshold a' (Suc r) q"
| throttle_refuse: "throttle_run threshold a r q \<Longrightarrow> int (r + q) + 1 < 2 ^ 63 \<Longrightarrow> throttle_enter threshold a = (False, a') \<Longrightarrow>
    throttle_run threshold a' r (Suc q)"
| throttle_served: "throttle_run threshold a (Suc r) q \<Longrightarrow> throttle_run threshold (throttle_leave a) r q"
| throttle_refused: "throttle_run threshold a r (Suc q) \<Longrightarrow> throttle_run threshold (throttle_leave a) r q"

lemma throttle_counter: "throttle_run threshold a r q \<Longrightarrow> a = of_nat (r + q) \<and> int (r + q) < 2 ^ 63"
  by (induction rule: throttle_run.induct) (auto simp: throttle_enter_def throttle_leave_def Let_def algebra_simps)

lemma sint_of_nat_small: "int n < 2 ^ 63 \<Longrightarrow> sint (of_nat n :: i64) = int n"
  using sint_of_int_small [of "int n", where 'a = 64] by simp

lemma throttle_admits:
  assumes "throttle_run threshold a r q"
  shows "fst (throttle_enter threshold a) \<longleftrightarrow> int (r + q) < sint threshold"
  using throttle_counter [OF assms] sint_of_nat_small [of "r + q"]
  by (auto simp: throttle_enter_def Let_def word_sle_eq)

text \<open>C36. Throttling keeps its threshold: at no time are more requests served at once than the threshold allows, whatever
  the order in which requests come and go, and a request is admitted exactly when fewer than that are there, those that
  are just being refused included.\<close>

theorem throttled_bound:
  assumes "throttle_run threshold a r q"
  shows "int r \<le> max 0 (sint threshold) \<and> (fst (throttle_enter threshold a) \<longleftrightarrow> int (r + q) < sint threshold)"
proof
  show "fst (throttle_enter threshold a) \<longleftrightarrow> int (r + q) < sint threshold" by (rule throttle_admits [OF assms])
  show "int r \<le> max 0 (sint threshold)"
    using assms
  proof (induction rule: throttle_run.induct)
    case (throttle_serve a r q a')
    then show ?case using throttle_admits [OF throttle_serve.hyps(1)] by simp
  qed auto
qed

theorem throttled_bound_witness: "\<not> fst (throttle_enter 1 1) \<and> fst (throttle_enter 1 0)"
proof -
  have "throttle_run 1 1 (Suc 0) 0"
    by (rule throttle_serve [OF throttle_start]) (simp_all add: throttle_enter_def word_sle_eq)
  from throttled_bound [OF this] throttled_bound [OF throttle_start, of 1] show ?thesis by simp
qed

end
