(* ===== verification/Wt_Update.thy ===== *)
theory Wt_Update
  imports Wt_Manager
begin

text \<open>
  \<open>src/updates.go\<close>: the move of account files of versions before 0.1.1, one directory per account, into the directory
  of the test network.
\<close>

text \<open>\<open>Readdir(0)\<close> of a directory: the names in it with whether they are directories.\<close>

definition os_Readdir :: "oslib \<Rightarrow> path \<Rightarrow> (string \<times> bool) list fsact" where
  "os_Readdir os d = bindE (syscall os) (\<lambda>_. liftE (\<lambda>s.
     if d \<notin> set (fs_dirs s) then Inl (ErrorString ''not a directory'')
     else Inr (map (\<lambda>e. (last (fst e), False)) (filter (\<lambda>e. childOf d (fst e)) (fs_files s)) @
       map (\<lambda>p. (last p, True)) (filter (childOf d) (fs_dirs s)))))"

definition oldPrefix :: string where
  "oldPrefix = ''btcwallet-''"

definition parseOldAccountDir :: "string \<Rightarrow> err + string" where
  "parseOldAccountDir base =
     (if base = ''btcwallet'' then Inr []
      else if prefix oldPrefix base then Inr (drop (length oldPrefix) base)
      else Inl ErrNotAccountDir)"

definition moveOldAccount :: "wenv \<Rightarrow> path \<Rightarrow> string \<Rightarrow> unit fsact" where
  "moveOldAccount env netdir dir = (case parseOldAccountDir dir of
     Inl e \<Rightarrow> retE ()
   | Inr account \<Rightarrow>
       let os = e_os env; old = DataDir env @ [dir, ''wallet.bin''] in
       bindE (fileExists os old) (\<lambda>there.
       bindE (if there then os_Rename os old (accountFilename ''wallet.bin'' account netdir) else retE ()) (\<lambda>_.
         ignoring (os_RemoveAll os (DataDir env @ [dir])))))"

definition updateOldFileLocations :: "wenv \<Rightarrow> unit fsact" where
  "updateOldFileLocations env s =
     (let os = e_os env in
      case os_Stat os (DataDir env) s of
        (Inl e, s') \<Rightarrow> (Inr (), s')
      | (Inr _, s') \<Rightarrow>
          bindE (os_Readdir os (DataDir env)) (\<lambda>fi.
            let dirs = map fst (filter snd fi); netdir = DataDir env @ [''testnet''] in
            if \<not> list_ex (prefix ''btcwallet'') dirs then retE ()
            else
              bindE (checkCreateDir os netdir) (\<lambda>_. forE (moveOldAccount env netdir) dirs)) s')"

end
