(* ===== verification/Wt_Config.thy ===== *)
theory Wt_Config
  imports Wt_Update Wt_Sockets "HOL-Library.List_Lexorder" "HOL-Library.Char_ord"
begin

text \<open>
  \<open>src/config.go\<close>, \<open>src/params.go\<close>, \<open>src/log.go\<close>, \<open>src/version.go\<close> and the listen addresses of \<open>src/rpcserver.go\<close>: debug
  levels, host addresses and the configuration that is made of defaults, a file and the command line. The flags
  package, the file system and the functions of \<open>filepath\<close> and \<open>os\<close> that depend on the platform are parameters;
  \<open>net.SplitHostPort\<close> and \<open>net.JoinHostPort\<close> are written out.
\<close>

section \<open>Debug levels\<close>

text \<open>\<open>strings.Split\<close> for a separator of one character.\<close>

fun split_on :: "char \<Rightarrow> string \<Rightarrow> string list" where
  "split_on c [] = [[]]"
| "split_on c (x # xs) = (if x = c then [] # split_on c xs else case split_on c xs of y # ys \<Rightarrow> (x # y) # ys | [] \<Rightarrow> [[x]])"

definition validLogLevel :: "string \<Rightarrow> bool" where
  "validLogLevel l \<longleftrightarrow> l \<in> {''trace'', ''debug'', ''info'', ''warn'', ''error'', ''critical''}"

text \<open>The loggers by subsystem: \<^term>\<open>None\<close> is \<open>btclog.Disabled\<close>, otherwise the level. \<open>lvl\<close> is \<open>btclog.LogLevelFromString\<close>. A
  disabled logger is replaced by a new one, whose level is set through the pointer that \<open>useLogger\<close> has stored; the
  package variables \<open>log\<close> and \<open>txstLog\<close> are that pointer too.\<close>

type_synonym loggers = "(string, string option) gomap"

definition subsystemLoggers :: loggers where
  "subsystemLoggers = [(''BTCW'', None), (''TXST'', None)]"

definition supportedSubsystems :: "loggers \<Rightarrow> string list" where
  "supportedSubsystems ls = sort (map fst ls)"

definition useLogger :: "string \<Rightarrow> string option \<Rightarrow> loggers \<Rightarrow> loggers" where
  "useLogger subsystemID logger ls = (if map_of ls subsystemID = None then ls else AList.update subsystemID logger ls)"

definition setLogLevel :: "(string \<Rightarrow> string option) \<Rightarrow> string \<Rightarrow> string \<Rightarrow> loggers \<Rightarrow> loggers" where
  "setLogLevel lvl subsystemID logLevel ls = (case map_of ls subsystemID of
     None \<Rightarrow> ls
   | Some logger \<Rightarrow>
       let level = (case lvl logLevel of None \<Rightarrow> ''info'' | Some l \<Rightarrow> l) in
       if logger = None then useLogger subsystemID (Some level) ls
       else AList.update subsystemID (Some level) ls)"

definition setLogLevels :: "(string \<Rightarrow> string option) \<Rightarrow> string \<Rightarrow> loggers \<Rightarrow> loggers" where
  "setLogLevels lvl logLevel ls = fold (\<lambda>e. setLogLevel lvl (fst e) logLevel) ls ls"

definition setPair :: "(string \<Rightarrow> string option) \<Rightarrow> string \<Rightarrow> (loggers, err, unit) act" where
  "setPair lvl pair ls =
     (if CHR ''='' \<notin> set pair then (Inl (ErrorString ''invalid subsystem/level pair''), ls)
      else let fields = split_on CHR ''='' pair; subsysID = fields ! 0; logLevel = fields ! 1 in
        if map_of ls subsysID = None then (Inl (ErrorString ''invalid subsystem''), ls)
        else if \<not> validLogLevel logLevel then (Inl (ErrorString ''invalid debug level''), ls)
        else (Inr (), setLogLevel lvl subsysID logLevel ls))"

definition parseAndSetDebugLevels :: "(string \<Rightarrow> string option) \<Rightarrow> string \<Rightarrow> (loggers, err, unit) act" where
  "parseAndSetDebugLevels lvl debugLevel ls =
     (if CHR '','' \<notin> set debugLevel \<and> CHR ''='' \<notin> set debugLevel then
        if \<not> validLogLevel debugLevel then (Inl (ErrorString ''invalid debug level''), ls)
        else (Inr (), setLogLevels lvl debugLevel ls)
      else forE (setPair lvl) (split_on CHR '','' debugLevel) ls)"

section \<open>Addresses\<close>

fun lastIndex :: "char \<Rightarrow> string \<Rightarrow> nat option" where
  "lastIndex c [] = None"
| "lastIndex c (x # xs) = (case lastIndex c xs of Some i \<Rightarrow> Some (Suc i) | None \<Rightarrow> if x = c then Some 0 else None)"

fun firstIndex :: "char \<Rightarrow> string \<Rightarrow> nat option" where
  "firstIndex c [] = None"
| "firstIndex c (x # xs) = (if x = c then Some 0 else map_option Suc (firstIndex c xs))"

definition missingPort :: "err + string \<times> string" where
  "missingPort = Inl (ErrorString ''missing port in address'')"

definition tooManyColons :: "err + string \<times> string" where
  "tooManyColons = Inl (ErrorString ''too many colons in address'')"

text \<open>\<open>net.SplitHostPort\<close>. The port starts after the last colon; a host in brackets may have colons.\<close>

definition hostAndPort :: "string \<Rightarrow> nat \<Rightarrow> string \<Rightarrow> nat \<Rightarrow> nat \<Rightarrow> err + string \<times> string" where
  "hostAndPort s i host j k =
     (if CHR ''['' \<in> set (drop j s) then Inl (ErrorString ''unexpected [ in address'')
      else if CHR '']'' \<in> set (drop k s) then Inl (ErrorString ''unexpected ] in address'')
      else Inr (host, drop (Suc i) s))"

definition SplitHostPort :: "string \<Rightarrow> err + string \<times> string" where
  "SplitHostPort s = (case lastIndex CHR '':'' s of
     None \<Rightarrow> missingPort
   | Some i \<Rightarrow>
       if hd s = CHR ''['' then
         (case firstIndex CHR '']'' s of
            None \<Rightarrow> Inl (ErrorString ''missing ] in address'')
          | Some e \<Rightarrow>
              if Suc e = length s then missingPort
              else if Suc e = i then hostAndPort s i (drop 1 (take e s)) 1 (Suc e)
              else if s ! Suc e = CHR '':'' then tooManyColons else missingPort)
       else
         let host = take i s in
         if CHR '':'' \<in> set host then tooManyColons
         else if CHR ''%'' \<in> set host then Inl (ErrorString ''missing brackets in address'')
         else hostAndPort s i host 0 0)"

definition JoinHostPort :: "string \<Rightarrow> string \<Rightarrow> string" where
  "JoinHostPort host port =
     (if CHR '':'' \<in> set host \<or> CHR ''%'' \<in> set host then ''['' @ host @ '']:'' @ port else host @ '':'' @ port)"

definition normalizeAddress :: "string \<Rightarrow> string \<Rightarrow> string" where
  "normalizeAddress defaultPort addr = (case SplitHostPort addr of
     Inl e \<Rightarrow> JoinHostPort addr defaultPort
   | Inr _ \<Rightarrow> addr)"

definition removeDuplicateAddresses :: "string list \<Rightarrow> string list" where
  "removeDuplicateAddresses as =
     fst (fold (\<lambda>v (result, seen). if v \<in> set seen then (result, seen) else (result @ [v], v # seen)) as ([], []))"

definition normalizeAddresses :: "string \<Rightarrow> string list \<Rightarrow> string list" where
  "normalizeAddresses defaultPort as = removeDuplicateAddresses (map (normalizeAddress defaultPort) as)"

text \<open>\<open>parseListeners\<close>; \<open>ip\<close> is \<open>net.ParseIP\<close>, with whether the address is of version 4.\<close>

definition parseListener :: "bool \<Rightarrow> (string \<Rightarrow> bool option) \<Rightarrow> string list \<times> string list \<Rightarrow> string \<Rightarrow> err + string list \<times> string list" where
  "parseListener plan9 ip acc addr = (case acc of (v4, v6) \<Rightarrow>
     case SplitHostPort addr of
       Inl e \<Rightarrow> Inl e
     | Inr (host, _) \<Rightarrow>
         if host = [] \<or> host = ''*'' \<and> plan9 then Inr (v4 @ [addr], v6 @ [addr])
         else case ip host of
           None \<Rightarrow> Inl (ErrorString ''not a valid IP address'')
         | Some False \<Rightarrow> Inr (v4, v6 @ [addr])
         | Some True \<Rightarrow> Inr (v4 @ [addr], v6))"

definition parseListeners :: "bool \<Rightarrow> (string \<Rightarrow> bool option) \<Rightarrow> string list \<Rightarrow> err + string list \<times> string list" where
  "parseListeners plan9 ip as = foldE (parseListener plan9 ip) ([], []) as"

section \<open>The configuration\<close>

record config =
  cf_ShowVersion :: bool
  cf_CAFile :: string
  cf_RPCConnect :: string
  cf_DebugLevel :: string
  cf_ConfigFile :: string
  cf_SvrListeners :: "string list"
  cf_DataDir :: string
  cf_LogDir :: string
  cf_Username :: string
  cf_Password :: string
  cf_BtcdUsername :: string
  cf_BtcdPassword :: string
  cf_RPCCert :: string
  cf_RPCKey :: string
  cf_RPCMaxClients :: i64
  cf_RPCMaxWebsockets :: i64
  cf_MainNet :: bool
  cf_SimNet :: bool
  cf_KeypoolSize :: nat
  cf_DisallowFree :: bool
  cf_Proxy :: string
  cf_ProxyUser :: string
  cf_ProxyPass :: string
  cf_Profile :: string

text \<open>\<open>src/params.go\<close>\<close>

record params =
  p_connect :: string
  p_btcdPort :: string
  p_svrPort :: string

definition mainNetParams :: params where
  "mainNetParams = \<lparr>p_connect = ''localhost:8334'', p_btcdPort = ''8334'', p_svrPort = ''8332''\<rparr>"

definition testNet3Params :: params where
  "testNet3Params = \<lparr>p_connect = ''localhost:18334'', p_btcdPort = ''18334'', p_svrPort = ''18332''\<rparr>"

definition simNetParams :: params where
  "simNetParams = \<lparr>p_connect = ''localhost:18556'', p_btcdPort = ''18556'', p_svrPort = ''18554''\<rparr>"

text \<open>Reading the file of options: read, not there (an \<open>os.PathError\<close>), or refused.\<close>

datatype iniResult = IniRead config | IniMissing | IniRefused err

text \<open>\<open>AppData\<close> is \<open>btcutil.AppDataDir\<close>, \<open>PreParse\<close>, \<open>ParseFile\<close> and \<open>Parse\<close> the flags package, \<open>Stat\<close> the error of
  \<open>os.Stat\<close>, \<open>PathJoin\<close> and \<open>PathDir\<close> functions of \<open>filepath\<close>, \<open>CleanExpand\<close> is \<open>filepath.Clean\<close> of \<open>os.ExpandEnv\<close>.\<close>

record cfglib =
  AppData :: "string \<Rightarrow> string"
  PreParse :: "config \<Rightarrow> err + config"
  ParseFile :: "string \<Rightarrow> config \<Rightarrow> iniResult"
  Parse :: "config \<Rightarrow> err + config \<times> string list"
  StatErr :: "string \<Rightarrow> err option"
  LookupHost :: "string \<Rightarrow> err + string list"
  PathJoin :: "string \<Rightarrow> string \<Rightarrow> string"
  PathDir :: "string \<Rightarrow> string"
  CleanExpand :: "string \<Rightarrow> string"
  LogLevelFromString :: "string \<Rightarrow> string option"

definition existing :: "cfglib \<Rightarrow> string \<Rightarrow> bool" where
  "existing lib name \<longleftrightarrow> StatErr lib name \<noteq> Some ErrNotExist"

definition replaceTilde :: "cfglib \<Rightarrow> string \<Rightarrow> string" where
  "replaceTilde lib p = PathDir lib (AppData lib ''btcwallet'') @ tl p"

definition cleanAndExpandPath :: "cfglib \<Rightarrow> string \<Rightarrow> string" where
  "cleanAndExpandPath lib p = CleanExpand lib (if prefix ''~'' p then replaceTilde lib p else p)"

definition defaultDataDir :: "cfglib \<Rightarrow> string" where
  "defaultDataDir lib = AppData lib ''btcwallet''"

definition defaultConfigFile :: "cfglib \<Rightarrow> string" where
  "defaultConfigFile lib = PathJoin lib (AppData lib ''btcwallet'') ''btcwallet.conf''"

definition defaultConfig :: "cfglib \<Rightarrow> config" where
  "defaultConfig lib = \<lparr>cf_ShowVersion = False, cf_CAFile = [], cf_RPCConnect = [], cf_DebugLevel = ''info'',
     cf_ConfigFile = defaultConfigFile lib, cf_SvrListeners = [], cf_DataDir = defaultDataDir lib,
     cf_LogDir = PathJoin lib (defaultDataDir lib) ''logs'', cf_Username = [], cf_Password = [], cf_BtcdUsername = [],
     cf_BtcdPassword = [], cf_RPCCert = PathJoin lib (defaultDataDir lib) ''rpc.cert'',
     cf_RPCKey = PathJoin lib (defaultDataDir lib) ''rpc.key'', cf_RPCMaxClients = 10, cf_RPCMaxWebsockets = 25,
     cf_MainNet = False, cf_SimNet = False, cf_KeypoolSize = 100, cf_DisallowFree = False, cf_Proxy = [], cf_ProxyUser = [],
     cf_ProxyPass = [], cf_Profile = []\<rparr>"

text \<open>Paths that follow another data directory.\<close>

definition relocated :: "cfglib \<Rightarrow> config \<Rightarrow> config" where
  "relocated lib c =
     (if cf_DataDir c = defaultDataDir lib then c
      else let c1 = (if cf_RPCKey c = PathJoin lib (defaultDataDir lib) ''rpc.key''
                     then c\<lparr>cf_RPCKey := PathJoin lib (cf_DataDir c) ''rpc.key''\<rparr> else c) in
        if cf_RPCCert c1 = PathJoin lib (defaultDataDir lib) ''rpc.cert''
        then c1\<lparr>cf_RPCCert := PathJoin lib (cf_DataDir c1) ''rpc.cert''\<rparr> else c1)"

definition chosenNet :: "config \<Rightarrow> params" where
  "chosenNet c = (if cf_MainNet c then mainNetParams else if cf_SimNet c then simNetParams else testNet3Params)"

definition connectAddr :: "params \<Rightarrow> config \<Rightarrow> config" where
  "connectAddr net c = c\<lparr>cf_RPCConnect :=
     normalizeAddress (p_btcdPort net) (if cf_RPCConnect c = [] then p_connect net else cf_RPCConnect c)\<rparr>"

definition certFile :: "cfglib \<Rightarrow> config \<Rightarrow> err + config" where
  "certFile lib c =
     (if cf_CAFile c \<noteq> [] then Inr c
      else let ca = PathJoin lib (cf_DataDir c) ''btcd.cert''; c1 = c\<lparr>cf_CAFile := ca\<rparr> in
        if existing lib ca then Inr c1
        else case SplitHostPort (cf_RPCConnect c) of
          Inl e \<Rightarrow> Inl e
        | Inr (host, _) \<Rightarrow>
            let btcd = PathJoin lib (AppData lib ''btcd'') ''rpc.cert'' in
            Inr (if host \<in> {''localhost'', ''127.0.0.1'', ''::1''} \<and> existing lib btcd then c\<lparr>cf_CAFile := btcd\<rparr> else c1))"

definition listenAddrs :: "cfglib \<Rightarrow> params \<Rightarrow> config \<Rightarrow> err + config" where
  "listenAddrs lib net c =
     map_sum id (\<lambda>as. c\<lparr>cf_SvrListeners := normalizeAddresses (p_svrPort net) as\<rparr>)
       (if cf_SvrListeners c \<noteq> [] then Inr (cf_SvrListeners c)
        else map_sum id (map (\<lambda>a. JoinHostPort a (p_svrPort net))) (LookupHost lib ''localhost''))"

definition btcdAuth :: "config \<Rightarrow> config" where
  "btcdAuth c =
     (let c1 = (if cf_BtcdUsername c = [] then c\<lparr>cf_BtcdUsername := cf_Username c\<rparr> else c) in
      if cf_BtcdPassword c1 = [] then c1\<lparr>cf_BtcdPassword := cf_Password c1\<rparr> else c1)"

text \<open>\<open>loadConfig\<close> ends the process for \<open>--version\<close> and \<open>--debuglevel=show\<close>: \<^term>\<open>None\<close>. The state is the loggers.\<close>

definition finishConfig :: "cfglib \<Rightarrow> config \<Rightarrow> (loggers, err, (config \<times> params) option) act" where
  "finishConfig lib c =
     (let c1 = relocated lib c; net = chosenNet c1 in
      if cf_MainNet c1 \<and> cf_SimNet c1 then failE (ErrorString ''the mainnet and simnet params cannot be used together'')
      else if cf_DebugLevel c1 = ''show'' then retE None
      else
        bindE (modifyE (setLogLevels (LogLevelFromString lib) ''info'')) (\<lambda>_.
        bindE (parseAndSetDebugLevels (LogLevelFromString lib) (cf_DebugLevel c1)) (\<lambda>_.
        bindE (liftE (\<lambda>_. certFile lib (connectAddr net c1))) (\<lambda>c2.
        bindE (liftE (\<lambda>_. listenAddrs lib net c2)) (\<lambda>c3.
          retE (Some (btcdAuth (c3\<lparr>cf_CAFile := cleanAndExpandPath lib (cf_CAFile c3)\<rparr>), net)))))))"

definition loadConfig :: "cfglib \<Rightarrow> (loggers, err, (config \<times> params) option) act" where
  "loadConfig lib =
     (let cfg = defaultConfig lib;
          cfg0 = (if existing lib ''btcwallet.conf'' then cfg\<lparr>cf_ConfigFile := defaultConfigFile lib\<rparr> else cfg) in
      case PreParse lib cfg0 of
        Inl e \<Rightarrow> failE e
      | Inr preCfg \<Rightarrow>
          if cf_ShowVersion preCfg then retE None
          else case ParseFile lib (cf_ConfigFile preCfg) cfg0 of
            IniRefused e \<Rightarrow> failE e
          | IniMissing \<Rightarrow> (case Parse lib cfg0 of Inl e \<Rightarrow> failE e | Inr (c, _) \<Rightarrow> finishConfig lib c)
          | IniRead c0 \<Rightarrow> (case Parse lib c0 of Inl e \<Rightarrow> failE e | Inr (c, _) \<Rightarrow> finishConfig lib c))"

section \<open>Version\<close>

definition semanticAlphabet :: string where
  "semanticAlphabet = ''0123456789ABCDEFGHIJKLMNOPQRSTUVWXYZabcdefghijklmnopqrstuvwxyz-''"

definition normalizeVerString :: "string \<Rightarrow> string" where
  "normalizeVerString str = filter (\<lambda>r. r \<in> set semanticAlphabet) str"

definition version_string :: "string \<Rightarrow> string" where
  "version_string appBuild =
     (let v = ''0.4.0''; preRelease = normalizeVerString ''alpha''; build = normalizeVerString appBuild;
          v1 = (if preRelease \<noteq> [] then v @ ''-'' @ preRelease else v) in
      if build \<noteq> [] then v1 @ ''+'' @ build else v1)"

section \<open>Listeners\<close>

text \<open>The listeners of \<open>newRPCServer\<close>; \<open>listens\<close> is whether \<open>tls.Listen\<close> succeeds. The error of \<open>parseListeners\<close> is not looked
  at; both slices are then nil.\<close>

definition serverListeners :: "bool \<Rightarrow> (string \<Rightarrow> bool option) \<Rightarrow> (string \<Rightarrow> string \<Rightarrow> bool) \<Rightarrow> string list \<Rightarrow> err + string list" where
  "serverListeners plan9 ip listens as =
     (let both = (case parseListeners plan9 ip as of Inl e \<Rightarrow> ([], []) | Inr r \<Rightarrow> r);
          ls = filter (listens ''tcp4'') (fst both) @ filter (listens ''tcp6'') (snd both) in
      if ls = [] then Inl (ErrorString ''no valid listen address'') else Inr ls)"

end
