(* ===== verification/Wt_ConfigProps.thy ===== *)
theory Wt_ConfigProps
  imports Wt_Config
begin

text \<open>
  Listen addresses: what \<open>normalizeAddresses\<close> of \<open>src/config.go\<close> makes of the configured ones and how \<open>parseListeners\<close> of
  \<open>src/rpcserver.go\<close> divides them.
\<close>

section \<open>Hosts and ports\<close>

lemma lastIndex_None [simp]: "lastIndex c xs = None \<longleftrightarrow> c \<notin> set xs"
  by (induction xs) (auto split: option.splits)

lemma lastIndex_append [simp]: "c \<notin> set ys \<Longrightarrow> lastIndex c (xs @ c # ys) = Some (length xs)"
  by (induction xs) (auto split: option.splits)

lemma firstIndex_append [simp]: "c \<notin> set xs \<Longrightarrow> firstIndex c (xs @ c # ys) = Some (length xs)"
  by (induction xs) auto

definition plain :: "string \<Rightarrow> bool" where
  "plain s \<longleftrightarrow> CHR ''['' \<notin> set s \<and> CHR '']'' \<notin> set s"

lemma Split_brackets:
  assumes "plain host" and "plain port" and "CHR '':'' \<notin> set port"
  shows "SplitHostPort (''['' @ host @ '']:'' @ port) = Inr (host, port)"
proof -
  let ?s = "''['' @ host @ '']:'' @ port"
  have "lastIndex CHR '':'' ?s = Some (length host + 2)"
    using lastIndex_append [OF assms(3), of "''['' @ host @ '']''"] by simp
  moreover have "firstIndex CHR '']'' ?s = Some (Suc (length host))"
    using firstIndex_append [of "CHR '']''" "''['' @ host" "'':'' @ port"] assms(1) by (simp add: plain_def)
  ultimately show ?thesis using assms by (simp add: SplitHostPort_def hostAndPort_def plain_def)
qed

lemma Split_plain:
  assumes "plain host" and "plain port" and "CHR '':'' \<notin> set port" and "CHR '':'' \<notin> set host" and "CHR ''%'' \<notin> set host"
  shows "SplitHostPort (host @ '':'' @ port) = Inr (host, port)"
proof -
  have "lastIndex CHR '':'' (host @ '':'' @ port) = Some (length host)" using assms(3) by simp
  moreover have "hd (host @ '':'' @ port) \<noteq> CHR ''[''" using assms(1) by (cases host) (auto simp: plain_def)
  ultimately show ?thesis using assms by (auto simp: SplitHostPort_def hostAndPort_def plain_def)
qed

lemma Split_Join:
  "plain host \<Longrightarrow> plain port \<Longrightarrow> CHR '':'' \<notin> set port \<Longrightarrow> SplitHostPort (JoinHostPort host port) = Inr (host, port)"
  using Split_brackets Split_plain by (auto simp: JoinHostPort_def)

section \<open>Duplicates\<close>

definition keepNew :: "string \<Rightarrow> string list \<times> string list \<Rightarrow> string list \<times> string list" where
  "keepNew v = (\<lambda>(result, known). if v \<in> set known then (result, known) else (result @ [v], v # known))"

lemma keepNew_fold:
  assumes "fold keepNew as (result, known) = (r, k)" and "set known = set result" and "distinct result"
  shows "distinct r \<and> set r = set result \<union> set as \<and> (distinct (result @ as) \<longrightarrow> r = result @ as)"
  using assms
proof (induction as arbitrary: result known)
  case (Cons a as)
  then show ?case
    using Cons.IH [of result known] Cons.IH [of "result @ [a]" "a # known"]
    by (cases "a \<in> set known") (auto simp: keepNew_def)
qed simp

lemma removeDuplicate_spec:
  "distinct (removeDuplicateAddresses as) \<and> set (removeDuplicateAddresses as) = set as \<and>
   (distinct as \<longrightarrow> removeDuplicateAddresses as = as)"
proof -
  obtain r k where "fold keepNew as ([], []) = (r, k)" by force
  moreover have "removeDuplicateAddresses as = fst (fold keepNew as ([], []))"
    unfolding removeDuplicateAddresses_def keepNew_def [abs_def] by (rule refl)
  ultimately show ?thesis using keepNew_fold [of as "[]" "[]" r k] by simp
qed

section \<open>Listeners\<close>

definition hostOf :: "string \<Rightarrow> string" where
  "hostOf addr = (case SplitHostPort addr of Inr (host, _) \<Rightarrow> host | Inl _ \<Rightarrow> [])"

definition allHosts :: "bool \<Rightarrow> string \<Rightarrow> bool" where
  "allHosts plan9 host \<longleftrightarrow> host = [] \<or> host = ''*'' \<and> plan9"

lemma parse_fold:
  assumes "\<forall>a \<in> set as. (\<exists>hp. SplitHostPort a = Inr hp) \<and> (allHosts plan9 (hostOf a) \<or> ip (hostOf a) \<noteq> None)"
  shows "foldE (parseListener plan9 ip) (v4, v6) as =
    Inr (v4 @ filter (\<lambda>a. allHosts plan9 (hostOf a) \<or> ip (hostOf a) = Some True) as,
         v6 @ filter (\<lambda>a. allHosts plan9 (hostOf a) \<or> ip (hostOf a) = Some False) as)"
  using assms
proof (induction as arbitrary: v4 v6)
  case (Cons a as)
  obtain h p where s: "SplitHostPort a = Inr (h, p)" using Cons.prems by (auto split: prod.splits)
  then have "hostOf a = h" by (simp add: hostOf_def)
  then show ?case using Cons s by (auto simp: parseListener_def allHosts_def split: option.splits bool.splits)
qed simp

text \<open>C37. From configured addresses to listeners, when every configured address that does not split into host and port is
  free of brackets, and the default port of brackets and colons. The normalized addresses are, each once: the configured
  addresses that have a port, as they are, and for each of the others the address joined with the default port, which splits into
  exactly that address as host and the default port. So all of them split into host and port, and normalizing them
  again changes nothing. If moreover every host is empty (or a star on Plan 9) or parses as an IP address, \<open>parseListeners\<close>
  succeeds and divides them by version, with those for all interfaces on both sides, in the order they came. (Brackets
  without a port are the finding below.)\<close>

theorem listen_addresses:
  assumes "\<forall>a \<in> set as. (\<exists>hp. SplitHostPort a = Inr hp) \<or> plain a" and "plain port" and "CHR '':'' \<notin> set port"
  defines "rs \<equiv> normalizeAddresses port as"
  shows "distinct rs
    \<and> set rs = {a \<in> set as. \<exists>hp. SplitHostPort a = Inr hp} \<union> {JoinHostPort a port | a. a \<in> set as \<and> (\<nexists>hp. SplitHostPort a = Inr hp)}
    \<and> (\<forall>a \<in> set as. (\<nexists>hp. SplitHostPort a = Inr hp) \<longrightarrow> SplitHostPort (JoinHostPort a port) = Inr (a, port))
    \<and> (\<forall>r \<in> set rs. \<exists>hp. SplitHostPort r = Inr hp)
    \<and> normalizeAddresses port rs = rs
    \<and> (\<forall>plan9 ip. (\<forall>r \<in> set rs. allHosts plan9 (hostOf r) \<or> ip (hostOf r) \<noteq> None) \<longrightarrow>
         parseListeners plan9 ip rs = Inr (filter (\<lambda>r. allHosts plan9 (hostOf r) \<or> ip (hostOf r) = Some True) rs,
           filter (\<lambda>r. allHosts plan9 (hostOf r) \<or> ip (hostOf r) = Some False) rs))"
proof -
  have d: "distinct rs" "set rs = normalizeAddress port ` set as"
    using removeDuplicate_spec [of "map (normalizeAddress port) as"] by (simp_all add: rs_def normalizeAddresses_def)
  have n1: "normalizeAddress port a = (if \<exists>hp. SplitHostPort a = Inr hp then a else JoinHostPort a port)" for a
    by (cases "SplitHostPort a") (auto simp: normalizeAddress_def)
  have set_rs: "set rs = {a \<in> set as. \<exists>hp. SplitHostPort a = Inr hp} \<union>
      {JoinHostPort a port | a. a \<in> set as \<and> (\<nexists>hp. SplitHostPort a = Inr hp)}" unfolding d(2) n1 by auto
  have j: "\<forall>a \<in> set as. (\<nexists>hp. SplitHostPort a = Inr hp) \<longrightarrow> SplitHostPort (JoinHostPort a port) = Inr (a, port)"
    using assms(1) Split_Join [OF _ assms(2,3)] by blast
  then have s: "\<forall>r \<in> set rs. \<exists>hp. SplitHostPort r = Inr hp" unfolding set_rs by blast
  then have "map (normalizeAddress port) rs = rs" by (intro map_idI) (auto simp: n1)
  then have n: "normalizeAddresses port rs = rs" using removeDuplicate_spec [of rs] d(1) by (simp add: normalizeAddresses_def)
  have p: "\<forall>plan9 ip. (\<forall>r \<in> set rs. allHosts plan9 (hostOf r) \<or> ip (hostOf r) \<noteq> None) \<longrightarrow>
         parseListeners plan9 ip rs = Inr (filter (\<lambda>r. allHosts plan9 (hostOf r) \<or> ip (hostOf r) = Some True) rs,
           filter (\<lambda>r. allHosts plan9 (hostOf r) \<or> ip (hostOf r) = Some False) rs)"
    using s parse_fold [of rs _ _ "[]" "[]"] by (auto simp: parseListeners_def)
  show ?thesis by (intro conjI d(1) set_rs j s n p)
qed

theorem listen_addresses_witness:
  "parseListeners False (\<lambda>h. Some (h = ''127.0.0.1'')) (normalizeAddresses ''18332'' [''127.0.0.1'', ''::1'', ''127.0.0.1:18332'']) =
     Inr ([''127.0.0.1:18332''], [''[::1]:18332''])"
proof -
  let ?as = "[''127.0.0.1'', ''::1'', ''127.0.0.1:18332'']"
  have "\<forall>a \<in> set ?as. (\<exists>hp. SplitHostPort a = Inr hp) \<or> plain a" "plain ''18332''" "CHR '':'' \<notin> set ''18332''"
    by (simp_all add: plain_def)
  note ok = listen_addresses [OF this]
  have "normalizeAddresses ''18332'' ?as = [''127.0.0.1:18332'', ''[::1]:18332'']" by code_simp
  moreover have "hostOf ''127.0.0.1:18332'' = ''127.0.0.1''" "hostOf ''[::1]:18332'' = ''::1''" by code_simp+
  moreover note ok [THEN conjunct2, THEN conjunct2, THEN conjunct2, THEN conjunct2, THEN conjunct2, rule_format, of False "\<lambda>h. Some (h = ''127.0.0.1'')"]
  ultimately show ?thesis by (simp add: allHosts_def)
qed

text \<open>A finding. An address of version 6 in brackets without a port gets a second pair of brackets, whatever the address, and does not
  split any more; as the error of \<open>parseListeners\<close> is dropped together with all other addresses, nothing is listened on
  when one of the addresses is of this kind.\<close>

lemma parse_fails: "\<exists>e. SplitHostPort a = Inl e \<Longrightarrow> a \<in> set as \<Longrightarrow> \<exists>e. foldE (parseListener plan9 ip) acc as = Inl e"
proof (induction as arbitrary: acc)
  case (Cons b bs)
  then show ?case
    by (cases "parseListener plan9 ip acc b") (auto simp: parseListener_def split: prod.splits)
qed simp

lemma bracketed_listener_lost:
  assumes "plain host" and "CHR '':'' \<in> set host" and "plain port" and "CHR '':'' \<notin> set port"
    and "a = ''[['' @ host @ '']]:'' @ port"
  shows "normalizeAddress port (''['' @ host @ '']'') = a" and "SplitHostPort a = missingPort"
    and "a \<in> set as \<Longrightarrow> serverListeners plan9 ip listens as = Inl (ErrorString ''no valid listen address'')"
proof -
  let ?b = "''['' @ host @ '']''"
  have "lastIndex CHR '':'' ?b \<noteq> None" unfolding lastIndex_None using assms(2) by simp
  then obtain i where i: "lastIndex CHR '':'' ?b = Some i" by blast
  have "firstIndex CHR '']'' ?b = Some (Suc (length host))"
    using firstIndex_append [of "CHR '']''" "''['' @ host" "[]"] assms(1) by (simp add: plain_def)
  then have "SplitHostPort ?b = missingPort" using i by (simp add: SplitHostPort_def)
  then show "normalizeAddress port ?b = a"
    using assms(2,5) by (simp add: normalizeAddress_def missingPort_def JoinHostPort_def)
  have "lastIndex CHR '':'' a = Some (length host + 4)"
    using lastIndex_append [OF assms(4), of "''[['' @ host @ '']]''"] assms(5) by simp
  moreover have "firstIndex CHR '']'' a = Some (length host + 2)"
    using firstIndex_append [of "CHR '']''" "''[['' @ host" "'']:'' @ port"] assms(1,5) by (simp add: plain_def)
  ultimately show s: "SplitHostPort a = missingPort" using assms(5) by (simp add: SplitHostPort_def nth_append)
  then show "serverListeners plan9 ip listens as = Inl (ErrorString ''no valid listen address'')" if "a \<in> set as"
    using parse_fails [OF _ that, of plan9 ip "([], [])"] by (auto simp: serverListeners_def parseListeners_def missingPort_def)
qed

end
