(* ===== verification/Wt_Main.thy ===== *)
theory Wt_Main
  imports Wt_Config
begin

text \<open>
  The start and the end of the process: \<open>src/cmd.go\<close>, \<open>src/signal.go\<close>, \<open>newRPCServer\<close> with its certificate files and the
  \<open>Stop\<close> methods of \<open>src/rpcserver.go\<close>, \<open>src/rpcclient.go\<close>, \<open>src/acctmgr.go\<close>, \<open>src/disksync.go\<close> and \<open>src/rescan.go\<close>. A
  goroutine that opens files when it starts does so where it is started.
\<close>

section \<open>Certificates\<close>

text \<open>\<open>os.Remove\<close> of a file, \<open>ioutil.WriteFile\<close> and \<open>tls.LoadX509KeyPair\<close>.\<close>

definition os_Remove :: "oslib \<Rightarrow> path \<Rightarrow> unit fsact" where
  "os_Remove os p = bindE (syscall os) (\<lambda>_. bindE (liftE Inr) (\<lambda>s.
     if map_of (fs_files s) p = None then failE ErrNotExist
     else modifyE (\<lambda>s. s\<lparr>fs_files := AList.delete p (fs_files s)\<rparr>)))"

definition ioutil_WriteFile :: "oslib \<Rightarrow> path \<Rightarrow> byte list \<Rightarrow> unit fsact" where
  "ioutil_WriteFile os p bs = bindE (os_Create os p) (\<lambda>_. bindE (writeFile os p (Write bs)) (\<lambda>_. syscall os))"

text \<open>\<open>NewTLSCertPair\<close> is \<open>btcutil.NewTLSCertPair\<close>, \<open>X509Err\<close> the error of a pair that does not parse or fit, \<open>ParseIP\<close>
  whether a host is an IP address and of version 4, \<open>TlsListen\<close> whether a listener can be opened.\<close>

record tlslib =
  NewTLSCertPair :: "err + byte list \<times> byte list"
  X509Err :: "byte list \<Rightarrow> byte list \<Rightarrow> err option"
  ParseIP :: "string \<Rightarrow> bool option"
  Plan9 :: bool
  TlsListen :: "string \<Rightarrow> string \<Rightarrow> bool"

definition LoadX509KeyPair :: "tlslib \<Rightarrow> oslib \<Rightarrow> path \<Rightarrow> path \<Rightarrow> unit fsact" where
  "LoadX509KeyPair tls os certPath keyPath =
     bindE (os_Open os certPath) (\<lambda>cert. bindE (os_Open os keyPath) (\<lambda>key.
       case X509Err tls cert key of None \<Rightarrow> retE () | Some e \<Rightarrow> failE e))"

definition genCertPair :: "tlslib \<Rightarrow> oslib \<Rightarrow> path \<Rightarrow> path \<Rightarrow> unit fsact" where
  "genCertPair tls os certPath keyPath =
     bindE (os_MkdirAll os (butlast certPath)) (\<lambda>_.
     bindE (os_MkdirAll os (butlast keyPath)) (\<lambda>_.
     case NewTLSCertPair tls of
       Inl e \<Rightarrow> failE e
     | Inr (cert, key) \<Rightarrow>
         bindE (ioutil_WriteFile os certPath cert) (\<lambda>_. \<lambda>s.
           case ioutil_WriteFile os keyPath key s of
             (Inl e, s') \<Rightarrow> (Inl e, snd (os_Remove os certPath s'))
           | (Inr _, s') \<Rightarrow> (Inr (), s'))))"

definition serverKeyPair :: "tlslib \<Rightarrow> oslib \<Rightarrow> path \<Rightarrow> path \<Rightarrow> unit fsact" where
  "serverKeyPair tls os certPath keyPath =
     bindE (fileExists os keyPath) (\<lambda>key.
     bindE (if key then retE True else fileExists os certPath) (\<lambda>any.
     bindE (if any then retE () else genCertPair tls os certPath keyPath) (\<lambda>_.
       LoadX509KeyPair tls os certPath keyPath)))"

section \<open>The server\<close>

text \<open>\<open>newRPCServer\<close>, with the addresses it listens on. \<open>pathOf\<close> takes the paths of the configuration apart.\<close>

definition newRPCServer :: "jsonlib \<Rightarrow> tlslib \<Rightarrow> oslib \<Rightarrow> (string \<Rightarrow> path) \<Rightarrow> config \<Rightarrow> (string list \<times> rpcServer) wact" where
  "newRPCServer lib tls os pathOf c =
     bindE (onFs (serverKeyPair tls os (pathOf (cf_RPCCert c)) (pathOf (cf_RPCKey c)))) (\<lambda>_.
     bindE (liftE (\<lambda>_. serverListeners (Plan9 tls) (ParseIP tls) (TlsListen tls) (cf_SvrListeners c))) (\<lambda>ls.
       liftE (\<lambda>w. Inr (ls, newServer (Sum256 lib (basicAuth (cf_Username c) (cf_Password c))) w))))"

section \<open>Start\<close>

text \<open>\<open>AcctMgr.Start\<close>: \<open>accountHandler\<close> opens the accounts and the disk syncer creates its directory.\<close>

definition am_Start :: "wenv \<Rightarrow> unit wact" where
  "am_Start env = bindE (openAccounts env) (\<lambda>_. logged (onFs (checkCreateDir (e_os env) (networkDir env))))"

text \<open>\<open>walletMain\<close> up to the point where it waits: the loggers are those of \<open>loadConfig\<close>, \<open>mkEnv\<close> makes the environment of the
  wallet from the configuration. \<^term>\<open>None\<close> is an exit without an error.\<close>

definition walletMain :: "cfglib \<Rightarrow> jsonlib \<Rightarrow> tlslib \<Rightarrow> (config \<Rightarrow> params \<Rightarrow> wenv) \<Rightarrow> (string \<Rightarrow> path) \<Rightarrow>
    (loggers \<times> World, err, (string list \<times> rpcServer) option) act" where
  "walletMain clib lib tls mkEnv pathOf = (\<lambda>(l, w). case loadConfig clib l of
     (Inl e, l') \<Rightarrow> (Inl e, (l', w))
   | (Inr None, l') \<Rightarrow> (Inr None, (l', w))
   | (Inr (Some (c, net)), l') \<Rightarrow>
       let env = mkEnv c net; os = e_os env in
       (case bindE (onFs (os_Open os (pathOf (cf_CAFile c)))) (\<lambda>certs.
             bindE (onFs (updateOldFileLocations env)) (\<lambda>_.
             bindE (am_Start env) (\<lambda>_. newRPCServer lib tls os pathOf c))) w of
          (Inl e, w') \<Rightarrow> (Inl e, (l', w'))
        | (Inr s, w') \<Rightarrow> (Inr (Some s), (l', w'))))"

section \<open>The chain server\<close>

text \<open>The client that \<open>newRPCClient\<close> makes has seen no block. One round of \<open>clientConnect\<close>: how long it sleeps, and the wait of
  the next round; a client goes to \<open>clientAccess\<close>, which hands it out from then on.\<close>

definition newRPCClient :: BlockStamp where
  "newRPCClient = \<lparr>bs_Height = - 1, bs_Hash = 0\<rparr>"

definition initialWait :: nat where
  "initialWait = 5"

definition nextWait :: "nat \<Rightarrow> nat" where
  "nextWait wait = (let w = 2 * wait in if 60 < w then 60 else w)"

definition connectRound :: "(err + unit) \<Rightarrow> nat \<Rightarrow> (World, err, nat \<times> nat) act" where
  "connectRound attempt wait = (case attempt of
     Inl e \<Rightarrow> retE (wait, nextWait wait)
   | Inr _ \<Rightarrow> bindE (modifyE (\<lambda>w. w\<lparr>w_client := Some newRPCClient\<rparr>)) (\<lambda>_. retE (0, initialWait)))"

text \<open>The rounds with the given outcomes of \<open>newRPCClient\<close>: the sleeps they take.\<close>

primrec clientConnect :: "(err + unit) list \<Rightarrow> nat \<Rightarrow> nat list wact" where
  "clientConnect [] wait = retE []"
| "clientConnect (x # xs) wait = bindE (connectRound x wait) (\<lambda>(slept, wait').
     bindE (clientConnect xs wait') (\<lambda>ss. retE (slept # ss)))"

section \<open>Interrupts\<close>

text \<open>\<open>addInterruptHandler\<close> starts \<open>mainInterruptHandler\<close> when it is not running yet; an interrupt runs all handlers.\<close>

definition addInterruptHandler :: "'h \<Rightarrow> 'h list option \<Rightarrow> 'h list option" where
  "addInterruptHandler h callbacks = (case callbacks of None \<Rightarrow> Some [h] | Some cs \<Rightarrow> Some (cs @ [h]))"

definition mainInterruptHandler :: "'h list \<Rightarrow> 'h list" where
  "mainInterruptHandler callbacks = map (\<lambda>i. callbacks ! (length callbacks - 1 - i)) [0..<length callbacks]"

section \<open>Stop\<close>

text \<open>The channels that \<open>Stop\<close> closes. Closing a closed one panics, as does a send on a closed one.\<close>

record running =
  run_listeners :: "string list"
  run_client :: bool
  run_clientQuit :: bool
  run_enqueue :: bool
  run_rescanQuit :: bool
  run_diskQuit :: bool
  run_managerQuit :: bool
  run_quit :: bool

definition closeChan :: "(running \<Rightarrow> bool) \<Rightarrow> (running \<Rightarrow> running) \<Rightarrow> (running, err, unit) act" where
  "closeChan get put s = (if get s then (Inl (Panic ''close of closed channel''), s) else (Inr (), put s))"

definition client_Stop :: "(running, err, unit) act" where
  "client_Stop s =
     (if run_clientQuit s then (Inr (), s)
      else
        bindE (closeChan run_clientQuit (\<lambda>s. s\<lparr>run_clientQuit := True\<rparr>)) (\<lambda>_.
          closeChan run_enqueue (\<lambda>s. s\<lparr>run_enqueue := True\<rparr>)) s)"

text \<open>A callback of the connection, such as \<open>onBlockConnected\<close>, puts a notification into the queue.\<close>

definition onNotification :: "notification \<Rightarrow> (running, err, notification) act" where
  "onNotification n s = (if run_enqueue s then Inl (Panic ''send on closed channel'') else Inr n, s)"

definition am_Stop :: "(running, err, unit) act" where
  "am_Stop =
     bindE (closeChan run_rescanQuit (\<lambda>s. s\<lparr>run_rescanQuit := True\<rparr>)) (\<lambda>_.
     bindE (closeChan run_diskQuit (\<lambda>s. s\<lparr>run_diskQuit := True\<rparr>)) (\<lambda>_.
       closeChan run_managerQuit (\<lambda>s. s\<lparr>run_managerQuit := True\<rparr>)))"

text \<open>What follows when the server is not yet shutting down.\<close>

definition stopRest :: "(running, err, unit) act" where
  "stopRest =
     bindE (modifyE (\<lambda>s. s\<lparr>run_listeners := []\<rparr>)) (\<lambda>_.
     bindE (\<lambda>s. if run_client s then client_Stop s else (Inr (), s)) (\<lambda>_.
     bindE am_Stop (\<lambda>_.
       closeChan run_quit (\<lambda>s. s\<lparr>run_quit := True\<rparr>))))"

definition server_Stop :: "(running, err, unit) act" where
  "server_Stop s = (if run_quit s then (Inr (), s) else stopRest s)"

end
