(* ===== verification/Wt_MainProps.thy ===== *)
theory Wt_MainProps
  imports Wt_Main
begin

text \<open>
  Start and end of the process: the certificate files, the waits between connections, the order of interrupt handlers,
  and the channels that a shutdown closes.
\<close>

section \<open>Certificates\<close>

lemma serverKeyPair_ok:
  assumes "serverKeyPair tls os certPath keyPath s = (Inr (), s')"
  shows "\<exists>cert key. map_of (fs_files s') certPath = Some cert \<and> map_of (fs_files s') keyPath = Some key \<and> X509Err tls cert key = None"
  using assms
  by (auto simp: serverKeyPair_def LoadX509KeyPair_def os_Open_def syscall_def bindE_def liftE_def failE_def retE_def
      split: prod.splits sum.splits option.splits if_splits)

lemma fileExists_there:
  "map_of (fs_files s) p \<noteq> None \<Longrightarrow> \<exists>n. fileExists os p s = (Inr True, s\<lparr>fs_calls := n\<rparr>) \<or> OsErr os (fs_calls s) = Some ErrNotExist"
  by (auto simp: fileExists_def os_Stat_def syscall_def bindE_def liftE_def split: option.splits)

text \<open>A key without a certificate is never repaired: whatever the operating system answers, short of denying that the
  key is there, the pair cannot be loaded and the files stay as they are.\<close>

lemma certificate_missing:
  assumes "map_of (fs_files s) keyPath \<noteq> None" and "map_of (fs_files s) certPath = None"
    and "OsErr os (fs_calls s) \<noteq> Some ErrNotExist"
  shows "\<exists>e n. serverKeyPair tls os certPath keyPath s = (Inl e, s\<lparr>fs_calls := n\<rparr>)"
  using fileExists_there [OF assms(1), of os] assms
  by (auto simp: serverKeyPair_def LoadX509KeyPair_def os_Open_def syscall_def bindE_def liftE_def retE_def split: option.splits)

text \<open>A device that is full when the key is written leaves such a key behind.\<close>

definition fullDisk :: "nat \<Rightarrow> oslib" where
  "fullDisk k = \<lparr>OsErr = \<lambda>_. None, OsRoom = \<lambda>n. if n = k then Some 1 else None, TempNames = \<lambda>_. [], Getwd = []\<rparr>"

lemma certificate_lost:
  assumes "NewTLSCertPair tls = Inr ([1], [2, 3])"
  shows "serverKeyPair tls (fullDisk 8) [''d'', ''rpc.cert''] [''d'', ''rpc.key''] \<lparr>fs_files = [], fs_dirs = [], fs_calls = 0\<rparr> =
    (Inl ErrShortWrite, \<lparr>fs_files = [([''d'', ''rpc.key''], [2])], fs_dirs = [[], [''d'']], fs_calls = 10\<rparr>)"
  using assms
  by (simp add: serverKeyPair_def genCertPair_def fileExists_def os_Stat_def os_MkdirAll_def ioutil_WriteFile_def os_Create_def
      os_Remove_def writeFile_def Write_def syscall_def fullDisk_def bindE_def liftE_def retE_def modifyE_def failE_def)

section \<open>Waits and interrupts\<close>

text \<open>After \<open>n\<close> failures in a row the wait is doubled \<open>n\<close> times, up to a minute.\<close>

lemma nextWait_doubles: "(nextWait ^^ n) initialWait = (if n < 4 then 5 * 2 ^ n else 60)"
proof (induction n)
  case (Suc n)
  consider "n = 0" | "n = 1" | "n = 2" | "n = 3" | "4 \<le> n" by linarith
  then show ?case using Suc by cases (simp_all add: nextWait_def numeral_eq_Suc)
qed (simp add: initialWait_def)

lemma clientConnect_sleeps:
  "wait \<le> 60 \<Longrightarrow> \<exists>ss w'. clientConnect xs wait w = (Inr ss, w') \<and> length ss = length xs \<and> (\<forall>t \<in> set ss. t \<le> 60)
     \<and> (w_client w' \<noteq> None \<longleftrightarrow> w_client w \<noteq> None \<or> (\<exists>u. Inr u \<in> set xs))"
proof (induction xs arbitrary: wait w)
  case (Cons x xs)
  have n: "nextWait wait \<le> 60" "initialWait \<le> 60" by (simp_all add: nextWait_def initialWait_def Let_def)
  show ?case
    using Cons.IH [OF n(1), of w] Cons.IH [OF n(2), of "w\<lparr>w_client := Some newRPCClient\<rparr>"] Cons.prems
    by (cases x) (auto simp: connectRound_def bindE_def retE_def modifyE_def)
qed (simp add: retE_def)

text \<open>Handlers run in the opposite of the order in which they were added.\<close>

lemma interrupt_lifo:
  "fold addInterruptHandler (h # hs) None = Some cs \<Longrightarrow> mainInterruptHandler cs = rev (h # hs)"
proof -
  have "fold addInterruptHandler xs (Some ys) = Some (ys @ xs)" for xs ys :: "'a list"
    by (induction xs arbitrary: ys) (simp_all add: addInterruptHandler_def)
  moreover have "mainInterruptHandler xs = rev xs" for xs :: "'a list"
    by (auto simp: mainInterruptHandler_def rev_nth intro!: nth_equalityI)
  ultimately show "fold addInterruptHandler (h # hs) None = Some cs \<Longrightarrow> mainInterruptHandler cs = rev (h # hs)"
    by (simp add: addInterruptHandler_def)
qed

section \<open>Shutdown\<close>

text \<open>Nothing that only \<open>Stop\<close> of the server closes is closed; a client may have been stopped before.\<close>

definition started :: "running \<Rightarrow> bool" where
  "started s \<longleftrightarrow> \<not> run_rescanQuit s \<and> \<not> run_diskQuit s \<and> \<not> run_managerQuit s \<and> \<not> run_quit s \<and> run_enqueue s = run_clientQuit s"

definition stopped :: "running \<Rightarrow> running" where
  "stopped s = s\<lparr>run_listeners := [], run_clientQuit := run_client s \<or> run_clientQuit s, run_enqueue := run_client s \<or> run_clientQuit s,
     run_rescanQuit := True, run_diskQuit := True, run_managerQuit := True, run_quit := True\<rparr>"

lemmas stop_defs = server_Stop_def stopRest_def am_Stop_def client_Stop_def closeChan_def bindE_def modifyE_def stopped_def started_def

text \<open>C38. Shutdown. \<open>Stop\<close> of a running server closes every listener and channel, and however often it is called again
  it changes nothing and does not panic. Two callers that both find the server running before either has closed
  \<open>quit\<close>, as a stop request and the interrupt handler can, close channels twice: the second panics. So does a
  notification of the chain server that arrives after its client was stopped.\<close>

theorem Stop_once:
  assumes "started s"
  shows "((\<lambda>x. snd (server_Stop x)) ^^ Suc n) s = stopped s \<and> fst (server_Stop (((\<lambda>x. snd (server_Stop x)) ^^ n) s)) = Inr ()
    \<and> (\<exists>msg s'. bindE stopRest (\<lambda>_. stopRest) s = (Inl (Panic msg), s'))
    \<and> (run_client s \<longrightarrow> (\<exists>msg. fst (onNotification ntfn (stopped s)) = Inl (Panic msg)))"
proof -
  have f: "server_Stop s = (Inr (), stopped s)" "stopRest s = (Inr (), stopped s)" using assms by (auto simp: stop_defs)
  have a: "server_Stop (stopped s) = (Inr (), stopped s)" by (simp add: stop_defs)
  have i: "((\<lambda>x. snd (server_Stop x)) ^^ Suc n) s = stopped s" for n by (induction n) (simp_all add: f a)
  have b: "fst (server_Stop (((\<lambda>x. snd (server_Stop x)) ^^ n) s)) = Inr ()"
    using i by (cases n) (simp_all add: f a del: funpow.simps)
  have "\<exists>msg s'. stopRest (stopped s) = (Inl (Panic msg), s')" by (auto simp: stop_defs)
  then show ?thesis using i b f(2) by (auto simp: bindE_def onNotification_def stopped_def)
qed

definition run1 :: running where
  "run1 = \<lparr>run_listeners = [''127.0.0.1:18332''], run_client = True, run_clientQuit = False, run_enqueue = False,
     run_rescanQuit = False, run_diskQuit = False, run_managerQuit = False, run_quit = False\<rparr>"

theorem Stop_once_witness:
  "started run1 \<and> snd (server_Stop (snd (server_Stop run1))) = stopped run1 \<and>
   (\<exists>msg s'. bindE stopRest (\<lambda>_. stopRest) run1 = (Inl (Panic msg), s'))"
proof -
  have "started run1" by (simp add: started_def run1_def)
  then show ?thesis using Stop_once [of run1 1] by simp
qed

end
