(* ===== verification/Wt_Loops.thy ===== *)
theory Wt_Loops
  imports Wt_Main
begin

text \<open>
  The loops of the goroutines that serve requests: \<open>accountHandler\<close> and \<open>keystoreLocker\<close> of \<open>src/acctmgr.go\<close>, \<open>handler\<close> of
  \<open>src/disksync.go\<close>, \<open>rpcHandler\<close> of \<open>src/rescan.go\<close>, \<open>clientAccess\<close> of \<open>src/cmd.go\<close> and the callback of a new connection of
  \<open>src/rpcclient.go\<close>. A turn of a loop takes what was received and gives what is sent back.
\<close>

section \<open>Account manager\<close>

datatype amCmd =
    OpenAccountsCmd
  | AccessAccount string
  | AccessAccountByAddress string
  | AccessAll
  | AddAccountCmd acref
  | RemoveAccountCmd acref
  | MarkAddressCmd string acref

datatype amReply = NoReply | ReplyAccount "acref option" | ReplyAccounts "acref list"

fun accountHandler :: "wenv \<Rightarrow> amCmd \<Rightarrow> amReply wact" where
  "accountHandler env OpenAccountsCmd = bindE (OpenAccounts env) (\<lambda>_. retE NoReply)"
| "accountHandler env (AccessAccount name) = liftE (\<lambda>w. Inr (ReplyAccount (map_of (nameToAccount w) name)))"
| "accountHandler env (AccessAccountByAddress addr) = liftE (\<lambda>w. Inr (ReplyAccount (map_of (addressToAccount w) addr)))"
| "accountHandler env AccessAll = liftE (\<lambda>w. Inr (ReplyAccounts (map snd (nameToAccount w))))"
| "accountHandler env (AddAccountCmd a) = bindE (addAccount env a) (\<lambda>_. retE NoReply)"
| "accountHandler env (RemoveAccountCmd a) = bindE (removeAccount env a) (\<lambda>_. retE NoReply)"
| "accountHandler env (MarkAddressCmd addr a) =
     bindE (modifyE (\<lambda>w. w\<lparr>addressToAccount := AList.update addr a (addressToAccount w)\<rparr>)) (\<lambda>_. retE NoReply)"

datatype lockEvent = UnlockRequest bytes nat | UnlockedState | LockRequest | TimeoutFired

datatype lockReply = ReplyUnlock "err option" | ReplyState bool | ReplyNothing

text \<open>\<open>keystoreLocker\<close>: \<open>w_unlocked\<close> is its variable \<open>unlocked\<close>, \<open>w_timeout\<close> whether its channel \<open>timeout\<close> is set. The error of an
  unlock goes to who asked, a panic ends the process.\<close>

fun keystoreLocker :: "wenv \<Rightarrow> lockEvent \<Rightarrow> lockReply wact" where
  "keystoreLocker env (UnlockRequest passphrase timeout) = (\<lambda>w. case UnlockWallets env passphrase timeout w of
     (Inl e, w') \<Rightarrow> if isPanic e then (Inl e, w') else (Inr (ReplyUnlock (Some e)), w')
   | (Inr _, w') \<Rightarrow> (Inr (ReplyUnlock None), w'))"
| "keystoreLocker env UnlockedState = liftE (\<lambda>w. Inr (ReplyState (w_unlocked w)))"
| "keystoreLocker env LockRequest = bindE LockWallets (\<lambda>_. retE ReplyNothing)"
| "keystoreLocker env TimeoutFired = (\<lambda>w. if w_timeout w then bindE LockWallets (\<lambda>_. retE ReplyNothing) w else (Inr ReplyNothing, w))"

section \<open>Disk syncer\<close>

datatype diskEvent =
    SemGrabbed
  | TimerFired
  | FlushRequest acref
  | WalletScheduled acref
  | TxsScheduled acref
  | BatchRequest "acref list"
  | ExportRequest Account path
  | DiskQuit

text \<open>One turn of \<open>handler\<close>. Its variable \<open>timer\<close> is \<open>w_timer\<close>; the flag is \<open>sem\<close>, the semaphore it waits for. The first component
  is the error sent to who asked or logged. On \<open>quit\<close> the loop ends after a last flush.\<close>

fun diskTurn :: "wenv \<Rightarrow> diskEvent \<Rightarrow> World \<times> bool \<Rightarrow> (err + unit) \<times> (World \<times> bool)" where
  "diskTurn env SemGrabbed (w, sem) =
     (if sem then (case sched_flush env w of (r, w') \<Rightarrow> (r, (w'\<lparr>w_timer := False\<rparr>, False))) else (Inr (), (w, sem)))"
| "diskTurn env TimerFired (w, sem) = (Inr (), (w, sem \<or> w_timer w))"
| "diskTurn env (FlushRequest a) (w, sem) = (case sched_flushAccount env a w of (r, w') \<Rightarrow> (r, (w', sem)))"
| "diskTurn env (WalletScheduled a) (w, sem) = (case ScheduleWalletWrite a w of (r, w') \<Rightarrow> (r, (w', sem)))"
| "diskTurn env (TxsScheduled a) (w, sem) = (case ScheduleTxStoreWrite a w of (r, w') \<Rightarrow> (r, (w', sem)))"
| "diskTurn env (BatchRequest as) (w, sem) = (case WriteBatch env as w of (r, w') \<Rightarrow> (r, (w', sem)))"
| "diskTurn env (ExportRequest a dir) (w, sem) = (case ExportAccount env a dir w of (r, w') \<Rightarrow> (r, (w', sem)))"
| "diskTurn env DiskQuit (w, sem) = (case sched_flush env w of (r, w') \<Rightarrow> (r, (w', sem)))"

section \<open>Rescan requests\<close>

text \<open>\<open>rpcHandler\<close> on one job: what it reports to the manager, and whether its loop goes on.\<close>

definition rpcHandler :: "wenv \<Rightarrow> RescanJob \<Rightarrow> (rescanStatus option \<times> bool) wact" where
  "rpcHandler env job w =
     (let as = concat (map snd (job_Addresses job)) in
      case accessClient w of
        (Inl e, w') \<Rightarrow> (Inr (Some (rescanFinished (Some e)), False), w')
      | (Inr _, w') \<Rightarrow>
          (case send env (Rescan (job_StartHeight job) as (job_OutPoints job)) w' of
             (Inl e, w'') \<Rightarrow> if isPanic e then (Inl e, w'') else (Inr (Some (rescanFinished (Some e)), True), w'')
           | (Inr _, w'') \<Rightarrow> (Inr (None, True), w'')))"

primrec rpcHandlerLoop :: "wenv \<Rightarrow> RescanJob list \<Rightarrow> rescanStatus list wact" where
  "rpcHandlerLoop env [] = retE []"
| "rpcHandlerLoop env (job # jobs) = bindE (rpcHandler env job) (\<lambda>(status, more).
     bindE (if more then rpcHandlerLoop env jobs else retE []) (\<lambda>rest.
       retE ((case status of None \<Rightarrow> [] | Some x \<Rightarrow> [x]) @ rest)))"

section \<open>The client of the chain server\<close>

datatype 'c accessEvent = NewClient 'c | AccessClient

text \<open>The variable of \<open>clientAccess\<close> and what it hands out.\<close>

fun clientAccess :: "'c accessEvent \<Rightarrow> 'c option \<Rightarrow> 'c option option \<times> 'c option" where
  "clientAccess (NewClient c) client = (None, Some c)"
| "clientAccess AccessClient client = (Some client, client)"

text \<open>\<open>NotifyConnectionStatus(nil)\<close>, with whether the client reports itself as disconnected, and the callback \<open>OnClientConnected\<close>;
  its result is whether it stops the client.\<close>

definition NotifyConnectionStatus :: "bool \<Rightarrow> unit wact" where
  "NotifyConnectionStatus disconnected w = notify (BtcdConnected (w_client w \<noteq> None \<and> \<not> disconnected)) w"

definition OnClientConnected :: "wenv \<Rightarrow> bool \<Rightarrow> bool wact" where
  "OnClientConnected env disconnected =
     bindE (NotifyConnectionStatus disconnected) (\<lambda>_. \<lambda>w. case Handshake env w of
       (Inl e, w') \<Rightarrow> if isPanic e then (Inl e, w') else (Inr True, w')
     | (Inr _, w') \<Rightarrow> (Inr False, w'))"

end
