(* ===== verification/Wt_LoopProps.thy ===== *)
theory Wt_LoopProps
  imports Wt_Loops Wt_Atomic
begin

text \<open>
  The loops of the process: what the account manager answers, and what the disk syncer has written when it has flushed
  its schedule.
\<close>

section \<open>Account manager\<close>

text \<open>The lookups of the other theories are what the goroutine answers.\<close>

lemma accountHandler_answers:
  "accountHandler env (AccessAccount name) w = (Inr (ReplyAccount x), w) \<Longrightarrow>
     am_Account w name = (case x of None \<Rightarrow> Inl ErrNotFound | Some a \<Rightarrow> Inr a)"
  "accountHandler env (AccessAccountByAddress (EncodeAddress env addr)) w = (Inr (ReplyAccount x), w) \<Longrightarrow>
     AccountByAddress env w addr = (case x of None \<Rightarrow> Inl ErrNotFound | Some a \<Rightarrow> Inr a)"
  "accountHandler env AccessAll w = (Inr (ReplyAccounts (AllAccounts w)), w)"
  "accountHandler env (MarkAddressCmd (EncodeAddress env addr) a) w = (Inr NoReply, MarkAddressForAccount env addr a w)"
  by (auto simp: liftE_def am_Account_def AccountByAddress_def AllAccounts_def MarkAddressForAccount_def bindE_def modifyE_def retE_def)

section \<open>What is saved\<close>

text \<open>The file of the key store (\<^term>\<open>True\<close>) or of the transaction store of an account has what the store writes.\<close>

definition storeWriter :: "wenv \<Rightarrow> bool \<Rightarrow> Account \<Rightarrow> wr" where
  "storeWriter env b x = (if b then ks_WriteTo (e_ks env) (KeyStore x) else Store_WriteTo (e_tx env) (TxStore x))"

definition storePath :: "wenv \<Rightarrow> bool \<Rightarrow> Account \<Rightarrow> path" where
  "storePath env b x = accountFilename (if b then ''wallet.bin'' else ''tx.bin'') (acct_name x) (networkDir env)"

definition saved :: "wenv \<Rightarrow> fs \<Rightarrow> bool \<Rightarrow> Account \<Rightarrow> bool" where
  "saved env s b x \<longleftrightarrow> (\<exists>bs cap cap'. storeWriter env b x ([], cap) = (Inr (), (bs, cap')) \<and> map_of (fs_files s) (storePath env b x) = Some bs)"

lemma storePath_inj: "storePath env b x = storePath env b' y \<Longrightarrow> b = b' \<and> acct_name x = acct_name y"
proof -
  have e: "rev p = rev q" if "p = q" for p q :: string using that by simp
  show "storePath env b x = storePath env b' y \<Longrightarrow> b = b' \<and> acct_name x = acct_name y"
    by (auto simp: storePath_def accountFilename_def split: if_splits dest!: e)
qed

definition flushOne :: "wenv \<Rightarrow> bool \<Rightarrow> acref \<Rightarrow> unit wact" where
  "flushOne env b a = (if b then flushWallet env a else flushTxs env a)"

definition scheduled :: "bool \<Rightarrow> World \<Rightarrow> (acref, unit) gomap" where
  "scheduled b w = (if b then sched_wallets (w_schedule w) else sched_txs (w_schedule w))"

lemma flushOne_run:
  assumes "flushOne env b a w = (res, w')" and "\<forall>k. [] \<notin> set (TempNames (e_os env) k)"
  shows "w_accts w' = w_accts w" and "w_timer w' = w_timer w"
    and "scheduled (\<not> b) w' = scheduled (\<not> b) w"
    and "scheduled b w' = (if res = Inr () then AList.delete a (scheduled b w) else scheduled b w)"
    and "res = Inr () \<Longrightarrow> saved env (w_fs w') b (acct w a)"
    and "saved env (w_fs w) b' x \<Longrightarrow> (b', acct_name x) \<noteq> (b, acct_name (acct w a)) \<Longrightarrow> saved env (w_fs w') b' x"
proof -
  let ?x = "acct w a"
  obtain r s where run: "writeVia (e_os env) (networkDir env) (storePath env b ?x) (storeWriter env b ?x) (w_fs w) = (r, s)" by force
  then have w': "res = r" "w' = (case r of Inl e \<Rightarrow> w\<lparr>w_fs := s\<rparr> | Inr _ \<Rightarrow>
      updSched (\<lambda>z. if b then z\<lparr>sched_wallets := AList.delete a (sched_wallets z)\<rparr> else z\<lparr>sched_txs := AList.delete a (sched_txs z)\<rparr>) (w\<lparr>w_fs := s\<rparr>))"
    using assms(1)
    by (auto simp: flushOne_def flushWallet_def flushTxs_def writeWallet_def writeTxStore_def storePath_def storeWriter_def onFs_def
        zoom_def bindE_def modifyE_def split: if_splits sum.splits)
  show "w_accts w' = w_accts w" "w_timer w' = w_timer w" "scheduled (\<not> b) w' = scheduled (\<not> b) w"
    "scheduled b w' = (if res = Inr () then AList.delete a (scheduled b w) else scheduled b w)"
    by (auto simp: w' updSched_def scheduled_def split: sum.splits)
  have fs: "w_fs w' = s" by (auto simp: w' updSched_def split: sum.splits)
  have at: "butlast (storePath env b ?x) = networkDir env" "storePath env b ?x \<noteq> []"
    using accountFilename_in by (auto simp: storePath_def)
  note via = writeVia_run [OF run assms(2) at]
  show "saved env (w_fs w') b ?x" if "res = Inr ()" using via(1) that unfolding w'(1) saved_def fs by blast
  show "saved env (w_fs w') b' x" if x: "saved env (w_fs w) b' x" "(b', acct_name x) \<noteq> (b, acct_name ?x)"
  proof -
    have "storePath env b' x \<noteq> storePath env b ?x" using x(2) storePath_inj [of env b' x b ?x] by auto
    moreover have "exists (w_fs w) (storePath env b' x)" using x(1) by (auto simp: saved_def exists_def)
    ultimately have "map_of (fs_files s) (storePath env b' x) = map_of (fs_files (w_fs w)) (storePath env b' x)"
      using via(3) by (auto simp: same_but_def)
    then show ?thesis using x(1) by (simp add: saved_def fs)
  qed
qed

text \<open>A loop over scheduled entries that succeeds, and where one stops that does not.\<close>

lemma flush_list:
  assumes "forE (\<lambda>e. flushOne env b (fst e)) es w = (Inr (), w')" and "\<forall>k. [] \<notin> set (TempNames (e_os env) k)"
  shows "w_accts w' = w_accts w \<and> w_timer w' = w_timer w \<and> scheduled (\<not> b) w' = scheduled (\<not> b) w
      \<and> scheduled b w' = fold (\<lambda>e. AList.delete (fst e)) es (scheduled b w)
      \<and> (\<forall>b' x. saved env (w_fs w) b' x \<and> (b', acct_name x) \<notin> (\<lambda>e. (b, acct_name (acct w (fst e)))) ` set es
           \<longrightarrow> saved env (w_fs w') b' x)
      \<and> (distinct (map (\<lambda>e. acct_name (acct w (fst e))) es) \<longrightarrow> (\<forall>e \<in> set es. saved env (w_fs w') b (acct w (fst e))))"
  using assms(1)
proof (induction es arbitrary: w)
  case (Cons e es)
  obtain r v where r: "flushOne env b (fst e) w = (r, v)" by force
  then have v: "r = Inr ()" "forE (\<lambda>e. flushOne env b (fst e)) es v = (Inr (), w')"
    using Cons.prems by (auto split: sum.splits)
  note one = flushOne_run [OF r assms(2)] and rest = Cons.IH [OF v(2)]
  have keep: "saved env (w_fs w') b' x" if "saved env (w_fs v) b' x" "\<forall>y \<in> set es. (b', acct_name x) \<noteq> (b, acct_name (acct w (fst y)))" for b' x
    using that rest one(1) by fastforce
  have "saved env (w_fs w') b' x" if x: "saved env (w_fs w) b' x"
      "(b', acct_name x) \<notin> (\<lambda>e. (b, acct_name (acct w (fst e)))) ` set (e # es)" for b' x
  proof (rule keep)
    show "saved env (w_fs v) b' x" using x by (intro one(6)) auto
    show "\<forall>y \<in> set es. (b', acct_name x) \<noteq> (b, acct_name (acct w (fst y)))" using x(2) by auto
  qed
  moreover have "saved env (w_fs w') b (acct w (fst y))" if y: "distinct (map (\<lambda>e. acct_name (acct w (fst e))) (e # es))" "y \<in> set (e # es)" for y
  proof (cases "y \<in> set es")
    case True
    then show ?thesis using y(1) rest one(1) by simp
  next
    case False
    then have "y = e" using y(2) by simp
    then show ?thesis using y(1) one(5) [OF v(1)] by (intro keep) auto
  qed
  ultimately show ?case using one(1-4) rest v(1) by simp
qed simp

lemma forE_fail:
  "forE f es w = (Inl err, w') \<Longrightarrow> \<exists>us e es' v. es = us @ e # es' \<and> forE f us w = (Inr (), v) \<and> f e v = (Inl err, w')"
proof (induction es arbitrary: w)
  case (Cons e es)
  obtain r v where r: "f e w = (r, v)" by force
  show ?case
  proof (cases r)
    case (Inl x)
    then show ?thesis using Cons.prems r by (intro exI [of _ "[]"]) auto
  next
    case (Inr u)
    then have "forE f es v = (Inl err, w')" using Cons.prems r by simp
    from Cons.IH [OF this] obtain us y es' z where "es = us @ y # es'" "forE f us v = (Inr (), z)" "f y z = (Inl err, w')" by blast
    then show ?thesis using Inr r by (intro exI [of _ "e # us"] exI [of _ y] exI [of _ es'] exI [of _ z]) auto
  qed
qed simp

lemma delete_all: "set (fold (\<lambda>e. AList.delete (fst e)) us m) = {e \<in> set m. fst e \<notin> fst ` set us}"
  by (induction us arbitrary: m) (auto simp: AList.delete_eq)

section \<open>The schedule\<close>

definition dirty :: "World \<Rightarrow> bool" where
  "dirty w \<longleftrightarrow> scheduled True w \<noteq> [] \<or> scheduled False w \<noteq> []"

definition sched_ok :: "World \<Rightarrow> bool" where
  "sched_ok w \<longleftrightarrow> (\<forall>b. distinct (map fst (scheduled b w)))"

lemma sched_iff:
  "sched_ok w \<longleftrightarrow> distinct (map fst (sched_wallets (w_schedule w))) \<and> distinct (map fst (sched_txs (w_schedule w)))"
  "dirty w \<longleftrightarrow> sched_wallets (w_schedule w) \<noteq> [] \<or> sched_txs (w_schedule w) \<noteq> []"
  by (simp_all add: sched_ok_def dirty_def scheduled_def all_bool_eq)

lemma sched_flush_both:
  "sched_flush env w = (case forE (\<lambda>e. flushOne env False (fst e)) (scheduled False w) w of
     (Inl e, v) \<Rightarrow> (Inl e, v) | (Inr _, v) \<Rightarrow> forE (\<lambda>e. flushOne env True (fst e)) (scheduled True v) v)"
  by (auto simp: sched_flush_def bindE_def flushOne_def scheduled_def split: prod.split sum.split)

lemma flush_fails:
  assumes "forE (\<lambda>e. flushOne env b (fst e)) (scheduled b w) w = (Inl err, w')" and "\<forall>k. [] \<notin> set (TempNames (e_os env) k)"
    and "distinct (map fst (scheduled b w))"
  shows "scheduled b w' \<noteq> []"
proof -
  from forE_fail [OF assms(1)] obtain us e es v where
    f: "scheduled b w = us @ e # es" "forE (\<lambda>e. flushOne env b (fst e)) us w = (Inr (), v)" "flushOne env b (fst e) v = (Inl err, w')" by blast
  have "e \<in> set (scheduled b v)" using f(1) assms(3) flush_list [OF f(2) assms(2)] by (auto simp: delete_all)
  then show ?thesis using flushOne_run(4) [OF f(3) assms(2)] by auto
qed

lemma sched_flush_run:
  assumes "sched_flush env w = (res, w')" and "\<forall>k. [] \<notin> set (TempNames (e_os env) k)" and "sched_ok w"
  shows "res \<noteq> Inr () \<Longrightarrow> dirty w'"
    and "res = Inr () \<Longrightarrow> \<not> dirty w'"
    and "res = Inr () \<Longrightarrow> \<forall>b. distinct (map (\<lambda>e. acct_name (acct w (fst e))) (scheduled b w)) \<Longrightarrow> e \<in> set (scheduled b w) \<Longrightarrow>
      saved env (w_fs w') b (acct w (fst e))"
proof -
  obtain r v where v: "forE (\<lambda>e. flushOne env False (fst e)) (scheduled False w) w = (r, v)" by force
  show "dirty w'" if "res \<noteq> Inr ()"
  proof (cases r)
    case (Inl x)
    then show ?thesis using flush_fails [OF _ assms(2), of False w x v] v assms(1,3) by (auto simp: sched_flush_both dirty_def sched_ok_def)
  next
    case (Inr u)
    then have "scheduled True v = scheduled True w" using flush_list [OF _ assms(2), of False _ w v] v by auto
    then show ?thesis using Inr that flush_fails [OF _ assms(2), of True v _ w'] v assms(1,3)
      by (cases res) (auto simp: sched_flush_both dirty_def sched_ok_def)
  qed
  assume "res = Inr ()"
  then have r: "r = Inr ()" and t: "forE (\<lambda>e. flushOne env True (fst e)) (scheduled True v) v = (Inr (), w')"
    using assms(1) v by (auto simp: sched_flush_both split: sum.splits)
  note a = flush_list [OF v [unfolded r] assms(2)] and c = flush_list [OF t assms(2)]
  have "set (scheduled False w') = {}" "set (scheduled True w') = {}" using a c by (auto simp: delete_all)
  then show "\<not> dirty w'" by (simp add: dirty_def)
  show "saved env (w_fs w') b (acct w (fst e))"
    if "\<forall>b. distinct (map (\<lambda>e. acct_name (acct w (fst e))) (scheduled b w))" "e \<in> set (scheduled b w)"
  proof (cases b)
    case True
    then show ?thesis using a c that by auto
  next
    case False
    have "saved env (w_fs v) False x \<Longrightarrow> saved env (w_fs w') False x" for x using c by fastforce
    then show ?thesis using a that False by auto
  qed
qed

text \<open>Everything but a request to write takes entries off the schedule only.\<close>

definition shrinks :: "World \<Rightarrow> World \<Rightarrow> bool" where
  "shrinks w w' \<longleftrightarrow> w_timer w' = w_timer w \<and> (\<forall>b. set (scheduled b w') \<subseteq> set (scheduled b w) \<and>
     (distinct (map fst (scheduled b w)) \<longrightarrow> distinct (map fst (scheduled b w'))))"

lemma shrinks_trans: "shrinks u v \<Longrightarrow> shrinks v w \<Longrightarrow> shrinks u w"
  unfolding shrinks_def by blast

lemma shrinks_dirty: "shrinks w w' \<Longrightarrow> dirty w' \<Longrightarrow> dirty w"
  unfolding shrinks_def dirty_def by (metis set_empty subset_empty)

lemma shrinks_ok: "shrinks w w' \<Longrightarrow> sched_ok w \<Longrightarrow> sched_ok w'"
  by (simp add: shrinks_def sched_ok_def)

lemma flushOne_shrinks:
  assumes "flushOne env b a w = (res, w')" and "\<forall>k. [] \<notin> set (TempNames (e_os env) k)"
  shows "shrinks w w'"
proof -
  have "scheduled b' w' = scheduled b' w \<or> scheduled b' w' = AList.delete a (scheduled b' w)" for b'
    using flushOne_run(3,4) [OF assms] by (cases "b' = b") auto
  then show ?thesis
    using flushOne_run(2) [OF assms] unfolding shrinks_def by (metis AList.delete_eq distinct_delete filter_is_subset subset_refl)
qed

lemma forE_shrinks:
  assumes "\<forall>k. [] \<notin> set (TempNames (e_os env) k)"
  shows "forE (\<lambda>e. flushOne env b (fst e)) es w = (res, w') \<Longrightarrow> shrinks w w'"
proof (induction es arbitrary: w)
  case (Cons e es)
  obtain r v where r: "flushOne env b (fst e) w = (r, v)" by force
  from flushOne_shrinks [OF this assms] show ?case using Cons r by (cases r) (auto intro: shrinks_trans)
qed (simp add: shrinks_def)

lemma sched_flush_shrinks:
  assumes "\<forall>k. [] \<notin> set (TempNames (e_os env) k)" and "sched_flush env w = (res, w')"
  shows "shrinks w w'"
proof -
  obtain r v where v: "forE (\<lambda>e. flushOne env False (fst e)) (scheduled False w) w = (r, v)" by force
  from forE_shrinks [OF assms(1) this] show ?thesis
    using assms(2) v forE_shrinks [OF assms(1), of True "scheduled True v" v res w']
    by (cases r) (auto simp: sched_flush_both intro: shrinks_trans)
qed

lemma sched_flushAccount_shrinks:
  assumes "\<forall>k. [] \<notin> set (TempNames (e_os env) k)" and "sched_flushAccount env a w = (res, w')"
  shows "shrinks w w'"
proof -
  have one: "shrinks u v" if "(if c then flushTxs env a u else (Inr (), u)) = (r, v)" for c u r v
    using that flushOne_shrinks [of env False a u r v, OF _ assms(1)] by (auto simp: flushOne_def shrinks_def split: if_splits)
  have two: "shrinks u v" if "(if c then flushWallet env a u else (Inr (), u)) = (r, v)" for c u r v
    using that flushOne_shrinks [of env True a u r v, OF _ assms(1)] by (auto simp: flushOne_def shrinks_def split: if_splits)
  obtain r v where v: "(if map_of (sched_txs (w_schedule w)) a \<noteq> None then flushTxs env a w else (Inr (), w)) = (r, v)" by force
  show ?thesis using assms(2) v one [OF v] two [of _ v res w']
    by (cases r) (auto simp: sched_flushAccount_def bindE_def intro: shrinks_trans)
qed

section \<open>Runs of the disk syncer\<close>

text \<open>Turns of the loop, between which other goroutines change anything but the schedule and the timer. The last flag is
  whether a flush has failed.\<close>

inductive disk_run :: "wenv \<Rightarrow> World \<Rightarrow> bool \<Rightarrow> bool \<Rightarrow> bool" for env where
  disk_start: "w_schedule w = newSyncSchedule \<Longrightarrow> disk_run env w False False"
| disk_turn: "disk_run env w sem failed \<Longrightarrow> ev \<noteq> DiskQuit \<Longrightarrow> diskTurn env ev (w, sem) = (r, (w', sem')) \<Longrightarrow>
    disk_run env w' sem' (failed \<or> ev = SemGrabbed \<and> r \<noteq> Inr ())"
| disk_other: "disk_run env w sem failed \<Longrightarrow> w_schedule w' = w_schedule w \<Longrightarrow> w_timer w' = w_timer w \<Longrightarrow>
    disk_run env w' sem failed"

definition disk_inv :: "World \<Rightarrow> bool \<Rightarrow> bool" where
  "disk_inv w failed \<longleftrightarrow> sched_ok w \<and> (dirty w \<longrightarrow> failed \<or> w_timer w)"

lemma disk_inv_shrinks: "shrinks w w' \<Longrightarrow> disk_inv w failed \<Longrightarrow> disk_inv w' failed"
  using shrinks_ok shrinks_dirty by (auto simp: disk_inv_def shrinks_def)

lemma disk_inv_turn:
  assumes "disk_inv w failed" and "diskTurn env ev (w, sem) = (r, (w', sem'))" and "\<forall>k. [] \<notin> set (TempNames (e_os env) k)"
  shows "disk_inv w' (failed \<or> ev = SemGrabbed \<and> r \<noteq> Inr ())"
proof (cases ev)
  case SemGrabbed
  have "disk_inv (v\<lparr>w_timer := False\<rparr>) (failed \<or> r \<noteq> Inr ())" if v: "sched_flush env w = (r, v)" for v
  proof -
    have "sched_ok v" "\<not> dirty v \<or> r \<noteq> Inr ()"
      using assms(1) shrinks_ok [OF sched_flush_shrinks [OF assms(3) v]] sched_flush_run(2) [OF v assms(3)] by (auto simp: disk_inv_def)
    then show ?thesis by (auto simp: disk_inv_def sched_iff)
  qed
  then show ?thesis using assms(1,2) SemGrabbed by (auto split: if_splits prod.splits)
next
  case (FlushRequest a)
  then show ?thesis using assms disk_inv_shrinks [OF sched_flushAccount_shrinks [OF assms(3)]] by (auto split: prod.splits)
next
  case DiskQuit
  then show ?thesis using assms disk_inv_shrinks [OF sched_flush_shrinks [OF assms(3)]] by (auto split: prod.splits)
next
  case (BatchRequest as)
  then show ?thesis using assms(1,2)
    by (auto simp: WriteBatch_def bindE_def modifyE_def onFs_def zoom_def disk_inv_def sched_iff
        newSyncSchedule_def split: prod.splits sum.splits)
qed (use assms(1,2) in \<open>auto simp: ScheduleWalletWrite_def ScheduleTxStoreWrite_def ExportAccount_def onFs_def zoom_def modifyE_def
  updSched_def disk_inv_def sched_iff distinct_update split: prod.splits\<close>)

lemma disk_run_inv:
  assumes "\<forall>k. [] \<notin> set (TempNames (e_os env) k)"
  shows "disk_run env w sem failed \<Longrightarrow> disk_inv w failed"
proof (induction rule: disk_run.induct)
  case (disk_start w)
  then show ?case by (simp add: disk_inv_def sched_iff newSyncSchedule_def)
next
  case (disk_turn w sem failed ev r w' sem')
  then show ?case using disk_inv_turn assms by blast
next
  case (disk_other w sem failed w')
  then show ?case by (auto simp: disk_inv_def sched_iff)
qed

text \<open>C9. Scheduled writes. While no flush has failed, a file that is scheduled to be written has the timer set that leads
  to a flush. A flush that succeeds leaves nothing scheduled, and the file of every key store and transaction store
  that was scheduled then has exactly what that store writes, provided that no two scheduled accounts share a name. A
  flush that fails leaves files scheduled but stops the timer: they wait until another write is asked for.\<close>

theorem scheduled_files_written:
  assumes "\<forall>k. [] \<notin> set (TempNames (e_os env) k)" and "disk_run env w sem failed"
    and "\<forall>b. distinct (map (\<lambda>e. acct_name (acct w (fst e))) (scheduled b w))"
    and "diskTurn env SemGrabbed (w, True) = (r, (w', sem'))"
  shows "(dirty w \<longrightarrow> failed \<or> w_timer w)
    \<and> (r = Inr () \<longrightarrow> \<not> dirty w' \<and> (\<forall>b. \<forall>e \<in> set (scheduled b w). saved env (w_fs w') b (acct w (fst e))))
    \<and> (r \<noteq> Inr () \<longrightarrow> dirty w' \<and> \<not> w_timer w')"
proof -
  have i: "sched_ok w" "dirty w \<longrightarrow> failed \<or> w_timer w" using disk_run_inv [OF assms(1,2)] by (auto simp: disk_inv_def)
  obtain v where v: "sched_flush env w = (r, v)" "w' = v\<lparr>w_timer := False\<rparr>" using assms(4) by (auto split: prod.splits)
  have "dirty w' = dirty v" "w_fs w' = w_fs v" by (simp_all add: v(2) dirty_def scheduled_def)
  then show ?thesis using i(2) sched_flush_run [OF v(1) assms(1) i(1)] assms(3) v(2) by auto
qed

definition worldS :: World where
  "worldS = worldP\<lparr>w_accts := [acctQ], w_schedule := \<lparr>sched_wallets = [(0, ())], sched_txs = []\<rparr>, w_timer := True\<rparr>"

theorem scheduled_files_written_witness:
  "\<exists>w'. diskTurn env0 SemGrabbed (worldS, True) = (Inr (), (w', False)) \<and> \<not> dirty w' \<and> saved env0 (w_fs w') True acctQ"
proof -
  let ?w = "worldP\<lparr>w_accts := [acctQ]\<rparr>"
  have run: "disk_run env0 worldS False False"
    using disk_turn [OF disk_start [of ?w env0], of "WalletScheduled 0" "Inr ()" worldS False]
    by (simp add: worldS_def worldP_def newSyncSchedule_def ScheduleWalletWrite_def modifyE_def updSched_def)
  have names: "\<forall>k. [] \<notin> set (TempNames (e_os env0) k)" by (simp add: env0_def os0_def)
  have uniq: "\<forall>b. distinct (map (\<lambda>e. acct_name (acct worldS (fst e))) (scheduled b worldS))" by (simp add: scheduled_def worldS_def)
  have dir: "networkDir env0 = [''data'', ''mainnet'']" by (simp add: networkDir_def env0_def kslib0_def)
  obtain s where "writeWallet env0 acctQ [''data'', ''mainnet''] (w_fs worldP) = (Inr (), s)"
    using writeWallet_sample(2) by (metis prod.collapse)
  then obtain w' where turn: "diskTurn env0 SemGrabbed (worldS, True) = (Inr (), (w', False))"
    by (simp add: sched_flush_def flushWallet_def dir onFs_def zoom_def bindE_def modifyE_def worldS_def worldP_def)
  have "(0, ()) \<in> set (scheduled True worldS)" "acct worldS 0 = acctQ" by (simp_all add: scheduled_def worldS_def)
  with scheduled_files_written [OF names run uniq turn] turn show ?thesis by fastforce
qed

end
