(* ===== verification/Wt_ChainProps.thy ===== *)
theory Wt_ChainProps
  imports Wt_Loops Wt_Keeps
begin

text \<open>
  What the chain server can do to a wallet: notifications, the messages of rescans and the handshake change transactions
  and how far accounts are synchronized, but nothing else of an account.
\<close>

section \<open>The view\<close>

text \<open>An account without its transactions, its recent blocks and the marks of synchronization of its addresses.\<close>

definition unsyncedKeys :: "KStore \<Rightarrow> KStore" where
  "unsyncedKeys s = s\<lparr>ks_recent := \<lparr>rb_hashes = [], rb_lastHeight = 0\<rparr>, aheap := map (setSyncStatus FullSync) (aheap s)\<rparr>"

definition keyView :: "Account \<Rightarrow> Account" where
  "keyView x = x\<lparr>KeyStore := unsyncedKeys (KeyStore x), TxStore := New\<rparr>"

definition sameKeys :: "World \<Rightarrow> World \<Rightarrow> bool" where
  "sameKeys w0 w \<longleftrightarrow> map keyView (w_accts w) = map keyView (w_accts w0)"

interpretation sk: of_accounts "sameKeys w0" for w0
  by unfold_locales (auto simp: accts_only_def sameKeys_def)

lemma map_update_same: "f y = f (xs ! a) \<Longrightarrow> map f (xs[a := y]) = map f xs"
  by (metis list_update_id map_update)

lemma putAcct_sameKeys: "sameKeys w0 w \<Longrightarrow> keyView x = keyView (acct w a) \<Longrightarrow> sameKeys w0 (putAcct a x w)"
  by (simp add: sameKeys_def putAcct_def map_update_same)

lemma setSyncStatus_forgotten [simp]: "setSyncStatus FullSync (setSyncStatus ss x) = setSyncStatus FullSync x"
  by (cases x; cases ss) (auto simp: btc_setSyncStatus_def script_setSyncStatus_def)

lemma syncMark_unsynced: "unsyncedKeys (s\<lparr>aheap := (aheap s)[r := setSyncStatus ss (aget s r)]\<rparr>) = unsyncedKeys s"
  by (simp add: unsyncedKeys_def map_update_same)

lemma SetSyncedWith_unsynced: "unsyncedKeys (SetSyncedWith bs s) = unsyncedKeys s"
  using syncMark_unsynced [of s keyGenerator]
  by (auto simp: SetSyncedWith_def unsyncedKeys_def Let_def split: option.split)

section \<open>Stores\<close>

lemma onTxs_sameKeys [keeps]: "preserves (sameKeys w0) (onTxs a m)"
  by (rule preservesI) (auto simp: onTxs_def onAcct_def zoom_def keyView_def split: prod.split intro!: putAcct_sameKeys)

lemma fold_sameKeys: "(\<And>x v. sameKeys w0 v \<Longrightarrow> sameKeys w0 (f x v)) \<Longrightarrow> sameKeys w0 w \<Longrightarrow> sameKeys w0 (fold f xs w)"
  by (induction xs arbitrary: w) auto

lemma syncShared_sameKeys: "sameKeys w0 w \<Longrightarrow> sameKeys w0 (syncShared a w)"
  unfolding syncShared_def by (rule fold_sameKeys) (auto simp: keyView_def intro!: fold_sameKeys putAcct_sameKeys)

lemma sharedTxs_sameKeys [keeps]: "preserves (sameKeys w0) (sharedTxs a m)"
proof (rule preservesI)
  fix w assume "sameKeys w0 w"
  then have "sameKeys w0 (snd (onTxs a m w))" using onTxs_sameKeys [of w0 a m] by (simp add: preserves_def)
  then show "sameKeys w0 (snd (sharedTxs a m w))" by (auto simp: sharedTxs_def split: prod.splits intro: syncShared_sameKeys)
qed

lemma onKeys_sameKeys:
  assumes "\<And>s. unsyncedKeys (snd (m s)) = unsyncedKeys s"
  shows "preserves (sameKeys w0) (onKeys a m)"
proof (rule preservesI)
  fix w assume "sameKeys w0 w"
  then show "sameKeys w0 (snd (onKeys a m w))"
    using assms [of "KeyStore (acct w a)"]
    by (auto simp: onKeys_def onAcct_def zoom_def keyView_def split: prod.split intro!: putAcct_sameKeys)
qed

lemma syncs_sameKeys [keeps]:
  "preserves (sameKeys w0) (onKeys a (modifyE (SetSyncedWith bs)))"
  "preserves (sameKeys w0) (onKeys a (SetSyncStatus addr ss))"
  by (rule onKeys_sameKeys, auto simp: modifyE_def SetSyncedWith_unsynced SetSyncStatus_def bindE_def liftE_def syncMark_unsynced
      split: sum.split)+

section \<open>Handlers\<close>

lemma manager_sameKeys [keeps]:
  "preserves (sameKeys w0) (notifyBalances env a)"
  "preserves (sameKeys w0) (NotifyBalances env)"
  "preserves (sameKeys w0) (BlockNotify env bs)"
  "preserves (sameKeys w0) (am_Rollback env h)"
  "preserves (sameKeys w0) (acct_Track env a)"
  "preserves (sameKeys w0) (am_Track env)"
  "preserves (sameKeys w0) (am_ResendUnminedTxs env)"
  unfolding notifyBalances_def NotifyBalances_def [abs_def] BlockNotify_def [abs_def] am_Rollback_def [abs_def] acct_Track_def [abs_def]
    ReqSpentUtxoNtfns_def am_Track_def [abs_def] am_ResendUnminedTxs_def [abs_def] acct_ResendUnminedTxs_def [abs_def]
  by (intro keeps)+

lemma recvAddrs_sameKeys [keeps]: "preserves (sameKeys w0) (recvAddrs env bs tx block i as txr)"
  by (induction as arbitrary: txr) (auto intro!: keeps)

lemma recvOutputs_sameKeys [keeps]: "preserves (sameKeys w0) (recvOutputs env bs tx block i outs txr)"
  by (induction outs arbitrary: i txr) (auto intro!: keeps)

lemma insertShared_sameKeys: "preserves (\<lambda>st. sameKeys w0 (fst st)) (insertShared env tx block a)"
proof (rule preservesI)
  fix st :: "World \<times> (acref \<times> rref) list" assume "sameKeys w0 (fst st)"
  moreover have "preserves (sameKeys w0) (bindE (ask (Now env)) (\<lambda>now. sharedTxs a (InsertTx (e_btc env) now tx block)))"
    "preserves (sameKeys w0) (bindE (onTxs a (AddDebits t [])) (\<lambda>_. ScheduleTxStoreWrite a))" for t by (intro keeps)+
  ultimately show "sameKeys w0 (fst (snd (insertShared env tx block a st)))"
    by (auto simp: insertShared_def Let_def split: prod.split sum.split dest: preservesD) (meson preservesD)+
qed

lemma RecordSpendingTx_sameKeys [keeps]: "preserves (sameKeys w0) (RecordSpendingTx env tx block)"
proof (rule preservesI)
  fix w assume "sameKeys w0 w"
  moreover have "preserves (\<lambda>st. sameKeys w0 (fst st)) (forE (insertShared env tx block) (AllAccounts w))"
    by (intro preserves_forE insertShared_sameKeys)
  ultimately have "sameKeys w0 (fst (snd (forE (insertShared env tx block) (AllAccounts w) (w, []))))" by (simp add: preserves_def)
  then show "sameKeys w0 (snd (RecordSpendingTx env tx block w))"
    by (auto simp: RecordSpendingTx_def split: prod.splits elim: sk.same_accts)
qed

lemma handleNotification_sameKeys [keeps]: "preserves (sameKeys w0) (handleNotification env n)"
proof (cases n)
  case (blockConnected hash h)
  then show ?thesis
    by (auto simp: handleBlockConnected_def Let_def intro!: keeps elim: sk.same_accts)
next
  case (blockDisconnected hash h)
  then show ?thesis by (auto simp: handleBlockDisconnected_def intro!: keeps)
next
  case (recvTx tx b)
  then show ?thesis by (auto simp: handleRecvTx_def split: sum.split intro!: keeps)
next
  case (redeemingTx tx b)
  then show ?thesis by (auto simp: handleRedeemingTx_def split: sum.split intro!: keeps)
qed (auto intro!: keeps)

lemma rescanListener_sameKeys [keeps]: "preserves (sameKeys w0) (rescanListener env msg)"
  by (cases "(env, msg)" rule: rescanListener.cases) (auto simp: markSynced_def intro!: keeps)

lemma searchBlock_sameKeys [keeps]: "preserves (sameKeys w0) (searchBlock env a i)"
proof (induction i)
  case 0
  show ?case by (subst searchBlock.simps) (auto intro!: keeps)
next
  case (Suc i)
  then show ?case by (subst searchBlock.simps) (auto intro!: keeps)
qed

lemma handshake_parts_sameKeys [keeps]:
  "preserves (sameKeys w0) (rollbackAfter env a i)"
  "preserves (sameKeys w0) (RescanActiveAddresses env mark)"
proof -
  show "preserves (sameKeys w0) (rollbackAfter env a i)"
    using manager_sameKeys(4) [of w0 env]
    by (auto simp: preserves_def rollbackAfter_def Let_def bindE_def liftE_def split: prod.split bool.split sum.split)
  have mark: "preserves (sameKeys w0) (case mark of None \<Rightarrow> retE ()
    | Some bs \<Rightarrow> (case as of [] \<Rightarrow> failE nil_panic | b # bs' \<Rightarrow> onKeys (last (b # bs')) (modifyE (SetSyncedWith (Some bs)))))" for as
    by (auto split: option.split list.split intro!: keeps)
  have job: "preserves (sameKeys w0) (modifyE (\<lambda>w. w\<lparr>w_jobs := w_jobs w @ [j]\<rparr>))" for j
    by (rule preserves_modifyE) (auto elim: sk.same_accts)
  have both: "sameKeys w0 w \<Longrightarrow> sameKeys w0 (snd (bindE (case mark of None \<Rightarrow> retE ()
    | Some bs \<Rightarrow> (case as of [] \<Rightarrow> failE nil_panic | b # bs' \<Rightarrow> onKeys (last (b # bs')) (modifyE (SetSyncedWith (Some bs)))))
    (\<lambda>_. modifyE (\<lambda>w. w\<lparr>w_jobs := w_jobs w @ [j]\<rparr>)) w))" for as j w
    using preserves_bindE [OF mark job [of j]] by (simp add: preserves_def)
  show "preserves (sameKeys w0) (RescanActiveAddresses env mark)"
    by (rule preservesI) (auto simp: RescanActiveAddresses_def split: sum.split list.split intro!: both)
qed

lemma Handshake_sameKeys [keeps]: "preserves (sameKeys w0) (Handshake env)"
  unfolding Handshake_def catchUp_def by (auto intro!: keeps split: option.split)

lemma OnClientConnected_sameKeys [keeps]: "preserves (sameKeys w0) (OnClientConnected env disconnected)"
  unfolding OnClientConnected_def NotifyConnectionStatus_def [abs_def] by (auto intro!: keeps)

section \<open>Runs\<close>

text \<open>What reaches the wallet from the chain server.\<close>

datatype chainEvent = Notified notification | RescanTold RescanMsg | ClientConnected bool

fun chainTurn :: "wenv \<Rightarrow> chainEvent \<Rightarrow> unit wact" where
  "chainTurn env (Notified n) = bindE (handleNotification env n) (\<lambda>_. retE ())"
| "chainTurn env (RescanTold msg) = rescanListener env msg"
| "chainTurn env (ClientConnected disconnected) = bindE (OnClientConnected env disconnected) (\<lambda>_. retE ())"

text \<open>C10. The chain server cannot touch keys. Whatever notifications, messages of rescans and new connections arrive, in
  whatever order and with whatever contents, and also if one of them fails or panics: the accounts stay the same, and of
  each account everything but the transactions, the recent blocks and the marks of synchronization. So no key, address,
  script, comment, passphrase, locked outpoint or fee is changed, and no key store is locked or unlocked.\<close>

theorem chain_keeps_keys:
  "map keyView (w_accts (snd (forE (\<lambda>ev. logged (chainTurn env ev)) evs w))) = map keyView (w_accts w)"
proof -
  have "preserves (sameKeys w) (chainTurn env ev)" for ev by (cases ev) (auto intro!: keeps)
  then have "preserves (sameKeys w) (forE (\<lambda>ev. logged (chainTurn env ev)) evs)" by (intro keeps)
  then show ?thesis by (simp add: preserves_def sameKeys_def)
qed

end
