(* ===== verification/Spec2Isabelle.thy ===== *)
theory Spec2Isabelle
  imports Tx_Findings Tx_Orphan Wt_Pay Wt_Deadlock Wt_Wallet Wt_Queue Wt_Atomic Wt_Findings Wt_SocketProps Wt_ConfigProps Wt_MainProps
    Wt_LoopProps Wt_ChainProps
begin

text \<open>
  A verification library for btcwallet, the wallet daemon under \<open>src/\<close>.

  \<^bold>\<open>The program.\<close> A wallet is a set of named accounts (\<open>account.go\<close>). Each has a key store (\<open>keystore/keystore.go\<close>: a
  deterministic chain of addresses with a pool of unused ones, imported keys and scripts, private keys encrypted under
  a passphrase) and a transaction store (\<open>txstore/tx.go\<close>: blocks of mined transactions and an unconfirmed side, with
  the credits and debits of the wallet). The account manager (\<open>acctmgr.go\<close>) opens accounts from disk, maps names and
  addresses to accounts and runs requests one at a time. Payments are built in \<open>createtx.go\<close>, files are written by the
  disk syncer (\<open>disksync.go\<close>), rescans of the chain are batched by the rescan manager (\<open>rescan.go\<close>). Notifications of
  the chain server arrive through \<open>rpcclient.go\<close>, requests of wallet clients through \<open>rpcserver.go\<close>; \<open>updates.go\<close> moves
  files of old versions. \<open>cmd.go\<close> starts the process with the configuration of \<open>config.go\<close>.

  \<^bold>\<open>How programs are modelled.\<close> \<open>Go_Prelude\<close>: fixed-width integers are words, maps are association lists whose order
  stands for the unspecified order of \<open>range\<close>, a method that mutates and may fail is an action that returns an error or
  a result with the state it leaves; a panic is an error value that no handler turns into a result. \<open>Errors\<close> has all
  error values. \<open>Go_IO\<close> and \<open>Go_Into\<close> are readers and writers that may end early or fill up, \<open>Go_Fs\<close> a file system whose
  every call may fail, \<open>Go_Triple\<close> the rules for pre- and postconditions of actions that fail or return. Shared pointers
  are references into heaps that are fields of the state: records of a transaction store, addresses of a key store
  (reference 0 is the embedded root), accounts of the world.

  \<^bold>\<open>Third-party code\<close> is a parameter: \<open>kslib\<close> (hashes, AES, the curve, address encodings, the clock and random bytes of
  the key store), \<open>txlib\<close> and \<open>btcparams\<close> (wire encoding and chain parameters), \<open>oslib\<close> (the operating system), \<open>wenv\<close>
  (configuration, scripts, the answers of the chain server), \<open>signer\<close> (\<open>btcscript.SignTxOutput\<close>), \<open>jsonlib\<close> (JSON, SHA-256),
  \<open>cfglib\<close> (flags, paths) and \<open>tlslib\<close> (certificates, listeners). Answers that may
  differ between calls take a count of calls. What theorems rely on is named: \<open>curve_ok\<close>, \<open>hash_ok\<close>, \<open>aes_ok\<close>, \<open>rand_ok\<close>,
  \<open>pkh_ok\<close>, \<open>addr_laws\<close>, \<open>wif_laws\<close>, \<open>signer_laws\<close>; the witnesses instantiate the parameters with small concrete libraries.

  \<^bold>\<open>Transaction store\<close> (\<open>txstore/tx.go\<close>, \<open>txstore/serialization.go\<close>, \<open>txstore/json.go\<close>).
  \<^item> \<open>Tx_Types\<close>, \<open>Tx_Insert\<close>, \<open>Tx_Spend\<close>, \<open>Tx_Query\<close>: the structs and every operation. Slices that share an array are
    modelled as such. The recursion of \<open>removeConflict\<close> takes as fuel one more than there are records.
  \<^item> \<open>Tx_Wf\<close>, \<open>Tx_Track\<close>, \<open>Tx_Inv\<close>, \<open>Tx_Roll\<close>, \<open>Tx_Machine\<close>: the well-formed stores, the locales that carry an invariant
    through spend tracking and rollback, and the state machine of the exported mutators, all of whose states are well
    formed.
  \<^item> \<open>Tx_Props\<close>, \<open>Tx_Balance\<close>: results of insertions on every branch, removal of double spends and its termination,
    confirmations, sorted listings, the exact effect of a credit on the balance.
  \<^item> \<open>Tx_Serial\<close>, \<open>Tx_SerialProps\<close>, \<open>Tx_StoreIO\<close>: the file format; a store that is valid for it is read back as it was
    written, and its cut files are refused. The locale \<open>codec\<close> is the contract of a reader and a writer, interpreted for every struct.
    \<open>Tx_Orphan\<close>: exactly which stores can be read back, and that others are reached.
  \<^item> \<open>Tx_Findings\<close>: where the store departs from its comments: insertion of a block below another one, rollback of a chain
    of spends. \<open>Wt_Json\<close>: the objects for wallet clients.

  \<^bold>\<open>Key store\<close> (\<open>keystore/keystore.go\<close>).
  \<^item> \<open>Ks_Types\<close>, \<open>Ks_Crypto\<close>, \<open>Ks_Address\<close>, \<open>Ks_Store\<close>, \<open>Ks_Ops\<close>: data, key derivation and chaining, single addresses,
    the key pool, and all other operations. The unbounded loop of \<open>createMissingPrivateKeys\<close> takes as fuel one more than
    there are chained addresses, which is proved to be enough; the loops of \<open>computeKdfParameters\<close> wait for the clock and
    give up after 64 rounds, when the doubled counters have wrapped to zero.
  \<^item> \<open>Ks_Kdf\<close>, \<open>Ks_Chain\<close>: key derivation in place on one array computes the block-level specification; the chain of
    public keys follows the chain of private keys.
  \<^item> \<open>Ks_Wf\<close>, \<open>Ks_Machine\<close>, \<open>Ks_Reach\<close>, \<open>Ks_Props\<close>, \<open>Ks_Recent\<close>, \<open>Ks_Keys\<close>: the structure of the chain as an invariant of
    every reachable store, requests for addresses, locking, recent blocks against an abstract map and what a rollback
    does to them, which passphrases unlock, watching copies.
  \<^item> \<open>Ks_Format\<close>, \<open>Ks_File\<close> and \<open>Ks_FormatProps\<close>, \<open>Ks_AddrIO\<close>, \<open>Ks_EntryIO\<close>, \<open>Ks_StoreIO\<close>: the file format with checksums
    and appended entries, the round trip of stores of the shape it expects, and what a cut or corrupted file does. The loop over entries ends with the
    input; one round more than the input has bytes is enough.

  \<^bold>\<open>The wallet.\<close>
  \<^item> \<open>Wt_World\<close>: the state of the process (accounts, maps, chain server client, schedule, file system, messages sent)
    and how an action on one store runs in it. A goroutine that serves requests from a channel is the action that
    serves one request; one that is started and not waited for runs where it is started.
  \<^item> \<open>Wt_Account\<close>, \<open>Wt_Manager\<close>, \<open>Wt_Disk\<close>, \<open>Wt_Update\<close>: \<open>account.go\<close>, \<open>acctmgr.go\<close>, \<open>disksync.go\<close>, \<open>updates.go\<close>.
    \<open>Wt_Atomic\<close>: a save replaces a file as a whole, whichever system call fails.
  \<^item> \<open>Wt_CreateTx\<close>: \<open>createtx.go\<close>, with \<open>float64\<close> as rationals rounded to 53 bits. Its fee loop ends because the signed
    fee grows in every round. \<open>Wt_Select\<close>: input selection reaches the target with the fewest inputs. \<open>Wt_Pay\<close>: what a
    created payment spends and pays, and when its books balance.
  \<^item> \<open>Wt_Rescan\<close>: the rescan manager as a state machine with its channels, used by \<open>SubmitJob\<close> one job at a time; every job is
    completed under the channel that was received for it. \<open>Wt_Deadlock\<close>: the same machine with the listener and a request that holds the
    account manager's semaphore.
  \<^item> \<open>Wt_Client\<close>: notifications, their handlers and the handshake. \<open>Wt_Queue\<close>: the goroutine of the notification queue
    as a state machine that refines a first-in first-out list and drains when it is closed.
  \<^item> \<open>Wt_Rpc\<close>, \<open>Wt_RpcTx\<close>, \<open>Wt_Sign\<close>, \<open>Wt_Server\<close>: every request handler, the maps of handlers and one turn of the
    goroutine that serves them.
  \<^item> \<open>Wt_Keeps\<close>, \<open>Wt_Inv\<close>, \<open>Wt_Requests\<close>, \<open>Wt_Wallet\<close>: the locale \<open>account_invariant\<close> is what the handlers need of an
    invariant of single accounts; in it every handler is shown to keep the invariant, and the interpretation on
    well-formed stores gives that every request leaves the wallet well formed.
  \<^item> \<open>Wt_Sample\<close>: a concrete wallet for the witnesses. \<open>Wt_Findings\<close>: requests whose outcome is not what is meant.

  \<^bold>\<open>Connections and the process.\<close>
  \<^item> \<open>Wt_Gateway\<close>: credentials, the turns of a websocket connection's goroutines, requests over HTTP and throttling.
    \<open>Wt_Sockets\<close>: the server with all its connections; a step lists the outcomes of one turn of one goroutine.
    \<open>Wt_SocketProps\<close>: in every interleaving commands run only for clients that gave the credentials; what clients without
    them are served; panics between the steps of a disconnection; the bound of throttling.
  \<^item> \<open>Wt_Config\<close>: \<open>config.go\<close>, \<open>params.go\<close>, \<open>log.go\<close>, \<open>version.go\<close> and the listen addresses; \<open>Wt_ConfigProps\<close>: what becomes of
    listen addresses.
  \<^item> \<open>Wt_Main\<close>: \<open>cmd.go\<close>, \<open>signal.go\<close>, certificate files and shutdown. \<open>Wt_MainProps\<close>: a key without a certificate, waits
    between connections, the order of interrupt handlers, channels that are closed once or twice.
  \<^item> \<open>Wt_Loops\<close>: the loops of the account manager, the disk syncer, the rescan requests and the client of the chain
    server. \<open>Wt_LoopProps\<close>: a scheduled file is written by the next flush, and what a failed flush leaves.
    \<open>Wt_ChainProps\<close>: nothing that arrives from the chain server changes more of an account than its transactions and how
    far it is synchronized.

  \<^bold>\<open>Not modelled.\<close> TLS, HTTP, the text of JSON and of command-line options: standard library and third-party packages,
  seen through parameters (\<open>jsonlib\<close>, \<open>cfglib\<close>, \<open>tlslib\<close>). The cases of the connections' goroutines for a server that quits,
  but for that of the gateway, and the joins of goroutines at the end of the process: after \<open>Stop\<close> nothing is promised.
  The seelog backend, the profile server and usage messages only print. The platform variants of \<open>rename\<close> call the system, which \<open>Go_Fs\<close> has as
  one call that may fail. Goroutines interleave in \<open>Wt_Rescan\<close>, \<open>Wt_Deadlock\<close>, \<open>Wt_Queue\<close>, \<open>Wt_SocketProps\<close> and \<open>Wt_LoopProps\<close>; elsewhere
  the account manager's semaphore makes requests atomic. Amounts that the code converts to floats for replies stay
  integers. The text of error messages is kept only where it tells errors apart. That stores stay well formed is shown
  for sequences of the stores' operations and for requests; of notifications only that they leave the keys alone, as a
  block below an older one breaks a transaction store (\<open>Tx_Findings\<close>).
\<close>

end
